(* ===== verification/Prelude.thy ===== *)
theory Prelude
  imports Main "HOL-Library.AList" "HOL-Library.Word"
begin

text \<open>
  Shared vocabulary of the development: Python exceptions as values, byte strings,
  ordered dictionaries as association lists with their contract
  (locale \<open>keyed_store\<close>), lists without repetition (\<open>dict.fromkeys\<close>),
  \<open>str.strip\<close>, and the contract of a state machine whose operations keep an invariant
  (locale \<open>kept_invariant\<close>).
\<close>

named_theorems dict_simps \<open>lookup, update and deletion in ordered dictionaries\<close>
named_theorems keeps \<open>operations that keep the invariant of their component\<close>

section \<open>Python values shared by the components\<close>

type_synonym bytes = string
type_synonym client_id = bytes

text \<open>The exceptions the modelled code raises or catches. Their texts are not modelled, except
  where the program returns them to a caller.\<close>

datatype py_exn =
    ValueError
  | TypeError
  | KeyError
  | IndexError
  | OverflowError
  | AttributeError
  | UnicodeDecodeError
  | StructError
  | ModbusException
  | RuntimeError

text \<open>
  Values of the dynamically typed dictionaries (JSON messages, metadata): a float is its
  64-bit pattern, so that nothing is assumed of the arithmetic the code does not do.
\<close>

datatype pyval =
    PNone
  | PBool bool
  | PInt int
  | PFloat "64 word"
  | PStr string
  | PList "pyval list"
  | PDict "(string \<times> pyval) list"

text \<open>Truth value of a Python object (\<open>if x:\<close>): both zeros of the floats are false.\<close>

fun truthy :: "pyval \<Rightarrow> bool" where
  "truthy PNone = False"
| "truthy (PBool b) = b"
| "truthy (PInt n) = (n \<noteq> 0)"
| "truthy (PFloat w) = (w \<noteq> 0 \<and> w \<noteq> 0x8000000000000000)"
| "truthy (PStr s) = (s \<noteq> [])"
| "truthy (PList xs) = (xs \<noteq> [])"
| "truthy (PDict d) = (d \<noteq> [])"

text \<open>\<open>list(dict.fromkeys(xs))\<close>: the first occurrence of every element, in the order given.\<close>

fun fromkeys :: "'a list \<Rightarrow> 'a list" where
  "fromkeys [] = []"
| "fromkeys (x # xs) = x # fromkeys (filter (\<lambda>y. y \<noteq> x) xs)"

lemma set_fromkeys [simp]: "set (fromkeys xs) = set xs"
  by (induction xs rule: fromkeys.induct) auto

lemma distinct_fromkeys [simp]: "distinct (fromkeys xs)"
  by (induction xs rule: fromkeys.induct) auto

lemma fromkeys_Nil_iff [simp]: "fromkeys xs = [] \<longleftrightarrow> xs = []"
  by (cases xs) auto

lemma fromkeys_distinct: "distinct xs \<Longrightarrow> fromkeys xs = xs"
proof (induction xs)
  case (Cons x xs)
  then have "filter (\<lambda>y. y \<noteq> x) xs = xs"
    by (auto simp: filter_id_conv)
  with Cons show ?case by simp
qed simp

lemma fromkeys_idem [simp]: "fromkeys (fromkeys xs) = fromkeys xs"
  by (rule fromkeys_distinct) simp

text \<open>\<open>str.strip()\<close> and \<open>str.lower()\<close> on ASCII text.\<close>

definition py_space :: "char \<Rightarrow> bool" where
  "py_space c \<longleftrightarrow> (let n = (of_char c :: nat) in n = 32 \<or> (9 \<le> n \<and> n \<le> 13) \<or> (28 \<le> n \<and> n \<le> 31))"

definition strip_by :: "('a \<Rightarrow> bool) \<Rightarrow> 'a list \<Rightarrow> 'a list" where
  "strip_by p xs = rev (dropWhile p (rev (dropWhile p xs)))"

definition strip :: "string \<Rightarrow> string" where
  "strip = strip_by py_space"

definition lower_char :: "char \<Rightarrow> char" where
  "lower_char c = (let n = (of_char c :: nat) in if 65 \<le> n \<and> n \<le> 90 then char_of (n + 32) else c)"

definition lower :: "string \<Rightarrow> string" where
  "lower = map lower_char"

lemma set_strip_by: "set (strip_by p xs) \<subseteq> set xs"
  by (auto simp: strip_by_def dest!: set_dropWhileD)

section \<open>Ordered dictionaries\<close>

text \<open>
  A Python \<open>dict\<close> keeps its keys in insertion order: assigning to a present key keeps its
  place, a new key goes last, \<open>pop\<close> removes it. Client code only relies on the laws below.
\<close>

type_synonym ('k, 'v) dict = "('k \<times> 'v) list"

abbreviation dict_get :: "('k, 'v) dict \<Rightarrow> 'k \<Rightarrow> 'v option" where
  "dict_get \<equiv> map_of"

abbreviation dict_set :: "'k \<Rightarrow> 'v \<Rightarrow> ('k, 'v) dict \<Rightarrow> ('k, 'v) dict" where
  "dict_set \<equiv> AList.update"

abbreviation dict_pop :: "'k \<Rightarrow> ('k, 'v) dict \<Rightarrow> ('k, 'v) dict" where
  "dict_pop \<equiv> AList.delete"

abbreviation dict_keys :: "('k, 'v) dict \<Rightarrow> 'k list" where
  "dict_keys \<equiv> map fst"

definition dict_ok :: "('k, 'v) dict \<Rightarrow> bool" where
  "dict_ok d \<longleftrightarrow> distinct (dict_keys d)"

text \<open>In-place change of every value, as a \<open>for\<close> loop over \<open>items()\<close> does.\<close>

definition dict_map :: "('k \<Rightarrow> 'v \<Rightarrow> 'v) \<Rightarrow> ('k, 'v) dict \<Rightarrow> ('k, 'v) dict" where
  "dict_map f d = map (\<lambda>(k, v). (k, f k v)) d"

text \<open>Keys whose value satisfies a test, in order.\<close>

definition keys_where :: "('v \<Rightarrow> bool) \<Rightarrow> ('k, 'v) dict \<Rightarrow> 'k list" where
  "keys_where p d = map fst (filter (\<lambda>(k, v). p v) d)"

lemma dict_keys_map [simp]: "dict_keys (dict_map f d) = dict_keys d"
  by (simp add: dict_map_def case_prod_beta comp_def)

lemma dict_get_map [dict_simps]: "dict_get (dict_map f d) k = map_option (f k) (dict_get d k)"
  by (induction d) (auto simp: dict_map_def)

lemma dict_get_set [dict_simps]:
  "dict_get (dict_set k v d) l = (if l = k then Some v else dict_get d l)"
  by (simp add: update_conv')

lemma dict_get_pop [dict_simps]:
  "dict_get (dict_pop k d) l = (if l = k then None else dict_get d l)"
  by (simp add: delete_conv')

lemma dict_ok_Nil [simp]: "dict_ok []"
  by (simp add: dict_ok_def)

lemma in_dict_set: "av \<in> set (dict_set k v d) \<Longrightarrow> av = (k, v) \<or> av \<in> set d"
  by (induction d) (auto split: if_splits)

lemma dict_ok_set [simp]: "dict_ok d \<Longrightarrow> dict_ok (dict_set k v d)"
  by (simp add: dict_ok_def distinct_update)

lemma dict_ok_pop [simp]: "dict_ok d \<Longrightarrow> dict_ok (dict_pop k d)"
  by (simp add: dict_ok_def distinct_delete)

lemma dict_ok_map [simp]: "dict_ok (dict_map f d) = dict_ok d"
  by (simp add: dict_ok_def)

lemma in_keys_where:
  "dict_ok d \<Longrightarrow> k \<in> set (keys_where p d) \<longleftrightarrow> (\<exists>v. dict_get d k = Some v \<and> p v)"
  by (force simp: keys_where_def dict_ok_def)

lemma distinct_keys_where: "dict_ok d \<Longrightarrow> distinct (keys_where p d)"
  by (simp add: keys_where_def dict_ok_def distinct_map_filter)

lemma keys_where_subset: "set (keys_where p d) \<subseteq> set (dict_keys d)"
  by (auto simp: keys_where_def)

locale keyed_store =
  fixes get :: "'m \<Rightarrow> 'k \<Rightarrow> 'v option"
    and put :: "'k \<Rightarrow> 'v \<Rightarrow> 'm \<Rightarrow> 'm"
    and pop :: "'k \<Rightarrow> 'm \<Rightarrow> 'm"
    and keys :: "'m \<Rightarrow> 'k list"
    and ok :: "'m \<Rightarrow> bool"
  assumes get_put: "get (put k v m) = (get m)(k \<mapsto> v)"
    and get_pop: "get (pop k m) = (get m)(k := None)"
    and keys_dom: "ok m \<Longrightarrow> set (keys m) = dom (get m)"
    and keys_distinct: "ok m \<Longrightarrow> distinct (keys m)"
    and ok_put: "ok m \<Longrightarrow> ok (put k v m)"
    and ok_pop: "ok m \<Longrightarrow> ok (pop k m)"
begin

lemma pop_put_new: "get m k = None \<Longrightarrow> get (pop k (put k v m)) = get m"
  by (auto simp: get_put get_pop)

lemma foldr_pop: "get (foldr pop ks m) = (get m) |` (- set ks)"
  by (induction ks) (auto simp: get_pop fun_eq_iff restrict_map_def)

lemma foldr_pop_ok: "ok m \<Longrightarrow> ok (foldr pop ks m)"
  by (induction ks) (auto intro: ok_pop)

lemma length_keys: "ok m \<Longrightarrow> length (keys m) = card (dom (get m))"
  using keys_dom keys_distinct distinct_card by fastforce

lemma length_keys_put_new:
  assumes "ok m" and "get m k = None"
  shows "length (keys (put k v m)) = Suc (length (keys m))"
proof -
  have "dom (get (put k v m)) = insert k (dom (get m))"
    by (auto simp: get_put)
  moreover have "finite (dom (get m))"
    using keys_dom[OF assms(1)] by (metis List.finite_set)
  ultimately show ?thesis
    using assms by (simp add: length_keys ok_put domIff)
qed

end

interpretation pd: keyed_store dict_get dict_set dict_pop dict_keys dict_ok
proof unfold_locales
  fix k :: 'a and v :: 'b and m :: "('a, 'b) dict"
  show "dict_get (dict_set k v m) = (dict_get m)(k \<mapsto> v)" by (rule update_conv')
  show "dict_get (dict_pop k m) = (dict_get m)(k := None)" by (rule delete_conv')
  show "dict_ok m \<Longrightarrow> set (dict_keys m) = dom (dict_get m)" by (simp add: dom_map_of_conv_image_fst)
  show "dict_ok m \<Longrightarrow> distinct (dict_keys m)" by (simp add: dict_ok_def)
qed simp_all

section \<open>State machines that keep an invariant\<close>

text \<open>
  The components are objects: an initial state, operations (calls, with the order of their
  lock acquisitions as the order of the list) and an invariant that every call keeps.
\<close>

locale kept_invariant =
  fixes start :: "'s \<Rightarrow> bool"
    and call :: "'c \<Rightarrow> 's \<Rightarrow> 's"
    and inv :: "'s \<Rightarrow> bool"
  assumes inv_start: "start s \<Longrightarrow> inv s"
    and inv_call: "inv s \<Longrightarrow> inv (call c s)"
begin

lemma inv_fold: "inv s \<Longrightarrow> inv (fold call cs s)"
  by (induction cs arbitrary: s) (auto intro: inv_call)

lemma inv_run: "start s \<Longrightarrow> inv (fold call cs s)"
  by (auto intro: inv_fold inv_start)

end

end
