(* ===== verification/ServerState.thy ===== *)
theory ServerState
  imports Prelude
begin

text \<open>
  The logical state of the server and its registry of clients
  (\<open>server/core/server_state.py\<close>): the two transition tables, the client records, every method
  of \<open>ServerState\<close> that changes the state, and the queries the rest of the server relies on.
  Each method runs under one lock, so a method is one transition; a method that returns
  \<open>False\<close> after changing a field is modelled with that change.
\<close>

section \<open>States, events and transition tables\<close>

datatype ServerFSM =
    S_DISCONNECTED | S_CONTROL_CONNECTED | S_CONNECTED | S_CONFIGURING
  | S_READY | S_ACQUIRING | S_FINALIZING | S_ERROR

datatype AcquisitionMode = TEST | CALIBRATION | MULTIPMT

datatype ServerFSMEvent =
    CONTROL_CONNECTION_SUCCEEDED | CONTROL_CONNECTION_FAILED | CONTROL_CONNECTION_LOST
  | ACQUISITION_CONNECTION_SUCCEEDED | ACQUISITION_CONNECTION_FAILED
  | ACQUISITION_CONNECTION_LOST
  | DISCONNECT_REQUESTED
  | CONFIGURATION_STARTED | CONFIGURATION_SUCCEEDED | CONFIGURATION_FAILED
  | ACQUISITION_STARTED | STOP_REQUESTED | RECEIVER_COMPLETED
  | FINALIZATION_SUCCEEDED | FINALIZATION_FAILED
  | FATAL_ERROR
  | RECOVERY_STARTED | RECOVERY_SUCCEEDED | RECOVERY_FAILED

datatype ClientFSM =
    C_DISCONNECTED | C_CONNECTED | C_CONFIGURING | C_READY | C_ACQUIRING | C_FINALIZING | C_ERROR

datatype ClientFSMEvent =
    CE_CONNECT_SUCCEEDED | CE_DISCONNECTED
  | CE_CONFIGURATION_STARTED | CE_CONFIGURATION_SUCCEEDED | CE_CONFIGURATION_FAILED
  | CE_ACQUISITION_STARTED | CE_STOP_REQUESTED | CE_RECEIVER_COMPLETED
  | CE_ACQUISITION_PLANE_LOST
  | CE_FINALIZATION_SUCCEEDED | CE_FINALIZATION_FAILED
  | CE_FATAL_ERROR

definition TRANSITION_TABLE :: "(ServerFSM \<times> ServerFSMEvent, ServerFSM) dict" where
  "TRANSITION_TABLE =
    [((S_DISCONNECTED, CONTROL_CONNECTION_SUCCEEDED), S_CONTROL_CONNECTED),
     ((S_DISCONNECTED, CONTROL_CONNECTION_FAILED), S_DISCONNECTED),
     ((S_DISCONNECTED, ACQUISITION_CONNECTION_FAILED), S_DISCONNECTED),
     ((S_DISCONNECTED, DISCONNECT_REQUESTED), S_DISCONNECTED),
     ((S_DISCONNECTED, FATAL_ERROR), S_ERROR),
     ((S_CONTROL_CONNECTED, ACQUISITION_CONNECTION_SUCCEEDED), S_CONNECTED),
     ((S_CONTROL_CONNECTED, ACQUISITION_CONNECTION_FAILED), S_CONTROL_CONNECTED),
     ((S_CONTROL_CONNECTED, CONTROL_CONNECTION_LOST), S_DISCONNECTED),
     ((S_CONTROL_CONNECTED, DISCONNECT_REQUESTED), S_DISCONNECTED),
     ((S_CONTROL_CONNECTED, FATAL_ERROR), S_ERROR),
     ((S_CONNECTED, CONFIGURATION_STARTED), S_CONFIGURING),
     ((S_CONNECTED, CONTROL_CONNECTION_LOST), S_DISCONNECTED),
     ((S_CONNECTED, ACQUISITION_CONNECTION_LOST), S_CONTROL_CONNECTED),
     ((S_CONNECTED, DISCONNECT_REQUESTED), S_DISCONNECTED),
     ((S_CONNECTED, FATAL_ERROR), S_ERROR),
     ((S_CONFIGURING, CONFIGURATION_SUCCEEDED), S_READY),
     ((S_CONFIGURING, CONFIGURATION_FAILED), S_CONNECTED),
     ((S_CONFIGURING, RECOVERY_SUCCEEDED), S_READY),
     ((S_CONFIGURING, RECOVERY_FAILED), S_ERROR),
     ((S_CONFIGURING, CONTROL_CONNECTION_LOST), S_ERROR),
     ((S_CONFIGURING, ACQUISITION_CONNECTION_LOST), S_ERROR),
     ((S_CONFIGURING, DISCONNECT_REQUESTED), S_DISCONNECTED),
     ((S_CONFIGURING, FATAL_ERROR), S_ERROR),
     ((S_READY, CONFIGURATION_STARTED), S_CONFIGURING),
     ((S_READY, ACQUISITION_STARTED), S_ACQUIRING),
     ((S_READY, CONTROL_CONNECTION_LOST), S_DISCONNECTED),
     ((S_READY, ACQUISITION_CONNECTION_LOST), S_CONTROL_CONNECTED),
     ((S_READY, DISCONNECT_REQUESTED), S_DISCONNECTED),
     ((S_READY, FATAL_ERROR), S_ERROR),
     ((S_ACQUIRING, STOP_REQUESTED), S_FINALIZING),
     ((S_ACQUIRING, RECEIVER_COMPLETED), S_FINALIZING),
     ((S_ACQUIRING, DISCONNECT_REQUESTED), S_FINALIZING),
     ((S_ACQUIRING, CONTROL_CONNECTION_LOST), S_FINALIZING),
     ((S_ACQUIRING, ACQUISITION_CONNECTION_LOST), S_FINALIZING),
     ((S_ACQUIRING, FATAL_ERROR), S_ERROR),
     ((S_FINALIZING, FINALIZATION_SUCCEEDED), S_READY),
     ((S_FINALIZING, FINALIZATION_FAILED), S_READY),
     ((S_FINALIZING, DISCONNECT_REQUESTED), S_FINALIZING),
     ((S_FINALIZING, FATAL_ERROR), S_ERROR),
     ((S_ERROR, RECOVERY_STARTED), S_CONFIGURING),
     ((S_ERROR, DISCONNECT_REQUESTED), S_DISCONNECTED),
     ((S_ERROR, FATAL_ERROR), S_ERROR)]"

definition TRANSITION_TABLE_CLIENT :: "(ClientFSM \<times> ClientFSMEvent, ClientFSM) dict" where
  "TRANSITION_TABLE_CLIENT =
    [((C_DISCONNECTED, CE_CONNECT_SUCCEEDED), C_CONNECTED),
     ((C_CONNECTED, CE_CONFIGURATION_STARTED), C_CONFIGURING),
     ((C_CONFIGURING, CE_CONFIGURATION_SUCCEEDED), C_READY),
     ((C_CONFIGURING, CE_CONFIGURATION_FAILED), C_ERROR),
     ((C_READY, CE_CONFIGURATION_STARTED), C_CONFIGURING),
     ((C_READY, CE_ACQUISITION_STARTED), C_ACQUIRING),
     ((C_ACQUIRING, CE_STOP_REQUESTED), C_FINALIZING),
     ((C_ACQUIRING, CE_RECEIVER_COMPLETED), C_FINALIZING),
     ((C_FINALIZING, CE_FINALIZATION_SUCCEEDED), C_READY),
     ((C_FINALIZING, CE_FINALIZATION_FAILED), C_ERROR),
     ((C_CONNECTED, CE_DISCONNECTED), C_DISCONNECTED),
     ((C_CONFIGURING, CE_DISCONNECTED), C_DISCONNECTED),
     ((C_READY, CE_DISCONNECTED), C_DISCONNECTED),
     ((C_ACQUIRING, CE_DISCONNECTED), C_ERROR),
     ((C_FINALIZING, CE_DISCONNECTED), C_ERROR),
     ((C_ERROR, CE_DISCONNECTED), C_DISCONNECTED),
     ((C_CONNECTED, CE_ACQUISITION_PLANE_LOST), C_CONNECTED),
     ((C_CONFIGURING, CE_ACQUISITION_PLANE_LOST), C_ERROR),
     ((C_READY, CE_ACQUISITION_PLANE_LOST), C_CONNECTED),
     ((C_ACQUIRING, CE_ACQUISITION_PLANE_LOST), C_ERROR),
     ((C_FINALIZING, CE_ACQUISITION_PLANE_LOST), C_ERROR),
     ((C_ERROR, CE_ACQUISITION_PLANE_LOST), C_ERROR)]
    @ map (\<lambda>st. ((st, CE_FATAL_ERROR), C_ERROR))
        [C_DISCONNECTED, C_CONNECTED, C_CONFIGURING, C_READY, C_ACQUIRING, C_FINALIZING, C_ERROR]"

definition CONTROL_PLANE_AVAILABLE_STATES :: "ServerFSM list" where
  "CONTROL_PLANE_AVAILABLE_STATES =
    [S_CONTROL_CONNECTED, S_CONNECTED, S_CONFIGURING, S_READY, S_ACQUIRING, S_FINALIZING, S_ERROR]"

definition ACQUISITION_PLANE_AVAILABLE_STATES :: "ServerFSM list" where
  "ACQUISITION_PLANE_AVAILABLE_STATES =
    [S_CONNECTED, S_CONFIGURING, S_READY, S_ACQUIRING, S_FINALIZING, S_ERROR]"

definition ALLOWED_PENDING_TERMINAL_STATES :: "ServerFSM list" where
  "ALLOWED_PENDING_TERMINAL_STATES =
    [S_READY, S_DISCONNECTED, S_CONTROL_CONNECTED, S_CONNECTED, S_ERROR]"

section \<open>Records\<close>

text \<open>
  The keys of the \<open>metadata\<close> dictionary that \<open>process_event\<close> reads. A list of client ids may be
  absent, \<open>None\<close>, or a list of values: byte strings, or other values, which are invalid.
\<close>

datatype id_value = IdBytes bytes | IdOther string

datatype meta_ids = Absent | NoneGiven | Given "id_value list"

record metadata =
  target_clients :: meta_ids
  successful_clients :: meta_ids
  failed_clients :: meta_ids
  active_clients :: meta_ids
  partial :: bool

definition no_metadata :: metadata where
  "no_metadata = \<lparr>target_clients = Absent, successful_clients = Absent, failed_clients = Absent,
     active_clients = Absent, partial = False\<rparr>"

record event_context =
  ctx_event :: "(ServerFSMEvent + ClientFSMEvent) option"
  ctx_reason :: string
  ctx_source :: string
  ctx_client :: "client_id option"
  ctx_error :: "string option"
  ctx_metadata :: metadata
  ctx_timestamp :: int

type_synonym identity = "(string, string) dict"

record client_record =
  state :: ClientFSM
  previous_state :: "ClientFSM option"
  last_event_context :: "event_context option"
  error_context :: "(event_context \<times> ClientFSM) option"
  identity :: "identity option"
  configuration_identity :: "identity option"
  hv_parameters :: "(int, (string, pyval) dict) dict"
  calibration_excluded_channels :: "int list"
  connected_at :: int
  on_control_plane :: bool
  on_acquisition_plane :: bool
  on_monitoring_plane :: bool
  operational :: bool

definition new_client_record :: "int \<Rightarrow> client_record" where
  "new_client_record now = \<lparr>state = C_CONNECTED, previous_state = None,
     last_event_context = None, error_context = None, identity = None,
     configuration_identity = None, hv_parameters = [], calibration_excluded_channels = [],
     connected_at = now, on_control_plane = False, on_acquisition_plane = False,
     on_monitoring_plane = False, operational = False\<rparr>"

record server_state =
  acq_mode :: string
  clients :: "(client_id, client_record) dict"
  run_state :: ServerFSM
  sv_previous_state :: "ServerFSM option"
  pending_event :: "ServerFSMEvent option"
  pending_terminal_state :: "ServerFSM option"
  pending_context :: "event_context option"
  pending_configuration_source :: "ServerFSM option"
  pending_configuration_partial :: bool
  sv_last_event_context :: "event_context option"
  sv_error_context :: "(event_context \<times> ServerFSM) option"
  client_id_by_mac :: "(string, client_id) dict"

definition init_server_state :: "string \<Rightarrow> server_state" where
  "init_server_state mode = \<lparr>acq_mode = mode, clients = [], run_state = S_DISCONNECTED,
     sv_previous_state = None, pending_event = None, pending_terminal_state = None,
     pending_context = None, pending_configuration_source = None,
     pending_configuration_partial = False, sv_last_event_context = None,
     sv_error_context = None, client_id_by_mac = []\<rparr>"

fun mode_value :: "AcquisitionMode \<Rightarrow> string" where
  "mode_value TEST = ''test''"
| "mode_value CALIBRATION = ''calibration''"
| "mode_value MULTIPMT = ''multipmt''"

definition set_mode :: "string \<Rightarrow> server_state \<Rightarrow> py_exn + server_state" where
  "set_mode mode s =
    (if strip mode = [] then Inl ValueError
     else let normalized_mode = lower (strip mode) in
       if normalized_mode \<notin> set (map mode_value [TEST, CALIBRATION, MULTIPMT]) then Inl ValueError
       else Inr (s\<lparr>acq_mode := normalized_mode\<rparr>))"

section \<open>Queries\<close>

definition control_client_ids :: "server_state \<Rightarrow> client_id list" where
  "control_client_ids s = keys_where on_control_plane (clients s)"

definition acquisition_client_ids :: "server_state \<Rightarrow> client_id list" where
  "acquisition_client_ids s = keys_where on_acquisition_plane (clients s)"

definition monitoring_client_ids :: "server_state \<Rightarrow> client_id list" where
  "monitoring_client_ids s = keys_where on_monitoring_plane (clients s)"

definition common_plane_client_ids :: "server_state \<Rightarrow> client_id list" where
  "common_plane_client_ids s =
    keys_where (\<lambda>r. on_control_plane r \<and> on_acquisition_plane r) (clients s)"

definition operational_client_ids :: "server_state \<Rightarrow> client_id list" where
  "operational_client_ids s = keys_where operational (clients s)"

definition list_clients_in_state :: "ClientFSM \<Rightarrow> server_state \<Rightarrow> client_id list" where
  "list_clients_in_state st s = keys_where (\<lambda>r. state r = st) (clients s)"

definition has_control_clients :: "server_state \<Rightarrow> bool" where
  "has_control_clients s \<longleftrightarrow> list_ex (\<lambda>(c, r). on_control_plane r) (clients s)"

definition can_start_acquisition :: "server_state \<Rightarrow> bool" where
  "can_start_acquisition s =
    (if run_state s \<noteq> S_READY then False
     else let operational = operational_client_ids s in
       if operational = [] then False
       else let common = common_plane_client_ids s in
         list_all (\<lambda>cid. cid \<in> set common) operational)"

definition is_control_plane_available :: "server_state \<Rightarrow> bool" where
  "is_control_plane_available s \<longleftrightarrow>
    has_control_clients s \<and> run_state s \<in> set CONTROL_PLANE_AVAILABLE_STATES"

definition is_acquisition_plane_available :: "server_state \<Rightarrow> bool" where
  "is_acquisition_plane_available s \<longleftrightarrow>
    common_plane_client_ids s \<noteq> [] \<and> run_state s \<in> set ACQUISITION_PLANE_AVAILABLE_STATES"

definition get_acquisition_command_clients :: "server_state \<Rightarrow> client_id list" where
  "get_acquisition_command_clients s =
    (if run_state s \<notin> {S_READY, S_ACQUIRING, S_FINALIZING} then []
     else operational_client_ids s)"

definition is_client_on_plane :: "client_id \<Rightarrow> string \<Rightarrow> server_state \<Rightarrow> bool" where
  "is_client_on_plane cid plane s =
    (let normalized_plane = lower (strip plane) in
     case dict_get (clients s) cid of
       None \<Rightarrow> False
     | Some r \<Rightarrow>
         if normalized_plane = ''control'' then on_control_plane r
         else if normalized_plane = ''acquisition'' then on_acquisition_plane r
         else if normalized_plane = ''monitoring'' then on_monitoring_plane r
         else False)"

section \<open>Helpers under the lock\<close>

definition set_operational :: "client_id list \<Rightarrow> server_state \<Rightarrow> server_state" where
  "set_operational cids s =
    s\<lparr>clients := dict_map (\<lambda>cid r. r\<lparr>operational := cid \<in> set cids\<rparr>) (clients s)\<rparr>"

definition clear_operational :: "server_state \<Rightarrow> server_state" where
  "clear_operational s = s\<lparr>clients := dict_map (\<lambda>cid r. r\<lparr>operational := False\<rparr>) (clients s)\<rparr>"

text \<open>The loops over \<open>[record for cid, record in clients.items() if cid in cids]\<close>.\<close>

definition mark_operational :: "bool \<Rightarrow> client_id list \<Rightarrow> server_state \<Rightarrow> server_state" where
  "mark_operational b cids s =
    s\<lparr>clients := dict_map (\<lambda>cid r. if cid \<in> set cids then r\<lparr>operational := b\<rparr> else r) (clients s)\<rparr>"

fun id_bytes :: "id_value \<Rightarrow> bytes option" where
  "id_bytes (IdBytes b) = (if b = [] then None else Some b)"
| "id_bytes (IdOther v) = None"

definition normalize_ids :: "id_value list \<Rightarrow> py_exn + client_id list" where
  "normalize_ids ids =
    (let normalized = fromkeys ids in
     if list_ex (\<lambda>i. id_bytes i = None) normalized then Inl ValueError
     else Inr (List.map_filter id_bytes normalized))"

text \<open>\<open>_normalize_client_ids(metadata.get(key, default))\<close>.\<close>

definition normalize_client_ids :: "meta_ids \<Rightarrow> client_id list \<Rightarrow> py_exn + client_id list" where
  "normalize_client_ids m dflt =
    (case m of
       Absent \<Rightarrow> normalize_ids (map IdBytes dflt)
     | NoneGiven \<Rightarrow> Inr []
     | Given ids \<Rightarrow> normalize_ids ids)"

definition set_client_state ::
  "client_id \<Rightarrow> ClientFSM \<Rightarrow> event_context \<Rightarrow> server_state \<Rightarrow> server_state" where
  "set_client_state cid st ctx s =
    (case dict_get (clients s) cid of
       None \<Rightarrow> s
     | Some r \<Rightarrow>
         s\<lparr>clients := dict_set cid
             (r\<lparr>previous_state := Some (state r), state := st, last_event_context := Some ctx,
                error_context := (if st = C_ERROR then Some (ctx, state r) else None)\<rparr>)
             (clients s)\<rparr>)"

definition set_client_states ::
  "client_id list \<Rightarrow> ClientFSM \<Rightarrow> event_context \<Rightarrow> server_state \<Rightarrow> server_state" where
  "set_client_states cids st ctx s = fold (\<lambda>cid. set_client_state cid st ctx) cids s"

section \<open>Server events\<close>

definition build_event_context ::
  "ServerFSMEvent \<Rightarrow> string \<Rightarrow> string \<Rightarrow> client_id option \<Rightarrow> string option \<Rightarrow> metadata \<Rightarrow> int
     \<Rightarrow> event_context" where
  "build_event_context event reason source cid err md now =
    \<lparr>ctx_event = Some (Inl event), ctx_reason = strip reason, ctx_source = strip source,
     ctx_client = cid, ctx_error = err, ctx_metadata = md, ctx_timestamp = now\<rparr>"

text \<open>A client lost during the configuration is dropped from the reported result
  (\<open>None\<close>: the ids were not valid).\<close>

definition drop_lost_clients ::
  "ServerFSMEvent \<Rightarrow> event_context \<Rightarrow> ServerFSM \<Rightarrow> server_state
     \<Rightarrow> (ServerFSMEvent \<times> event_context \<times> ServerFSM) option" where
  "drop_lost_clients event ctx next_state s =
    (let md = ctx_metadata ctx; expected = list_clients_in_state C_CONFIGURING s in
     case normalize_client_ids (successful_clients md) [] of
       Inl e \<Rightarrow> None
     | Inr successful \<Rightarrow>
         (case normalize_client_ids (failed_clients md) [] of
            Inl e \<Rightarrow> None
          | Inr failed \<Rightarrow>
              if list_all (\<lambda>c. c \<in> set expected) (successful @ failed)
              then Some (event, ctx, next_state)
              else
                let successful' = filter (\<lambda>c. c \<in> set expected) successful;
                    failed' = filter (\<lambda>c. c \<in> set expected) failed;
                    ctx' = ctx\<lparr>ctx_metadata := md\<lparr>successful_clients := Given (map IdBytes successful'),
                      failed_clients := Given (map IdBytes failed')\<rparr>\<rparr>
                in if event = CONFIGURATION_SUCCEEDED \<and> successful' = []
                   then Some (CONFIGURATION_FAILED,
                     ctx'\<lparr>ctx_event := Some (Inl CONFIGURATION_FAILED)\<rparr>,
                     the (dict_get TRANSITION_TABLE (S_CONFIGURING, CONFIGURATION_FAILED)))
                   else Some (event, ctx', next_state)))"

definition enter_finalizing ::
  "ServerFSMEvent \<Rightarrow> event_context \<Rightarrow> ServerFSM option \<Rightarrow> server_state \<Rightarrow> server_state" where
  "enter_finalizing event ctx requested s =
    (let terminal_state =
       (if event = DISCONNECT_REQUESTED then S_DISCONNECTED
        else if event = CONTROL_CONNECTION_LOST then S_DISCONNECTED
        else if event = ACQUISITION_CONNECTION_LOST then S_CONTROL_CONNECTED
        else case requested of None \<Rightarrow> S_READY | Some t \<Rightarrow> t)
     in s\<lparr>pending_event := Some event, pending_terminal_state := Some terminal_state,
          pending_context := Some ctx\<rparr>)"

text \<open>The effect of each event on the client records; \<open>None\<close> rejects the event.\<close>

definition apply_configuration_started ::
  "event_context \<Rightarrow> server_state \<Rightarrow> server_state option" where
  "apply_configuration_started ctx s =
    (case normalize_client_ids (target_clients (ctx_metadata ctx)) (common_plane_client_ids s) of
       Inl e \<Rightarrow> None
     | Inr targets \<Rightarrow>
         if list_ex (\<lambda>c. c \<notin> set (common_plane_client_ids s)) targets \<or> targets = [] then None
         else
           let part = partial (ctx_metadata ctx);
               s1 = s\<lparr>pending_configuration_partial := part\<rparr>;
               s2 = (if part then mark_operational False targets s1 else clear_operational s1)
           in Some (set_client_states targets C_CONFIGURING ctx s2))"

definition apply_configuration_succeeded ::
  "event_context \<Rightarrow> server_state \<Rightarrow> server_state option" where
  "apply_configuration_succeeded ctx s =
    (case normalize_client_ids (successful_clients (ctx_metadata ctx)) [] of
       Inl e \<Rightarrow> None
     | Inr successful \<Rightarrow>
         (case normalize_client_ids (failed_clients (ctx_metadata ctx)) [] of
            Inl e \<Rightarrow> None
          | Inr failed \<Rightarrow>
              if successful = [] then None
              else if list_ex (\<lambda>c. c \<in> set failed) successful then None
              else if set (successful @ failed) \<noteq> set (list_clients_in_state C_CONFIGURING s) then None
              else if list_ex (\<lambda>c. c \<notin> set (common_plane_client_ids s)) successful then None
              else
                let s1 = (if pending_configuration_partial s then mark_operational True successful s
                          else set_operational successful s);
                    s2 = set_client_states successful C_READY ctx s1
                in Some (set_client_states failed C_ERROR ctx s2)))"

definition apply_configuration_failed ::
  "event_context \<Rightarrow> server_state \<Rightarrow> server_state option" where
  "apply_configuration_failed ctx s =
    (case normalize_client_ids (failed_clients (ctx_metadata ctx))
            (list_clients_in_state C_CONFIGURING s) of
       Inl e \<Rightarrow> None
     | Inr failed \<Rightarrow>
         if set failed \<noteq> set (list_clients_in_state C_CONFIGURING s) then None
         else
           let s1 = (if pending_configuration_partial s then mark_operational False failed s
                     else clear_operational s)
           in Some (set_client_states failed C_ERROR ctx s1))"

definition apply_acquisition_started ::
  "event_context \<Rightarrow> server_state \<Rightarrow> server_state option" where
  "apply_acquisition_started ctx s =
    (case normalize_client_ids (active_clients (ctx_metadata ctx)) (operational_client_ids s) of
       Inl e \<Rightarrow> None
     | Inr active \<Rightarrow>
         if active = [] then None
         else if list_ex (\<lambda>c. c \<notin> set (operational_client_ids s) \<or>
                   (case dict_get (clients s) c of None \<Rightarrow> True | Some r \<Rightarrow> state r \<noteq> C_READY)) active
         then None
         else Some (set_client_states active C_ACQUIRING ctx (set_operational active s)))"

definition apply_fatal_error :: "event_context \<Rightarrow> server_state \<Rightarrow> server_state" where
  "apply_fatal_error ctx s =
    clear_operational (set_client_states (operational_client_ids s) C_ERROR ctx s)"

text \<open>One client of a completed finalization, for a terminal state other than READY.\<close>

definition finalize_client ::
  "ServerFSM \<Rightarrow> event_context \<Rightarrow> client_id \<Rightarrow> server_state \<Rightarrow> server_state" where
  "finalize_client terminal ctx cid s =
    (case dict_get (clients s) cid of
       None \<Rightarrow> s
     | Some r \<Rightarrow>
         let s1 = s\<lparr>clients := dict_set cid (r\<lparr>operational := False\<rparr>) (clients s)\<rparr> in
         if terminal = S_CONTROL_CONNECTED then
           (if on_control_plane r then set_client_state cid C_CONNECTED ctx s1
            else set_client_state cid C_DISCONNECTED ctx s1)
         else if terminal = S_DISCONNECTED then set_client_state cid C_DISCONNECTED ctx s1
         else if terminal = S_CONNECTED then set_client_state cid C_CONNECTED ctx s1
         else if terminal = S_ERROR then set_client_state cid C_ERROR ctx s1
         else s)"

definition apply_finalization :: "event_context \<Rightarrow> server_state \<Rightarrow> server_state" where
  "apply_finalization ctx s =
    (let terminal = (case pending_terminal_state s of None \<Rightarrow> S_READY | Some t \<Rightarrow> t) in
     if terminal = S_READY then set_client_states (operational_client_ids s) C_READY ctx s
     else fold (finalize_client terminal ctx) (operational_client_ids s) s)"

definition apply_event ::
  "ServerFSMEvent \<Rightarrow> event_context \<Rightarrow> ServerFSM \<Rightarrow> server_state \<Rightarrow> server_state option" where
  "apply_event event ctx next_state s =
    (if event = CONFIGURATION_STARTED then apply_configuration_started ctx s
     else if event = CONFIGURATION_SUCCEEDED then apply_configuration_succeeded ctx s
     else if event = CONFIGURATION_FAILED then apply_configuration_failed ctx s
     else if event = ACQUISITION_STARTED then apply_acquisition_started ctx s
     else if event = FATAL_ERROR then Some (apply_fatal_error ctx s)
     else if next_state = S_FINALIZING then
       Some (set_client_states (operational_client_ids s) C_FINALIZING ctx s)
     else if run_state s = S_FINALIZING
             \<and> event \<in> {FINALIZATION_SUCCEEDED, FINALIZATION_FAILED} then
       Some (apply_finalization ctx s)
     else Some s)"

definition commit_event ::
  "ServerFSM \<Rightarrow> ServerFSMEvent \<Rightarrow> event_context \<Rightarrow> ServerFSM \<Rightarrow> server_state \<Rightarrow> server_state" where
  "commit_event present event ctx next_state s =
    (let s1 = s\<lparr>sv_previous_state := Some present, run_state := next_state,
                sv_last_event_context := Some ctx\<rparr>;
         s2 = (if next_state = S_ERROR then s1\<lparr>sv_error_context := Some (ctx, present)\<rparr> else s1);
         s3 = (if present = S_FINALIZING
                  \<and> event \<in> {FINALIZATION_SUCCEEDED, FINALIZATION_FAILED, FATAL_ERROR}
               then s2\<lparr>pending_event := None, pending_terminal_state := None,
                       pending_context := None\<rparr>
               else s2)
     in (if present = S_CONFIGURING
            \<and> event \<in> {CONFIGURATION_SUCCEEDED, CONFIGURATION_FAILED}
         then s3\<lparr>pending_configuration_source := None, pending_configuration_partial := False\<rparr>
         else s3))"

text \<open>
  What \<open>process_event\<close> stores before the effect of the event is applied, and the state it will
  move to: the table's target, except for a failed configuration (back to where it was started)
  and for a finalization with a pending terminal state.
\<close>

definition prepare_event ::
  "ServerFSMEvent \<Rightarrow> event_context \<Rightarrow> ServerFSM \<Rightarrow> ServerFSM option \<Rightarrow> server_state
     \<Rightarrow> server_state" where
  "prepare_event event ctx next_state requested s =
    (let s1 = (if next_state = S_FINALIZING then enter_finalizing event ctx requested s else s)
     in (if event = CONFIGURATION_STARTED \<and> next_state = S_CONFIGURING
         then s1\<lparr>pending_configuration_source := Some (run_state s)\<rparr> else s1))"

definition target_state :: "ServerFSMEvent \<Rightarrow> ServerFSM \<Rightarrow> server_state \<Rightarrow> ServerFSM" where
  "target_state event next_state s =
    (if run_state s = S_CONFIGURING \<and> event = CONFIGURATION_FAILED
     then (case pending_configuration_source s of None \<Rightarrow> S_CONNECTED | Some p \<Rightarrow> p)
     else if run_state s = S_FINALIZING
             \<and> event \<in> {FINALIZATION_SUCCEEDED, FINALIZATION_FAILED}
     then (case pending_terminal_state s of None \<Rightarrow> next_state | Some t \<Rightarrow> t)
     else next_state)"

text \<open>The rest of \<open>process_event\<close>, once the transition is known to be in the table.\<close>

definition dispatch_event ::
  "ServerFSMEvent \<Rightarrow> event_context \<Rightarrow> ServerFSM \<Rightarrow> ServerFSM option \<Rightarrow> server_state
     \<Rightarrow> bool \<times> server_state" where
  "dispatch_event event ctx next_state requested s =
    (if next_state \<noteq> S_FINALIZING \<and> requested \<noteq> None then (False, s)
     else
       let s1 = prepare_event event ctx next_state requested s;
           next1 = target_state event next_state s1
       in case apply_event event ctx next1 s1 of
            None \<Rightarrow> (False, s1)
          | Some s2 \<Rightarrow> (True, commit_event (run_state s) event ctx next1 s2))"

definition process_event ::
  "ServerFSMEvent \<Rightarrow> string \<Rightarrow> string \<Rightarrow> client_id option \<Rightarrow> string option \<Rightarrow> metadata
     \<Rightarrow> ServerFSM option \<Rightarrow> int \<Rightarrow> server_state \<Rightarrow> bool \<times> server_state" where
  "process_event event reason source cid err md requested now s =
    (if strip reason = [] then (False, s)
     else if strip source = [] then (False, s)
     else if (case requested of None \<Rightarrow> False
              | Some t \<Rightarrow> t \<notin> set ALLOWED_PENDING_TERMINAL_STATES) then (False, s)
     else
       let ctx = build_event_context event reason source cid err md now in
       case dict_get TRANSITION_TABLE (run_state s, event) of
         None \<Rightarrow> (False, s)
       | Some next_state \<Rightarrow>
           (case (if run_state s = S_CONFIGURING
                     \<and> event \<in> {CONFIGURATION_SUCCEEDED, CONFIGURATION_FAILED}
                  then drop_lost_clients event ctx next_state s
                  else Some (event, ctx, next_state)) of
              None \<Rightarrow> (False, s)
            | Some (event', ctx', next') \<Rightarrow> dispatch_event event' ctx' next' requested s))"

section \<open>Client events\<close>

definition process_client_event ::
  "client_id \<Rightarrow> ClientFSMEvent \<Rightarrow> string \<Rightarrow> string \<Rightarrow> string option \<Rightarrow> metadata \<Rightarrow> int
     \<Rightarrow> server_state \<Rightarrow> bool \<times> server_state" where
  "process_client_event cid event reason source err md now s =
    (if cid = [] then (False, s)
     else if strip reason = [] then (False, s)
     else if strip source = [] then (False, s)
     else
       let ctx = \<lparr>ctx_event = Some (Inr event), ctx_reason = strip reason,
                  ctx_source = strip source, ctx_client = Some cid, ctx_error = err,
                  ctx_metadata = md, ctx_timestamp = now\<rparr> in
       case dict_get (clients s) cid of
         None \<Rightarrow> (False, s)
       | Some r \<Rightarrow>
           (case dict_get TRANSITION_TABLE_CLIENT (state r, event) of
              None \<Rightarrow> (False, s)
            | Some next_state \<Rightarrow>
                let r1 = r\<lparr>previous_state := Some (state r), state := next_state,
                           last_event_context := Some ctx\<rparr>;
                    r2 = (if next_state = C_ERROR
                          then r1\<lparr>error_context := Some (ctx, state r)\<rparr> else r1)
                in (True, s\<lparr>clients := dict_set cid r2 (clients s)\<rparr>)))"

definition reset_to_disconnected :: "string \<Rightarrow> string \<Rightarrow> int \<Rightarrow> server_state \<Rightarrow> server_state" where
  "reset_to_disconnected reason source now s =
    (clear_operational (s\<lparr>sv_previous_state := Some (run_state s), run_state := S_DISCONNECTED\<rparr>))
      \<lparr>pending_event := None, pending_terminal_state := None, pending_context := None,
       sv_last_event_context := Some \<lparr>ctx_event = None, ctx_reason = reason, ctx_source = source,
         ctx_client = None, ctx_error = None, ctx_metadata = no_metadata, ctx_timestamp = now\<rparr>\<rparr>"

definition clear_pending_transition :: "server_state \<Rightarrow> server_state" where
  "clear_pending_transition s =
    s\<lparr>pending_terminal_state := None, pending_event := None, pending_context := None\<rparr>"

section \<open>Registry of the clients on the three planes\<close>

definition add_control_client ::
  "client_id \<Rightarrow> identity option \<Rightarrow> int \<Rightarrow> server_state \<Rightarrow> py_exn + server_state" where
  "add_control_client cid ident now s =
    (if cid = [] then Inl ValueError
     else
       let cs = (if cid \<in> set (dict_keys (clients s)) then clients s
                 else dict_set cid (new_client_record now) (clients s));
           r = the (dict_get cs cid);
           r1 = r\<lparr>on_control_plane := True\<rparr>
       in case ident of
            None \<Rightarrow> Inr (s\<lparr>clients := dict_set cid r1 cs\<rparr>)
          | Some i \<Rightarrow>
              let s1 = s\<lparr>clients := dict_set cid (r1\<lparr>identity := Some i\<rparr>) cs\<rparr> in
              (case dict_get i ''mac_address'' of
                 None \<Rightarrow> Inr s1
               | Some mac \<Rightarrow>
                   if mac = [] then Inr s1
                   else Inr (s1\<lparr>client_id_by_mac := dict_set mac cid (client_id_by_mac s1)\<rparr>)))"

definition remove_acquisition_client :: "client_id \<Rightarrow> server_state \<Rightarrow> server_state" where
  "remove_acquisition_client cid s =
    (case dict_get (clients s) cid of
       None \<Rightarrow> s
     | Some r \<Rightarrow>
         s\<lparr>clients := dict_set cid (r\<lparr>on_acquisition_plane := False, operational := False\<rparr>)
                        (clients s)\<rparr>)"

definition clear_acquisition_clients :: "server_state \<Rightarrow> server_state" where
  "clear_acquisition_clients s =
    s\<lparr>clients := dict_map (\<lambda>cid r. if on_acquisition_plane r
        then r\<lparr>on_acquisition_plane := False, operational := False\<rparr> else r) (clients s)\<rparr>"

definition add_acquisition_client :: "client_id \<Rightarrow> server_state \<Rightarrow> py_exn + server_state" where
  "add_acquisition_client cid s =
    (if cid = [] then Inl ValueError
     else case dict_get (clients s) cid of
       None \<Rightarrow> Inl ValueError
     | Some r \<Rightarrow>
         if \<not> on_control_plane r then Inl ValueError
         else Inr (s\<lparr>clients := dict_set cid (r\<lparr>on_acquisition_plane := True\<rparr>) (clients s)\<rparr>))"

definition forget_client :: "client_id \<Rightarrow> server_state \<Rightarrow> server_state" where
  "forget_client cid s =
    (let s1 = s\<lparr>clients := dict_pop cid (clients s)\<rparr> in
     case dict_get (clients s) cid of
       None \<Rightarrow> s1
     | Some r \<Rightarrow>
         (case identity r of
            None \<Rightarrow> s1
          | Some i \<Rightarrow>
              (case dict_get i ''mac_address'' of
                 None \<Rightarrow> s1
               | Some mac \<Rightarrow>
                   if dict_get (client_id_by_mac s1) mac = Some cid
                   then s1\<lparr>client_id_by_mac := dict_pop mac (client_id_by_mac s1)\<rparr>
                   else s1)))"

definition remove_client :: "client_id \<Rightarrow> server_state \<Rightarrow> server_state" where
  "remove_client cid s = forget_client cid s"

definition set_operational_clients :: "client_id list \<Rightarrow> server_state \<Rightarrow> py_exn + server_state" where
  "set_operational_clients cids s =
    (let requested = fromkeys cids in
     if list_ex (\<lambda>c. c \<notin> set (common_plane_client_ids s)) requested then Inl ValueError
     else Inr (set_operational requested s))"

definition remove_operational_client :: "client_id \<Rightarrow> server_state \<Rightarrow> server_state" where
  "remove_operational_client cid s =
    (case dict_get (clients s) cid of
       None \<Rightarrow> s
     | Some r \<Rightarrow> s\<lparr>clients := dict_set cid (r\<lparr>operational := False\<rparr>) (clients s)\<rparr>)"

definition add_monitoring_client :: "client_id \<Rightarrow> server_state \<Rightarrow> py_exn + server_state" where
  "add_monitoring_client cid s =
    (if cid = [] then Inl ValueError
     else case dict_get (clients s) cid of
       None \<Rightarrow> Inl ValueError
     | Some r \<Rightarrow>
         if \<not> on_control_plane r then Inl ValueError
         else Inr (s\<lparr>clients := dict_set cid (r\<lparr>on_monitoring_plane := True\<rparr>) (clients s)\<rparr>))"

definition remove_monitoring_client :: "client_id \<Rightarrow> server_state \<Rightarrow> server_state" where
  "remove_monitoring_client cid s =
    (case dict_get (clients s) cid of
       None \<Rightarrow> s
     | Some r \<Rightarrow> s\<lparr>clients := dict_set cid (r\<lparr>on_monitoring_plane := False\<rparr>) (clients s)\<rparr>)"

definition clear_monitoring_clients :: "server_state \<Rightarrow> server_state" where
  "clear_monitoring_clients s =
    s\<lparr>clients := dict_map (\<lambda>cid r. r\<lparr>on_monitoring_plane := False\<rparr>) (clients s)\<rparr>"

text \<open>The HV parameters a client reports: only the three known keys are merged.\<close>

definition merge_hv_entry ::
  "(string, pyval) dict \<Rightarrow> (string, pyval) dict \<Rightarrow> (string, pyval) dict" where
  "merge_hv_entry params entry =
    fold (\<lambda>k e. case dict_get params k of None \<Rightarrow> e | Some v \<Rightarrow> dict_set k v e)
      [''voltage'', ''threshold'', ''power_state''] entry"

definition merge_hv_parameters ::
  "(int, (string, pyval) dict) dict \<Rightarrow> (int, (string, pyval) dict) dict
     \<Rightarrow> (int, (string, pyval) dict) dict" where
  "merge_hv_parameters acq_info hvp =
    fold (\<lambda>(ch, params) d.
        dict_set ch (merge_hv_entry params (case dict_get d ch of None \<Rightarrow> [] | Some e \<Rightarrow> e)) d)
      acq_info hvp"

definition set_client_hv_parameters ::
  "client_id \<Rightarrow> (int, (string, pyval) dict) dict \<Rightarrow> server_state \<Rightarrow> server_state" where
  "set_client_hv_parameters cid acq_info s =
    (case dict_get (clients s) cid of
       None \<Rightarrow> s
     | Some r \<Rightarrow>
         s\<lparr>clients := dict_set cid
             (r\<lparr>hv_parameters := merge_hv_parameters acq_info (hv_parameters r)\<rparr>) (clients s)\<rparr>)"

definition set_calibration_excluded_channels ::
  "client_id \<Rightarrow> int list \<Rightarrow> server_state \<Rightarrow> server_state" where
  "set_calibration_excluded_channels cid chs s =
    (case dict_get (clients s) cid of
       None \<Rightarrow> s
     | Some r \<Rightarrow>
         s\<lparr>clients := dict_set cid (r\<lparr>calibration_excluded_channels := chs\<rparr>) (clients s)\<rparr>)"

definition set_configuration_identity ::
  "client_id \<Rightarrow> string \<Rightarrow> string \<Rightarrow> server_state \<Rightarrow> bool \<times> server_state" where
  "set_configuration_identity cid multipmt_id batch_id s =
    (if multipmt_id = [] \<or> batch_id = [] then (False, s)
     else case dict_get (clients s) cid of
       None \<Rightarrow> (False, s)
     | Some r \<Rightarrow>
         (True, s\<lparr>clients := dict_set cid
            (r\<lparr>configuration_identity :=
                Some [(''multipmt_id'', multipmt_id), (''batch_id'', batch_id)]\<rparr>) (clients s)\<rparr>))"

end
