(* ===== verification/ServerRegistry.thy ===== *)
theory ServerRegistry
  imports ServerState
begin

text \<open>
  Invariants of \<open>ServerState\<close> over every sequence of its methods: the plane membership of the
  clients (\<open>registry_ok\<close>) and the pending terminal state (\<open>pending_ok\<close>).
\<close>

section \<open>Plane membership\<close>

text \<open>
  A registered client is on the control plane and has a non-empty id; an operational client is
  also on the acquisition plane.
\<close>

definition rec_ok :: "client_id \<Rightarrow> client_record \<Rightarrow> bool" where
  "rec_ok cid r \<longleftrightarrow> cid \<noteq> [] \<and> on_control_plane r \<and> (operational r \<longrightarrow> on_acquisition_plane r)"

definition reg_ok :: "(client_id, client_record) dict \<Rightarrow> bool" where
  "reg_ok d \<longleftrightarrow> dict_ok d \<and> list_all (\<lambda>(cid, r). rec_ok cid r) d"

definition registry_ok :: "server_state \<Rightarrow> bool" where
  "registry_ok s \<longleftrightarrow> reg_ok (clients s)"

lemma reg_ok_iff:
  "reg_ok d \<longleftrightarrow> dict_ok d \<and> (\<forall>k r. dict_get d k = Some r \<longrightarrow> rec_ok k r)"
  by (auto simp: reg_ok_def list_all_iff dict_ok_def map_of_eq_Some_iff)

lemma reg_ok_Nil: "reg_ok []"
  by (simp add: reg_ok_def)

lemma reg_ok_get: "reg_ok d \<Longrightarrow> dict_get d k = Some r \<Longrightarrow> rec_ok k r"
  by (simp add: reg_ok_iff)

lemma reg_ok_set: "reg_ok d \<Longrightarrow> rec_ok k r \<Longrightarrow> reg_ok (dict_set k r d)"
  by (auto simp: reg_ok_iff dict_get_set)

lemma reg_ok_pop: "reg_ok d \<Longrightarrow> reg_ok (dict_pop k d)"
  by (auto simp: reg_ok_iff dict_get_pop)

lemma reg_ok_map:
  "reg_ok d \<Longrightarrow> (\<And>k r. dict_get d k = Some r \<Longrightarrow> rec_ok k r \<Longrightarrow> rec_ok k (f k r)) \<Longrightarrow>
   reg_ok (dict_map f d)"
  by (auto simp: reg_ok_iff dict_get_map)

lemma registry_dict_ok: "registry_ok s \<Longrightarrow> dict_ok (clients s)"
  by (simp add: registry_ok_def reg_ok_def)

lemma registry_get: "registry_ok s \<Longrightarrow> dict_get (clients s) k = Some r \<Longrightarrow> rec_ok k r"
  by (auto simp: registry_ok_def dest: reg_ok_get)

lemmas client_ids_defs = control_client_ids_def acquisition_client_ids_def
  monitoring_client_ids_def common_plane_client_ids_def operational_client_ids_def
  list_clients_in_state_def

lemma in_operational:
  "registry_ok s \<Longrightarrow> c \<in> set (operational_client_ids s) \<longleftrightarrow>
   (\<exists>r. dict_get (clients s) c = Some r \<and> operational r)"
  by (simp add: client_ids_defs in_keys_where registry_dict_ok)

lemma in_common:
  "registry_ok s \<Longrightarrow> c \<in> set (common_plane_client_ids s) \<longleftrightarrow>
   (\<exists>r. dict_get (clients s) c = Some r \<and> on_control_plane r \<and> on_acquisition_plane r)"
  by (simp add: client_ids_defs in_keys_where registry_dict_ok)

lemma in_state:
  "registry_ok s \<Longrightarrow> c \<in> set (list_clients_in_state st s) \<longleftrightarrow>
   (\<exists>r. dict_get (clients s) c = Some r \<and> state r = st)"
  by (simp add: client_ids_defs in_keys_where registry_dict_ok)

lemma common_get:
  "registry_ok s \<Longrightarrow> c \<in> set (common_plane_client_ids s) \<Longrightarrow> dict_get (clients s) c = Some r \<Longrightarrow>
   on_acquisition_plane r"
  by (auto simp: in_common)

lemma operational_common:
  "registry_ok s \<Longrightarrow> set (operational_client_ids s) \<subseteq> set (common_plane_client_ids s)"
  using registry_get by (fastforce simp: in_operational in_common rec_ok_def)

subsection \<open>The helpers keep it\<close>

lemma registry_set_operational [keeps]:
  "registry_ok s \<Longrightarrow> set cs \<subseteq> set (common_plane_client_ids s) \<Longrightarrow> registry_ok (set_operational cs s)"
  using common_get[of s] unfolding registry_ok_def set_operational_def
  by (auto intro!: reg_ok_map simp: rec_ok_def)

lemma registry_clear_operational [keeps]: "registry_ok s \<Longrightarrow> registry_ok (clear_operational s)"
  unfolding registry_ok_def clear_operational_def by (auto intro!: reg_ok_map simp: rec_ok_def)

lemma registry_mark_operational [keeps]:
  "registry_ok s \<Longrightarrow> (b \<Longrightarrow> set cs \<subseteq> set (common_plane_client_ids s)) \<Longrightarrow>
   registry_ok (mark_operational b cs s)"
  using common_get[of s] unfolding registry_ok_def mark_operational_def
  by (auto 0 4 intro!: reg_ok_map simp: rec_ok_def)

lemma registry_set_client_state [keeps]:
  "registry_ok s \<Longrightarrow> registry_ok (set_client_state c st ctx s)"
  unfolding registry_ok_def set_client_state_def
  by (auto split: option.splits intro!: reg_ok_set dest: reg_ok_get simp: rec_ok_def)

lemma registry_set_client_states [keeps]:
  "registry_ok s \<Longrightarrow> registry_ok (set_client_states cs st ctx s)"
  unfolding set_client_states_def by (induction cs arbitrary: s) (auto intro: keeps)

lemma registry_finalize_client [keeps]:
  "registry_ok s \<Longrightarrow> registry_ok (finalize_client t ctx c s)"
proof (cases "dict_get (clients s) c")
  case (Some r)
  assume inv: "registry_ok s"
  let ?s1 = "s\<lparr>clients := dict_set c (r\<lparr>operational := False\<rparr>) (clients s)\<rparr>"
  have "registry_ok ?s1"
    using inv registry_get[OF inv Some] by (simp add: registry_ok_def reg_ok_set rec_ok_def)
  with Some inv show ?thesis
    by (simp add: finalize_client_def Let_def registry_set_client_state)
qed (simp add: finalize_client_def)

lemma registry_apply_finalization [keeps]:
  assumes "registry_ok s"
  shows "registry_ok (apply_finalization ctx s)"
proof -
  have "registry_ok (fold (finalize_client t ctx) cs s')" if "registry_ok s'" for t cs s'
    using that by (induction cs arbitrary: s') (auto intro: registry_finalize_client)
  with assms show ?thesis
    by (simp add: apply_finalization_def Let_def registry_set_client_states)
qed

text \<open>Fields outside the client table do not matter.\<close>

lemma registry_clients_cong: "clients s' = clients s \<Longrightarrow> registry_ok s' = registry_ok s"
  by (simp add: registry_ok_def)

lemma registry_enter_finalizing [simp]:
  "registry_ok (enter_finalizing e ctx t s) = registry_ok s"
  by (rule registry_clients_cong) (simp add: enter_finalizing_def Let_def)

lemma registry_commit [simp]: "registry_ok (commit_event p e ctx n s) = registry_ok s"
  by (rule registry_clients_cong) (simp add: commit_event_def Let_def)

lemma common_update [simp]:
  "common_plane_client_ids (s\<lparr>pending_configuration_partial := b\<rparr>) = common_plane_client_ids s"
  "common_plane_client_ids (s\<lparr>pending_configuration_source := q\<rparr>) = common_plane_client_ids s"
  by (simp_all add: common_plane_client_ids_def)

lemma registry_update [simp]:
  "registry_ok (s\<lparr>pending_configuration_partial := b\<rparr>) = registry_ok s"
  "registry_ok (s\<lparr>pending_configuration_source := q\<rparr>) = registry_ok s"
  by (simp_all add: registry_ok_def)

lemma registry_apply_event:
  assumes inv: "registry_ok s" and ev: "apply_event e ctx n s = Some s'"
  shows "registry_ok s'"
proof -
  have started: "registry_ok s'" if "apply_configuration_started ctx s = Some s'"
    using that inv
    by (auto simp: apply_configuration_started_def Let_def split: sum.splits if_splits intro!: keeps)
  have succeeded: "registry_ok s'" if "apply_configuration_succeeded ctx s = Some s'"
    using that inv
    by (auto simp: apply_configuration_succeeded_def Let_def list_ex_iff
        split: sum.splits if_splits intro!: keeps)
  have failed: "registry_ok s'" if "apply_configuration_failed ctx s = Some s'"
    using that inv
    by (auto simp: apply_configuration_failed_def Let_def split: sum.splits if_splits intro!: keeps)
  have acq: "registry_ok s'" if "apply_acquisition_started ctx s = Some s'"
    using that inv operational_common[OF inv]
    by (auto simp: apply_acquisition_started_def list_ex_iff
        split: sum.splits if_splits intro!: keeps)
  show ?thesis
    using ev inv started succeeded failed acq
    by (auto simp: apply_event_def apply_fatal_error_def split: if_splits intro!: keeps)
qed

lemma registry_prepare [simp]: "registry_ok (prepare_event e ctx n t s) = registry_ok s"
  by (simp add: prepare_event_def Let_def)

lemma registry_dispatch:
  "registry_ok s \<Longrightarrow> registry_ok (snd (dispatch_event e ctx n t s))"
  using registry_apply_event[of "prepare_event e ctx n t s"]
  by (auto simp: dispatch_event_def Let_def split: option.splits)

lemma registry_process_event [keeps]:
  "registry_ok s \<Longrightarrow> registry_ok (snd (process_event e r src c err md t now s))"
  by (auto simp: process_event_def Let_def registry_dispatch split: option.splits)

lemma registry_process_client_event [keeps]:
  "registry_ok s \<Longrightarrow> registry_ok (snd (process_client_event c e r src err md now s))"
  unfolding registry_ok_def process_client_event_def
  by (auto simp: Let_def rec_ok_def split: option.splits intro!: reg_ok_set dest: reg_ok_get)

subsection \<open>Registry operations keep it\<close>

lemma registry_add_control_client:
  assumes inv: "registry_ok s" and ok: "add_control_client c i now s = Inr s'"
  shows "registry_ok s'"
proof -
  let ?cs = "if c \<in> set (dict_keys (clients s)) then clients s
             else dict_set c (new_client_record now) (clients s)"
  let ?r = "the (dict_get ?cs c)"
  have c: "c \<noteq> []" using ok by (auto simp: add_control_client_def)
  have dok: "dict_ok ?cs" using registry_dict_ok[OF inv] by simp
  have rok: "rec_ok c (?r\<lparr>on_control_plane := True\<rparr>)"
  proof (cases "c \<in> set (dict_keys (clients s))")
    case True
    then obtain r where r: "dict_get (clients s) c = Some r"
      by (metis list.set_map map_of_eq_None_iff not_Some_eq)
    with True show ?thesis using registry_get[OF inv r] by (simp add: rec_ok_def)
  next
    case False
    with c show ?thesis by (simp add: rec_ok_def new_client_record_def dict_get_set)
  qed
  have set: "reg_ok (dict_set c r' ?cs)" if "rec_ok c r'" for r'
    using that inv by (auto simp: reg_ok_iff registry_ok_def dict_get_set)
  show ?thesis
    using ok set[OF rok] set[of "?r\<lparr>on_control_plane := True, identity := i\<rparr>"] rok
    by (auto simp: add_control_client_def Let_def registry_ok_def rec_ok_def
        split: option.splits if_splits)
qed

lemma registry_plane_ops [keeps]:
  assumes "registry_ok s"
  shows "registry_ok (remove_acquisition_client c s)"
    and "registry_ok (clear_acquisition_clients s)"
    and "registry_ok (remove_operational_client c s)"
    and "registry_ok (remove_monitoring_client c s)"
    and "registry_ok (clear_monitoring_clients s)"
    and "registry_ok (set_client_hv_parameters c hvp s)"
    and "registry_ok (set_calibration_excluded_channels c chs s)"
    and "registry_ok (snd (set_configuration_identity c m b s))"
    and "registry_ok (forget_client c s)"
  using assms unfolding registry_ok_def
  by (auto simp: remove_acquisition_client_def clear_acquisition_clients_def
      remove_operational_client_def remove_monitoring_client_def clear_monitoring_clients_def
      set_client_hv_parameters_def set_calibration_excluded_channels_def
      set_configuration_identity_def forget_client_def Let_def rec_ok_def
      split: option.splits intro!: reg_ok_set reg_ok_map reg_ok_pop dest: reg_ok_get)

lemma registry_add_acquisition_client:
  "registry_ok s \<Longrightarrow> add_acquisition_client c s = Inr s' \<Longrightarrow> registry_ok s'"
  unfolding registry_ok_def add_acquisition_client_def
  by (auto simp: rec_ok_def split: if_splits option.splits intro!: reg_ok_set)

lemma registry_add_monitoring_client:
  "registry_ok s \<Longrightarrow> add_monitoring_client c s = Inr s' \<Longrightarrow> registry_ok s'"
  using registry_get[of s c] unfolding registry_ok_def add_monitoring_client_def
  by (auto simp: rec_ok_def split: if_splits option.splits intro!: reg_ok_set)

lemma registry_set_operational_clients:
  "registry_ok s \<Longrightarrow> set_operational_clients cs s = Inr s' \<Longrightarrow> registry_ok s'"
  by (auto simp: set_operational_clients_def Let_def list_ex_iff split: if_splits intro!: keeps)

lemma registry_reset [keeps]: "registry_ok s \<Longrightarrow> registry_ok (reset_to_disconnected r src now s)"
  unfolding registry_ok_def reset_to_disconnected_def clear_operational_def
  by (auto intro!: reg_ok_map simp: rec_ok_def)

lemma registry_clear_pending [simp]: "registry_ok (clear_pending_transition s) = registry_ok s"
  by (simp add: registry_ok_def clear_pending_transition_def)

lemma registry_set_mode: "registry_ok s \<Longrightarrow> set_mode m s = Inr s' \<Longrightarrow> registry_ok s'"
  by (auto simp: set_mode_def Let_def registry_ok_def split: if_splits)

end
