(* ===== verification/ServerRuns.thy ===== *)
theory ServerRuns
  imports ServerRegistry
begin

text \<open>
  Every sequence of calls on a \<open>ServerState\<close>, the abstract state machine it implements
  (\<open>fsm_step\<close>, over the run state, the pending terminal state and the state a configuration was
  started from) and the properties the orchestrators rely on.
\<close>

section \<open>Calls\<close>

datatype server_call =
    SetMode string
  | ProcessEvent ServerFSMEvent string string "client_id option" "string option" metadata
      "ServerFSM option" int
  | ProcessClientEvent client_id ClientFSMEvent string string "string option" metadata int
  | ResetToDisconnected string string int
  | ClearPendingTransition
  | AddControlClient client_id "identity option" int
  | RemoveAcquisitionClient client_id
  | ClearAcquisitionClients
  | AddAcquisitionClient client_id
  | RemoveClient client_id
  | SetOperationalClients "client_id list"
  | RemoveOperationalClient client_id
  | ClearOperationalClients
  | SetHvParameters client_id "(int, (string, pyval) dict) dict"
  | SetCalibrationExcluded client_id "int list"
  | AddMonitoringClient client_id
  | RemoveMonitoringClient client_id
  | ClearMonitoringClients
  | SetConfigurationIdentity client_id string string

text \<open>A call that raises leaves the state as it was.\<close>

definition or_same :: "server_state \<Rightarrow> py_exn + server_state \<Rightarrow> server_state" where
  "or_same s res = (case res of Inl e \<Rightarrow> s | Inr s' \<Rightarrow> s')"

fun exec_call :: "server_call \<Rightarrow> server_state \<Rightarrow> server_state" where
  "exec_call (SetMode m) s = or_same s (set_mode m s)"
| "exec_call (ProcessEvent e r src c err md t now) s = snd (process_event e r src c err md t now s)"
| "exec_call (ProcessClientEvent c e r src err md now) s =
     snd (process_client_event c e r src err md now s)"
| "exec_call (ResetToDisconnected r src now) s = reset_to_disconnected r src now s"
| "exec_call ClearPendingTransition s = clear_pending_transition s"
| "exec_call (AddControlClient c i now) s = or_same s (add_control_client c i now s)"
| "exec_call (RemoveAcquisitionClient c) s = remove_acquisition_client c s"
| "exec_call ClearAcquisitionClients s = clear_acquisition_clients s"
| "exec_call (AddAcquisitionClient c) s = or_same s (add_acquisition_client c s)"
| "exec_call (RemoveClient c) s = remove_client c s"
| "exec_call (SetOperationalClients cs) s = or_same s (set_operational_clients cs s)"
| "exec_call (RemoveOperationalClient c) s = remove_operational_client c s"
| "exec_call ClearOperationalClients s = clear_operational s"
| "exec_call (SetHvParameters c hvp) s = set_client_hv_parameters c hvp s"
| "exec_call (SetCalibrationExcluded c chs) s = set_calibration_excluded_channels c chs s"
| "exec_call (AddMonitoringClient c) s = or_same s (add_monitoring_client c s)"
| "exec_call (RemoveMonitoringClient c) s = remove_monitoring_client c s"
| "exec_call ClearMonitoringClients s = clear_monitoring_clients s"
| "exec_call (SetConfigurationIdentity c m b) s = snd (set_configuration_identity c m b s)"

definition server_start :: "server_state \<Rightarrow> bool" where
  "server_start s \<longleftrightarrow> s = init_server_state (acq_mode s)"

lemma registry_or_same:
  "registry_ok s \<Longrightarrow> (\<And>s'. res = Inr s' \<Longrightarrow> registry_ok s') \<Longrightarrow> registry_ok (or_same s res)"
  by (simp add: or_same_def split: sum.splits)

lemma registry_server_call: "registry_ok s \<Longrightarrow> registry_ok (exec_call c s)"
  by (cases c) (auto simp: remove_client_def intro!: keeps registry_or_same
      intro: registry_set_mode registry_add_control_client registry_add_acquisition_client
        registry_set_operational_clients registry_add_monitoring_client)

interpretation registry: kept_invariant server_start exec_call registry_ok
proof unfold_locales
  show "registry_ok s" if "server_start s" for s
  proof -
    have "clients s = []"
      using that unfolding server_start_def init_server_state_def by (metis server_state.select_convs(2))
    then show ?thesis by (simp add: registry_ok_def reg_ok_Nil)
  qed
qed (rule registry_server_call)

lemma server_start_init: "server_start (init_server_state m)"
  by (simp add: server_start_def init_server_state_def)

section \<open>The abstract state machine\<close>

text \<open>Run state, pending terminal state, state the configuration in progress was started from.\<close>

type_synonym fsm = "ServerFSM \<times> ServerFSM option \<times> ServerFSM option"

definition fsm_of :: "server_state \<Rightarrow> fsm" where
  "fsm_of s = (run_state s, pending_terminal_state s, pending_configuration_source s)"

definition terminal_of :: "ServerFSMEvent \<Rightarrow> ServerFSM option \<Rightarrow> ServerFSM" where
  "terminal_of e requested =
    (if e \<in> {DISCONNECT_REQUESTED, CONTROL_CONNECTION_LOST} then S_DISCONNECTED
     else if e = ACQUISITION_CONNECTION_LOST then S_CONTROL_CONNECTED
     else case requested of None \<Rightarrow> S_READY | Some t \<Rightarrow> t)"

inductive fsm_step :: "ServerFSMEvent \<Rightarrow> ServerFSM option \<Rightarrow> fsm \<Rightarrow> fsm \<Rightarrow> bool" where
  stop: "p = S_ACQUIRING \<and> e \<in> {STOP_REQUESTED, RECEIVER_COMPLETED, DISCONNECT_REQUESTED,
            CONTROL_CONNECTION_LOST, ACQUISITION_CONNECTION_LOST}
         \<or> p = S_FINALIZING \<and> e = DISCONNECT_REQUESTED \<Longrightarrow>
         t = terminal_of e requested \<Longrightarrow>
         fsm_step e requested (p, pend, src) (S_FINALIZING, Some t, src)"
| finalized: "e \<in> {FINALIZATION_SUCCEEDED, FINALIZATION_FAILED} \<Longrightarrow>
         t = (case pend of None \<Rightarrow> S_READY | Some t \<Rightarrow> t) \<Longrightarrow>
         fsm_step e None (S_FINALIZING, pend, src) (t, None, src)"
| configure: "p \<in> {S_CONNECTED, S_READY} \<Longrightarrow>
         fsm_step CONFIGURATION_STARTED None (p, pend, src) (S_CONFIGURING, pend, Some p)"
| configured: "fsm_step CONFIGURATION_SUCCEEDED None (S_CONFIGURING, pend, src) (S_READY, pend, None)"
| not_configured: "e \<in> {CONFIGURATION_SUCCEEDED, CONFIGURATION_FAILED} \<Longrightarrow>
         p = (case src of None \<Rightarrow> S_CONNECTED | Some p \<Rightarrow> p) \<Longrightarrow>
         fsm_step e None (S_CONFIGURING, pend, src) (p, pend, None)"
| fatal: "fsm_step FATAL_ERROR None (p, pend, src)
           (S_ERROR, if p = S_FINALIZING then None else pend, src)"
| plain: "dict_get TRANSITION_TABLE (p, e) = Some q \<Longrightarrow>
         p \<notin> {S_FINALIZING} \<Longrightarrow> q \<noteq> S_FINALIZING \<Longrightarrow>
         e \<notin> {CONFIGURATION_STARTED, CONFIGURATION_SUCCEEDED, CONFIGURATION_FAILED, FATAL_ERROR} \<Longrightarrow>
         fsm_step e None (p, pend, src) (q, pend, src)"

subsection \<open>The effects on the clients do not touch the machine\<close>

lemma fsm_set_client_state [simp]: "fsm_of (set_client_state c st ctx s) = fsm_of s"
  by (simp add: fsm_of_def set_client_state_def split: option.splits)

lemma fsm_set_client_states [simp]: "fsm_of (set_client_states cs st ctx s) = fsm_of s"
  unfolding set_client_states_def by (induction cs arbitrary: s) simp_all

lemma fsm_operational [simp]:
  "fsm_of (set_operational cs s) = fsm_of s"
  "fsm_of (clear_operational s) = fsm_of s"
  "fsm_of (mark_operational b cs s) = fsm_of s"
  "fsm_of (s\<lparr>pending_configuration_partial := b\<rparr>) = fsm_of s"
  by (simp_all add: fsm_of_def set_operational_def clear_operational_def mark_operational_def)

lemma fsm_finalize_client [simp]: "fsm_of (finalize_client t ctx c s) = fsm_of s"
proof -
  have "fsm_of (s\<lparr>clients := d\<rparr>) = fsm_of s" for d by (simp add: fsm_of_def)
  then show ?thesis by (simp add: finalize_client_def Let_def split: option.splits)
qed

lemma fsm_apply_finalization [simp]: "fsm_of (apply_finalization ctx s) = fsm_of s"
proof -
  have "fsm_of (fold (finalize_client t ctx) cs s') = fsm_of s'" for t cs s'
    by (induction cs arbitrary: s') simp_all
  then show ?thesis by (simp add: apply_finalization_def Let_def)
qed

lemma fsm_apply_event: "apply_event e ctx n s = Some s' \<Longrightarrow> fsm_of s' = fsm_of s"
  by (auto simp: apply_event_def apply_configuration_started_def apply_configuration_succeeded_def
      apply_configuration_failed_def apply_acquisition_started_def apply_fatal_error_def Let_def
      split: if_splits sum.splits)

lemma fsm_commit:
  "fsm_of (commit_event p e ctx n s) =
    (n,
     if p = S_FINALIZING \<and> e \<in> {FINALIZATION_SUCCEEDED, FINALIZATION_FAILED, FATAL_ERROR}
       then None else pending_terminal_state s,
     if p = S_CONFIGURING \<and> e \<in> {CONFIGURATION_SUCCEEDED, CONFIGURATION_FAILED}
       then None else pending_configuration_source s)"
  by (auto simp: commit_event_def Let_def fsm_of_def)

lemma prepare_fields [simp]:
  "run_state (prepare_event e ctx n requested s) = run_state s"
  "pending_terminal_state (prepare_event e ctx n requested s) =
    (if n = S_FINALIZING then Some (terminal_of e requested) else pending_terminal_state s)"
  "pending_configuration_source (prepare_event e ctx n requested s) =
    (if e = CONFIGURATION_STARTED \<and> n = S_CONFIGURING then Some (run_state s)
     else pending_configuration_source s)"
  by (simp_all add: prepare_event_def enter_finalizing_def terminal_of_def Let_def)

text \<open>An accepted event: its transition, the state before and after.\<close>

lemma dispatch_accepted:
  assumes acc: "dispatch_event e ctx n requested s = (True, s')"
  shows "n = S_FINALIZING \<or> requested = None"
    and "\<exists>s1 s2. s1 = prepare_event e ctx n requested s \<and> fsm_of s2 = fsm_of s1 \<and>
           apply_event e ctx (target_state e n s1) s1 = Some s2 \<and>
           s' = commit_event (run_state s) e ctx (target_state e n s1) s2"
  using acc by (auto simp: dispatch_event_def Let_def fsm_apply_event split: if_splits option.splits)

lemma dispatch_fsm:
  assumes "dispatch_event e ctx n requested s = (True, s')"
  shows "fsm_of s' =
    (target_state e n (prepare_event e ctx n requested s),
     if run_state s = S_FINALIZING \<and> e \<in> {FINALIZATION_SUCCEEDED, FINALIZATION_FAILED, FATAL_ERROR}
       then None
       else if n = S_FINALIZING then Some (terminal_of e requested) else pending_terminal_state s,
     if run_state s = S_CONFIGURING \<and> e \<in> {CONFIGURATION_SUCCEEDED, CONFIGURATION_FAILED} then None
       else if e = CONFIGURATION_STARTED \<and> n = S_CONFIGURING then Some (run_state s)
       else pending_configuration_source s)"
proof -
  from dispatch_accepted(2)[OF assms] obtain s2 where
    s2: "fsm_of s2 = fsm_of (prepare_event e ctx n requested s)" and
    s': "s' = commit_event (run_state s) e ctx (target_state e n (prepare_event e ctx n requested s)) s2"
    by auto
  have "pending_terminal_state s2 =
      (if n = S_FINALIZING then Some (terminal_of e requested) else pending_terminal_state s)"
    and "pending_configuration_source s2 =
      (if e = CONFIGURATION_STARTED \<and> n = S_CONFIGURING then Some (run_state s)
       else pending_configuration_source s)"
    using s2 by (simp_all add: fsm_of_def)
  then show ?thesis by (auto simp: s' fsm_commit)
qed

lemma target_prepare:
  "target_state e n (prepare_event e ctx n requested s) =
    (if run_state s = S_CONFIGURING \<and> e = CONFIGURATION_FAILED
     then (case pending_configuration_source s of None \<Rightarrow> S_CONNECTED | Some p \<Rightarrow> p)
     else if run_state s = S_FINALIZING \<and> e \<in> {FINALIZATION_SUCCEEDED, FINALIZATION_FAILED}
     then (case (if n = S_FINALIZING then Some (terminal_of e requested)
                 else pending_terminal_state s) of None \<Rightarrow> n | Some t \<Rightarrow> t)
     else n)"
  by (auto simp: target_state_def)

subsection \<open>The table\<close>

lemma table_finalizing:
  "dict_get TRANSITION_TABLE (p, e) = Some S_FINALIZING \<longleftrightarrow>
   p = S_ACQUIRING \<and> e \<in> {STOP_REQUESTED, RECEIVER_COMPLETED, DISCONNECT_REQUESTED,
      CONTROL_CONNECTION_LOST, ACQUISITION_CONNECTION_LOST}
   \<or> p = S_FINALIZING \<and> e = DISCONNECT_REQUESTED"
  by (cases p; cases e) (simp_all add: TRANSITION_TABLE_def)

lemma table_from_finalizing:
  "dict_get TRANSITION_TABLE (S_FINALIZING, e) = Some q \<Longrightarrow>
   e \<in> {FINALIZATION_SUCCEEDED, FINALIZATION_FAILED} \<and> q = S_READY
   \<or> e = DISCONNECT_REQUESTED \<and> q = S_FINALIZING \<or> e = FATAL_ERROR \<and> q = S_ERROR"
  by (cases e) (simp_all add: TRANSITION_TABLE_def)

lemma table_finalization:
  "dict_get TRANSITION_TABLE (p, e) = Some q \<Longrightarrow> e \<in> {FINALIZATION_SUCCEEDED, FINALIZATION_FAILED} \<Longrightarrow>
   p = S_FINALIZING"
  by (cases p; cases e) (simp_all add: TRANSITION_TABLE_def)

lemma table_configuration:
  "dict_get TRANSITION_TABLE (p, CONFIGURATION_STARTED) = Some q \<Longrightarrow>
     p \<in> {S_CONNECTED, S_READY} \<and> q = S_CONFIGURING"
  "dict_get TRANSITION_TABLE (p, CONFIGURATION_SUCCEEDED) = Some q \<Longrightarrow>
     p = S_CONFIGURING \<and> q = S_READY"
  "dict_get TRANSITION_TABLE (p, CONFIGURATION_FAILED) = Some q \<Longrightarrow>
     p = S_CONFIGURING \<and> q = S_CONNECTED"
  "dict_get TRANSITION_TABLE (p, FATAL_ERROR) = Some q \<Longrightarrow> q = S_ERROR"
  "dict_get TRANSITION_TABLE (p, ACQUISITION_STARTED) = Some q \<Longrightarrow> p = S_READY \<and> q = S_ACQUIRING"
  by (cases p; simp add: TRANSITION_TABLE_def)+

lemma drop_lost_cases:
  "drop_lost_clients e ctx n s = Some (e', ctx', n') \<Longrightarrow>
   e' = e \<and> n' = n \<or> e = CONFIGURATION_SUCCEEDED \<and> e' = CONFIGURATION_FAILED \<and> n' = S_CONNECTED"
  by (auto simp: drop_lost_clients_def Let_def TRANSITION_TABLE_def split: sum.splits if_splits)

text \<open>The shape of an accepted call of \<open>process_event\<close>.\<close>

lemma process_accepted:
  assumes "process_event e r src c err md requested now s = (True, s')"
  obtains n e' ctx' n' where
    "dict_get TRANSITION_TABLE (run_state s, e) = Some n"
    and "e' = e \<and> n' = n \<or>
         e = CONFIGURATION_SUCCEEDED \<and> e' = CONFIGURATION_FAILED \<and> n' = S_CONNECTED
           \<and> run_state s = S_CONFIGURING"
    and "dispatch_event e' ctx' n' requested s = (True, s')"
    and "\<forall>t. requested = Some t \<longrightarrow> t \<in> set ALLOWED_PENDING_TERMINAL_STATES"
    and "run_state s \<noteq> S_CONFIGURING \<or> e \<notin> {CONFIGURATION_SUCCEEDED, CONFIGURATION_FAILED} \<longrightarrow>
         ctx' = build_event_context e r src c err md now"
  using assms
  by (fastforce simp: process_event_def Let_def split: if_splits option.splits dest: drop_lost_cases)

section \<open>Refinement of the abstract machine\<close>

lemma dispatch_refines:
  assumes acc: "dispatch_event e ctx n requested s = (True, s')"
    and tab: "dict_get TRANSITION_TABLE (run_state s, e) = Some n"
  shows "fsm_step e requested (fsm_of s) (fsm_of s')"
proof -
  let ?p = "run_state s"
  let ?special = "{CONFIGURATION_STARTED, CONFIGURATION_SUCCEEDED, CONFIGURATION_FAILED, FATAL_ERROR}"
  note fsm' = dispatch_fsm[OF acc, unfolded target_prepare]
  note req = dispatch_accepted(1)[OF acc]
  consider (stop) "n = S_FINALIZING"
    | (fin) "n \<noteq> S_FINALIZING" "e \<in> {FINALIZATION_SUCCEEDED, FINALIZATION_FAILED}"
    | (special) "n \<noteq> S_FINALIZING" "e \<in> ?special"
    | (plain) "n \<noteq> S_FINALIZING" "e \<notin> {FINALIZATION_SUCCEEDED, FINALIZATION_FAILED}" "e \<notin> ?special"
    by blast
  then show ?thesis
  proof cases
    case stop
    note g = tab[unfolded stop table_finalizing]
    have "fsm_of s' = (S_FINALIZING, Some (terminal_of e requested), pending_configuration_source s)"
      using g fsm' stop by auto
    with g show ?thesis by (simp add: fsm_of_def[of s] fsm_step.stop)
  next
    case fin
    with tab have p: "?p = S_FINALIZING" by (blast dest: table_finalization)
    with tab fin have "n = S_READY" by (auto dest: table_from_finalizing)
    with p fin fsm' have "fsm_of s' = (case pending_terminal_state s of None \<Rightarrow> S_READY | Some t \<Rightarrow> t,
        None, pending_configuration_source s)" by auto
    with fin p req show ?thesis by (simp add: fsm_of_def[of s] fsm_step.finalized)
  next
    case special
    then consider "e = CONFIGURATION_STARTED" | "e = CONFIGURATION_SUCCEEDED"
      | "e = CONFIGURATION_FAILED" | "e = FATAL_ERROR" by blast
    then show ?thesis
    proof cases
      case 1
      with tab table_configuration(1) have "run_state s \<in> {S_CONNECTED, S_READY} \<and> n = S_CONFIGURING"
        by blast
      with 1 req fsm' show ?thesis
        by (auto simp: fsm_of_def intro: fsm_step.configure)
    next
      case 2
      with tab table_configuration(2) have "run_state s = S_CONFIGURING \<and> n = S_READY" by blast
      with 2 req fsm' show ?thesis by (auto simp: fsm_of_def intro: fsm_step.configured)
    next
      case 3
      with tab table_configuration(3) have "run_state s = S_CONFIGURING \<and> n = S_CONNECTED" by blast
      with 3 req fsm' show ?thesis by (auto simp: fsm_of_def intro: fsm_step.not_configured)
    next
      case 4
      with tab table_configuration(4) have n: "n = S_ERROR" by blast
      have "fsm_of s' = (S_ERROR, if run_state s = S_FINALIZING then None else pending_terminal_state s,
          pending_configuration_source s)"
        using 4 n fsm' by simp
      with 4 n req show ?thesis by (simp add: fsm_of_def[of s] fsm_step.fatal)
    qed
  next
    case plain
    then have "?p \<noteq> S_FINALIZING" using tab by (auto dest: table_from_finalizing)
    with plain tab req fsm' show ?thesis
      by (auto simp: fsm_of_def intro!: fsm_step.plain)
  qed
qed

end
