(* ===== verification/ServerProps.thy ===== *)
theory ServerProps
  imports ServerRuns
begin

text \<open>
  The properties of \<open>ServerState\<close>: what every run keeps, that an accepted event is a step of the
  abstract machine and a rejected one changes nothing the machine depends on, and the effect of
  the configuration, acquisition and finalization events on the clients.
\<close>

section \<open>Effects on one client\<close>

text \<open>The record of a client after \<open>_set_client_state_locked\<close>.\<close>

definition restate :: "ClientFSM \<Rightarrow> event_context \<Rightarrow> client_record \<Rightarrow> client_record" where
  "restate st ctx r = r\<lparr>previous_state := Some (state r), state := st, last_event_context := Some ctx,
     error_context := (if st = C_ERROR then Some (ctx, state r) else None)\<rparr>"

lemma restate_fields [simp]:
  "state (restate st ctx r) = st"
  "operational (restate st ctx r) = operational r"
  "on_control_plane (restate st ctx r) = on_control_plane r"
  "on_acquisition_plane (restate st ctx r) = on_acquisition_plane r"
  by (simp_all add: restate_def)

lemma get_set_client_state:
  "dict_get (clients (set_client_state c st ctx s)) k =
    (if k = c then map_option (restate st ctx) (dict_get (clients s) k) else dict_get (clients s) k)"
  by (simp add: set_client_state_def restate_def dict_simps split: option.splits)

lemma get_set_client_states:
  "distinct cs \<Longrightarrow> dict_get (clients (set_client_states cs st ctx s)) k =
    (if k \<in> set cs then map_option (restate st ctx) (dict_get (clients s) k)
     else dict_get (clients s) k)"
  unfolding set_client_states_def
  by (induction cs arbitrary: s) (auto simp: get_set_client_state option.map_comp)

lemma get_operational [dict_simps]:
  "dict_get (clients (set_operational cs s)) k =
    map_option (\<lambda>r. r\<lparr>operational := k \<in> set cs\<rparr>) (dict_get (clients s) k)"
  "dict_get (clients (clear_operational s)) k =
    map_option (\<lambda>r. r\<lparr>operational := False\<rparr>) (dict_get (clients s) k)"
  "dict_get (clients (mark_operational b cs s)) k =
    map_option (\<lambda>r. if k \<in> set cs then r\<lparr>operational := b\<rparr> else r) (dict_get (clients s) k)"
  by (simp_all add: set_operational_def clear_operational_def mark_operational_def dict_get_map)

definition final_state :: "ServerFSM \<Rightarrow> client_record \<Rightarrow> ClientFSM" where
  "final_state t r =
    (if t = S_CONTROL_CONNECTED then (if on_control_plane r then C_CONNECTED else C_DISCONNECTED)
     else if t = S_DISCONNECTED then C_DISCONNECTED
     else if t = S_CONNECTED then C_CONNECTED
     else C_ERROR)"

lemma get_finalize_client:
  "t \<in> {S_CONTROL_CONNECTED, S_DISCONNECTED, S_CONNECTED, S_ERROR} \<Longrightarrow>
   dict_get (clients (finalize_client t ctx c s)) k =
    (if k = c then map_option (\<lambda>r. restate (final_state t r) ctx (r\<lparr>operational := False\<rparr>))
                     (dict_get (clients s) k)
     else dict_get (clients s) k)"
  by (auto simp: finalize_client_def final_state_def Let_def get_set_client_state dict_simps
      split: option.splits)

lemma get_fold_finalize:
  "t \<in> {S_CONTROL_CONNECTED, S_DISCONNECTED, S_CONNECTED, S_ERROR} \<Longrightarrow> distinct cs \<Longrightarrow>
   dict_get (clients (fold (finalize_client t ctx) cs s)) k =
    (if k \<in> set cs then map_option (\<lambda>r. restate (final_state t r) ctx (r\<lparr>operational := False\<rparr>))
                          (dict_get (clients s) k)
     else dict_get (clients s) k)"
  by (induction cs arbitrary: s) (auto simp: get_finalize_client)

lemma distinct_operational: "registry_ok s \<Longrightarrow> distinct (operational_client_ids s)"
  by (simp add: operational_client_ids_def distinct_keys_where registry_dict_ok)

lemma commit_clients [simp]: "clients (commit_event p e ctx n s) = clients s"
  by (simp add: commit_event_def Let_def)

lemma prepare_clients [simp]: "clients (prepare_event e ctx n t s) = clients s"
  by (simp add: prepare_event_def enter_finalizing_def Let_def)

lemma run_state_commit [simp]: "run_state (commit_event p e ctx n s) = n"
  by (simp add: commit_event_def Let_def)

lemma client_ids_prepare [simp]:
  "operational_client_ids (prepare_event e ctx n t s) = operational_client_ids s"
  "common_plane_client_ids (prepare_event e ctx n t s) = common_plane_client_ids s"
  "list_clients_in_state st (prepare_event e ctx n t s) = list_clients_in_state st s"
  by (simp_all add: client_ids_defs)

lemma client_ids_commit [simp]:
  "operational_client_ids (commit_event p e ctx n s) = operational_client_ids s"
  "list_clients_in_state st (commit_event p e ctx n s) = list_clients_in_state st s"
  by (simp_all add: client_ids_defs)

section \<open>Rejected events\<close>

lemma dispatch_rejected:
  "dispatch_event e ctx n requested s = (False, s') \<Longrightarrow>
   s' = s \<or> (\<exists>n'. s' = prepare_event e ctx n requested s \<and> apply_event e ctx n' s' = None)"
  by (auto simp: dispatch_event_def Let_def split: if_splits option.splits)

lemma apply_event_None:
  "apply_event e ctx n s = None \<Longrightarrow>
   e \<in> {CONFIGURATION_STARTED, CONFIGURATION_SUCCEEDED, CONFIGURATION_FAILED, ACQUISITION_STARTED}"
  by (auto simp: apply_event_def split: if_splits)

lemma process_rejected:
  assumes "process_event e r src c err md requested now s = (False, s')" and "s' \<noteq> s"
  obtains n e' ctx' n' where
    "dict_get TRANSITION_TABLE (run_state s, e) = Some n"
    and "e' = e \<and> n' = n \<or>
         e = CONFIGURATION_SUCCEEDED \<and> e' = CONFIGURATION_FAILED \<and> n' = S_CONNECTED"
    and "dispatch_event e' ctx' n' requested s = (False, s')"
  using assms
  by (fastforce simp: process_event_def Let_def split: if_splits option.splits dest: drop_lost_cases)

section \<open>Pending terminal state\<close>

definition pending_ok :: "server_state \<Rightarrow> bool" where
  "pending_ok s \<longleftrightarrow>
    (case pending_terminal_state s of
       None \<Rightarrow> True
     | Some t \<Rightarrow> run_state s = S_FINALIZING \<and> t \<in> set ALLOWED_PENDING_TERMINAL_STATES) \<and>
    pending_configuration_source s \<in> {None, Some S_CONNECTED, Some S_READY}"

definition pending_fsm_ok :: "fsm \<Rightarrow> bool" where
  "pending_fsm_ok = (\<lambda>(p, pend, src).
    (case pend of None \<Rightarrow> True
     | Some t \<Rightarrow> p = S_FINALIZING \<and> t \<in> set ALLOWED_PENDING_TERMINAL_STATES) \<and>
    src \<in> {None, Some S_CONNECTED, Some S_READY})"

lemma pending_ok_fsm: "pending_ok s = pending_fsm_ok (fsm_of s)"
  by (simp add: pending_ok_def pending_fsm_ok_def fsm_of_def)

lemma terminal_of_allowed:
  "(\<And>t. requested = Some t \<Longrightarrow> t \<in> set ALLOWED_PENDING_TERMINAL_STATES) \<Longrightarrow>
   terminal_of e requested \<in> set ALLOWED_PENDING_TERMINAL_STATES"
  by (auto simp: terminal_of_def ALLOWED_PENDING_TERMINAL_STATES_def split: option.splits)

lemma fsm_step_pending:
  assumes "fsm_step e requested f f'" and "pending_fsm_ok f"
    and "\<And>t. requested = Some t \<Longrightarrow> t \<in> set ALLOWED_PENDING_TERMINAL_STATES"
  shows "pending_fsm_ok f'"
  using assms
proof (induction rule: fsm_step.induct)
  case (stop p e t requested pend src)
  then show ?case by (simp add: pending_fsm_ok_def terminal_of_allowed)
next
  case (not_configured e p src pend)
  then show ?case by (auto simp: pending_fsm_ok_def split: option.splits)
next
  case (plain p e q pend src)
  then show ?case by (auto simp: pending_fsm_ok_def split: option.splits)
qed (auto simp: pending_fsm_ok_def split: option.splits)

section \<open>Accepted and rejected events\<close>

lemma process_event_fsm_step:
  assumes "process_event e r src c err md requested now s = (True, s')"
  shows "fsm_step e requested (fsm_of s) (fsm_of s')"
proof -
  from assms obtain n e' ctx' n' where
    tab: "dict_get TRANSITION_TABLE (run_state s, e) = Some n" and
    cases: "e' = e \<and> n' = n \<or>
         e = CONFIGURATION_SUCCEEDED \<and> e' = CONFIGURATION_FAILED \<and> n' = S_CONNECTED
           \<and> run_state s = S_CONFIGURING" and
    acc: "dispatch_event e' ctx' n' requested s = (True, s')"
    by (rule process_accepted)
  from cases show ?thesis
  proof
    assume "e' = e \<and> n' = n"
    with acc tab show ?thesis by (auto intro: dispatch_refines)
  next
    assume *: "e = CONFIGURATION_SUCCEEDED \<and> e' = CONFIGURATION_FAILED \<and> n' = S_CONNECTED
           \<and> run_state s = S_CONFIGURING"
    with dispatch_fsm[OF acc, unfolded target_prepare] dispatch_accepted(1)[OF acc]
    show ?thesis by (auto simp: fsm_of_def intro: fsm_step.not_configured)
  qed
qed

lemma process_event_rejected:
  assumes "process_event e r src c err md requested now s = (False, s')"
  shows "s' = s \<or>
    e = CONFIGURATION_STARTED \<and> run_state s \<in> {S_CONNECTED, S_READY} \<and>
    s' = s\<lparr>pending_configuration_source := Some (run_state s)\<rparr>"
proof (rule ccontr)
  assume neg: "\<not> ?thesis"
  then have ne: "s' \<noteq> s" by blast
  obtain n e' ctx' n' where
    tab: "dict_get TRANSITION_TABLE (run_state s, e) = Some n" and
    cases: "e' = e \<and> n' = n \<or>
         e = CONFIGURATION_SUCCEEDED \<and> e' = CONFIGURATION_FAILED \<and> n' = S_CONNECTED" and
    rej: "dispatch_event e' ctx' n' requested s = (False, s')"
    by (rule process_rejected[OF assms ne])
  from dispatch_rejected[OF rej] ne obtain n2 where
    prep: "s' = prepare_event e' ctx' n' requested s" and
    none: "apply_event e' ctx' n2 s' = None" by blast
  have "e' \<in> {CONFIGURATION_STARTED, CONFIGURATION_SUCCEEDED, CONFIGURATION_FAILED, ACQUISITION_STARTED}"
    using none by (rule apply_event_None)
  with cases tab have "n' \<noteq> S_FINALIZING \<and> (e' = CONFIGURATION_STARTED \<longrightarrow>
      e = CONFIGURATION_STARTED \<and> run_state s \<in> {S_CONNECTED, S_READY} \<and> n' = S_CONFIGURING)"
    by (elim insertE) (auto dest: table_configuration)
  then have "s' = s \<or> e = CONFIGURATION_STARTED \<and> run_state s \<in> {S_CONNECTED, S_READY} \<and>
      s' = s\<lparr>pending_configuration_source := Some (run_state s)\<rparr>"
    unfolding prep by (cases "e' = CONFIGURATION_STARTED") (auto simp: prepare_event_def)
  with neg show False by blast
qed

lemma pending_process_event:
  assumes "pending_ok s"
  shows "pending_ok (snd (process_event e r src c err md requested now s))"
proof -
  obtain b s' where res: "process_event e r src c err md requested now s = (b, s')" by force
  show ?thesis
  proof (cases b)
    case True
    with res have acc: "process_event e r src c err md requested now s = (True, s')" by simp
    have "\<forall>t. requested = Some t \<longrightarrow> t \<in> set ALLOWED_PENDING_TERMINAL_STATES"
      using acc by (rule process_accepted)
    moreover have "fsm_step e requested (fsm_of s) (fsm_of s')"
      using process_event_fsm_step[OF acc] .
    ultimately show ?thesis
      using res assms by (auto simp: pending_ok_fsm intro: fsm_step_pending)
  next
    case False
    with res have "process_event e r src c err md requested now s = (False, s')" by simp
    from process_event_rejected[OF this] res assms show ?thesis by (auto simp: pending_ok_def split: option.splits)
  qed
qed

lemmas call_defs = set_mode_def process_client_event_def reset_to_disconnected_def
  clear_pending_transition_def add_control_client_def remove_acquisition_client_def
  clear_acquisition_clients_def add_acquisition_client_def remove_client_def forget_client_def
  set_operational_clients_def remove_operational_client_def set_client_hv_parameters_def
  set_calibration_excluded_channels_def add_monitoring_client_def remove_monitoring_client_def
  clear_monitoring_clients_def set_configuration_identity_def set_operational_def
  clear_operational_def

lemma pending_exec_call: "pending_ok s \<Longrightarrow> pending_ok (exec_call c s)"
proof (cases c)
  case (ProcessEvent e r src c' err md t now)
  then show "pending_ok s \<Longrightarrow> ?thesis" by (simp add: pending_process_event)
qed (auto simp: or_same_def call_defs pending_ok_def Let_def split: option.splits sum.splits if_splits)

interpretation pending: kept_invariant server_start exec_call pending_ok
proof unfold_locales
  fix s assume "server_start s"
  then have "pending_terminal_state s = None \<and> pending_configuration_source s = None"
    unfolding server_start_def init_server_state_def by (metis server_state.select_convs(6,8))
  then show "pending_ok s" by (simp add: pending_ok_def)
qed (rule pending_exec_call)

section \<open>Effect of the events on the clients\<close>

lemma id_bytes_Some: "id_bytes x = Some b \<longleftrightarrow> x = IdBytes b \<and> b \<noteq> []"
  by (cases x) auto

lemma normalize_ids_distinct: "normalize_client_ids m d = Inr cs \<Longrightarrow> distinct cs"
proof -
  have "distinct (List.map_filter id_bytes xs)" if "distinct xs" for xs
    using that
  proof (induction xs)
    case (Cons x xs)
    have "b \<notin> set (List.map_filter id_bytes xs)" if "id_bytes x = Some b" for b
    proof
      assume "b \<in> set (List.map_filter id_bytes xs)"
      then obtain y where "y \<in> set xs" "id_bytes y = Some b"
        by (auto simp: List.map_filter_def)
      then have "y = x" using that by (simp add: id_bytes_Some)
      with \<open>y \<in> set xs\<close> Cons.prems show False by simp
    qed
    with Cons show ?case by (auto simp: List.map_filter_simps split: option.splits)
  qed (simp add: List.map_filter_simps)
  then show "normalize_client_ids m d = Inr cs \<Longrightarrow> distinct cs"
    by (auto simp: normalize_client_ids_def normalize_ids_def Let_def split: meta_ids.splits if_splits)
qed

text \<open>The states of the clients under configuration after its result.\<close>

lemma configuration_succeeded_clients:
  assumes inv: "registry_ok s" and app: "apply_configuration_succeeded ctx s = Some s'"
  shows "list_clients_in_state C_CONFIGURING s' = [] \<and> operational_client_ids s' \<noteq> []"
proof -
  have "apply_event CONFIGURATION_SUCCEEDED ctx S_READY s = Some s'"
    using app by (simp add: apply_event_def)
  with inv have inv': "registry_ok s'" by (rule registry_apply_event)
  from app obtain su fa s1 where d: "distinct su" "distinct fa" and ne: "su \<noteq> []"
    and conf: "set (su @ fa) = set (list_clients_in_state C_CONFIGURING s)"
    and com: "\<forall>c \<in> set su. c \<in> set (common_plane_client_ids s)"
    and s1: "s1 \<in> {mark_operational True su s, set_operational su s}"
    and s': "s' = set_client_states fa C_ERROR ctx (set_client_states su C_READY ctx s1)"
    by (fastforce simp: apply_configuration_succeeded_def Let_def list_ex_iff
        split: sum.splits if_splits dest!: normalize_ids_distinct)
  have "c \<notin> set (list_clients_in_state C_CONFIGURING s')" for c
  proof -
    have "c \<in> set su \<or> c \<in> set fa \<longleftrightarrow> (\<exists>r. dict_get (clients s) c = Some r \<and> state r = C_CONFIGURING)"
      using conf in_state[OF inv] by (metis Un_iff set_append)
    then show ?thesis
      unfolding in_state[OF inv'] using d s1 by (cases "c \<in> set fa"; cases "c \<in> set su")
        (auto simp: s' get_set_client_states dict_simps)
  qed
  moreover obtain c where c: "c \<in> set su" using ne by (cases su) auto
  then obtain r where "dict_get (clients s) c = Some r" using com in_common[OF inv] by blast
  with c d s1 have "c \<in> set (operational_client_ids s')"
    unfolding in_operational[OF inv'] by (auto simp: s' get_set_client_states dict_simps)
  ultimately show ?thesis by (metis list.set_intros(1) neq_Nil_conv empty_iff list.set(1))
qed

lemma configuration_failed_clients:
  assumes inv: "registry_ok s" and app: "apply_configuration_failed ctx s = Some s'"
  shows "list_clients_in_state C_CONFIGURING s' = []"
proof -
  have "apply_event CONFIGURATION_FAILED ctx S_CONNECTED s = Some s'"
    using app by (simp add: apply_event_def)
  with inv have inv': "registry_ok s'" by (rule registry_apply_event)
  from app obtain fa s1 where d: "distinct fa"
    and conf: "set fa = set (list_clients_in_state C_CONFIGURING s)"
    and s1: "s1 \<in> {mark_operational False fa s, clear_operational s}"
    and s': "s' = set_client_states fa C_ERROR ctx s1"
    by (fastforce simp: apply_configuration_failed_def Let_def
        split: sum.splits if_splits dest!: normalize_ids_distinct)
  have "c \<notin> set (list_clients_in_state C_CONFIGURING s')" for c
  proof -
    have "c \<in> set fa \<longleftrightarrow> (\<exists>r. dict_get (clients s) c = Some r \<and> state r = C_CONFIGURING)"
      using conf in_state[OF inv] by metis
    then show ?thesis
      unfolding in_state[OF inv'] using d s1 by (cases "c \<in> set fa")
        (auto simp: s' get_set_client_states dict_simps)
  qed
  then show ?thesis by (metis list.set_intros(1) neq_Nil_conv)
qed

lemma acquisition_started_clients:
  assumes inv: "registry_ok s" and app: "apply_acquisition_started ctx s = Some s'"
  shows "operational_client_ids s' \<noteq> []"
    and "c \<in> set (operational_client_ids s') \<Longrightarrow>
      \<exists>r r'. dict_get (clients s) c = Some r \<and> operational r \<and> state r = C_READY \<and>
             dict_get (clients s') c = Some r' \<and> state r' = C_ACQUIRING"
proof -
  have "apply_event ACQUISITION_STARTED ctx S_ACQUIRING s = Some s'"
    using app by (simp add: apply_event_def)
  with inv have inv': "registry_ok s'" by (rule registry_apply_event)
  from app obtain ac where d: "distinct ac" and ne: "ac \<noteq> []"
    and op: "\<forall>c \<in> set ac. c \<in> set (operational_client_ids s) \<and>
        \<not> (case dict_get (clients s) c of None \<Rightarrow> True | Some r \<Rightarrow> state r \<noteq> C_READY)"
    and s': "s' = set_client_states ac C_ACQUIRING ctx (set_operational ac s)"
    by (auto simp: apply_acquisition_started_def Let_def list_ex_iff
        split: sum.splits if_splits dest!: normalize_ids_distinct)
  have iff: "c \<in> set (operational_client_ids s') \<longleftrightarrow> c \<in> set ac" for c
    using op d unfolding in_operational[OF inv'] in_operational[OF inv]
    by (auto simp: s' get_set_client_states dict_simps)
  show "operational_client_ids s' \<noteq> []" using ne iff by (metis list.set_intros(1) neq_Nil_conv empty_iff list.set(1))
  show "\<exists>r r'. dict_get (clients s) c = Some r \<and> operational r \<and> state r = C_READY \<and>
             dict_get (clients s') c = Some r' \<and> state r' = C_ACQUIRING"
    if "c \<in> set (operational_client_ids s')"
    using that[unfolded iff] op d unfolding in_operational[OF inv]
    by (fastforce simp: s' get_set_client_states dict_simps split: option.splits)
qed

section \<open>Properties\<close>

text \<open>
  Claim C2. After any sequence of calls on a new server, every registered client is on the
  control plane, an operational client is on both planes, and therefore the clients that
  acquisition commands may target are all connected on both planes.
\<close>

theorem acquisition_commands_on_both_planes:
  "let s = fold exec_call cs (init_server_state m) in
   registry_ok s \<and>
   set (get_acquisition_command_clients s) \<subseteq> set (common_plane_client_ids s)"
  using registry.inv_run[OF server_start_init] operational_common
  by (auto simp: Let_def get_acquisition_command_clients_def)

text \<open>
  In every reachable state \<open>can_start_acquisition\<close> holds exactly when the server is
  READY and some client is operational: the check that the operational clients are on both
  planes never fails.
\<close>

theorem can_start_acquisition_iff:
  "let s = fold exec_call cs (init_server_state m) in
   can_start_acquisition s \<longleftrightarrow> run_state s = S_READY \<and> operational_client_ids s \<noteq> []"
  using operational_common[OF registry.inv_run[OF server_start_init]]
  by (auto simp: Let_def can_start_acquisition_def list_all_iff)


text \<open>
  After any sequence of calls, a pending terminal state exists only while the server is
  FINALIZING and is one of the allowed ones, and a configuration can only have been started from
  CONNECTED or READY.
\<close>

theorem pending_only_while_finalizing:
  "pending_ok (fold exec_call cs (init_server_state m))"
  by (rule pending.inv_run[OF server_start_init])

text \<open>A run that ends with one client acquiring, used by the witnesses.\<close>

definition demo_event :: "ServerFSMEvent \<Rightarrow> metadata \<Rightarrow> server_call" where
  "demo_event e md = ProcessEvent e ''r'' ''s'' None None md None 0"

definition demo_configuring :: "server_call list" where
  "demo_configuring =
    [AddControlClient ''c'' None 0, demo_event CONTROL_CONNECTION_SUCCEEDED no_metadata,
     AddAcquisitionClient ''c'', demo_event ACQUISITION_CONNECTION_SUCCEEDED no_metadata,
     demo_event CONFIGURATION_STARTED no_metadata]"

definition demo_ready :: "server_call list" where
  "demo_ready = demo_configuring @
    [demo_event CONFIGURATION_SUCCEEDED
       (no_metadata\<lparr>successful_clients := Given [IdBytes ''c'']\<rparr>)]"

definition demo_state :: "server_call list \<Rightarrow> server_state" where
  "demo_state cs = fold exec_call cs (init_server_state ''test'')"

lemma demo_registry: "registry_ok (demo_state cs)"
  unfolding demo_state_def by (rule registry.inv_run[OF server_start_init])

text \<open>
  Claim C1. Every event that \<open>process_event\<close> accepts is a step of the abstract machine: the
  table's target, the state the configuration was started from when it fails (also when every
  successful client was lost meanwhile), the pending terminal state when a finalization ends.
\<close>

theorem process_event_refines_fsm:
  assumes "process_event e r src c err md requested now s = (True, s')"
  shows "fsm_step e requested (fsm_of s) (fsm_of s')"
  using assms by (rule process_event_fsm_step)

theorem process_event_refines_fsm_witness:
  "let s = demo_state (demo_ready @ [demo_event ACQUISITION_STARTED no_metadata]);
       (ok, s') = process_event DISCONNECT_REQUESTED ''r'' ''s'' None None no_metadata None 0 s
   in ok \<and> fsm_step DISCONNECT_REQUESTED None (fsm_of s) (fsm_of s')
      \<and> fsm_of s' = (S_FINALIZING, Some S_DISCONNECTED, None)"
proof -
  let ?s = "demo_state (demo_ready @ [demo_event ACQUISITION_STARTED no_metadata])"
  let ?p = "process_event DISCONNECT_REQUESTED ''r'' ''s'' None None no_metadata None 0 ?s"
  have ok: "fst ?p \<and> fsm_of (snd ?p) = (S_FINALIZING, Some S_DISCONNECTED, None)" by code_simp
  then have "?p = (True, snd ?p)" by (metis prod.collapse)
  from process_event_refines_fsm[OF this] ok show ?thesis
    by (auto simp: Let_def case_prod_beta)
qed

text \<open>
  Claim C6. An event that \<open>process_event\<close> rejects leaves the whole state as it was, except that a
  rejected CONFIGURATION_STARTED has already stored the state it was issued in.
\<close>

theorem rejected_event_keeps_state:
  assumes "process_event e r src c err md requested now s = (False, s')"
  shows "s' = s \<or>
    e = CONFIGURATION_STARTED \<and> run_state s \<in> {S_CONNECTED, S_READY} \<and>
    s' = s\<lparr>pending_configuration_source := Some (run_state s)\<rparr>"
  using assms by (rule process_event_rejected)

theorem rejected_event_keeps_state_witness:
  "let s = demo_state demo_ready;
       (ok, s') = process_event STOP_REQUESTED ''r'' ''s'' None None no_metadata None 0 s
   in \<not> ok \<and> s' = s"
proof -
  let ?p = "process_event STOP_REQUESTED ''r'' ''s'' None None no_metadata None 0
     (demo_state demo_ready)"
  have "\<not> fst ?p" by code_simp
  then have "?p = (False, snd ?p)" by (metis prod.collapse)
  from rejected_event_keeps_state[OF this] \<open>\<not> fst ?p\<close> show ?thesis
    by (auto simp: Let_def case_prod_beta)
qed



text \<open>
  Claim C3. When ACQUISITION_STARTED is accepted, the server is ACQUIRING, at least one client is
  operational, and every operational client was an operational client in READY before and is
  ACQUIRING now.
\<close>

theorem acquisition_starts_on_ready_clients:
  assumes inv: "registry_ok s"
    and acc: "process_event ACQUISITION_STARTED r src c err md requested now s = (True, s')"
  shows "run_state s = S_READY \<and> run_state s' = S_ACQUIRING \<and> operational_client_ids s' \<noteq> [] \<and>
    list_all (\<lambda>c. \<exists>r r'. dict_get (clients s) c = Some r \<and> operational r \<and> state r = C_READY \<and>
        dict_get (clients s') c = Some r' \<and> state r' = C_ACQUIRING) (operational_client_ids s')"
proof -
  obtain n e' ctx' n' where
    tab: "dict_get TRANSITION_TABLE (run_state s, ACQUISITION_STARTED) = Some n" and
    cases: "e' = ACQUISITION_STARTED \<and> n' = n \<or>
         ACQUISITION_STARTED = CONFIGURATION_SUCCEEDED \<and> e' = CONFIGURATION_FAILED \<and> n' = S_CONNECTED
           \<and> run_state s = S_CONFIGURING" and
    disp: "dispatch_event e' ctx' n' requested s = (True, s')"
    by (rule process_accepted[OF acc])
  from cases tab have e': "e' = ACQUISITION_STARTED" "run_state s = S_READY" "n' = S_ACQUIRING"
    by (auto dest: table_configuration)
  let ?s1 = "prepare_event e' ctx' n' requested s"
  from dispatch_accepted(2)[OF disp] obtain s2 where
    app: "apply_event e' ctx' (target_state e' n' ?s1) ?s1 = Some s2" and
    s': "s' = commit_event (run_state s) e' ctx' (target_state e' n' ?s1) s2" by blast
  from app e' have "apply_acquisition_started ctx' ?s1 = Some s2" by (simp add: apply_event_def)
  moreover have "registry_ok ?s1" using inv by simp
  ultimately show ?thesis
    using acquisition_started_clients[of ?s1 ctx' s2] e'
    by (simp add: s' target_prepare list_all_iff)
qed

theorem acquisition_starts_on_ready_clients_witness:
  "let s = demo_state demo_ready;
       (ok, s') = process_event ACQUISITION_STARTED ''r'' ''s'' None None no_metadata None 0 s
   in ok \<and> run_state s' = S_ACQUIRING \<and> operational_client_ids s' = [''c''] \<and>
      map_option state (dict_get (clients s') ''c'') = Some C_ACQUIRING"
proof -
  let ?p = "process_event ACQUISITION_STARTED ''r'' ''s'' None None no_metadata None 0
     (demo_state demo_ready)"
  have ok: "fst ?p \<and> operational_client_ids (snd ?p) = [''c'']" by code_simp
  then have "?p = (True, snd ?p)" by (metis prod.collapse)
  from acquisition_starts_on_ready_clients[OF demo_registry this] ok show ?thesis
    by (auto simp: Let_def case_prod_beta)
qed

text \<open>The state of a client that took part in an acquisition, for each terminal state.\<close>

fun client_after_finalization :: "ServerFSM \<Rightarrow> ClientFSM" where
  "client_after_finalization S_READY = C_READY"
| "client_after_finalization S_DISCONNECTED = C_DISCONNECTED"
| "client_after_finalization S_ERROR = C_ERROR"
| "client_after_finalization _ = C_CONNECTED"

lemma apply_finalization_client:
  assumes inv: "registry_ok s" and r: "dict_get (clients s) c = Some r" and op: "operational r"
    and t: "pending_terminal_state s = Some t" "t \<in> set ALLOWED_PENDING_TERMINAL_STATES"
  shows "\<exists>r'. dict_get (clients (apply_finalization ctx s)) c = Some r' \<and>
     state r' = client_after_finalization t \<and> operational r' = (t = S_READY)"
proof -
  have c: "c \<in> set (operational_client_ids s)" using r op by (auto simp: in_operational[OF inv])
  have ctrl: "on_control_plane r" using registry_get[OF inv r] by (simp add: rec_ok_def)
  show ?thesis
  proof (cases "t = S_READY")
    case True
    with t c r op show ?thesis
      by (simp add: apply_finalization_def get_set_client_states distinct_operational[OF inv])
  next
    case False
    with t have "t \<in> {S_CONTROL_CONNECTED, S_DISCONNECTED, S_CONNECTED, S_ERROR}"
      by (auto simp: ALLOWED_PENDING_TERMINAL_STATES_def)
    with False t c r ctrl show ?thesis
      by (auto simp: apply_finalization_def get_fold_finalize distinct_operational[OF inv]
          final_state_def)
  qed
qed

text \<open>
  Claim C5. A finalization that ends, well or not, always brings the server to the pending terminal
  state and clears it; every client of the acquisition moves to the matching state, and stays
  operational exactly when the server is READY again.
\<close>

theorem finalization_reaches_pending_state:
  assumes inv: "registry_ok s" and fin: "run_state s = S_FINALIZING"
    and t: "pending_terminal_state s = Some t" "t \<in> set ALLOWED_PENDING_TERMINAL_STATES"
    and e: "e \<in> {FINALIZATION_SUCCEEDED, FINALIZATION_FAILED}"
    and txts: "strip r \<noteq> []" "strip src \<noteq> []"
  shows "\<exists>s'. process_event e r src c err md None now s = (True, s') \<and>
    run_state s' = t \<and> pending_terminal_state s' = None \<and>
    list_all (\<lambda>c. \<exists>r'. dict_get (clients s') c = Some r' \<and>
      state r' = client_after_finalization t \<and> operational r' = (t = S_READY))
      (operational_client_ids s)"
proof -
  let ?ctx = "build_event_context e r src c err md now"
  let ?s' = "commit_event S_FINALIZING e ?ctx t (apply_finalization ?ctx s)"
  have "t \<noteq> S_FINALIZING" using t by (auto simp: ALLOWED_PENDING_TERMINAL_STATES_def)
  moreover have "dict_get TRANSITION_TABLE (S_FINALIZING, e) = Some S_READY"
    using e by (auto simp: TRANSITION_TABLE_def)
  ultimately have "process_event e r src c err md None now s = (True, ?s')"
    using e txts fin t
    by (auto simp: process_event_def Let_def dispatch_event_def prepare_event_def
        target_state_def apply_event_def)
  moreover have "pending_terminal_state ?s' = None"
    using e by (auto simp: commit_event_def Let_def)
  ultimately show ?thesis
    using apply_finalization_client[OF inv _ _ t, of _ _ ?ctx]
    by (auto simp: list_all_iff in_operational[OF inv])
qed

theorem finalization_reaches_pending_state_witness:
  "let s = demo_state (demo_ready @ [demo_event ACQUISITION_STARTED no_metadata,
             demo_event CONTROL_CONNECTION_LOST no_metadata])
   in \<exists>s'. process_event FINALIZATION_FAILED ''r'' ''s'' None None no_metadata None 0 s = (True, s') \<and>
      run_state s' = S_DISCONNECTED \<and> operational_client_ids s = [''c''] \<and>
      map_option state (dict_get (clients s') ''c'') = Some C_DISCONNECTED"
proof -
  let ?s = "demo_state (demo_ready @ [demo_event ACQUISITION_STARTED no_metadata,
             demo_event CONTROL_CONNECTION_LOST no_metadata])"
  have h: "run_state ?s = S_FINALIZING" "pending_terminal_state ?s = Some S_DISCONNECTED"
    "S_DISCONNECTED \<in> set ALLOWED_PENDING_TERMINAL_STATES" "strip ''r'' \<noteq> []" "strip ''s'' \<noteq> []"
    by code_simp+
  have op: "operational_client_ids ?s = [''c'']" by code_simp
  from finalization_reaches_pending_state[OF demo_registry h(1-3) _ h(4,5), of FINALIZATION_FAILED None None no_metadata 0]
  show ?thesis by (auto simp: Let_def op)
qed

text \<open>
  A client event is accepted exactly when the client is registered and the client table
  has the transition; it then changes the state of that client only.
\<close>

theorem client_event_touches_one_client:
  assumes "cid \<noteq> []" and "strip r \<noteq> []" and "strip src \<noteq> []"
    and "process_client_event cid e r src err md now s = (ok, s')"
  shows "(ok \<longleftrightarrow> (\<exists>rec. dict_get (clients s) cid = Some rec \<and>
            dict_get TRANSITION_TABLE_CLIENT (state rec, e) \<noteq> None)) \<and>
    (\<not> ok \<longrightarrow> s' = s) \<and>
    (ok \<longrightarrow> (\<forall>k. k \<noteq> cid \<longrightarrow> dict_get (clients s') k = dict_get (clients s) k) \<and>
      fsm_of s' = fsm_of s \<and>
      map_option state (dict_get (clients s') cid) =
        dict_get TRANSITION_TABLE_CLIENT (state (the (dict_get (clients s) cid)), e))"
  using assms
  by (auto simp: process_client_event_def Let_def fsm_of_def dict_simps split: option.splits if_splits)

theorem client_event_touches_one_client_witness:
  "let s = demo_state demo_ready;
       (ok, s') = process_client_event ''c'' CE_ACQUISITION_PLANE_LOST ''r'' ''s'' None no_metadata 0 s
   in ok \<and> fsm_of s' = fsm_of s \<and> map_option state (dict_get (clients s') ''c'') = Some C_CONNECTED"
proof -
  let ?s = "demo_state demo_ready"
  let ?p = "process_client_event ''c'' CE_ACQUISITION_PLANE_LOST ''r'' ''s'' None no_metadata 0 ?s"
  have h: "strip ''r'' \<noteq> []" "strip ''s'' \<noteq> []" "?p = (fst ?p, snd ?p)" by code_simp+
  have ok: "fst ?p \<and> dict_get TRANSITION_TABLE_CLIENT
      (state (the (dict_get (clients ?s) ''c'')), CE_ACQUISITION_PLANE_LOST) = Some C_CONNECTED"
    by code_simp
  from client_event_touches_one_client[OF _ h] ok show ?thesis
    by (simp add: Let_def case_prod_beta)
qed

end
