(* ===== verification/PyText.thy ===== *)
theory PyText
  imports Prelude
begin

text \<open>
  The parts of Python's text handling that the program uses: decimal numbers (\<open>str(n)\<close>,
  \<open>int(s)\<close>) and \<open>str.split\<close>. A string is the list of the bytes of its UTF-8 encoding;
  \<open>int\<close> accepts ASCII digits, one underscore between digits, a sign and surrounding white space.
\<close>

section \<open>Decimal digits\<close>

definition digit_char :: "nat \<Rightarrow> char" where
  "digit_char d = char_of (48 + d)"

definition is_digit :: "char \<Rightarrow> bool" where
  "is_digit c \<longleftrightarrow> 48 \<le> (of_char c :: nat) \<and> (of_char c :: nat) \<le> 57"

definition digit_val :: "char \<Rightarrow> nat" where
  "digit_val c = of_char c - 48"

fun dec :: "nat \<Rightarrow> string" where
  "dec n = (if n < 10 then [digit_char n] else dec (n div 10) @ [digit_char (n mod 10)])"

declare dec.simps [simp del]

definition undec :: "string \<Rightarrow> nat" where
  "undec = foldl (\<lambda>a c. 10 * a + digit_val c) 0"

definition str_int :: "int \<Rightarrow> string" where
  "str_int n = (if n < 0 then CHR ''-'' # dec (nat (- n)) else dec (nat n))"

lemma of_char_digit [simp]: "d < 10 \<Longrightarrow> (of_char (digit_char d) :: nat) = 48 + d"
  by (simp add: digit_char_def)

lemma digit_val_digit [simp]: "d < 10 \<Longrightarrow> digit_val (digit_char d) = d"
  by (simp add: digit_val_def)

lemma is_digit_digit [simp]: "d < 10 \<Longrightarrow> is_digit (digit_char d)"
  by (simp add: is_digit_def)

lemma dec_digits: "c \<in> set (dec n) \<Longrightarrow> is_digit c"
proof (induction n rule: dec.induct)
  case (1 n)
  have "c \<in> set (if n < 10 then [digit_char n] else dec (n div 10) @ [digit_char (n mod 10)])"
    using 1(2) by (subst (asm) dec.simps)
  with 1(1) show ?case by (auto split: if_splits)
qed

lemma undec_snoc [simp]: "undec (xs @ [c]) = 10 * undec xs + digit_val c"
  by (simp add: undec_def)

lemma undec_dec [simp]: "undec (dec n) = n"
proof (induction n rule: dec.induct)
  case (1 n)
  then show ?case
    by (subst dec.simps) (auto simp: undec_def)
qed

lemma dec_not_Nil [simp]: "dec n \<noteq> []"
  by (subst dec.simps) simp

lemma dec_head: "0 < n \<Longrightarrow> hd (dec n) \<noteq> CHR ''0''"
proof (induction n rule: dec.induct)
  case (1 n)
  show ?case
  proof (cases "n < 10")
    case True
    have "of_char (digit_char n) \<noteq> (of_char (CHR ''0'') :: nat)"
      using 1 True by simp
    then have "digit_char n \<noteq> CHR ''0''" by metis
    with True show ?thesis by (subst dec.simps) simp
  next
    case False
    then show ?thesis using 1 by (subst dec.simps) simp
  qed
qed

lemma dec_0 [simp]: "dec 0 = ''0''"
  by code_simp

section \<open>\<open>int(s)\<close> and \<open>s.split(sep)\<close>\<close>

text \<open>Digits with single underscores between them.\<close>

fun int_digits :: "string \<Rightarrow> string option" where
  "int_digits [] = None"
| "int_digits [c] = (if is_digit c then Some [c] else None)"
| "int_digits (c # d # cs) =
    (if \<not> is_digit c then None
     else map_option ((#) c) (int_digits (if d = CHR ''_'' then cs else d # cs)))"

fun int_unsigned :: "string \<Rightarrow> int option" where
  "int_unsigned s = map_option (\<lambda>ds. int (undec ds)) (int_digits s)"

definition py_int :: "string \<Rightarrow> int option" where
  "py_int text =
    (case strip text of
       [] \<Rightarrow> None
     | c # cs \<Rightarrow>
         if c = CHR ''-'' then map_option uminus (int_unsigned cs)
         else if c = CHR ''+'' then int_unsigned cs
         else int_unsigned (c # cs))"

text \<open>
  \<open>int(s, 0)\<close>: the base is taken from the prefix; a decimal literal has no leading zeros, except
  zero itself, and an underscore may follow the prefix.
\<close>

definition base_digit :: "nat \<Rightarrow> char \<Rightarrow> nat option" where
  "base_digit b c =
    (let n = (of_char c :: nat);
         d = (if is_digit c then n - 48 else if 97 \<le> n \<and> n \<le> 122 then n - 87
              else if 65 \<le> n \<and> n \<le> 90 then n - 55 else 99)
     in if d < b then Some d else None)"

fun based_digits :: "nat \<Rightarrow> string \<Rightarrow> nat list option" where
  "based_digits b [] = None"
| "based_digits b [c] = map_option (\<lambda>d. [d]) (base_digit b c)"
| "based_digits b (c # d # cs) =
    (case base_digit b c of
       None \<Rightarrow> None
     | Some x \<Rightarrow> map_option ((#) x) (based_digits b (if d = CHR ''_'' then cs else d # cs)))"

definition based_value :: "nat \<Rightarrow> string \<Rightarrow> int option" where
  "based_value b s = map_option (foldl (\<lambda>a d. int b * a + int d) 0) (based_digits b s)"

definition literal_base0 :: "string \<Rightarrow> int option" where
  "literal_base0 s =
    (case s of
       c # p # rest \<Rightarrow>
         let body = (case rest of u # r \<Rightarrow> if u = CHR ''_'' then r else rest | [] \<Rightarrow> rest) in
         if c = CHR ''0'' \<and> (p = CHR ''x'' \<or> p = CHR ''X'') then based_value 16 body
         else if c = CHR ''0'' \<and> (p = CHR ''o'' \<or> p = CHR ''O'') then based_value 8 body
         else if c = CHR ''0'' \<and> (p = CHR ''b'' \<or> p = CHR ''B'') then based_value 2 body
         else if c = CHR ''0'' then
           (if based_value 10 s = Some 0 then Some 0 else None)
         else based_value 10 s
     | _ \<Rightarrow> based_value 10 s)"

definition py_int_base0 :: "string \<Rightarrow> int option" where
  "py_int_base0 txt =
    (case strip txt of
       [] \<Rightarrow> None
     | c # cs \<Rightarrow>
         if c = CHR ''-'' then map_option uminus (literal_base0 cs)
         else if c = CHR ''+'' then literal_base0 cs
         else literal_base0 (c # cs))"

fun split_on :: "char \<Rightarrow> string \<Rightarrow> string list" where
  "split_on sep [] = [[]]"
| "split_on sep (c # cs) =
    (if c = sep then [] # split_on sep cs
     else (case split_on sep cs of [] \<Rightarrow> [[c]] | p # ps \<Rightarrow> (c # p) # ps))"

fun join_with :: "string \<Rightarrow> string list \<Rightarrow> string" where
  "join_with sep [] = []"
| "join_with sep [x] = x"
| "join_with sep (x # y # ys) = x @ sep @ join_with sep (y # ys)"

fun map_result :: "('a \<Rightarrow> 'b option) \<Rightarrow> 'a list \<Rightarrow> 'b list option" where
  "map_result f [] = Some []"
| "map_result f (x # xs) =
    (case f x of None \<Rightarrow> None
     | Some y \<Rightarrow> map_option ((#) y) (map_result f xs))"

lemma map_result_Some:
  "map_result f xs = Some ys \<longleftrightarrow> map f xs = map Some ys"
  by (induction xs arbitrary: ys) (auto split: option.splits simp: Cons_eq_map_conv)

lemma int_digits_all: "xs \<noteq> [] \<Longrightarrow> (\<And>c. c \<in> set xs \<Longrightarrow> is_digit c) \<Longrightarrow> int_digits xs = Some xs"
proof (induction xs rule: int_digits.induct)
  case (3 c d cs)
  have "is_digit d" using 3 by simp
  then have "d \<noteq> CHR ''_''" by (auto simp: is_digit_def)
  with 3 show ?case by simp
qed simp_all

lemma is_digit_not_space [simp]: "is_digit c \<Longrightarrow> \<not> py_space c"
  by (auto simp: is_digit_def py_space_def Let_def)

lemma strip_nonspace:
  assumes "xs \<noteq> []" "\<not> py_space (hd xs)" "\<not> py_space (last xs)"
  shows "strip xs = xs"
proof -
  have "dropWhile py_space xs = xs" using assms by (cases xs) auto
  moreover have "dropWhile py_space (rev xs) = rev xs"
    using assms by (cases xs rule: rev_cases) auto
  ultimately show ?thesis by (simp add: strip_def strip_by_def)
qed

lemma last_dec_digit: "is_digit (last (dec n))"
  by (rule dec_digits[of _ n]) simp

lemma hd_dec_digit: "is_digit (hd (dec n))"
  by (rule dec_digits[of _ n]) simp

lemma py_int_str_int [simp]: "py_int (str_int n) = Some n"
proof -
  have u: "int_unsigned (dec k) = Some (int k)" for k
    by (simp add: int_digits_all dec_digits)
  have nd: "hd (dec k) \<noteq> CHR ''-'' \<and> hd (dec k) \<noteq> CHR ''+''" for k
    using hd_dec_digit[of k] by (auto simp: is_digit_def)
  show ?thesis
  proof (cases "n < 0")
    case True
    then have "strip (str_int n) = str_int n"
      using is_digit_not_space[OF last_dec_digit]
      by (intro strip_nonspace) (simp_all add: str_int_def py_space_def[of "CHR ''-''"])
    with True u show ?thesis by (simp add: py_int_def str_int_def del: int_unsigned.simps)
  next
    case False
    then have "strip (str_int n) = str_int n"
      using last_dec_digit hd_dec_digit by (intro strip_nonspace) (auto simp: str_int_def)
    moreover obtain c cs where "dec (nat n) = c # cs" by (metis list.exhaust dec_not_Nil)
    ultimately show ?thesis
      using False u[of "nat n"] nd[of "nat n"]
      by (simp add: py_int_def str_int_def del: int_unsigned.simps)
  qed
qed

lemma split_on_nonempty [simp]: "split_on sep s \<noteq> []"
  by (cases s) (auto split: list.splits)

lemma split_on_append:
  "sep \<notin> set xs \<Longrightarrow> split_on sep (xs @ sep # ys) = xs # split_on sep ys"
  by (induction xs) auto

lemma split_on_none: "sep \<notin> set xs \<Longrightarrow> split_on sep xs = [xs]"
  by (induction xs) auto

lemma split_join:
  "xs \<noteq> [] \<Longrightarrow> (\<And>x. x \<in> set xs \<Longrightarrow> sep \<notin> set x) \<Longrightarrow> split_on sep (join_with [sep] xs) = xs"
  by (induction "[sep]" xs rule: join_with.induct) (simp_all add: split_on_none split_on_append)

end
