(* ===== verification/Json.thy ===== *)
theory Json
  imports PyText
begin

text \<open>
  The JSON text format as Python's \<open>json\<close> module writes and reads it, with the options the
  program uses (\<open>separators=(",", ":")\<close>, \<open>ensure_ascii=False\<close>), and UTF-8 validity. The decimal
  text of a finite float is a parameter: \<open>float_repr\<close> (\<open>float.__repr__\<close>) and \<open>float_of\<close>
  (\<open>float(text)\<close>); \<open>float_ok\<close> states for one float the documented
  \<open>float(repr(x)) == x\<close>. Python's limits on nesting depth and on the length of integers are
  not modelled.
\<close>

section \<open>Characters\<close>

abbreviation quote_ch :: char where "quote_ch \<equiv> CHR 0x22"
abbreviation backslash :: char where "backslash \<equiv> CHR 0x5C"

definition json_ws :: "char \<Rightarrow> bool" where
  "json_ws c \<longleftrightarrow> c \<in> {CHR '' '', CHR 0x09, CHR 0x0A, CHR 0x0D}"

definition skip_ws :: "string \<Rightarrow> string" where
  "skip_ws = dropWhile json_ws"

definition hex_digit :: "nat \<Rightarrow> char" where
  "hex_digit d = (if d < 10 then char_of (48 + d) else char_of (87 + d))"

definition hex_val :: "char \<Rightarrow> nat option" where
  "hex_val c =
    (let n = (of_char c :: nat) in
     if 48 \<le> n \<and> n \<le> 57 then Some (n - 48)
     else if 97 \<le> n \<and> n \<le> 102 then Some (n - 87)
     else if 65 \<le> n \<and> n \<le> 70 then Some (n - 55)
     else None)"

text \<open>Validity of UTF-8 (no overlong form, no surrogate, at most U+10FFFF).\<close>

definition cont_byte :: "char \<Rightarrow> bool" where
  "cont_byte c \<longleftrightarrow> 128 \<le> (of_char c :: nat) \<and> (of_char c :: nat) \<le> 191"

fun utf8_ok :: "bytes \<Rightarrow> bool" where
  "utf8_ok [] = True"
| "utf8_ok (c # cs) =
    (let n = (of_char c :: nat) in
     if n < 128 then utf8_ok cs
     else if 194 \<le> n \<and> n \<le> 223 then
       (case cs of d # r \<Rightarrow> cont_byte d \<and> utf8_ok r | _ \<Rightarrow> False)
     else if 224 \<le> n \<and> n \<le> 239 then
       (case cs of d # e # r \<Rightarrow> cont_byte d \<and> cont_byte e
           \<and> (n = 224 \<longrightarrow> 160 \<le> (of_char d :: nat)) \<and> (n = 237 \<longrightarrow> (of_char d :: nat) \<le> 159)
           \<and> utf8_ok r
        | _ \<Rightarrow> False)
     else if 240 \<le> n \<and> n \<le> 244 then
       (case cs of d # e # f # r \<Rightarrow> cont_byte d \<and> cont_byte e \<and> cont_byte f
           \<and> (n = 240 \<longrightarrow> 144 \<le> (of_char d :: nat)) \<and> (n = 244 \<longrightarrow> (of_char d :: nat) \<le> 143)
           \<and> utf8_ok r
        | _ \<Rightarrow> False)
     else False)"

text \<open>The bytes of a code point; a lone surrogate keeps its three byte form.\<close>

definition utf8_char :: "nat \<Rightarrow> string" where
  "utf8_char n =
    (if n < 128 then [char_of n]
     else if n < 2048 then [char_of (192 + n div 64), char_of (128 + n mod 64)]
     else if n < 65536 then
       [char_of (224 + n div 4096), char_of (128 + n div 64 mod 64), char_of (128 + n mod 64)]
     else [char_of (240 + n div 262144), char_of (128 + n div 4096 mod 64),
           char_of (128 + n div 64 mod 64), char_of (128 + n mod 64)])"

section \<open>Writing\<close>

definition escape_char :: "char \<Rightarrow> string" where
  "escape_char c =
    (if c = backslash then [backslash, backslash]
     else if c = quote_ch then [backslash, quote_ch]
     else if c = CHR 0x08 then [backslash, CHR ''b'']
     else if c = CHR 0x0C then [backslash, CHR ''f'']
     else if c = CHR 0x0A then [backslash, CHR ''n'']
     else if c = CHR 0x0D then [backslash, CHR ''r'']
     else if c = CHR 0x09 then [backslash, CHR ''t'']
     else if (of_char c :: nat) < 32 then
       [backslash, CHR ''u'', CHR ''0'', CHR ''0'',
        hex_digit (of_char c div 16), hex_digit (of_char c mod 16)]
     else [c])"

definition dumps_str :: "string \<Rightarrow> string" where
  "dumps_str s = quote_ch # concat (map escape_char s) @ [quote_ch]"

definition float_exp :: "64 word \<Rightarrow> nat" where
  "float_exp w = unat (drop_bit 52 w) mod 2048"

definition float_nan :: "64 word" where
  "float_nan = 0x7FF8000000000000"

definition float_inf :: "64 word" where
  "float_inf = 0x7FF0000000000000"

definition float_neg_inf :: "64 word" where
  "float_neg_inf = 0xFFF0000000000000"

definition dumps_float :: "(64 word \<Rightarrow> string) \<Rightarrow> 64 word \<Rightarrow> string" where
  "dumps_float float_repr w =
    (if float_exp w = 2047 then
       (if w = float_inf then ''Infinity'' else if w = float_neg_inf then ''-Infinity'' else ''NaN'')
     else float_repr w)"

fun dumps :: "(64 word \<Rightarrow> string) \<Rightarrow> pyval \<Rightarrow> string" where
  "dumps fr PNone = ''null''"
| "dumps fr (PBool b) = (if b then ''true'' else ''false'')"
| "dumps fr (PInt n) = str_int n"
| "dumps fr (PFloat w) = dumps_float fr w"
| "dumps fr (PStr s) = dumps_str s"
| "dumps fr (PList xs) = ''['' @ join_with '','' (map (dumps fr) xs) @ '']''"
| "dumps fr (PDict d) =
    ''{'' @ join_with '','' (map (\<lambda>(k, v). dumps_str k @ '':'' @ dumps fr v) d) @ ''}''"

section \<open>Reading\<close>

definition simple_escape :: "char \<Rightarrow> char option" where
  "simple_escape e =
    (if e = quote_ch \<or> e = backslash \<or> e = CHR ''/'' then Some e
     else if e = CHR ''b'' then Some (CHR 0x08)
     else if e = CHR ''f'' then Some (CHR 0x0C)
     else if e = CHR ''n'' then Some (CHR 0x0A)
     else if e = CHR ''r'' then Some (CHR 0x0D)
     else if e = CHR ''t'' then Some (CHR 0x09)
     else None)"

fun hex4 :: "string \<Rightarrow> nat option" where
  "hex4 [a, b, c, d] =
    (case (hex_val a, hex_val b, hex_val c, hex_val d) of
       (Some w, Some x, Some y, Some z) \<Rightarrow> Some (((w * 16 + x) * 16 + y) * 16 + z)
     | _ \<Rightarrow> None)"
| "hex4 _ = None"

text \<open>After \<open>\u\<close>: a code point and the number of characters it took.\<close>

definition scan_u :: "string \<Rightarrow> (string \<times> nat) option" where
  "scan_u s =
    (case hex4 (take 4 s) of
       None \<Rightarrow> None
     | Some n \<Rightarrow>
         if 0xD800 \<le> n \<and> n \<le> 0xDBFF \<and> take 2 (drop 4 s) = [backslash, CHR ''u''] then
           (case hex4 (take 4 (drop 6 s)) of
              None \<Rightarrow> None
            | Some m \<Rightarrow>
                if 0xDC00 \<le> m \<and> m \<le> 0xDFFF
                then Some (utf8_char (0x10000 + (n - 0xD800) * 1024 + (m - 0xDC00)), 10)
                else Some (utf8_char n, 4))
         else Some (utf8_char n, 4))"

function scan_string :: "string \<Rightarrow> (string \<times> string) option" where
  "scan_string s =
    (case s of
       [] \<Rightarrow> None
     | c # cs \<Rightarrow>
         if c = quote_ch then Some ([], cs)
         else if c = backslash then
           (case cs of
              [] \<Rightarrow> None
            | e # r \<Rightarrow>
                if e = CHR ''u'' then
                  (case scan_u r of
                     None \<Rightarrow> None
                   | Some (txt, k) \<Rightarrow> map_option (\<lambda>(t, rest). (txt @ t, rest)) (scan_string (drop k r)))
                else
                  (case simple_escape e of
                     None \<Rightarrow> None
                   | Some d \<Rightarrow> map_option (\<lambda>(t, rest). (d # t, rest)) (scan_string r)))
         else if (of_char c :: nat) < 32 then None
         else map_option (\<lambda>(t, rest). (c # t, rest)) (scan_string cs))"
  by pat_completeness auto
termination by (relation "measure length") auto

declare scan_string.simps [simp del]

text \<open>The number pattern: integer part, optional fraction, optional exponent.\<close>

fun span_digits :: "string \<Rightarrow> string \<times> string" where
  "span_digits s = (takeWhile is_digit s, dropWhile is_digit s)"

definition scan_int_part :: "string \<Rightarrow> (string \<times> string) option" where
  "scan_int_part s =
    (case s of
       [] \<Rightarrow> None
     | c # cs \<Rightarrow>
         if c = CHR ''0'' then Some ([c], cs)
         else if is_digit c then Some (span_digits s)
         else None)"

definition scan_frac :: "string \<Rightarrow> string \<times> string" where
  "scan_frac s =
    (case s of
       c # d # cs \<Rightarrow>
         if c = CHR ''.'' \<and> is_digit d then (c # takeWhile is_digit (d # cs), dropWhile is_digit (d # cs))
         else ([], s)
     | _ \<Rightarrow> ([], s))"

definition scan_exp :: "string \<Rightarrow> string \<times> string" where
  "scan_exp s =
    (case s of
       c # cs \<Rightarrow>
         if c = CHR ''e'' \<or> c = CHR ''E'' then
           (let (sg, ds) = (case cs of
                  d # r \<Rightarrow> if d = CHR ''-'' \<or> d = CHR ''+'' then ([d], r) else ([], cs)
                | [] \<Rightarrow> ([], cs))
            in if ds \<noteq> [] \<and> is_digit (hd ds)
               then (c # sg @ takeWhile is_digit ds, dropWhile is_digit ds) else ([], s))
         else ([], s)
     | [] \<Rightarrow> ([], s))"

definition scan_number :: "(string \<Rightarrow> 64 word) \<Rightarrow> string \<Rightarrow> (pyval \<times> string) option" where
  "scan_number float_of s =
    (let (sg, r) = (case s of c # cs \<Rightarrow> if c = CHR ''-'' then ([c], cs) else ([], s) | [] \<Rightarrow> ([], s)) in
     case scan_int_part r of
       None \<Rightarrow> None
     | Some (ip, r1) \<Rightarrow>
         (let (fp, r2) = scan_frac r1; (ep, r3) = scan_exp r2 in
          if fp = [] \<and> ep = []
          then Some (PInt ((if sg = [] then 1 else -1) * int (undec ip)), r3)
          else Some (PFloat (float_of (sg @ ip @ fp @ ep)), r3)))"

definition scan_word :: "string \<Rightarrow> pyval \<Rightarrow> string \<Rightarrow> (pyval \<times> string) option" where
  "scan_word w v s = (if take (length w) s = w then Some (v, drop (length w) s) else None)"

definition scan_atom :: "(string \<Rightarrow> 64 word) \<Rightarrow> string \<Rightarrow> (pyval \<times> string) option" where
  "scan_atom float_of s =
    (case scan_word ''null'' PNone s of Some r \<Rightarrow> Some r | None \<Rightarrow>
     (case scan_word ''true'' (PBool True) s of Some r \<Rightarrow> Some r | None \<Rightarrow>
     (case scan_word ''false'' (PBool False) s of Some r \<Rightarrow> Some r | None \<Rightarrow>
     (case scan_number float_of s of Some r \<Rightarrow> Some r | None \<Rightarrow>
     (case scan_word ''NaN'' (PFloat float_nan) s of Some r \<Rightarrow> Some r | None \<Rightarrow>
     (case scan_word ''Infinity'' (PFloat float_inf) s of Some r \<Rightarrow> Some r | None \<Rightarrow>
      scan_word ''-Infinity'' (PFloat float_neg_inf) s))))))"

text \<open>
  Values, the elements of an array and the members of an object (after the quote of the first
  key). The first argument bounds the recursion; every call consumes a character, so the length of
  the text is enough.
\<close>

fun scan_value :: "nat \<Rightarrow> (string \<Rightarrow> 64 word) \<Rightarrow> string \<Rightarrow> (pyval \<times> string) option"
and scan_elems :: "nat \<Rightarrow> (string \<Rightarrow> 64 word) \<Rightarrow> string \<Rightarrow> (pyval list \<times> string) option"
and scan_members ::
  "nat \<Rightarrow> (string \<Rightarrow> 64 word) \<Rightarrow> string \<Rightarrow> ((string \<times> pyval) list \<times> string) option" where
  "scan_value 0 fo s = None"
| "scan_value (Suc n) fo s =
    (case s of
       [] \<Rightarrow> None
     | c # cs \<Rightarrow>
         if c = quote_ch then map_option (\<lambda>(t, r). (PStr t, r)) (scan_string cs)
         else if c = CHR ''{'' then
           (case skip_ws cs of
              [] \<Rightarrow> None
            | d # ds \<Rightarrow>
                if d = CHR ''}'' then Some (PDict [], ds)
                else if d = quote_ch then
                  map_option (\<lambda>(ms, r). (PDict (fold (\<lambda>(k, v) m. dict_set k v m) ms []), r))
                    (scan_members n fo ds)
                else None)
         else if c = CHR ''['' then
           (case skip_ws cs of
              [] \<Rightarrow> None
            | d # ds \<Rightarrow>
                if d = CHR '']'' then Some (PList [], ds)
                else map_option (\<lambda>(vs, r). (PList vs, r)) (scan_elems n fo (d # ds)))
         else scan_atom fo s)"
| "scan_elems 0 fo s = None"
| "scan_elems (Suc n) fo s =
    (case scan_value n fo s of
       None \<Rightarrow> None
     | Some (v, r) \<Rightarrow>
         (case skip_ws r of
            [] \<Rightarrow> None
          | c # t \<Rightarrow>
              if c = CHR '']'' then Some ([v], t)
              else if c = CHR '','' then
                map_option (\<lambda>(vs, u). (v # vs, u)) (scan_elems n fo (skip_ws t))
              else None))"
| "scan_members 0 fo s = None"
| "scan_members (Suc n) fo s =
    (case scan_string s of
       None \<Rightarrow> None
     | Some (k, r) \<Rightarrow>
         (case skip_ws r of
            [] \<Rightarrow> None
          | c # t \<Rightarrow>
              if c \<noteq> CHR '':'' then None
              else
                (case scan_value n fo (skip_ws t) of
                   None \<Rightarrow> None
                 | Some (v, u) \<Rightarrow>
                     (case skip_ws u of
                        [] \<Rightarrow> None
                      | d # x \<Rightarrow>
                          if d = CHR ''}'' then Some ([(k, v)], x)
                          else if d = CHR '','' then
                            (case skip_ws x of
                               [] \<Rightarrow> None
                             | e # y \<Rightarrow>
                                 if e = quote_ch then
                                   map_option (\<lambda>(ms, z). ((k, v) # ms, z)) (scan_members n fo y)
                                 else None)
                          else None))))"

definition loads :: "(string \<Rightarrow> 64 word) \<Rightarrow> string \<Rightarrow> pyval option" where
  "loads fo s =
    (case scan_value (2 * length s + 2) fo (skip_ws s) of
       None \<Rightarrow> None
     | Some (v, r) \<Rightarrow> if skip_ws r = [] then Some v else None)"

end
