(* ===== verification/JsonRoundtrip.thy ===== *)
theory JsonRoundtrip
  imports Json
begin

text \<open>
  Reading back what was written: \<open>loads (dumps v) = v\<close> for every value whose dictionaries have
  distinct keys and whose floats \<open>float_repr\<close> and \<open>float_of\<close> agree on.
\<close>

section \<open>Values that survive the text form\<close>

definition float_ok :: "(64 word \<Rightarrow> string) \<Rightarrow> (string \<Rightarrow> 64 word) \<Rightarrow> 64 word \<Rightarrow> bool" where
  "float_ok fr fo w \<longleftrightarrow>
    (if float_exp w = 2047 then w \<in> {float_nan, float_inf, float_neg_inf}
     else scan_number fo (fr w) = Some (PFloat w, []))"

fun json_ok :: "(64 word \<Rightarrow> string) \<Rightarrow> (string \<Rightarrow> 64 word) \<Rightarrow> pyval \<Rightarrow> bool" where
  "json_ok fr fo (PFloat w) = float_ok fr fo w"
| "json_ok fr fo (PList xs) = (\<forall>x \<in> set xs. json_ok fr fo x)"
| "json_ok fr fo (PDict d) = (dict_ok d \<and> (\<forall>(k, v) \<in> set d. json_ok fr fo v))"
| "json_ok fr fo _ = True"

section \<open>Strings\<close>

lemma hex_val_digit: "d < 16 \<Longrightarrow> hex_val (hex_digit d) = Some d"
  by (auto simp: hex_val_def hex_digit_def Let_def)

lemma scan_u_control:
  assumes "(of_char c :: nat) < 32"
  shows "scan_u (CHR ''0'' # CHR ''0'' # hex_digit (of_char c div 16) # hex_digit (of_char c mod 16) # r)
    = Some ([c], 4)"
proof -
  let ?n = "of_char c :: nat"
  have "hex_val (CHR ''0'') = Some 0" by (simp add: hex_val_def)
  then have "hex4 [CHR ''0'', CHR ''0'', hex_digit (?n div 16), hex_digit (?n mod 16)] = Some ?n"
    using assms by (simp add: hex_val_digit)
  moreover have "utf8_char ?n = [c]" using assms by (simp add: utf8_char_def)
  ultimately show ?thesis using assms by (simp add: scan_u_def)
qed

lemma scan_string_escape:
  "scan_string (escape_char c @ r) = map_option (\<lambda>(t, rest). (c # t, rest)) (scan_string r)"
proof -
  consider "(of_char c :: nat) < 32"
      "c \<notin> {backslash, quote_ch, CHR 0x08, CHR 0x0C, CHR 0x0A, CHR 0x0D, CHR 0x09}"
    | "\<not> (of_char c :: nat) < 32" "c \<notin> {backslash, quote_ch}"
    | "c \<in> {backslash, quote_ch, CHR 0x08, CHR 0x0C, CHR 0x0A, CHR 0x0D, CHR 0x09}" by blast
  then show ?thesis
  proof cases
    case 1
    then show ?thesis
      by (subst scan_string.simps) (simp add: escape_char_def scan_u_control)
  next
    case 2
    then have "escape_char c = [c]" by (auto simp: escape_char_def)
    with 2 show ?thesis by (subst scan_string.simps) simp
  next
    case 3
    then show ?thesis
      by (elim insertE) (subst scan_string.simps, simp add: escape_char_def simple_escape_def)+
  qed
qed

lemma scan_string_dumps: "scan_string (concat (map escape_char s) @ quote_ch # r) = Some (s, r)"
proof (induction s)
  case Nil
  show ?case by (subst scan_string.simps) simp
next
  case (Cons c s)
  then show ?case by (simp add: scan_string_escape)
qed

section \<open>Numbers\<close>

text \<open>What may follow a value inside a text written by \<open>dumps\<close>.\<close>

definition stops :: "string \<Rightarrow> bool" where
  "stops rest \<longleftrightarrow> rest = [] \<or> hd rest \<in> {CHR '','', CHR '']'', CHR ''}''}"

lemma stops_cases:
  assumes "stops rest"
  obtains "rest = []" | t where "rest = CHR '','' # t" | t where "rest = CHR '']'' # t"
    | t where "rest = CHR ''}'' # t"
  using assms by (cases rest) (auto simp: stops_def)

lemma not_digit [simp]:
  "\<not> is_digit (CHR '','')" "\<not> is_digit (CHR '']'')" "\<not> is_digit (CHR ''}'')" "\<not> is_digit (CHR ''-'')"
  "\<not> is_digit (CHR ''N'')" "\<not> is_digit (CHR ''I'')"
  by (simp_all add: is_digit_def)

lemma span_app:
  "stops rest \<Longrightarrow> takeWhile is_digit (xs @ rest) = takeWhile is_digit xs"
  "stops rest \<Longrightarrow> dropWhile is_digit (xs @ rest) = dropWhile is_digit xs @ rest"
  by (induction xs) (auto elim: stops_cases)

lemma scan_int_part_app:
  "scan_int_part s = Some (ip, r) \<Longrightarrow> stops rest \<Longrightarrow> scan_int_part (s @ rest) = Some (ip, r @ rest)"
  using span_app[of rest s]
  by (cases s) (auto simp: scan_int_part_def split: if_splits)

lemma scan_frac_app: "stops rest \<Longrightarrow> scan_frac (s @ rest) = (fst (scan_frac s), snd (scan_frac s) @ rest)"
proof -
  assume st: "stops rest"
  show ?thesis
  proof (cases s)
    case Nil
    with st show ?thesis by (auto simp: scan_frac_def elim: stops_cases split: list.splits)
  next
    case (Cons c cs)
    with st show ?thesis
      using span_app[OF st, of cs]
      by (cases cs) (auto simp: scan_frac_def elim!: stops_cases split: list.splits)
  qed
qed

lemma scan_exp_app: "stops rest \<Longrightarrow> scan_exp (s @ rest) = (fst (scan_exp s), snd (scan_exp s) @ rest)"
proof -
  assume st: "stops rest"
  show ?thesis
  proof (cases s)
    case Nil
    with st show ?thesis by (auto simp: scan_exp_def elim: stops_cases split: list.splits)
  next
    case c: (Cons c cs)
    show ?thesis
    proof (cases cs)
      case Nil
      with c st show ?thesis by (auto simp: scan_exp_def elim!: stops_cases split: list.splits)
    next
      case d: (Cons d ds)
      show ?thesis
      proof (cases "d = CHR ''-'' \<or> d = CHR ''+''")
        case True
        with c d st show ?thesis
          using span_app[OF st, of ds]
          by (cases ds) (auto simp: scan_exp_def elim!: stops_cases)
      next
        case False
        with c d show ?thesis
          using span_app[OF st, of cs] by (auto simp: scan_exp_def)
      qed
    qed
  qed
qed

lemma scan_number_app:
  assumes "scan_number fo s = Some (v, r)" and st: "stops rest"
  shows "scan_number fo (s @ rest) = Some (v, r @ rest)"
proof -
  have ne: "s \<noteq> []" using assms by (auto simp: scan_number_def scan_int_part_def)
  define sg where "sg = (if hd s = CHR ''-'' then [hd s] else [])"
  define t where "t = (if hd s = CHR ''-'' then tl s else s)"
  have split: "(case s @ rest of c # cs \<Rightarrow> if c = CHR ''-'' then ([c], cs) else ([], s @ rest)
      | [] \<Rightarrow> ([], s @ rest)) = (sg, t @ rest)"
    "(case s of c # cs \<Rightarrow> if c = CHR ''-'' then ([c], cs) else ([], s) | [] \<Rightarrow> ([], s)) = (sg, t)"
    using ne by (cases s; simp add: sg_def t_def)+
  from assms obtain ip r1 where ip: "scan_int_part t = Some (ip, r1)"
    unfolding scan_number_def split by (auto split: option.splits prod.splits)
  with assms show ?thesis
    unfolding scan_number_def split
    by (auto simp: scan_int_part_app[OF ip st] scan_frac_app[OF st] scan_exp_app[OF st]
        split: prod.splits if_splits)
qed

lemma dec_cases: "(n = 0 \<and> dec n = ''0'') \<or> (\<exists>c cs. dec n = c # cs \<and> c \<noteq> CHR ''0'' \<and> is_digit c)"
proof (cases "n = 0")
  case False
  then show ?thesis
    using dec_head[of n] hd_dec_digit[of n] dec_not_Nil[of n] by (cases "dec n") auto
qed simp

lemma scan_int_part_dec: "scan_int_part (dec n) = Some (dec n, [])"
proof -
  have "takeWhile is_digit (dec n) = dec n" "dropWhile is_digit (dec n) = []"
    using dec_digits by (auto simp: takeWhile_eq_all_conv dropWhile_eq_Nil_conv)
  with dec_cases[of n] show ?thesis by (auto simp: scan_int_part_def)
qed

lemma scan_number_int: "scan_number fo (str_int n) = Some (PInt n, [])"
proof -
  have e: "scan_frac [] = ([], [])" "scan_exp [] = ([], [])"
    by (simp_all add: scan_frac_def scan_exp_def)
  have nm: "hd (dec k) \<noteq> CHR ''-''" for k using hd_dec_digit[of k] by auto
  show ?thesis
  proof (cases "n < 0")
    case True
    then show ?thesis by (simp add: scan_number_def str_int_def scan_int_part_dec e)
  next
    case False
    then show ?thesis
      using nm[of "nat n"] dec_not_Nil[of "nat n"] scan_int_part_dec[of "nat n"]
      by (cases "dec (nat n)") (simp_all add: scan_number_def str_int_def e, metis undec_dec int_nat_eq not_less)
  qed
qed

lemma scan_number_head:
  "scan_number fo s = Some (v, r) \<Longrightarrow> s \<noteq> [] \<and> (is_digit (hd s) \<or> hd s = CHR ''-'')"
  by (cases s) (auto simp: scan_number_def scan_int_part_def is_digit_def split: if_splits)

section \<open>Values\<close>

text \<open>The first character of a written value.\<close>

definition opens :: "string \<Rightarrow> bool" where
  "opens s \<longleftrightarrow> s \<noteq> [] \<and> \<not> json_ws (hd s) \<and> hd s \<noteq> CHR '']'' \<and> hd s \<noteq> CHR ''}''"

lemma opens_number: "scan_number fo s = Some (v, r) \<Longrightarrow> opens s"
  using scan_number_head[of fo s v r]
  by (auto simp: opens_def json_ws_def is_digit_def)

lemma opens_dumps: "json_ok fr fo v \<Longrightarrow> opens (dumps fr v)"
proof (cases v)
  case (PInt n)
  then show ?thesis using opens_number[OF scan_number_int] by simp
next
  case (PFloat w)
  then show "json_ok fr fo v \<Longrightarrow> ?thesis"
    using opens_number[of fo "fr w"]
    by (auto simp: float_ok_def dumps_float_def opens_def json_ws_def split: if_splits)
qed (auto simp: opens_def json_ws_def dumps_str_def)

lemma skip_ws_opens: "opens s \<Longrightarrow> skip_ws (s @ r) = s @ r"
  by (cases s) (auto simp: opens_def skip_ws_def)

lemma skip_ws_ends [simp]:
  "skip_ws (CHR '','' # t) = CHR '','' # t" "skip_ws (CHR '']'' # t) = CHR '']'' # t"
  "skip_ws (CHR ''}'' # t) = CHR ''}'' # t" "skip_ws (CHR '':'' # t) = CHR '':'' # t"
  "skip_ws (quote_ch # t) = quote_ch # t" "skip_ws [] = []"
  by (simp_all add: skip_ws_def json_ws_def)

lemma stops_simps [simp]: "stops []" "stops (CHR '','' # t)" "stops (CHR '']'' # t)" "stops (CHR ''}'' # t)"
  by (simp_all add: stops_def)

lemma scan_atom_number:
  assumes "scan_number fo s = Some (v, r)" and "stops rest"
  shows "scan_atom fo (s @ rest) = Some (v, r @ rest)"
proof -
  have "s \<noteq> []" and h: "is_digit (hd s) \<or> hd s = CHR ''-''"
    using scan_number_head[OF assms(1)] by auto
  then obtain c cs where s: "s = c # cs" by (cases s) auto
  with h have "c \<notin> {CHR ''n'', CHR ''t'', CHR ''f''}" by (auto simp: is_digit_def)
  then have "scan_word ''null'' PNone (s @ rest) = None"
    "scan_word ''true'' (PBool True) (s @ rest) = None"
    "scan_word ''false'' (PBool False) (s @ rest) = None"
    using s by (auto simp: scan_word_def)
  then show ?thesis by (simp add: scan_atom_def scan_number_app[OF assms])
qed

lemma scan_value_atom:
  "s \<noteq> [] \<Longrightarrow> hd s \<notin> {quote_ch, CHR ''{'', CHR ''[''} \<Longrightarrow> scan_value (Suc n) fo (s @ r) = scan_atom fo (s @ r)"
  by (cases s) auto

lemma scan_value_number:
  assumes "scan_number fo s = Some (v, [])" and "stops rest"
  shows "scan_value (Suc n) fo (s @ rest) = Some (v, rest)"
proof -
  have "s \<noteq> [] \<and> hd s \<notin> {quote_ch, CHR ''{'', CHR ''[''}"
    using scan_number_head[OF assms(1)] by (auto simp: is_digit_def)
  then show ?thesis using scan_atom_number[OF assms] by (simp add: scan_value_atom del: scan_value.simps)
qed

lemma scan_words:
  "scan_atom fo (''null'' @ r) = Some (PNone, r)"
  "scan_atom fo (''true'' @ r) = Some (PBool True, r)"
  "scan_atom fo (''false'' @ r) = Some (PBool False, r)"
  "scan_atom fo (''NaN'' @ r) = Some (PFloat float_nan, r)"
  "scan_atom fo (''Infinity'' @ r) = Some (PFloat float_inf, r)"
  "scan_atom fo (''-Infinity'' @ r) = Some (PFloat float_neg_inf, r)"
  by (simp_all add: scan_atom_def scan_word_def scan_number_def scan_int_part_def)

lemma scan_value_float:
  assumes "float_ok fr fo w" and "stops rest"
  shows "scan_value (Suc n) fo (dumps_float fr w @ rest) = Some (PFloat w, rest)"
proof (cases "float_exp w = 2047")
  case True
  with assms have "w \<in> {float_nan, float_inf, float_neg_inf}" by (simp add: float_ok_def)
  then have "scan_atom fo (dumps_float fr w @ rest) = Some (PFloat w, rest)"
    using True scan_words(4-6)[of fo rest]
    by (auto simp: dumps_float_def float_nan_def float_inf_def float_neg_inf_def split: if_splits)
  moreover have "dumps_float fr w \<noteq> [] \<and> hd (dumps_float fr w) \<notin> {quote_ch, CHR ''{'', CHR ''[''}"
    using True by (simp add: dumps_float_def)
  ultimately show ?thesis by (simp add: scan_value_atom del: scan_value.simps)
next
  case False
  with assms show ?thesis
    by (simp add: float_ok_def dumps_float_def scan_value_number del: scan_value.simps)
qed

lemma join_Cons: "join_with sep (x # xs) = x @ (if xs = [] then [] else sep @ join_with sep xs)"
  by (cases xs) auto

lemma scan_elems_dumps:
  assumes "xs \<noteq> []"
    and "\<And>x n rest. x \<in> set xs \<Longrightarrow> length (dumps fr x) \<le> n \<Longrightarrow> stops rest \<Longrightarrow>
           scan_value n fo (dumps fr x @ rest) = Some (x, rest)"
    and "\<And>x. x \<in> set xs \<Longrightarrow> json_ok fr fo x"
    and "length (join_with '','' (map (dumps fr) xs)) < n"
  shows "scan_elems n fo (join_with '','' (map (dumps fr) xs) @ CHR '']'' # rest) = Some (xs, rest)"
  using assms
proof (induction xs arbitrary: n)
  case (Cons x xs)
  then obtain m where n: "n = Suc m" by (cases n) auto
  show ?case
  proof (cases xs)
    case Nil
    with Cons.prems n show ?thesis by simp
  next
    case (Cons y ys)
    have "opens (join_with '','' (map (dumps fr) xs))"
      using opens_dumps[OF Cons.prems(3), of y] Cons by (auto simp: opens_def join_Cons)
    then have "skip_ws (join_with '','' (map (dumps fr) xs) @ CHR '']'' # rest)
      = join_with '','' (map (dumps fr) xs) @ CHR '']'' # rest" by (rule skip_ws_opens)
    moreover have "scan_elems m fo (join_with '','' (map (dumps fr) xs) @ CHR '']'' # rest)
      = Some (xs, rest)"
      using Cons.prems Cons n by (intro Cons.IH) (auto simp: join_Cons)
    ultimately show ?thesis
      using Cons.prems Cons n by (simp add: join_Cons)
  qed
qed simp

definition dumps_item :: "(64 word \<Rightarrow> string) \<Rightarrow> string \<times> pyval \<Rightarrow> string" where
  "dumps_item fr = (\<lambda>(k, v). dumps_str k @ '':'' @ dumps fr v)"

lemma dumps_PDict: "dumps fr (PDict d) = ''{'' @ join_with '','' (map (dumps_item fr) d) @ ''}''"
  by (simp add: dumps_item_def)

lemma dumps_item_Cons: "dumps_item fr (k, v) = quote_ch # concat (map escape_char k) @ quote_ch # CHR '':'' # dumps fr v"
  by (simp add: dumps_item_def dumps_str_def)

lemma join_items_head:
  "d \<noteq> [] \<Longrightarrow> join_with '','' (map (dumps_item fr) d) = quote_ch # tl (join_with '','' (map (dumps_item fr) d))"
  by (cases d) (auto simp: join_Cons dumps_item_Cons)

lemma scan_members_dumps:
  assumes "d \<noteq> []"
    and "\<And>k v n rest. (k, v) \<in> set d \<Longrightarrow> length (dumps fr v) \<le> n \<Longrightarrow> stops rest \<Longrightarrow>
           scan_value n fo (dumps fr v @ rest) = Some (v, rest)"
    and "\<And>k v. (k, v) \<in> set d \<Longrightarrow> json_ok fr fo v"
    and "length (join_with '','' (map (dumps_item fr) d)) \<le> n"
  shows "scan_members n fo (tl (join_with '','' (map (dumps_item fr) d)) @ CHR ''}'' # rest) = Some (d, rest)"
  using assms
proof (induction d arbitrary: n)
  case (Cons kv d)
  obtain k v where kv: "kv = (k, v)" by force
  obtain m where n: "n = Suc m"
    using Cons.prems(4) by (cases n) (auto simp: kv join_Cons dumps_item_Cons)
  have ws: "skip_ws (dumps fr v @ r) = dumps fr v @ r" for r
    using opens_dumps[OF Cons.prems(3)[of k v]] kv by (simp add: skip_ws_opens)
  have val: "scan_value m fo (dumps fr v @ r) = Some (v, r)" if "stops r" for r
    using Cons.prems(2)[of k v m r] Cons.prems(4) that n kv by (simp add: join_Cons dumps_item_Cons)
  show ?case
  proof (cases d)
    case Nil
    then show ?thesis by (simp add: kv n dumps_item_Cons scan_string_dumps ws val)
  next
    case (Cons y ys)
    then have ne: "d \<noteq> []" by simp
    have "scan_members m fo (tl (join_with '','' (map (dumps_item fr) d)) @ CHR ''}'' # rest) = Some (d, rest)"
    proof (rule Cons.IH[OF ne])
      show "json_ok fr fo v'" if "(k', v') \<in> set d" for k' v'
        using Cons.prems(3)[of k' v'] that by simp
      show "length (join_with '','' (map (dumps_item fr) d)) \<le> m"
        using Cons.prems(4) n ne by (simp add: join_Cons)
    qed (use Cons.prems(2) in auto)
    moreover have "tl (join_with '','' (map (dumps_item fr) (kv # d))) @ CHR ''}'' # rest =
        concat (map escape_char k) @ quote_ch # CHR '':'' # dumps fr v @ CHR '','' # quote_ch #
          tl (join_with '','' (map (dumps_item fr) d)) @ CHR ''}'' # rest"
      using join_items_head[OF ne, of fr] ne by (simp add: join_Cons kv dumps_item_Cons)
    ultimately show ?thesis
      by (simp add: n scan_string_dumps ws val kv del: dumps.simps)
  qed
qed simp

lemma dict_set_new: "k \<notin> set (map fst acc) \<Longrightarrow> dict_set k v acc = acc @ [(k, v)]"
  by (induction acc) auto

lemma fold_dict_set_distinct:
  "distinct (map fst ms) \<Longrightarrow> set (map fst acc) \<inter> set (map fst ms) = {} \<Longrightarrow>
   fold (\<lambda>(k, v) m. dict_set k v m) ms acc = acc @ ms"
proof (induction ms arbitrary: acc)
  case (Cons kv ms)
  obtain k v where kv: "kv = (k, v)" by force
  have "dict_set k v acc = acc @ [(k, v)]"
    using Cons.prems kv dict_set_new by force
  with Cons kv show ?case by simp
qed simp

lemma scan_value_dumps:
  "json_ok fr fo v \<Longrightarrow> length (dumps fr v) \<le> n \<Longrightarrow> stops rest \<Longrightarrow>
   scan_value n fo (dumps fr v @ rest) = Some (v, rest)"
proof (induction fr v arbitrary: n rest rule: dumps.induct)
  case (1 fr)
  then show ?case by (cases n) (auto simp: scan_words[simplified])
next
  case (2 fr b)
  then show ?case by (cases n; cases b) (auto simp: scan_words[simplified])
next
  case (3 fr i)
  then show ?case
    using opens_number[OF scan_number_int] by (cases n) (auto simp: opens_def scan_value_number[OF scan_number_int] simp del: scan_value.simps)
next
  case (4 fr w)
  then show ?case
    using opens_dumps[OF 4(1)] by (cases n) (auto simp: opens_def scan_value_float simp del: scan_value.simps)
next
  case (5 fr s)
  then show ?case by (cases n) (auto simp: dumps_str_def scan_string_dumps)
next
  case (6 fr xs)
  then obtain m where n: "n = Suc m" by (cases n) auto
  show ?case
  proof (cases "xs = []")
    case False
    have el: "scan_elems m fo (join_with '','' (map (dumps fr) xs) @ CHR '']'' # rest) = Some (xs, rest)"
      using 6 n False by (intro scan_elems_dumps) auto
    have "opens (join_with '','' (map (dumps fr) xs))"
      using False opens_dumps[of fr fo "hd xs"] 6(2) by (cases xs) (auto simp: opens_def join_Cons)
    then obtain c cs where "join_with '','' (map (dumps fr) xs) = c # cs" "\<not> json_ws c" "c \<noteq> CHR '']''"
      by (cases "join_with '','' (map (dumps fr) xs)") (auto simp: opens_def)
    with el show ?thesis by (simp add: n skip_ws_def)
  qed (simp add: n)
next
  case (7 fr d)
  then obtain m where n: "n = Suc m" by (cases n) auto
  show ?case
  proof (cases "d = []")
    case False
    have "scan_members m fo (tl (join_with '','' (map (dumps_item fr) d)) @ CHR ''}'' # rest) = Some (d, rest)"
      using 7 n False by (intro scan_members_dumps) (auto simp: dumps_PDict simp del: dumps.simps)
    moreover have "fold (\<lambda>(k, v) m. dict_set k v m) d [] = d"
      using 7(2) fold_dict_set_distinct[of d "[]"] by (simp add: dict_ok_def)
    moreover obtain j where "join_with '','' (map (dumps_item fr) d) = quote_ch # j"
      using join_items_head[OF False] by blast
    ultimately show ?thesis by (simp add: dumps_PDict n del: dumps.simps)
  qed (simp add: n)
qed

lemma loads_dumps:
  assumes "json_ok fr fo v"
  shows "loads fo (dumps fr v) = Some v"
  using scan_value_dumps[OF assms, of "2 * length (dumps fr v) + 2" "[]"]
    skip_ws_opens[OF opens_dumps[OF assms], of "[]"]
  by (simp add: loads_def del: scan_value.simps)

section \<open>The contract of a text format\<close>

locale text_format =
  fixes put_text :: "'v \<Rightarrow> string"
    and get_text :: "string \<Rightarrow> 'v option"
    and fine :: "'v \<Rightarrow> bool"
  assumes read_write: "fine v \<Longrightarrow> get_text (put_text v) = Some v"
begin

lemma write_inj: "fine v \<Longrightarrow> fine w \<Longrightarrow> put_text v = put_text w \<Longrightarrow> v = w"
  using read_write by (metis option.inject)

end

interpretation json: text_format "dumps fr" "loads fo" "json_ok fr fo" for fr fo
  by unfold_locales (rule loads_dumps)

interpretation decimal: text_format str_int py_int "\<lambda>_. True"
  by unfold_locales simp

end
