(* ===== verification/Protocol.thy ===== *)
theory Protocol
  imports JsonRoundtrip
begin

text \<open>
  The wire protocol between server and clients (\<open>common/message_handler.py\<close>): message types,
  the \<open>ProtocolMessage\<close> dataclass with its dictionary form, validation, serialization and the
  constructors of the six kinds of messages. The dataclass does not check its field types, so the
  fields the code validates at run time hold arbitrary values here; the enum fields hold members.
\<close>

section \<open>Messages\<close>

definition PROTOCOL_VERSION :: int where
  "PROTOCOL_VERSION = 1"

datatype MessageType = HANDSHAKE | COMMAND | REPLY | EVENT | SAMPLE | ERROR

datatype Channel = SYSTEM | RC | HV | MAIN | MONITORING | ACQUISITION

datatype MessageStatus = OK | ST_ERROR | ACCEPTED | REJECTED | BUSY

fun type_value :: "MessageType \<Rightarrow> string" where
  "type_value HANDSHAKE = ''handshake''"
| "type_value COMMAND = ''command''"
| "type_value REPLY = ''reply''"
| "type_value EVENT = ''event''"
| "type_value SAMPLE = ''sample''"
| "type_value ERROR = ''error''"

fun channel_value :: "Channel \<Rightarrow> string" where
  "channel_value SYSTEM = ''system''"
| "channel_value RC = ''rc''"
| "channel_value HV = ''hv''"
| "channel_value MAIN = ''main''"
| "channel_value MONITORING = ''monitoring''"
| "channel_value ACQUISITION = ''acquisition''"

fun status_value :: "MessageStatus \<Rightarrow> string" where
  "status_value OK = ''ok''"
| "status_value ST_ERROR = ''error''"
| "status_value ACCEPTED = ''accepted''"
| "status_value REJECTED = ''rejected''"
| "status_value BUSY = ''busy''"

text \<open>Calling an enum class on a value: the member with that value, or \<open>ValueError\<close>.\<close>

definition enum_of :: "('e \<Rightarrow> string) \<Rightarrow> 'e list \<Rightarrow> pyval \<Rightarrow> 'e option" where
  "enum_of val es v = (case v of PStr s \<Rightarrow> find (\<lambda>e. val e = s) es | _ \<Rightarrow> None)"

definition type_of :: "pyval \<Rightarrow> MessageType option" where
  "type_of = enum_of type_value [HANDSHAKE, COMMAND, REPLY, EVENT, SAMPLE, ERROR]"

definition channel_of :: "pyval \<Rightarrow> Channel option" where
  "channel_of = enum_of channel_value [SYSTEM, RC, HV, MAIN, MONITORING, ACQUISITION]"

definition status_of :: "pyval \<Rightarrow> MessageStatus option" where
  "status_of = enum_of status_value [OK, ST_ERROR, ACCEPTED, REJECTED, BUSY]"

record ProtocolMessage =
  protocol_version :: pyval
  msg_type :: MessageType
  request_id :: pyval
  timestamp :: pyval
  payload :: pyval
  channel :: "Channel option"
  command :: pyval
  phase :: pyval
  in_reply_to :: pyval
  sender :: pyval
  status :: "MessageStatus option"
  priority :: pyval

type_synonym raw_dict = "(string, pyval) dict"

definition to_dict :: "ProtocolMessage \<Rightarrow> raw_dict" where
  "to_dict m =
    [(''protocol_version'', protocol_version m),
     (''msg_type'', PStr (type_value (msg_type m))),
     (''request_id'', request_id m),
     (''timestamp'', timestamp m),
     (''payload'', payload m),
     (''channel'', case channel m of None \<Rightarrow> PNone | Some c \<Rightarrow> PStr (channel_value c)),
     (''command'', command m),
     (''phase'', phase m),
     (''in_reply_to'', in_reply_to m),
     (''sender'', sender m),
     (''status'', case status m of None \<Rightarrow> PNone | Some s \<Rightarrow> PStr (status_value s)),
     (''priority'', priority m)]"

text \<open>\<open>data.get(k)\<close>, \<open>data[k]\<close> and an enum field that may be \<open>None\<close>.\<close>

definition get_or :: "pyval \<Rightarrow> raw_dict \<Rightarrow> string \<Rightarrow> pyval" where
  "get_or d data k = (case dict_get data k of None \<Rightarrow> d | Some v \<Rightarrow> v)"

definition item :: "raw_dict \<Rightarrow> string \<Rightarrow> py_exn + pyval" where
  "item data k = (case dict_get data k of None \<Rightarrow> Inl KeyError | Some v \<Rightarrow> Inr v)"

definition optional_member :: "(pyval \<Rightarrow> 'e option) \<Rightarrow> pyval \<Rightarrow> py_exn + 'e option" where
  "optional_member mk v =
    (if v = PNone then Inr None
     else case mk v of None \<Rightarrow> Inl ValueError | Some e \<Rightarrow> Inr (Some e))"

definition bind_sum :: "'e + 'a \<Rightarrow> ('a \<Rightarrow> 'e + 'b) \<Rightarrow> 'e + 'b" where
  "bind_sum x f = (case x of Inl e \<Rightarrow> Inl e | Inr a \<Rightarrow> f a)"

lemma bind_sum_simps [simp]: "bind_sum (Inl e) f = Inl e" "bind_sum (Inr a) f = f a"
  by (simp_all add: bind_sum_def)

definition from_dict :: "raw_dict \<Rightarrow> py_exn + ProtocolMessage" where
  "from_dict data =
    bind_sum (item data ''protocol_version'') (\<lambda>ver.
    bind_sum (item data ''msg_type'') (\<lambda>ty.
    bind_sum (case type_of ty of None \<Rightarrow> Inl ValueError | Some t \<Rightarrow> Inr t) (\<lambda>t.
    bind_sum (item data ''request_id'') (\<lambda>rid.
    bind_sum (item data ''timestamp'') (\<lambda>ts.
    bind_sum (optional_member channel_of (get_or PNone data ''channel'')) (\<lambda>ch.
    bind_sum (optional_member status_of (get_or PNone data ''status'')) (\<lambda>st.
      Inr \<lparr>protocol_version = ver, msg_type = t, request_id = rid, timestamp = ts,
           payload = get_or (PDict []) data ''payload'', channel = ch,
           command = get_or PNone data ''command'', phase = get_or PNone data ''phase'',
           in_reply_to = get_or PNone data ''in_reply_to'', sender = get_or PNone data ''sender'',
           status = st, priority = get_or PNone data ''priority''\<rparr>)))))))"

section \<open>Validation\<close>

datatype reason =
    ReasonOk
  | EmptyOrInvalid
  | MissingFields "string list"
  | UnsupportedVersion pyval
  | MustBe string string
  | InvalidMember string pyval
  | Requires MessageType string
  | Conversion py_exn

definition required_fields :: "string list" where
  "required_fields =
    [''protocol_version'', ''msg_type'', ''request_id'', ''timestamp'', ''payload'']"

definition is_version :: "pyval \<Rightarrow> bool" where
  "is_version v \<longleftrightarrow> v \<in> {PInt PROTOCOL_VERSION, PBool True, PFloat 0x3FF0000000000000}"

fun is_str :: "pyval \<Rightarrow> bool" where
  "is_str (PStr _) = True" | "is_str _ = False"

fun is_int :: "pyval \<Rightarrow> bool" where
  "is_int (PInt _) = True" | "is_int (PBool _) = True" | "is_int _ = False"

fun is_number :: "pyval \<Rightarrow> bool" where
  "is_number (PFloat _) = True" | "is_number v = is_int v"

fun is_dict :: "pyval \<Rightarrow> bool" where
  "is_dict (PDict _) = True" | "is_dict _ = False"

text \<open>One \<open>if\<close> of the validator: the field is present, is not \<open>None\<close>, and fails its test.\<close>

definition bad_field :: "(pyval \<Rightarrow> bool) \<Rightarrow> raw_dict \<Rightarrow> string \<Rightarrow> bool" where
  "bad_field test data k \<longleftrightarrow> get_or PNone data k \<noteq> PNone \<and> \<not> test (get_or PNone data k)"

definition validate_raw_dict :: "raw_dict \<Rightarrow> bool \<times> reason" where
  "validate_raw_dict data =
    (let missing = filter (\<lambda>k. k \<notin> set (dict_keys data)) required_fields;
         val = get_or PNone data in
     if missing \<noteq> [] then (False, MissingFields missing)
     else if \<not> is_version (val ''protocol_version'') then
       (False, UnsupportedVersion (val ''protocol_version''))
     else if \<not> is_str (val ''request_id'') then (False, MustBe ''request_id'' ''a string'')
     else if \<not> is_number (val ''timestamp'') then (False, MustBe ''timestamp'' ''numeric'')
     else if \<not> is_dict (val ''payload'') then (False, MustBe ''payload'' ''a dictionary'')
     else if type_of (val ''msg_type'') = None then (False, InvalidMember ''msg_type'' (val ''msg_type''))
     else if bad_field (\<lambda>v. channel_of v \<noteq> None) data ''channel'' then
       (False, InvalidMember ''channel'' (val ''channel''))
     else if bad_field (\<lambda>v. status_of v \<noteq> None) data ''status'' then
       (False, InvalidMember ''status'' (val ''status''))
     else if bad_field is_str data ''command'' then (False, MustBe ''command'' ''a string'')
     else if bad_field is_str data ''phase'' then (False, MustBe ''phase'' ''a string'')
     else if bad_field is_str data ''in_reply_to'' then (False, MustBe ''in_reply_to'' ''a string'')
     else if bad_field is_str data ''sender'' then (False, MustBe ''sender'' ''a string'')
     else if bad_field is_int data ''priority'' then (False, MustBe ''priority'' ''an integer'')
     else (True, ReasonOk))"

definition validate_semantics :: "raw_dict \<Rightarrow> bool \<times> reason" where
  "validate_semantics data =
    (let val = get_or PNone data in
     case type_of (val ''msg_type'') of
       None \<Rightarrow> (False, InvalidMember ''msg_type'' (val ''msg_type''))
     | Some HANDSHAKE \<Rightarrow>
         if \<not> truthy (val ''phase'') then (False, Requires HANDSHAKE ''phase'') else (True, ReasonOk)
     | Some COMMAND \<Rightarrow>
         if \<not> truthy (val ''command'') then (False, Requires COMMAND ''command'')
         else if val ''channel'' = PNone then (False, Requires COMMAND ''channel'')
         else (True, ReasonOk)
     | Some REPLY \<Rightarrow>
         if \<not> truthy (val ''in_reply_to'') then (False, Requires REPLY ''in_reply_to'')
         else (True, ReasonOk)
     | Some ERROR \<Rightarrow>
         if \<not> truthy (val ''in_reply_to'') then (False, Requires ERROR ''in_reply_to'')
         else (True, ReasonOk)
     | Some _ \<Rightarrow> (True, ReasonOk))"

definition validate_dict :: "raw_dict \<Rightarrow> bool \<times> reason" where
  "validate_dict data =
    (let (valid, why) = validate_raw_dict data in
     if \<not> valid then (False, why)
     else let (valid2, why2) = validate_semantics data in
       if \<not> valid2 then (False, why2) else (True, ReasonOk))"

definition validate_message_object :: "ProtocolMessage \<Rightarrow> bool \<times> reason" where
  "validate_message_object m = validate_dict (to_dict m)"

section \<open>Serialization\<close>

datatype encodable = Message ProtocolMessage | Dict raw_dict | Unsupported

definition utf8_encode :: "string \<Rightarrow> bytes option" where
  "utf8_encode s = (if utf8_ok s then Some s else None)"

definition encode :: "(64 word \<Rightarrow> string) \<Rightarrow> encodable \<Rightarrow> bytes" where
  "encode fr e =
    (let put = (\<lambda>d. case utf8_encode (dumps fr (PDict d)) of None \<Rightarrow> [] | Some b \<Rightarrow> b) in
     case e of Message m \<Rightarrow> put (to_dict m) | Dict d \<Rightarrow> put d | Unsupported \<Rightarrow> [])"

definition decode :: "(string \<Rightarrow> 64 word) \<Rightarrow> bytes \<Rightarrow> raw_dict" where
  "decode fo b =
    (if \<not> utf8_ok b then []
     else case loads fo b of Some (PDict d) \<Rightarrow> d | _ \<Rightarrow> [])"

definition serialize :: "(64 word \<Rightarrow> string) \<Rightarrow> ProtocolMessage \<Rightarrow> bytes" where
  "serialize fr m =
    (if \<not> fst (validate_message_object m) then [] else encode fr (Message m))"

definition deserialize :: "(string \<Rightarrow> 64 word) \<Rightarrow> bytes \<Rightarrow> ProtocolMessage option \<times> reason" where
  "deserialize fo b =
    (let raw = decode fo b in
     if raw = [] then (None, EmptyOrInvalid)
     else
       let (valid, why) = validate_raw_dict raw in
       if \<not> valid then (None, why)
       else
         let (valid2, why2) = validate_semantics raw in
         if \<not> valid2 then (None, why2)
         else case from_dict raw of
           Inl e \<Rightarrow> (None, Conversion e)
         | Inr m \<Rightarrow> (Some m, ReasonOk))"

section \<open>Constructors\<close>

text \<open>
  The generated request id (\<open>uuid4\<close>) and the clock are arguments; an absent keyword argument is
  \<open>PNone\<close>.
\<close>

definition build_message ::
  "string \<Rightarrow> pyval \<Rightarrow> MessageType \<Rightarrow> pyval \<Rightarrow> Channel option \<Rightarrow> pyval \<Rightarrow> pyval \<Rightarrow> pyval \<Rightarrow> pyval \<Rightarrow> pyval
     \<Rightarrow> MessageStatus option \<Rightarrow> pyval \<Rightarrow> pyval \<Rightarrow> ProtocolMessage" where
  "build_message new_id now ty pay ch cmd ph rid irt sndr st ts prio =
    \<lparr>protocol_version = PInt PROTOCOL_VERSION, msg_type = ty,
     request_id = (if truthy rid then rid else PStr new_id),
     timestamp = (if ts \<noteq> PNone then ts else now),
     payload = (if truthy pay then pay else PDict []),
     channel = ch, command = cmd, phase = ph, in_reply_to = irt, sender = sndr, status = st,
     priority = prio\<rparr>"

definition create_handshake ::
  "string \<Rightarrow> pyval \<Rightarrow> pyval \<Rightarrow> pyval \<Rightarrow> pyval \<Rightarrow> pyval \<Rightarrow> pyval \<Rightarrow> MessageStatus option \<Rightarrow> ProtocolMessage" where
  "create_handshake new_id now ph pay rid irt sndr st =
    build_message new_id now HANDSHAKE pay (Some SYSTEM) PNone ph rid irt sndr st PNone PNone"

definition create_command ::
  "string \<Rightarrow> pyval \<Rightarrow> Channel \<Rightarrow> pyval \<Rightarrow> pyval \<Rightarrow> pyval \<Rightarrow> pyval \<Rightarrow> pyval \<Rightarrow> ProtocolMessage" where
  "create_command new_id now ch cmd pay rid sndr prio =
    build_message new_id now COMMAND pay (Some ch) cmd PNone rid PNone sndr None PNone prio"

definition create_reply ::
  "string \<Rightarrow> pyval \<Rightarrow> Channel \<Rightarrow> pyval \<Rightarrow> pyval \<Rightarrow> pyval \<Rightarrow> pyval \<Rightarrow> MessageStatus \<Rightarrow> ProtocolMessage" where
  "create_reply new_id now ch irt pay rid sndr st =
    build_message new_id now REPLY pay (Some ch) PNone PNone rid irt sndr (Some st) PNone PNone"

definition create_event ::
  "string \<Rightarrow> pyval \<Rightarrow> Channel \<Rightarrow> pyval \<Rightarrow> pyval \<Rightarrow> pyval \<Rightarrow> MessageStatus option \<Rightarrow> ProtocolMessage" where
  "create_event new_id now ch pay rid sndr st =
    build_message new_id now EVENT pay (Some ch) PNone PNone rid PNone sndr st PNone PNone"

definition create_error ::
  "string \<Rightarrow> pyval \<Rightarrow> Channel \<Rightarrow> pyval \<Rightarrow> pyval \<Rightarrow> pyval \<Rightarrow> pyval \<Rightarrow> MessageStatus \<Rightarrow> ProtocolMessage" where
  "create_error new_id now ch pay rid irt sndr st =
    build_message new_id now ERROR pay (Some ch) PNone PNone rid irt sndr (Some st) PNone PNone"

definition create_sample ::
  "string \<Rightarrow> pyval \<Rightarrow> Channel \<Rightarrow> pyval \<Rightarrow> pyval \<Rightarrow> pyval \<Rightarrow> pyval \<Rightarrow> MessageStatus \<Rightarrow> ProtocolMessage" where
  "create_sample new_id now ch pay rid irt sndr st =
    build_message new_id now SAMPLE pay (Some ch) PNone PNone rid irt sndr (Some st) PNone PNone"

section \<open>Lemmas\<close>

lemma type_of_value [simp]: "type_of (PStr (type_value t)) = Some t"
  by (cases t) (simp_all add: type_of_def enum_of_def)

lemma channel_of_value [simp]: "channel_of (PStr (channel_value c)) = Some c"
  by (cases c) (simp_all add: channel_of_def enum_of_def)

lemma status_of_value [simp]: "status_of (PStr (status_value c)) = Some c"
  by (cases c) (simp_all add: status_of_def enum_of_def)

lemma enum_of_inv: "enum_of val es v = Some e \<Longrightarrow> v = PStr (val e)"
  by (auto simp: enum_of_def find_Some_iff split: pyval.splits)

lemma member_inv:
  "type_of v = Some t \<Longrightarrow> v = PStr (type_value t)"
  "channel_of v = Some c \<Longrightarrow> v = PStr (channel_value c)"
  "status_of v = Some s \<Longrightarrow> v = PStr (status_value s)"
  by (simp_all add: type_of_def channel_of_def status_of_def enum_of_inv)

lemma get_to_dict [simp]:
  "get_or d (to_dict m) ''protocol_version'' = protocol_version m"
  "get_or d (to_dict m) ''msg_type'' = PStr (type_value (msg_type m))"
  "get_or d (to_dict m) ''request_id'' = request_id m"
  "get_or d (to_dict m) ''timestamp'' = timestamp m"
  "get_or d (to_dict m) ''payload'' = payload m"
  "get_or d (to_dict m) ''channel'' = (case channel m of None \<Rightarrow> PNone | Some c \<Rightarrow> PStr (channel_value c))"
  "get_or d (to_dict m) ''command'' = command m"
  "get_or d (to_dict m) ''phase'' = phase m"
  "get_or d (to_dict m) ''in_reply_to'' = in_reply_to m"
  "get_or d (to_dict m) ''sender'' = sender m"
  "get_or d (to_dict m) ''status'' = (case status m of None \<Rightarrow> PNone | Some c \<Rightarrow> PStr (status_value c))"
  "get_or d (to_dict m) ''priority'' = priority m"
  by (simp_all add: get_or_def to_dict_def)

lemma item_to_dict [simp]:
  "item (to_dict m) ''protocol_version'' = Inr (protocol_version m)"
  "item (to_dict m) ''msg_type'' = Inr (PStr (type_value (msg_type m)))"
  "item (to_dict m) ''request_id'' = Inr (request_id m)"
  "item (to_dict m) ''timestamp'' = Inr (timestamp m)"
  by (simp_all add: item_def to_dict_def)

lemma optional_member_value [simp]:
  "optional_member channel_of (case c of None \<Rightarrow> PNone | Some c \<Rightarrow> PStr (channel_value c)) = Inr c"
  "optional_member status_of (case s of None \<Rightarrow> PNone | Some s \<Rightarrow> PStr (status_value s)) = Inr s"
  by (cases c; simp add: optional_member_def) (cases s; simp add: optional_member_def)

lemma from_to_dict: "from_dict (to_dict m) = Inr m"
  by (simp add: from_dict_def)

lemma validate_dict_ok:
  "validate_dict data = (True, why) \<longleftrightarrow>
   why = ReasonOk \<and> fst (validate_raw_dict data) \<and> fst (validate_semantics data)"
  by (auto simp: validate_dict_def split: prod.splits if_splits)

lemma to_dict_keys [simp]: "filter (\<lambda>k. k \<notin> set (dict_keys (to_dict m))) required_fields = []"
  by (simp add: to_dict_def required_fields_def)

lemma to_dict_not_Nil [simp]: "to_dict m \<noteq> []"
  by (simp add: to_dict_def)

lemma required_present:
  "filter (\<lambda>k. k \<notin> set (dict_keys data)) required_fields = [] \<Longrightarrow> k \<in> set required_fields \<Longrightarrow>
   item data k = Inr (get_or PNone data k)"
  by (auto simp: filter_empty_conv item_def get_or_def dest!: weak_map_of_SomeI split: option.splits)

lemma get_or_present:
  "filter (\<lambda>k. k \<notin> set (dict_keys data)) required_fields = [] \<Longrightarrow> k \<in> set required_fields \<Longrightarrow>
   get_or d data k = get_or PNone data k"
  using required_present[of data k] by (auto simp: item_def get_or_def split: option.splits)

lemma good_field: "\<not> bad_field test data k \<longleftrightarrow> get_or PNone data k = PNone \<or> test (get_or PNone data k)"
  by (auto simp: bad_field_def)

lemma optional_member_good:
  "\<not> bad_field (\<lambda>v. mk v \<noteq> None) data k \<Longrightarrow> \<exists>x. optional_member mk (get_or PNone data k) = Inr x"
  by (auto simp: bad_field_def optional_member_def)

lemma optional_channel_inv:
  "optional_member channel_of v = Inr x \<Longrightarrow> (case x of None \<Rightarrow> PNone | Some c \<Rightarrow> PStr (channel_value c)) = v"
  using member_inv(2)[of v] by (cases "channel_of v"; cases "v = PNone"; cases x) (simp_all add: optional_member_def)

lemma optional_status_inv:
  "optional_member status_of v = Inr x \<Longrightarrow> (case x of None \<Rightarrow> PNone | Some c \<Rightarrow> PStr (status_value c)) = v"
  using member_inv(3)[of v] by (cases "status_of v"; cases "v = PNone"; cases x) (simp_all add: optional_member_def)

text \<open>
  A dictionary that passes validation converts, and the message has the same fields as the
  dictionary: so the message is as valid as the dictionary was.
\<close>

lemma from_dict_valid:
  assumes "fst (validate_raw_dict data)"
  obtains m where "from_dict data = Inr m"
    and "\<And>k. k \<in> set (dict_keys (to_dict m)) \<Longrightarrow> get_or PNone (to_dict m) k = get_or PNone data k"
proof -
  have req: "filter (\<lambda>k. k \<notin> set (dict_keys data)) required_fields = []"
    and ty: "type_of (get_or PNone data ''msg_type'') \<noteq> None"
    and ch: "\<not> bad_field (\<lambda>v. channel_of v \<noteq> None) data ''channel''"
    and st: "\<not> bad_field (\<lambda>v. status_of v \<noteq> None) data ''status''"
    using assms by (auto simp: validate_raw_dict_def Let_def split: if_splits)
  from ty obtain t where t: "type_of (get_or PNone data ''msg_type'') = Some t" by auto
  from optional_member_good[OF ch] obtain c where
    c: "optional_member channel_of (get_or PNone data ''channel'') = Inr c" by blast
  from optional_member_good[OF st] obtain s where
    s: "optional_member status_of (get_or PNone data ''status'') = Inr s" by blast
  note it = required_present[OF req, unfolded required_fields_def, simplified]
  obtain m where m: "from_dict data = Inr m" and
    flds: "protocol_version m = get_or PNone data ''protocol_version''" "msg_type m = t"
      "request_id m = get_or PNone data ''request_id''" "timestamp m = get_or PNone data ''timestamp''"
      "payload m = get_or (PDict []) data ''payload''" "channel m = c" "command m = get_or PNone data ''command''"
      "phase m = get_or PNone data ''phase''" "in_reply_to m = get_or PNone data ''in_reply_to''"
      "sender m = get_or PNone data ''sender''" "status m = s" "priority m = get_or PNone data ''priority''"
  proof -
    show thesis by (rule that[of "projr (from_dict data)"]) (simp_all add: from_dict_def it t c s)
  qed
  have "get_or PNone (to_dict m) k = get_or PNone data k" if "k \<in> set (dict_keys (to_dict m))" for k
    using that member_inv(1)[OF t] optional_channel_inv[OF c] optional_status_inv[OF s]
      get_or_present[OF req, of "''payload''" "PDict []"]
    by (auto simp: to_dict_def flds get_or_def required_fields_def)
  with m that show ?thesis by blast
qed

lemma validate_same_fields:
  assumes "\<And>k. k \<in> set (dict_keys (to_dict m)) \<Longrightarrow> get_or PNone (to_dict m) k = get_or PNone data k"
    and "fst (validate_raw_dict data)"
  shows "validate_raw_dict (to_dict m) = validate_raw_dict data \<and>
    validate_semantics (to_dict m) = validate_semantics data"
proof -
  have get: "get_or PNone (to_dict m) k = get_or PNone data k"
    if "k \<in> set [''protocol_version'', ''msg_type'', ''request_id'', ''timestamp'', ''payload'',
      ''channel'', ''command'', ''phase'', ''in_reply_to'', ''sender'', ''status'', ''priority'']" for k
    using that by (intro assms(1)) (simp add: to_dict_def)
  have req: "filter (\<lambda>k. k \<notin> set (dict_keys data)) required_fields = []"
    using assms(2) by (auto simp: validate_raw_dict_def Let_def split: if_splits)
  show ?thesis
    unfolding validate_raw_dict_def validate_semantics_def bad_field_def Let_def
    by (simp only: req to_dict_keys get list.set insert_iff simp_thms)
qed

text \<open>What validation means for a message object.\<close>

lemma valid_raw_message:
  "fst (validate_raw_dict (to_dict m)) \<longleftrightarrow>
    is_version (protocol_version m) \<and> is_str (request_id m) \<and> is_number (timestamp m) \<and>
    is_dict (payload m) \<and> (command m = PNone \<or> is_str (command m)) \<and>
    (phase m = PNone \<or> is_str (phase m)) \<and> (in_reply_to m = PNone \<or> is_str (in_reply_to m)) \<and>
    (sender m = PNone \<or> is_str (sender m)) \<and> (priority m = PNone \<or> is_int (priority m))"
proof -
  have "\<not> bad_field (\<lambda>v. channel_of v \<noteq> None) (to_dict m) ''channel''"
    "\<not> bad_field (\<lambda>v. status_of v \<noteq> None) (to_dict m) ''status''"
    by (simp_all add: good_field split: option.splits)
  then show ?thesis
    unfolding validate_raw_dict_def Let_def to_dict_keys get_to_dict type_of_value
    by (auto simp: bad_field_def[of is_str] bad_field_def[of is_int])
qed

lemma valid_semantics_message:
  "fst (validate_semantics (to_dict m)) \<longleftrightarrow>
    (case msg_type m of
       HANDSHAKE \<Rightarrow> truthy (phase m)
     | COMMAND \<Rightarrow> truthy (command m) \<and> channel m \<noteq> None
     | REPLY \<Rightarrow> truthy (in_reply_to m)
     | ERROR \<Rightarrow> truthy (in_reply_to m)
     | _ \<Rightarrow> True)"
  by (simp add: validate_semantics_def Let_def split: MessageType.splits option.splits)

lemmas create_defs = create_command_def create_reply_def create_handshake_def create_event_def
  create_error_def create_sample_def build_message_def

section \<open>Properties\<close>


definition demo_float_repr :: "64 word \<Rightarrow> string" where
  "demo_float_repr w = (if w = 0x3FF8000000000000 then ''1.5'' else ''0.0'')"

definition demo_float_of :: "string \<Rightarrow> 64 word" where
  "demo_float_of s = (if s = ''1.5'' then 0x3FF8000000000000 else 0)"

definition demo_command :: ProtocolMessage where
  "demo_command = create_command ''id-1'' (PFloat 0x3FF8000000000000) HV (PStr ''hv_on'')
     (PDict [(''channels'', PList [PInt 0, PInt (- 3)]), (''note'', PStr [CHR 0x0A, CHR 0x22])])
     PNone PNone PNone"


text \<open>
  Every message \<open>deserialize\<close> accepts is itself valid (it could be serialized again), has a
  string request id and a dictionary payload, and the conversion of validated data never raises: a
  rejection is always one of the validation reasons.
\<close>

theorem accepted_message_is_valid:
  "case deserialize fo b of
     (Some m, why) \<Rightarrow> why = ReasonOk \<and> validate_message_object m = (True, ReasonOk) \<and>
       is_str (request_id m) \<and> is_dict (payload m)
   | (None, why) \<Rightarrow> \<forall>e. why \<noteq> Conversion e"
proof -
  let ?raw = "decode fo b"
  have raw_why: "snd (validate_raw_dict d) \<noteq> Conversion e" for d e
    by (simp add: validate_raw_dict_def Let_def)
  have sem_why: "snd (validate_semantics d) \<noteq> Conversion e" for d e
    by (simp add: validate_semantics_def Let_def split: option.splits MessageType.splits)
  consider "?raw = []" | "?raw \<noteq> []" "\<not> fst (validate_raw_dict ?raw)"
    | "?raw \<noteq> []" "fst (validate_raw_dict ?raw)" "\<not> fst (validate_semantics ?raw)"
    | (good) "?raw \<noteq> []" "fst (validate_raw_dict ?raw)" "fst (validate_semantics ?raw)" by blast
  then show ?thesis
  proof cases
    case good
    obtain m where m: "from_dict ?raw = Inr m"
      and same: "\<And>k. k \<in> set (dict_keys (to_dict m)) \<Longrightarrow> get_or PNone (to_dict m) k = get_or PNone ?raw k"
      using from_dict_valid[OF good(2)] by metis
    have v: "fst (validate_raw_dict (to_dict m))" "fst (validate_semantics (to_dict m))"
      using validate_same_fields[OF same good(2)] good by simp_all
    then have "validate_message_object m = (True, ReasonOk)"
      by (simp add: validate_message_object_def validate_dict_ok)
    moreover have "is_str (request_id m) \<and> is_dict (payload m)"
      using v(1) by (auto simp: validate_raw_dict_def Let_def split: if_splits)
    ultimately show ?thesis using good m by (simp add: deserialize_def case_prod_beta Let_def)
  qed (simp_all add: deserialize_def case_prod_beta Let_def raw_why sem_why)
qed

text \<open>
  The constructors make messages that pass validation: commands and replies with a
  non-empty command name or request reference, handshakes with a phase, events and samples always,
  whenever the payload is a dictionary or absent, the clock gives a number and the optional ids are
  strings or absent.
\<close>

theorem created_messages_are_valid:
  assumes "pay = PNone \<or> is_dict pay" and "is_number now"
    and "rid = PNone \<or> is_str rid" and "sndr = PNone \<or> is_str sndr"
    and "prio = PNone \<or> is_int prio" and "n \<noteq> []"
  shows "\<forall>m \<in> {create_command nid now ch (PStr n) pay rid sndr prio,
      create_reply nid now ch (PStr n) pay rid sndr st,
      create_handshake nid now (PStr n) pay rid PNone sndr ost,
      create_event nid now ch pay rid sndr ost,
      create_error nid now ch pay rid (PStr n) sndr st,
      create_sample nid now ch pay rid PNone sndr st}. validate_message_object m = (True, ReasonOk)"
proof -
  have d: "is_dict (if truthy pay then pay else PDict [])" using assms(1) by auto
  have r: "is_str (if truthy rid then rid else PStr nid)" using assms(3) by auto
  show ?thesis
    using assms d r
    by (simp add: validate_message_object_def validate_dict_ok valid_raw_message
        valid_semantics_message create_defs is_version_def)
qed

theorem created_messages_are_valid_witness:
  "validate_message_object (create_command ''id-1'' (PInt 7) RC (PStr ''rc_boot'') PNone PNone PNone PNone)
    = (True, ReasonOk)"
  using created_messages_are_valid[of PNone "PInt 7" PNone PNone PNone "''rc_boot''" "''id-1''" RC OK None]
  by simp

end
