(* ===== verification/Replies.thy ===== *)
theory Replies
  imports Protocol
begin

text \<open>
  Matching replies to waiting requests (\<open>common/reply_handler.py\<close>). A \<open>PendingReply\<close> is an object
  shared by the thread that waits and by the dictionary of waiters: it stays reachable for its
  waiter after a cancellation removed its key, so the objects live in a store and the dictionary
  holds addresses. \<open>wait_pending_reply\<close> takes the lock twice; it is three steps, between which other
  threads run: look the object up, return from \<open>event.wait\<close> (woken, or the time is over), remove the key.
\<close>

section \<open>State and operations\<close>

record PendingReply =
  pr_event :: bool
  pr_message :: "ProtocolMessage option"
  pr_error :: "string option"

type_synonym reply_key = "client_id \<times> pyval"

record reply_handler =
  reply_waiters :: "(reply_key, nat) dict"
  objects :: "PendingReply list"

definition new_pending :: PendingReply where
  "new_pending = \<lparr>pr_event = False, pr_message = None, pr_error = None\<rparr>"

definition init_reply_handler :: reply_handler where
  "init_reply_handler = \<lparr>reply_waiters = [], objects = []\<rparr>"

definition register_pending_reply ::
  "client_id \<Rightarrow> pyval \<Rightarrow> reply_handler \<Rightarrow> bool \<times> reply_handler" where
  "register_pending_reply cid rid h =
    (if (cid, rid) \<in> set (dict_keys (reply_waiters h)) then (False, h)
     else (True, h\<lparr>reply_waiters := dict_set (cid, rid) (length (objects h)) (reply_waiters h),
                   objects := objects h @ [new_pending]\<rparr>))"

definition deliver_pending_reply ::
  "client_id \<Rightarrow> ProtocolMessage \<Rightarrow> reply_handler \<Rightarrow> bool \<times> reply_handler" where
  "deliver_pending_reply cid m h =
    (case dict_get (reply_waiters h) (cid, in_reply_to m) of
       None \<Rightarrow> (False, h)
     | Some a \<Rightarrow>
         (True, h\<lparr>objects := (objects h)[a := (objects h ! a)\<lparr>pr_message := Some m, pr_event := True\<rparr>]\<rparr>))"

definition wait_lookup :: "client_id \<Rightarrow> pyval \<Rightarrow> reply_handler \<Rightarrow> nat option" where
  "wait_lookup cid rid h = dict_get (reply_waiters h) (cid, rid)"

text \<open>The result of \<open>event.wait\<close> on the object: set, or not set when the time is over.\<close>

definition wait_outcome :: "nat \<Rightarrow> reply_handler \<Rightarrow> ProtocolMessage option \<times> string" where
  "wait_outcome a h =
    (let p = objects h ! a in
     if pr_event p then
       (case pr_message p of
          Some m \<Rightarrow> (Some m, ''ok'')
        | None \<Rightarrow> (None, case pr_error p of
                           None \<Rightarrow> ''wait cancelled''
                         | Some e \<Rightarrow> if e = [] then ''wait cancelled'' else e))
     else (None, ''timeout waiting for reply''))"

definition wait_finish :: "client_id \<Rightarrow> pyval \<Rightarrow> reply_handler \<Rightarrow> reply_handler" where
  "wait_finish cid rid h = h\<lparr>reply_waiters := dict_pop (cid, rid) (reply_waiters h)\<rparr>"

text \<open>The three steps in a row, when nothing happens in between.\<close>

definition wait_pending_reply ::
  "client_id \<Rightarrow> pyval \<Rightarrow> reply_handler \<Rightarrow> (ProtocolMessage option \<times> string) \<times> reply_handler" where
  "wait_pending_reply cid rid h =
    (case wait_lookup cid rid h of
       None \<Rightarrow> ((None, ''reply not found''), h)
     | Some a \<Rightarrow> (wait_outcome a h, wait_finish cid rid h))"

definition cancel_one :: "string \<Rightarrow> reply_key \<Rightarrow> reply_handler \<Rightarrow> reply_handler" where
  "cancel_one reason k h =
    (case dict_get (reply_waiters h) k of
       None \<Rightarrow> h
     | Some a \<Rightarrow>
         h\<lparr>reply_waiters := dict_pop k (reply_waiters h),
           objects := (objects h)[a := (objects h ! a)\<lparr>pr_error := Some reason, pr_event := True\<rparr>]\<rparr>)"

definition cancel_locked :: "reply_key list \<Rightarrow> string \<Rightarrow> reply_handler \<Rightarrow> nat \<times> reply_handler" where
  "cancel_locked ks reason h = (length ks, fold (cancel_one reason) ks h)"

definition cancel_all :: "string \<Rightarrow> reply_handler \<Rightarrow> nat \<times> reply_handler" where
  "cancel_all reason h = cancel_locked (dict_keys (reply_waiters h)) reason h"

definition cancel_client :: "client_id \<Rightarrow> string \<Rightarrow> reply_handler \<Rightarrow> nat \<times> reply_handler" where
  "cancel_client cid reason h =
    cancel_locked (filter (\<lambda>k. fst k = cid) (dict_keys (reply_waiters h))) reason h"

section \<open>Invariant: one object per waiting key\<close>

definition replies_ok :: "reply_handler \<Rightarrow> bool" where
  "replies_ok h \<longleftrightarrow>
    dict_ok (reply_waiters h) \<and> distinct (map snd (reply_waiters h)) \<and>
    (\<forall>(k, a) \<in> set (reply_waiters h). a < length (objects h))"

datatype reply_op =
    Register client_id pyval
  | Deliver client_id ProtocolMessage
  | Finish client_id pyval
  | CancelAll string
  | CancelClient client_id string

fun run_reply_op :: "reply_op \<Rightarrow> reply_handler \<Rightarrow> reply_handler" where
  "run_reply_op (Register c r) h = snd (register_pending_reply c r h)"
| "run_reply_op (Deliver c m) h = snd (deliver_pending_reply c m h)"
| "run_reply_op (Finish c r) h = wait_finish c r h"
| "run_reply_op (CancelAll e) h = snd (cancel_all e h)"
| "run_reply_op (CancelClient c e) h = snd (cancel_client c e h)"

lemma set_delete: "set (dict_pop k d) \<subseteq> set d"
  by (induction d) auto

lemma pop_no_key: "x \<in> set (dict_pop k d) \<Longrightarrow> fst x \<noteq> k"
  by (induction d) (auto split: if_splits)

lemma distinct_snd_pop: "distinct (map snd d) \<Longrightarrow> distinct (map snd (dict_pop k d))"
proof (induction d)
  case (Cons kv d)
  then show ?case using set_delete[of k d] by (auto simp: image_iff)
qed simp

lemma dict_set_new_key: "k \<notin> set (map fst d) \<Longrightarrow> dict_set k v d = d @ [(k, v)]"
  by (rule dict_set_new)

lemma replies_register: "replies_ok h \<Longrightarrow> replies_ok (snd (register_pending_reply c r h))"
proof (cases "(c, r) \<in> set (dict_keys (reply_waiters h))")
  case False
  assume ok: "replies_ok h"
  then have "length (objects h) \<notin> set (map snd (reply_waiters h))"
    by (auto simp: replies_ok_def)
  with ok False show ?thesis
    by (auto simp: replies_ok_def register_pending_reply_def dict_set_new_key dict_ok_def less_SucI)
qed (simp add: register_pending_reply_def)

lemma replies_deliver: "replies_ok h \<Longrightarrow> replies_ok (snd (deliver_pending_reply c m h))"
  by (auto simp: replies_ok_def deliver_pending_reply_def split: option.splits)

lemma replies_pop:
  "replies_ok h \<Longrightarrow> length os = length (objects h) \<Longrightarrow>
   replies_ok (h\<lparr>reply_waiters := dict_pop k (reply_waiters h), objects := os\<rparr>)"
  using set_delete[of k "reply_waiters h"]
  by (auto simp: replies_ok_def distinct_snd_pop)

lemma replies_finish: "replies_ok h \<Longrightarrow> replies_ok (wait_finish c r h)"
  using replies_pop[of h "objects h" "(c, r)"] by (simp add: wait_finish_def)

lemma replies_cancel_one: "replies_ok h \<Longrightarrow> replies_ok (cancel_one e k h)"
  by (auto simp: cancel_one_def intro: replies_pop split: option.splits)

lemma replies_cancel: "replies_ok h \<Longrightarrow> replies_ok (snd (cancel_locked ks e h))"
  unfolding cancel_locked_def by (induction ks arbitrary: h) (auto simp: replies_cancel_one)

interpretation replies: kept_invariant "\<lambda>h. h = init_reply_handler" run_reply_op replies_ok
proof unfold_locales
  show "replies_ok h \<Longrightarrow> replies_ok (run_reply_op c h)" for h c
    by (cases c) (auto simp: replies_register replies_deliver replies_finish cancel_all_def
        cancel_client_def replies_cancel)
qed (simp add: replies_ok_def init_reply_handler_def)

lemma replies_in: "dict_get (reply_waiters h) k = Some a \<Longrightarrow> (k, a) \<in> set (reply_waiters h)"
  by (rule map_of_SomeD)

lemma replies_bound: "replies_ok h \<Longrightarrow> dict_get (reply_waiters h) k = Some a \<Longrightarrow> a < length (objects h)"
  by (auto simp: replies_ok_def dest: replies_in)

lemma replies_inj:
  "replies_ok h \<Longrightarrow> dict_get (reply_waiters h) k = Some a \<Longrightarrow> dict_get (reply_waiters h) l = Some a \<Longrightarrow> k = l"
  by (auto simp: replies_ok_def dest!: replies_in)
     (metis (no_types, lifting) distinct_map inj_onD prod.inject snd_conv)

section \<open>Cancellation\<close>

lemma cancel_one_waiters: "dict_get (reply_waiters (cancel_one e k h)) l =
    (if l = k then None else dict_get (reply_waiters h) l)"
  by (auto simp: cancel_one_def dict_simps split: option.splits)

lemma cancel_one_objects:
  "replies_ok h \<Longrightarrow> a < length (objects h) \<Longrightarrow> objects (cancel_one e k h) ! a =
    (if dict_get (reply_waiters h) k = Some a
     then (objects h ! a)\<lparr>pr_error := Some e, pr_event := True\<rparr> else objects h ! a)"
  by (auto simp: cancel_one_def nth_list_update split: option.splits)

lemma cancel_one_length [simp]: "length (objects (cancel_one e k h)) = length (objects h)"
  by (simp add: cancel_one_def split: option.splits)

lemma cancel_waiters: "dict_get (reply_waiters (snd (cancel_locked ks e h))) l =
    (if l \<in> set ks then None else dict_get (reply_waiters h) l)"
  unfolding cancel_locked_def by (induction ks arbitrary: h) (auto simp: cancel_one_waiters)

lemma cancel_length [simp]: "length (objects (snd (cancel_locked ks e h))) = length (objects h)"
  unfolding cancel_locked_def by (induction ks arbitrary: h) auto

lemma cancel_objects:
  "replies_ok h \<Longrightarrow> a < length (objects h) \<Longrightarrow> objects (snd (cancel_locked ks e h)) ! a =
    (if \<exists>k \<in> set ks. dict_get (reply_waiters h) k = Some a
     then (objects h ! a)\<lparr>pr_error := Some e, pr_event := True\<rparr> else objects h ! a)"
proof (induction ks arbitrary: h)
  case (Cons k ks)
  have step: "objects (snd (cancel_locked ks e (cancel_one e k h))) ! a =
      (if \<exists>l \<in> set ks. dict_get (reply_waiters (cancel_one e k h)) l = Some a
       then (objects (cancel_one e k h) ! a)\<lparr>pr_error := Some e, pr_event := True\<rparr>
       else objects (cancel_one e k h) ! a)"
    using Cons.prems by (intro Cons.IH) (simp_all add: replies_cancel_one)
  have eq: "snd (cancel_locked (k # ks) e h) = snd (cancel_locked ks e (cancel_one e k h))"
    by (simp add: cancel_locked_def)
  show ?case
  proof (cases "dict_get (reply_waiters h) k = Some a")
    case True
    then have "\<not> (\<exists>l \<in> set ks. dict_get (reply_waiters (cancel_one e k h)) l = Some a)"
      using replies_inj[OF Cons.prems(1) True] by (metis cancel_one_waiters option.distinct(1))
    then show ?thesis
      unfolding eq step using True cancel_one_objects[OF Cons.prems, of e k] by simp
  next
    case False
    then have "(\<exists>l \<in> set ks. dict_get (reply_waiters (cancel_one e k h)) l = Some a) \<longleftrightarrow>
        (\<exists>l \<in> set (k # ks). dict_get (reply_waiters h) l = Some a)"
      by (auto simp: cancel_one_waiters)
    then show ?thesis
      unfolding eq step using False cancel_one_objects[OF Cons.prems, of e k] by simp
  qed
qed (simp add: cancel_locked_def)

section \<open>Threads\<close>

text \<open>
  Threads that wait, interleaved with every other operation. \<open>returned\<close> logs what
  \<open>wait_pending_reply\<close> gave back, \<open>delivered\<close> what arrived from which client. Removing a key is
  allowed at any time, which includes the end of every wait.
\<close>

record reply_system =
  rs_handler :: reply_handler
  rs_waiting :: "(nat \<times> reply_key \<times> nat) list"
  rs_delivered :: "(client_id \<times> ProtocolMessage) list"
  rs_returned :: "(nat \<times> reply_key \<times> ProtocolMessage option \<times> string) list"

definition init_reply_system :: reply_system where
  "init_reply_system =
    \<lparr>rs_handler = init_reply_handler, rs_waiting = [], rs_delivered = [], rs_returned = []\<rparr>"

fun log_delivery :: "reply_op \<Rightarrow> (client_id \<times> ProtocolMessage) list \<Rightarrow> (client_id \<times> ProtocolMessage) list" where
  "log_delivery (Deliver c m) ds = (c, m) # ds"
| "log_delivery _ ds = ds"

inductive reply_step :: "reply_system \<Rightarrow> reply_system \<Rightarrow> bool" where
  operate: "reply_step s (s\<lparr>rs_handler := run_reply_op op (rs_handler s),
                            rs_delivered := log_delivery op (rs_delivered s)\<rparr>)"
| wait: "wait_lookup c r (rs_handler s) = Some a \<Longrightarrow>
         reply_step s (s\<lparr>rs_waiting := (t, (c, r), a) # rs_waiting s\<rparr>)"
| not_found: "wait_lookup c r (rs_handler s) = None \<Longrightarrow>
         reply_step s (s\<lparr>rs_returned := (t, (c, r), None, ''reply not found'') # rs_returned s\<rparr>)"
| wake: "(t, k, a) \<in> set (rs_waiting s) \<Longrightarrow>
         reply_step s (s\<lparr>rs_waiting := remove1 (t, k, a) (rs_waiting s),
                         rs_returned := (t, k, wait_outcome a (rs_handler s)) # rs_returned s\<rparr>)"

definition held :: "reply_system \<Rightarrow> (reply_key \<times> nat) set" where
  "held s = set (reply_waiters (rs_handler s)) \<union> snd ` set (rs_waiting s)"

definition reply_sys_ok :: "reply_system \<Rightarrow> bool" where
  "reply_sys_ok s \<longleftrightarrow>
    replies_ok (rs_handler s) \<and>
    (\<forall>k a. (k, a) \<in> held s \<longrightarrow> a < length (objects (rs_handler s))) \<and>
    (\<forall>k a m. (k, a) \<in> held s \<longrightarrow> pr_message (objects (rs_handler s) ! a) = Some m \<longrightarrow>
       (fst k, m) \<in> set (rs_delivered s) \<and> in_reply_to m = snd k) \<and>
    (\<forall>k l a. (k, a) \<in> held s \<longrightarrow> (l, a) \<in> held s \<longrightarrow> k = l) \<and>
    (\<forall>t k res m. (t, k, res) \<in> set (rs_returned s) \<longrightarrow> fst res = Some m \<longrightarrow>
       (fst k, m) \<in> set (rs_delivered s) \<and> in_reply_to m = snd k \<and> snd res = ''ok'')"

text \<open>An operation keeps the objects' messages, or stores one for the key that holds the object.\<close>

lemma op_waiters:
  "(k, a) \<in> set (reply_waiters (run_reply_op op h)) \<Longrightarrow> replies_ok h \<Longrightarrow>
   (k, a) \<in> set (reply_waiters h) \<or> a = length (objects h) \<and> length (objects h) < length (objects (run_reply_op op h))"
proof -
  assume ok: "replies_ok h" and m: "(k, a) \<in> set (reply_waiters (run_reply_op op h))"
  have ok': "replies_ok (run_reply_op op h)" using ok by (rule replies.inv_call)
  then have g: "dict_get (reply_waiters (run_reply_op op h)) k = Some a"
    using m by (simp add: replies_ok_def dict_ok_def)
  show ?thesis
    using g
    by (cases op) (auto simp: register_pending_reply_def deliver_pending_reply_def wait_finish_def
        dict_simps cancel_all_def cancel_client_def cancel_waiters dest: map_of_SomeD
        split: if_splits option.splits)
qed

lemma op_length: "length (objects h) \<le> length (objects (run_reply_op op h))"
  by (cases op) (auto simp: register_pending_reply_def deliver_pending_reply_def wait_finish_def
      cancel_all_def cancel_client_def split: option.splits)

lemma op_message:
  assumes ok: "replies_ok h" and a: "a < length (objects h)"
    and m: "pr_message (objects (run_reply_op op h) ! a) = Some m"
  shows "pr_message (objects h ! a) = Some m \<or>
    (\<exists>c. op = Deliver c m \<and> dict_get (reply_waiters h) (c, in_reply_to m) = Some a)"
proof (cases op)
  case (Deliver c m')
  with m a show ?thesis
    by (cases "dict_get (reply_waiters h) (c, in_reply_to m') = Some a")
       (auto simp: deliver_pending_reply_def split: option.splits)
qed (use m ok a in \<open>auto simp: register_pending_reply_def wait_finish_def
      cancel_all_def cancel_client_def cancel_objects nth_append split: if_splits\<close>)

lemma op_new_message:
  "a = length (objects h) \<Longrightarrow> length (objects h) < length (objects (run_reply_op op h)) \<Longrightarrow>
   pr_message (objects (run_reply_op op h) ! a) = None"
  by (cases op) (auto simp: register_pending_reply_def deliver_pending_reply_def wait_finish_def
      cancel_all_def cancel_client_def new_pending_def nth_append split: option.splits if_splits)

lemma log_delivery_mono: "set ds \<subseteq> set (log_delivery op ds)"
  by (cases op) auto

lemma reply_sysD:
  assumes "reply_sys_ok s"
  shows "replies_ok (rs_handler s)"
    and "(k, a) \<in> held s \<Longrightarrow> a < length (objects (rs_handler s))"
    and "(k, a) \<in> held s \<Longrightarrow> pr_message (objects (rs_handler s) ! a) = Some m \<Longrightarrow>
          (fst k, m) \<in> set (rs_delivered s) \<and> in_reply_to m = snd k"
    and "(k, a) \<in> held s \<Longrightarrow> (l, a) \<in> held s \<Longrightarrow> k = l"
    and "(t, k, res) \<in> set (rs_returned s) \<Longrightarrow> fst res = Some m \<Longrightarrow>
          (fst k, m) \<in> set (rs_delivered s) \<and> in_reply_to m = snd k \<and> snd res = ''ok''"
  using assms unfolding reply_sys_ok_def by blast+

lemma reply_sysI:
  assumes "replies_ok (rs_handler s)"
    and "\<And>k a. (k, a) \<in> held s \<Longrightarrow> a < length (objects (rs_handler s))"
    and "\<And>k a m. (k, a) \<in> held s \<Longrightarrow> pr_message (objects (rs_handler s) ! a) = Some m \<Longrightarrow>
          (fst k, m) \<in> set (rs_delivered s) \<and> in_reply_to m = snd k"
    and "\<And>k l a. (k, a) \<in> held s \<Longrightarrow> (l, a) \<in> held s \<Longrightarrow> k = l"
    and "\<And>t k res m. (t, k, res) \<in> set (rs_returned s) \<Longrightarrow> fst res = Some m \<Longrightarrow>
          (fst k, m) \<in> set (rs_delivered s) \<and> in_reply_to m = snd k \<and> snd res = ''ok''"
  shows "reply_sys_ok s"
  unfolding reply_sys_ok_def using assms by blast

lemma reply_sys_operate:
  assumes ok: "reply_sys_ok s"
    and s': "s' = s\<lparr>rs_handler := run_reply_op op (rs_handler s),
                     rs_delivered := log_delivery op (rs_delivered s)\<rparr>"
  shows "reply_sys_ok s'"
proof (rule reply_sysI)
  let ?h = "rs_handler s" and ?h' = "run_reply_op op (rs_handler s)"
  note rok = reply_sysD(1)[OF ok]
  note old = reply_sysD(2)[OF ok]
  have grow: "x \<in> set (rs_delivered s')" if "x \<in> set (rs_delivered s)" for x
    using that log_delivery_mono by (auto simp: s')
  show rok': "replies_ok (rs_handler s')" using replies.inv_call[OF rok] by (simp add: s')
  have held': "(k, a) \<in> held s \<or> a = length (objects ?h) \<and> length (objects ?h) < length (objects ?h')
      \<and> dict_get (reply_waiters ?h') k = Some a"
    if "(k, a) \<in> held s'" for k a
    using that op_waiters[OF _ rok, of k a op] rok'
    by (auto simp: held_def s' replies_ok_def dict_ok_def)
  show "a < length (objects (rs_handler s'))" if "(k, a) \<in> held s'" for k a
    using held'[OF that] old[of k a] op_length[of ?h op] by (auto simp: s')
  show "(fst k, m) \<in> set (rs_delivered s') \<and> in_reply_to m = snd k"
    if h: "(k, a) \<in> held s'" and m: "pr_message (objects (rs_handler s') ! a) = Some m" for k a m
  proof (cases "(k, a) \<in> held s")
    case True
    have "pr_message (objects ?h' ! a) = Some m" using m by (simp add: s')
    from op_message[OF rok old[OF True] this] show ?thesis
    proof
      assume "pr_message (objects ?h ! a) = Some m"
      from reply_sysD(3)[OF ok True this] grow show ?thesis by blast
    next
      assume "\<exists>c. op = Deliver c m \<and> dict_get (reply_waiters ?h) (c, in_reply_to m) = Some a"
      then obtain c where c: "op = Deliver c m" and "((c, in_reply_to m), a) \<in> held s"
        by (auto simp: held_def dest: map_of_SomeD)
      with reply_sysD(4)[OF ok True] have "k = (c, in_reply_to m)" by blast
      with c show ?thesis by (simp add: s')
    qed
  next
    case False
    with held'[OF h] m show ?thesis using op_new_message[of a ?h op] by (auto simp: s')
  qed
  show "k = l" if "(k, a) \<in> held s'" "(l, a) \<in> held s'" for k l a
  proof (cases "(k, a) \<in> held s")
    case True
    with held'[OF that(2)] old[OF True] reply_sysD(4)[OF ok True] show ?thesis by auto
  next
    case False
    with held'[OF that(1)] held'[OF that(2)] old[of l a] rok' show ?thesis
      using replies_inj[of ?h' k a l] by (auto simp: s')
  qed
  show "(fst k, m) \<in> set (rs_delivered s') \<and> in_reply_to m = snd k \<and> snd res = ''ok''"
    if "(t, k, res) \<in> set (rs_returned s')" "fst res = Some m" for t k res m
    using reply_sysD(5)[OF ok, of t k res m] that grow by (auto simp: s')
qed

lemma reply_sys_step:
  assumes "reply_step s s'" and ok: "reply_sys_ok s"
  shows "reply_sys_ok s'"
  using assms(1)
proof cases
  case (operate op)
  with ok show ?thesis by (rule reply_sys_operate)
next
  case (wait c r a t)
  then have "((c, r), a) \<in> held s" by (auto simp: wait_lookup_def held_def dest: map_of_SomeD)
  then have "held s' = held s" using wait by (auto simp: held_def)
  with ok wait show ?thesis by (simp add: reply_sys_ok_def)
next
  case (not_found c r t)
  with ok show ?thesis by (simp add: reply_sys_ok_def held_def)
next
  case (wake t k a)
  have ka: "(k, a) \<in> held s" using wake by (force simp: held_def)
  have new: "(fst k, m) \<in> set (rs_delivered s) \<and> in_reply_to m = snd k \<and>
      snd (wait_outcome a (rs_handler s)) = ''ok''"
    if "fst (wait_outcome a (rs_handler s)) = Some m" for m
    using that reply_sysD(3)[OF ok ka]
    by (auto simp: wait_outcome_def Let_def split: if_splits option.splits)
  have sub: "held s' \<subseteq> held s"
    using wake set_remove1_subset[of "(t, k, a)" "rs_waiting s"] by (auto simp: held_def)
  show ?thesis
  proof (rule reply_sysI)
    show "(fst k', m) \<in> set (rs_delivered s') \<and> in_reply_to m = snd k' \<and> snd res = ''ok''"
      if "(t', k', res) \<in> set (rs_returned s')" "fst res = Some m" for t' k' res m
      using that new reply_sysD(5)[OF ok, of t' k' res m] wake by auto
    show "k' = l" if "(k', b) \<in> held s'" "(l, b) \<in> held s'" for k' l b
      using that sub by (blast intro: reply_sysD(4)[OF ok])
  qed (use wake sub reply_sysD(1-3)[OF ok] in \<open>auto dest!: subsetD\<close>)
qed

lemma reply_sys_reachable: "reply_step\<^sup>*\<^sup>* init_reply_system s \<Longrightarrow> reply_sys_ok s"
proof (induction rule: rtranclp_induct)
  case base
  show ?case
    by (simp add: reply_sys_ok_def held_def init_reply_system_def replies.inv_start
        init_reply_handler_def replies_ok_def)
next
  case (step s s')
  then show ?case by (blast intro: reply_sys_step)
qed

section \<open>Operations on other keys\<close>

fun touches :: "reply_key \<Rightarrow> reply_op \<Rightarrow> bool" where
  "touches k (Register c r) \<longleftrightarrow> k = (c, r)"
| "touches k (Deliver c m) \<longleftrightarrow> k = (c, in_reply_to m)"
| "touches k (Finish c r) \<longleftrightarrow> k = (c, r)"
| "touches k (CancelAll e) \<longleftrightarrow> True"
| "touches k (CancelClient c e) \<longleftrightarrow> fst k = c"

lemma untouched_op:
  assumes ok: "replies_ok h" and k: "dict_get (reply_waiters h) k = Some a" and n: "\<not> touches k op"
  shows "dict_get (reply_waiters (run_reply_op op h)) k = Some a \<and>
    objects (run_reply_op op h) ! a = objects h ! a"
proof -
  note a = replies_bound[OF ok k]
  show ?thesis
  proof (cases op)
    case (Deliver c m)
    have "b \<noteq> a" if "dict_get (reply_waiters h) (c, in_reply_to m) = Some b" for b
      using replies_inj[OF ok k] that n Deliver by auto
    with Deliver k show ?thesis by (auto simp: deliver_pending_reply_def split: option.splits)
  next
    case (CancelClient c e)
    have "\<not> (\<exists>l \<in> set (filter (\<lambda>k. fst k = c) (dict_keys (reply_waiters h))).
        dict_get (reply_waiters h) l = Some a)"
      using replies_inj[OF ok k] n CancelClient by auto
    with CancelClient k n a ok show ?thesis
      by (auto simp: cancel_client_def cancel_waiters cancel_objects)
  qed (use k n a in \<open>auto simp: register_pending_reply_def wait_finish_def dict_simps nth_append\<close>)
qed

lemma untouched_ops:
  "replies_ok h \<Longrightarrow> dict_get (reply_waiters h) k = Some a \<Longrightarrow> list_all (\<lambda>op. \<not> touches k op) ops \<Longrightarrow>
   dict_get (reply_waiters (fold run_reply_op ops h)) k = Some a \<and>
   objects (fold run_reply_op ops h) ! a = objects h ! a"
proof (induction ops arbitrary: h)
  case (Cons op ops)
  from untouched_op[OF Cons.prems(1,2)] Cons.prems(3)
  have "dict_get (reply_waiters (run_reply_op op h)) k = Some a"
    "objects (run_reply_op op h) ! a = objects h ! a" by auto
  with Cons.IH[OF replies.inv_call[OF Cons.prems(1)]] Cons.prems(3) show ?case by simp
qed simp

section \<open>Properties\<close>

text \<open>
  Claim C8. In every interleaving of requests, replies, cancellations and timeouts, a thread that
  waits for request \<open>r\<close> of client \<open>c\<close> is only ever given a message that client \<open>c\<close> sent in reply to
  \<open>r\<close>, with status \<open>ok\<close>; anything else is an error text.
\<close>

theorem wait_returns_own_reply:
  assumes "reply_step\<^sup>*\<^sup>* init_reply_system s"
    and "(t, (c, r), (Some m, why)) \<in> set (rs_returned s)"
  shows "(c, m) \<in> set (rs_delivered s) \<and> in_reply_to m = r \<and> why = ''ok''"
  using reply_sysD(5)[OF reply_sys_reachable[OF assms(1)] assms(2)] by simp

definition demo_reply :: ProtocolMessage where
  "demo_reply = create_reply ''id-2'' (PInt 7) HV (PStr ''id-1'') PNone PNone PNone OK"

definition demo_system :: reply_system where
  "demo_system =
    (let h = run_reply_op (Deliver ''A'' demo_reply)
               (run_reply_op (Register ''A'' (PStr ''id-1'')) init_reply_handler)
     in \<lparr>rs_handler = h, rs_waiting = [], rs_delivered = [(''A'', demo_reply)],
         rs_returned = [(1, (''A'', PStr ''id-1''), wait_outcome 0 h)]\<rparr>)"

theorem wait_returns_own_reply_witness:
  "(1, (''A'', PStr ''id-1''), (Some demo_reply, ''ok'')) \<in> set (rs_returned demo_system) \<and>
   (''A'', demo_reply) \<in> set (rs_delivered demo_system)"
proof -
  let ?s1 = "init_reply_system\<lparr>rs_handler := run_reply_op (Register ''A'' (PStr ''id-1'')) init_reply_handler\<rparr>"
  let ?s2 = "?s1\<lparr>rs_waiting := [(1, (''A'', PStr ''id-1''), 0)]\<rparr>"
  let ?s3 = "?s2\<lparr>rs_handler := rs_handler demo_system, rs_delivered := [(''A'', demo_reply)]\<rparr>"
  have "reply_step init_reply_system ?s1"
    using reply_step.operate[of init_reply_system "Register ''A'' (PStr ''id-1'')"]
    by (simp add: init_reply_system_def)
  moreover have "reply_step ?s1 ?s2"
    using reply_step.wait[of "''A''" "PStr ''id-1''" ?s1 0 1]
    by (simp add: init_reply_system_def wait_lookup_def register_pending_reply_def init_reply_handler_def)
  moreover have "reply_step ?s2 ?s3"
    using reply_step.operate[of ?s2 "Deliver ''A'' demo_reply"]
    by (simp add: init_reply_system_def demo_system_def Let_def)
  moreover have "reply_step ?s3 demo_system"
    using reply_step.wake[of 1 "(''A'', PStr ''id-1'')" 0 ?s3]
    by (simp add: init_reply_system_def demo_system_def Let_def)
  ultimately have "reply_step\<^sup>*\<^sup>* init_reply_system demo_system"
    by (meson rtranclp.rtrancl_refl rtranclp.rtrancl_into_rtrancl)
  moreover have in_ret: "(1, (''A'', PStr ''id-1''), (Some demo_reply, ''ok'')) \<in> set (rs_returned demo_system)"
    by code_simp
  ultimately show ?thesis using wait_returns_own_reply[of demo_system 1 "''A''"] by blast
qed



text \<open>
  \<open>cancel_client\<close> wakes exactly the waiters of that client: it reports how many there
  were, removes their keys, and each of them returns the reason as an error unless its reply had
  already arrived; the requests of every other client stay registered, with their objects unchanged.
\<close>

theorem cancel_client_wakes_its_waiters:
  assumes "h = fold run_reply_op ops init_reply_handler" and "e \<noteq> []"
    and "dict_get (reply_waiters h) (d, r) = Some a"
  shows "case cancel_client c e h of
    (n, h') \<Rightarrow> n = length (filter (\<lambda>k. fst k = c) (dict_keys (reply_waiters h))) \<and>
      (if d = c then wait_lookup d r h' = None \<and>
         wait_outcome a h' = (case pr_message (objects h ! a) of None \<Rightarrow> (None, e) | Some m \<Rightarrow> (Some m, ''ok''))
       else wait_lookup d r h' = Some a \<and> objects h' ! a = objects h ! a)"
proof -
  have ok: "replies_ok h" unfolding assms(1) by (rule replies.inv_run) simp
  note b = replies_bound[OF ok assms(3)]
  let ?ks = "filter (\<lambda>k. fst k = c) (dict_keys (reply_waiters h))"
  have ex: "(\<exists>k \<in> set ?ks. dict_get (reply_waiters h) k = Some a) \<longleftrightarrow> d = c"
  proof
    assume "d = c"
    with assms(3) have "(d, r) \<in> set ?ks" by (force dest: map_of_SomeD)
    with assms(3) show "\<exists>k \<in> set ?ks. dict_get (reply_waiters h) k = Some a" by blast
  next
    assume "\<exists>k \<in> set ?ks. dict_get (reply_waiters h) k = Some a"
    then show "d = c" using replies_inj[OF ok assms(3)] by fastforce
  qed
  have "(d, r) \<in> set ?ks \<longleftrightarrow> d = c" using assms(3) by (force dest: map_of_SomeD)
  then show ?thesis
    using assms(2,3) cancel_objects[OF ok b, of ?ks e, unfolded ex] cancel_waiters[of ?ks e h "(d, r)"]
    by (auto simp: cancel_client_def case_prod_beta wait_lookup_def wait_outcome_def Let_def
        cancel_locked_def split: option.splits)
qed

theorem cancel_client_wakes_its_waiters_witness:
  "wait_outcome 0 (snd (cancel_client ''A'' ''client lost''
     (fold run_reply_op [Register ''A'' (PStr ''x''), Register ''B'' (PStr ''x'')] init_reply_handler)))
   = (None, ''client lost'')"
proof -
  let ?h = "fold run_reply_op [Register ''A'' (PStr ''x''), Register ''B'' (PStr ''x'')] init_reply_handler"
  have "dict_get (reply_waiters ?h) (''A'', PStr ''x'') = Some 0" by code_simp
  moreover have "pr_message (objects ?h ! 0) = None" by code_simp
  ultimately show ?thesis
    using cancel_client_wakes_its_waiters[OF refl, of "''client lost''" "[Register ''A'' (PStr ''x''), Register ''B'' (PStr ''x'')]" "''A''" "PStr ''x''" 0 "''A''"]
    by (simp add: case_prod_beta)
qed

end
