(* ===== verification/Channels.thy ===== *)
theory Channels
  imports PyText
begin

text \<open>
  Channel numbers: the user numbering 0..6 of the server and of the run control board, the numbering
  1..7 of the high voltage modules, the three functions that check a channel selection
  (\<open>server/utils/channels.py\<close>, \<open>client/utils/channels.py\<close> and
  \<open>HVInterface.hv_channels_definition\<close>) and the way a selection takes from the server to the
  high voltage layer.
\<close>

definition N_CHANNELS :: int where
  "N_CHANNELS = 7"

definition hv_to_user_channels :: "int list \<Rightarrow> int list" where
  "hv_to_user_channels chs = map (\<lambda>ch. ch - 1) chs"

definition user_to_hv_channels :: "int list \<Rightarrow> int list" where
  "user_to_hv_channels chs = map (\<lambda>ch. ch + 1) chs"

section \<open>Selections checked by the server\<close>

datatype selection = All_channels | Channel_list "int list"

definition is_plain_int :: "pyval \<Rightarrow> bool" where
  "is_plain_int v = (case v of PInt _ \<Rightarrow> True | _ \<Rightarrow> False)"

fun plain_int :: "pyval \<Rightarrow> int" where
  "plain_int (PInt n) = n" | "plain_int _ = 0"

text \<open>The values named by the argument, before the range check; \<open>None\<close> stands for \<open>all\<close>.\<close>

definition user_values :: "pyval \<Rightarrow> py_exn + int list option" where
  "user_values chs =
    (case chs of
       PStr s \<Rightarrow>
         let txt = strip s in
         if lower txt = ''all'' then Inr None
         else (case map_result (\<lambda>part. py_int (strip part)) (split_on (CHR '','') txt) of
                 None \<Rightarrow> Inl ValueError
               | Some vs \<Rightarrow> Inr (Some vs))
     | PInt n \<Rightarrow> Inr (Some [n])
     | PList vs \<Rightarrow>
         if vs = [] then Inl ValueError
         else if list_all is_plain_int vs then Inr (Some (map plain_int vs))
         else Inl TypeError
     | _ \<Rightarrow> Inl TypeError)"

definition normalize_user_channels :: "pyval \<Rightarrow> int \<Rightarrow> py_exn + selection" where
  "normalize_user_channels chs n_channels =
    (case user_values chs of
       Inl e \<Rightarrow> Inl e
     | Inr None \<Rightarrow> Inr All_channels
     | Inr (Some vs) \<Rightarrow>
         if list_ex (\<lambda>v. v < 0 \<or> v \<ge> n_channels) vs then Inl ValueError
         else Inr (Channel_list (fromkeys vs)))"

section \<open>Selections checked by the client\<close>

text \<open>
  The argument of \<open>channels_definition\<close> as its signature declares it: an integer (or a Boolean,
  which is one), a list of integers, a string, or another type.
\<close>

datatype channel_arg = ArgInt int | ArgList "int list" | ArgStr string | ArgOther

definition channels_definition ::
  "channel_arg \<Rightarrow> int \<Rightarrow> bool \<Rightarrow> bool \<Rightarrow> py_exn + int list" where
  "channels_definition chs n_channels hv_channels rc_channels =
    (case (case chs of
             ArgInt n \<Rightarrow> Inr [n]
           | ArgList ns \<Rightarrow> Inr ns
           | ArgStr s \<Rightarrow>
               if lower s = ''all'' then Inr [0..n_channels - 1]
               else (case map_result py_int (split_on (CHR '','') s) of
                       None \<Rightarrow> Inl ValueError | Some ns \<Rightarrow> Inr ns)
           | ArgOther \<Rightarrow> Inl TypeError) of
       Inl e \<Rightarrow> Inl e
     | Inr ch_list \<Rightarrow>
         if list_ex (\<lambda>ch. ch < 0 \<or> ch \<ge> n_channels) ch_list then Inl ValueError
         else
           let l1 = (if hv_channels then map (\<lambda>ch. ch + 1) ch_list else ch_list);
               l2 = (if rc_channels then map (\<lambda>ch. ch + 20) l1 else l1)
           in Inr l2)"

text \<open>The check of each element of \<open>hv_channels_definition\<close>, in order; a Boolean is an integer.\<close>

fun check_hv :: "int \<Rightarrow> pyval list \<Rightarrow> py_exn + int list" where
  "check_hv n [] = Inr []"
| "check_hv n (v # vs) =
    (case (case v of PInt i \<Rightarrow> Some i | PBool b \<Rightarrow> Some (of_bool b) | _ \<Rightarrow> None) of
       None \<Rightarrow> Inl TypeError
     | Some ch \<Rightarrow>
         if ch < 1 \<or> ch > n then Inl ValueError
         else (case check_hv n vs of Inl e \<Rightarrow> Inl e | Inr cs \<Rightarrow> Inr (ch # cs)))"

definition hv_channels_definition :: "pyval \<Rightarrow> int \<Rightarrow> py_exn + int list" where
  "hv_channels_definition chs n_channels =
    (case chs of
       PInt i \<Rightarrow> check_hv n_channels [PInt i]
     | PBool b \<Rightarrow> check_hv n_channels [PBool b]
     | PList vs \<Rightarrow> check_hv n_channels vs
     | PStr s \<Rightarrow>
         if lower s = ''all'' then check_hv n_channels (map PInt [1..n_channels])
         else (case map_result py_int (split_on (CHR '','') s) of
                 None \<Rightarrow> Inl ValueError
               | Some ns \<Rightarrow> check_hv n_channels (map PInt ns))
     | _ \<Rightarrow> Inl TypeError)"

section \<open>Contract of a channel check\<close>

locale channel_check =
  fixes check :: "'a \<Rightarrow> py_exn + int list"
    and lo hi :: int
  assumes in_range: "check x = Inr cs \<Longrightarrow> c \<in> set cs \<Longrightarrow> lo \<le> c \<and> c \<le> hi"
begin

lemma card_bound:
  assumes "check x = Inr cs" and "distinct cs" and "lo \<le> hi + 1"
  shows "length cs \<le> nat (hi - lo + 1)"
proof -
  have "set cs \<subseteq> {lo..hi}" using in_range[OF assms(1)] by auto
  then have "card (set cs) \<le> card {lo..hi}" by (rule card_mono[rotated]) simp
  with assms show ?thesis by (simp add: distinct_card)
qed

end

lemma check_hv_range:
  "check_hv n vs = Inr cs \<Longrightarrow> c \<in> set cs \<Longrightarrow> 1 \<le> c \<and> c \<le> n"
  by (induction n vs arbitrary: cs rule: check_hv.induct)
     (auto split: if_splits option.splits sum.splits)

interpretation user_check: channel_check "\<lambda>x. channels_definition x n False False" 0 "n - 1" for n
  by unfold_locales
     (auto simp: channels_definition_def list_ex_iff split: sum.splits if_splits)

interpretation client_hv_check: channel_check "\<lambda>x. channels_definition x n True False" 1 n for n
  by unfold_locales
     (fastforce simp: channels_definition_def list_ex_iff split: sum.splits if_splits)

interpretation hv_check: channel_check "\<lambda>x. hv_channels_definition x n" 1 n for n
  by unfold_locales
     (auto simp: hv_channels_definition_def dest: check_hv_range split: pyval.splits if_splits option.splits)

section \<open>Properties\<close>

lemma check_hv_ints:
  "list_all (\<lambda>c. 1 \<le> c \<and> c \<le> n) cs \<Longrightarrow> check_hv n (map PInt cs) = Inr cs"
  by (induction cs) auto

text \<open>The form in which a checked selection travels to the client.\<close>

definition selection_arg :: "selection \<Rightarrow> channel_arg" where
  "selection_arg sel = (case sel of All_channels \<Rightarrow> ArgStr ''all'' | Channel_list cs \<Rightarrow> ArgList cs)"

definition selected :: "int \<Rightarrow> selection \<Rightarrow> int list" where
  "selected n sel = (case sel of All_channels \<Rightarrow> [0..n - 1] | Channel_list cs \<Rightarrow> cs)"

lemma upto_shift: "map (\<lambda>ch. ch + 1) [0..n - 1] = [1..n]" for n :: int
proof -
  have "map (\<lambda>ch. ch + 1) [a..b] = [a + 1..b + 1]" for a b :: int
    by (induction a b rule: upto.induct) (subst (1 2) upto.simps, simp)
  from this[of 0 "n - 1"] show ?thesis by simp
qed

lemma normalize_cases:
  assumes "normalize_user_channels chs n = Inr sel"
  obtains "sel = All_channels"
    | vs where "user_values chs = Inr (Some vs)" "sel = Channel_list (fromkeys vs)"
        "\<forall>v \<in> set vs. 0 \<le> v \<and> v < n"
  using assms by (fastforce simp: normalize_user_channels_def list_ex_iff split: sum.splits option.splits if_splits)

text \<open>
  Claim C10. A selection the server accepts is accepted by the whole chain: the client converts it to
  module numbers, the high voltage layer accepts these unchanged, they name no module twice, and
  converted back they are the channels the user selected.
\<close>

theorem selection_reaches_hv_layer:
  assumes "normalize_user_channels chs n = Inr sel"
  shows "\<exists>cs. channels_definition (selection_arg sel) n True False = Inr cs \<and>
    hv_channels_definition (PList (map PInt cs)) n = Inr cs \<and> distinct cs \<and>
    hv_to_user_channels cs = selected n sel"
  using assms
proof (cases rule: normalize_cases)
  case 1
  have "channels_definition (selection_arg sel) n True False = Inr [1..n]"
    by (auto simp: 1 selection_arg_def channels_definition_def lower_def lower_char_def list_ex_iff upto_shift)
  moreover have "check_hv n (map PInt [1..n]) = Inr [1..n]"
    by (rule check_hv_ints) (auto simp: list_all_iff)
  moreover have "hv_to_user_channels [1..n] = [0..n - 1]"
    by (simp add: hv_to_user_channels_def upto_shift[symmetric] comp_def)
  ultimately show ?thesis by (simp add: 1 hv_channels_definition_def selected_def)
next
  case (2 vs)
  let ?us = "fromkeys vs"
  have r: "\<forall>v \<in> set ?us. 0 \<le> v \<and> v < n" using 2 by simp
  then have "channels_definition (selection_arg sel) n True False = Inr (map (\<lambda>ch. ch + 1) ?us)"
    by (auto simp: 2(2) selection_arg_def channels_definition_def list_ex_iff)
  moreover have "check_hv n (map PInt (map (\<lambda>ch. ch + 1) ?us)) = Inr (map (\<lambda>ch. ch + 1) ?us)"
    using r by (intro check_hv_ints) (auto simp: list_all_iff)
  moreover have "distinct (map (\<lambda>ch. ch + 1 :: int) ?us)" by (simp add: distinct_map inj_on_def)
  ultimately show ?thesis
    by (simp add: 2(2) hv_channels_definition_def selected_def hv_to_user_channels_def comp_def)
qed

theorem selection_reaches_hv_layer_witness:
  "\<exists>cs. channels_definition (selection_arg (Channel_list [2, 0, 6])) 7 True False = Inr cs \<and>
    hv_channels_definition (PList (map PInt cs)) 7 = Inr cs \<and> distinct cs \<and>
    hv_to_user_channels cs = selected 7 (Channel_list [2, 0, 6])"
proof -
  have "normalize_user_channels (PStr '' 2, 0,6 ,2'') 7 = Inr (Channel_list [2, 0, 6])" by code_simp
  then show ?thesis by (rule selection_reaches_hv_layer)
qed

lemma comma_not_in_int: "CHR '','' \<notin> set (str_int n)"
  using dec_digits[of "CHR '',''"] by (auto simp: str_int_def is_digit_def)

lemma str_int_nonspace:
  "str_int n \<noteq> []" "\<not> py_space (hd (str_int n))" "\<not> py_space (last (str_int n))"
  using is_digit_not_space[OF hd_dec_digit] is_digit_not_space[OF last_dec_digit]
  by (auto simp: str_int_def py_space_def[of "CHR ''-''"])

lemma strip_str_int: "strip (str_int n) = str_int n"
  by (rule strip_nonspace) (rule str_int_nonspace)+

lemma join_ends:
  "ns \<noteq> [] \<Longrightarrow> join_with sep (map str_int ns) \<noteq> [] \<and>
     hd (join_with sep (map str_int ns)) = hd (str_int (hd ns)) \<and>
     last (join_with sep (map str_int ns)) = last (str_int (last ns))"
proof (induction ns)
  case (Cons n ns)
  then show ?case
    using str_int_nonspace(1) by (cases ns) auto
qed simp

lemma map_result_str_int: "map_result (\<lambda>part. py_int (strip part)) (map str_int ns) = Some ns"
  by (induction ns) (simp_all add: strip_str_int)

lemma not_all_digits: "ns \<noteq> [] \<Longrightarrow> lower (join_with '','' (map str_int ns)) \<noteq> ''all''"
proof
  assume ne: "ns \<noteq> []" and eq: "lower (join_with '','' (map str_int ns)) = ''all''"
  from join_ends[OF ne, of "'',''"] obtain c cs where
    j: "join_with '','' (map str_int ns) = c # cs" and c: "c = hd (str_int (hd ns))"
    by (cases "join_with '','' (map str_int ns)") auto
  have "is_digit c \<or> c = CHR ''-''" using hd_dec_digit by (auto simp: c str_int_def)
  then have "lower_char c = c" by (auto simp: lower_char_def is_digit_def Let_def)
  with eq j \<open>is_digit c \<or> c = CHR ''-''\<close> show False by (auto simp: lower_def is_digit_def)
qed

text \<open>
  The comma separated text of a list of channels and the list itself are the same
  selection, with the same error when a channel is out of range.
\<close>

theorem channel_text_is_channel_list:
  assumes "ns \<noteq> []"
  shows "normalize_user_channels (PStr (join_with '','' (map str_int ns))) n =
    normalize_user_channels (PList (map PInt ns)) n"
proof -
  let ?t = "join_with '','' (map str_int ns)"
  have "strip ?t = ?t"
    using join_ends[OF assms] str_int_nonspace by (intro strip_nonspace) auto
  moreover have "split_on (CHR '','') ?t = map str_int ns"
    using assms comma_not_in_int by (intro split_join) auto
  ultimately have "user_values (PStr ?t) = Inr (Some ns)"
    using not_all_digits[OF assms] by (simp add: user_values_def map_result_str_int)
  moreover have "user_values (PList (map PInt ns)) = Inr (Some ns)"
    using assms by (simp add: user_values_def list_all_iff is_plain_int_def comp_def)
  ultimately show ?thesis by (simp add: normalize_user_channels_def)
qed

theorem channel_text_is_channel_list_witness:
  "normalize_user_channels (PStr ''3,9'') 7 = normalize_user_channels (PList [PInt 3, PInt 9]) 7"
proof -
  have "join_with '','' (map str_int [3, 9]) = ''3,9''" by code_simp
  with channel_text_is_channel_list[of "[3, 9]" 7] show ?thesis by simp
qed

end
