(* ===== verification/Timeouts.thy ===== *)
theory Timeouts
  imports Prelude
begin

text \<open>
  The timeouts of the commands between server and client (\<open>common/timeouts.py\<close>). Every value of the
  file is a whole number of seconds, and the file only adds them, so the floats are integers here.
\<close>

definition RAMP_S :: int where "RAMP_S = 300"

definition RAMP_WAIT_S :: int where "RAMP_WAIT_S = RAMP_S + 60"

definition HW_MARGIN_S :: int where "HW_MARGIN_S = 60"

definition SERVER_MARGIN_S :: int where "SERVER_MARGIN_S = 30"

definition DEFAULT_CLIENT_TIMEOUT_S :: int where "DEFAULT_CLIENT_TIMEOUT_S = 35"

definition CONNECT_CLIENT_WAIT_S :: int where "CONNECT_CLIENT_WAIT_S = 20"

definition HANDSHAKE_STEP_TIMEOUT_S :: int where "HANDSHAKE_STEP_TIMEOUT_S = 20"

definition PLANE_HELLO_WAIT_S :: int where
  "PLANE_HELLO_WAIT_S = CONNECT_CLIENT_WAIT_S + HANDSHAKE_STEP_TIMEOUT_S"

definition RAMP_COMMAND_S :: int where "RAMP_COMMAND_S = RAMP_WAIT_S + HW_MARGIN_S"

definition HV_SYNC_S :: int where "HV_SYNC_S = 90"

definition HV_ON_S :: int where "HV_ON_S = 90"

definition CLIENT_TIMEOUT_S :: "(string, int) dict" where
  "CLIENT_TIMEOUT_S =
    [(''set_common_voltage'', 35),
     (''set_common_threshold'', 35),
     (''set_acquisition_configuration'', RAMP_COMMAND_S),
     (''get_voltage_channels'', 30),
     (''get_threshold_channels'', 30),
     (''get_volt_thr_channels'', 40),
     (''get_power_state_channels'', RAMP_COMMAND_S),
     (''hv_on'', HV_ON_S),
     (''hv_off'', 90),
     (''hv_force_off'', 90),
     (''set_hv_sync'', HV_SYNC_S),
     (''hv_on_and_wait'', RAMP_COMMAND_S),
     (''hv_off_and_wait'', RAMP_COMMAND_S),
     (''mark_bad'', 150),
     (''unmark_bad'', 150),
     (''set_pmt_serials'', 60),
     (''get_serial_map'', 60),
     (''hv_monitor_snapshot'', 60),
     (''rc_acq_start'', 30),
     (''rc_boot'', 30),
     (''rc_reset'', 30),
     (''rc_read_register'', 30),
     (''rc_write_register'', 30),
     (''rc_read_acq_registers'', 30),
     (''set_rc_acq'', 30),
     (''rc_all_rate_monitoring'', 30),
     (''feb_program'', 600),
     (''main_read_snapshot'', 30),
     (''main_sensor_status'', 30),
     (''sample_start'', 10),
     (''sample_stop'', 10),
     (''get_multipmt_configuration'', RAMP_COMMAND_S),
     (''set_acq_mode_sync'', RAMP_COMMAND_S + HV_SYNC_S + RAMP_COMMAND_S + RAMP_COMMAND_S + HV_ON_S)]"

definition client_timeout :: "string \<Rightarrow> int" where
  "client_timeout cmd =
    (case dict_get CLIENT_TIMEOUT_S cmd of None \<Rightarrow> DEFAULT_CLIENT_TIMEOUT_S | Some t \<Rightarrow> t)"

definition server_timeout :: "string \<Rightarrow> int" where
  "server_timeout cmd = client_timeout cmd + SERVER_MARGIN_S"

lemmas timeout_defs = RAMP_S_def RAMP_WAIT_S_def HW_MARGIN_S_def SERVER_MARGIN_S_def
  DEFAULT_CLIENT_TIMEOUT_S_def CONNECT_CLIENT_WAIT_S_def HANDSHAKE_STEP_TIMEOUT_S_def
  PLANE_HELLO_WAIT_S_def RAMP_COMMAND_S_def HV_SYNC_S_def HV_ON_S_def

text \<open>The commands whose handlers wait for the end of a ramp.\<close>

definition ramp_commands :: "string list" where
  "ramp_commands =
    [''set_acquisition_configuration'', ''get_power_state_channels'', ''hv_on_and_wait'',
     ''hv_off_and_wait'', ''get_multipmt_configuration'', ''set_acq_mode_sync'']"

lemma client_timeout_positive: "0 < client_timeout cmd"
proof (cases "dict_get CLIENT_TIMEOUT_S cmd")
  case (Some t)
  then have "t \<in> set (map snd CLIENT_TIMEOUT_S)" by (force dest: map_of_SomeD)
  moreover have "list_all (\<lambda>t. 0 < t) (map snd CLIENT_TIMEOUT_S)" by code_simp
  ultimately show ?thesis using Some by (auto simp: client_timeout_def list_all_iff)
qed (simp add: client_timeout_def DEFAULT_CLIENT_TIMEOUT_S_def)


end
