(* ===== verification/MacRegistry.thy ===== *)
theory MacRegistry
  imports PyText
begin

text \<open>
  The registry that gives every client MAC address a numeric id and keeps it in a JSON file
  (\<open>server/core/mac_id_registry.py\<close>). The file system is explicit: the possible paths are numbered in
  the order the code tries them, a file is a saved registry or cannot be read as one, and writing to a
  path may fail. Saved ids are integers, as the program writes them.
\<close>

section \<open>State\<close>

datatype registry_file = Saved "(string, int) dict" | Unreadable

record file_system =
  fs_files :: "(nat, registry_file) dict"
  fs_writable :: "nat list"

definition CONFIG_FILES_POSSIBLE_PATHS :: "nat list" where
  "CONFIG_FILES_POSSIBLE_PATHS = [0, 1, 2]"

record mac_registry =
  path_mac_file :: "nat option"
  present_client_mac_id :: "(string, int) dict option"
  mac_by_numeric_id :: "(int, string) dict"

definition init_mac_registry :: mac_registry where
  "init_mac_registry = \<lparr>path_mac_file = None, present_client_mac_id = None, mac_by_numeric_id = []\<rparr>"

section \<open>Operations\<close>

definition path_exists :: "file_system \<Rightarrow> nat \<Rightarrow> bool" where
  "path_exists fs p \<longleftrightarrow> dict_get (fs_files fs) p \<noteq> None"

definition by_numeric_id :: "(string, int) dict \<Rightarrow> (int, string) dict" where
  "by_numeric_id d =
    fold (\<lambda>(mac, i) m. dict_set i mac m) (filter (\<lambda>(mac, i). mac \<noteq> ''index'') d) []"

definition load_from_file :: "file_system \<Rightarrow> mac_registry \<Rightarrow> bool \<times> mac_registry" where
  "load_from_file fs r =
    (case (case path_mac_file r of
             Some p \<Rightarrow> Some p
           | None \<Rightarrow> find (path_exists fs) CONFIG_FILES_POSSIBLE_PATHS) of
       None \<Rightarrow> (False, r)
     | Some p \<Rightarrow>
         (case dict_get (fs_files fs) p of
            Some (Saved d) \<Rightarrow>
              (True, r\<lparr>present_client_mac_id := Some d, mac_by_numeric_id := by_numeric_id d,
                       path_mac_file := Some p\<rparr>)
          | _ \<Rightarrow> (False, r)))"

definition ensure_loaded :: "file_system \<Rightarrow> mac_registry \<Rightarrow> mac_registry" where
  "ensure_loaded fs r =
    (if present_client_mac_id r = None then snd (load_from_file fs r) else r)"

definition present :: "mac_registry \<Rightarrow> (string, int) dict" where
  "present r = (case present_client_mac_id r of None \<Rightarrow> [] | Some d \<Rightarrow> d)"

definition add_client_mac ::
  "string \<Rightarrow> file_system \<times> mac_registry \<Rightarrow> int option \<times> file_system \<times> mac_registry" where
  "add_client_mac mac st =
    (let (fs, r0) = st;
         r1 = ensure_loaded fs r0;
         d = present r1;
         r2 = r1\<lparr>present_client_mac_id := Some d\<rparr>
     in case dict_get d mac of
          Some i \<Rightarrow> (Some i, fs, r2\<lparr>mac_by_numeric_id := dict_set i mac (mac_by_numeric_id r2)\<rparr>)
        | None \<Rightarrow>
            let new_idx = (case dict_get d ''index'' of None \<Rightarrow> -1 | Some i \<Rightarrow> i) + 1;
                d' = dict_set ''index'' new_idx (dict_set mac new_idx d);
                r3 = r2\<lparr>present_client_mac_id := Some d',
                        mac_by_numeric_id := dict_set new_idx mac (mac_by_numeric_id r2)\<rparr>;
                p = (case path_mac_file r3 of
                       Some p \<Rightarrow> p | None \<Rightarrow> hd CONFIG_FILES_POSSIBLE_PATHS)
            in if p \<in> set (fs_writable fs)
               then (Some new_idx, fs\<lparr>fs_files := dict_set p (Saved d') (fs_files fs)\<rparr>,
                     r3\<lparr>path_mac_file := Some p\<rparr>)
               else (None, fs, r3))"

definition get_id_from_mac ::
  "string \<Rightarrow> file_system \<times> mac_registry \<Rightarrow> int option \<times> file_system \<times> mac_registry" where
  "get_id_from_mac mac st =
    (let (fs, r0) = st; r1 = ensure_loaded fs r0 in
     case (case present_client_mac_id r1 of None \<Rightarrow> None | Some d \<Rightarrow> dict_get d mac) of
       Some i \<Rightarrow> (Some i, fs, r1)
     | None \<Rightarrow> add_client_mac mac (fs, r1))"

definition get_mac_from_id ::
  "int + string \<Rightarrow> file_system \<times> mac_registry \<Rightarrow> string option \<times> file_system \<times> mac_registry" where
  "get_mac_from_id arg st =
    (let (fs, r0) = st; r1 = ensure_loaded fs r0 in
     case (case arg of Inl n \<Rightarrow> Some n | Inr s \<Rightarrow> py_int s) of
       None \<Rightarrow> (None, fs, r1)
     | Some n \<Rightarrow> (dict_get (mac_by_numeric_id r1) n, fs, r1))"

section \<open>Invariant\<close>

definition index_of :: "(string, int) dict \<Rightarrow> int" where
  "index_of d = (case dict_get d ''index'' of None \<Rightarrow> -1 | Some i \<Rightarrow> i)"

text \<open>Ids are unique and none is above the index.\<close>

definition ids_ok :: "(string, int) dict \<Rightarrow> bool" where
  "ids_ok d \<longleftrightarrow> dict_ok d \<and>
    (\<forall>m i. m \<noteq> ''index'' \<longrightarrow> dict_get d m = Some i \<longrightarrow> i \<le> index_of d) \<and>
    (\<forall>m n i. m \<noteq> ''index'' \<longrightarrow> n \<noteq> ''index'' \<longrightarrow> dict_get d m = Some i \<longrightarrow> dict_get d n = Some i
       \<longrightarrow> m = n)"

definition mac_state_ok :: "file_system \<times> mac_registry \<Rightarrow> bool" where
  "mac_state_ok = (\<lambda>(fs, r).
    (\<forall>p d. dict_get (fs_files fs) p = Some (Saved d) \<longrightarrow> ids_ok d) \<and>
    (\<forall>d. present_client_mac_id r = Some d \<longrightarrow> ids_ok d) \<and>
    (\<forall>i m. dict_get (mac_by_numeric_id r) i = Some m \<longleftrightarrow>
       m \<noteq> ''index'' \<and> dict_get (present r) m = Some i))"

lemma by_numeric_id_get:
  assumes "ids_ok d"
  shows "dict_get (by_numeric_id d) i = Some m \<longleftrightarrow> m \<noteq> ''index'' \<and> dict_get d m = Some i"
proof -
  let ?ps = "filter (\<lambda>(mac, i). mac \<noteq> ''index'') d"
  have gen: "dict_get (fold (\<lambda>(mac, i) m. dict_set i mac m) ps acc) i =
      (case map_of (rev (map (\<lambda>(a, b). (b, a)) ps)) i of Some m \<Rightarrow> Some m | None \<Rightarrow> dict_get acc i)" for ps acc
    by (induction ps arbitrary: acc) (auto simp: dict_simps map_add_def split: option.splits)
  have inj: "x = y" if xy: "x \<in> set ?ps" "y \<in> set ?ps" "snd x = snd y" for x y
  proof -
    obtain m n i where x: "x = (m, i)" and y: "y = (n, i)" using xy(3) by (cases x; cases y) auto
    then have "m \<noteq> ''index''" "n \<noteq> ''index''" "(m, i) \<in> set d" "(n, i) \<in> set d" using xy by auto
    with assms x y show ?thesis by (auto simp: ids_ok_def dict_ok_def)
  qed
  have "distinct (map fst ?ps)"
    using assms by (simp add: ids_ok_def dict_ok_def distinct_map_filter)
  then have "distinct ?ps" by (simp add: distinct_map)
  then have "distinct (map fst (rev (map (\<lambda>(a, b). (b, a)) ?ps)))"
    using inj by (auto simp: rev_map[symmetric] distinct_map inj_on_def comp_def case_prod_beta)
  then have "map_of (rev (map (\<lambda>(a, b). (b, a)) ?ps)) i = Some m \<longleftrightarrow> (m, i) \<in> set ?ps"
    by (auto simp: image_iff)
  also have "\<dots> \<longleftrightarrow> m \<noteq> ''index'' \<and> dict_get d m = Some i"
    using assms by (auto simp: ids_ok_def dict_ok_def)
  finally show ?thesis
    unfolding by_numeric_id_def gen by (auto split: option.splits)
qed

lemma ids_ok_Nil [simp]: "ids_ok []"
  by (simp add: ids_ok_def)

lemma ensure_loaded_ok:
  assumes "mac_state_ok (fs, r)"
  shows "mac_state_ok (fs, ensure_loaded fs r)"
proof (cases "present_client_mac_id r = None \<and> fst (load_from_file fs r)")
  case True
  then obtain p d where l: "dict_get (fs_files fs) p = Some (Saved d)"
    "snd (load_from_file fs r) = r\<lparr>present_client_mac_id := Some d, mac_by_numeric_id := by_numeric_id d,
                       path_mac_file := Some p\<rparr>"
    by (auto simp: load_from_file_def split: option.splits registry_file.splits)
  then have "ids_ok d" using assms by (simp add: mac_state_ok_def)
  with l True assms show ?thesis
    by (simp add: ensure_loaded_def mac_state_ok_def present_def by_numeric_id_get)
next
  case False
  then have "ensure_loaded fs r = r"
    by (auto simp: ensure_loaded_def load_from_file_def split: option.splits registry_file.splits)
  with assms show ?thesis by simp
qed

lemma ids_ok_add:
  assumes ok: "ids_ok d" and mac: "mac \<noteq> ''index''" and new: "dict_get d mac = None"
    and n: "n = index_of d + 1"
  shows "ids_ok (dict_set ''index'' n (dict_set mac n d))"
proof -
  have le: "i < n" if "m \<noteq> ''index''" "dict_get d m = Some i" for m i
    using ok that n by (force simp: ids_ok_def)
  have idx: "index_of (dict_set ''index'' n (dict_set mac n d)) = n"
    by (simp add: index_of_def dict_simps)
  show ?thesis
    unfolding ids_ok_def idx
    using ok mac le by (auto simp: ids_ok_def dict_simps intro: less_imp_le split: if_splits)
qed

definition present_after :: "string \<Rightarrow> (string, int) dict \<Rightarrow> (string, int) dict" where
  "present_after mac d =
    (if dict_get d mac = None
     then dict_set ''index'' (index_of d + 1) (dict_set mac (index_of d + 1) d) else d)"

lemma add_client_mac_cases:
  assumes ok: "mac_state_ok (fs, r)" and mac: "mac \<noteq> ''index''"
    and add: "add_client_mac mac (fs, r) = (res, fs', r')"
  defines "d \<equiv> present (ensure_loaded fs r)"
  shows "present r' = present_after mac d"
    and "mac_state_ok (fs', r')"
    and "res = None \<or> res = dict_get (present r') mac"
    and "res \<noteq> None \<or> fs' = fs"
proof -
  let ?r1 = "ensure_loaded fs r"
  note ok1 = ensure_loaded_ok[OF ok]
  have dok: "ids_ok d"
    using ok1 by (cases "present_client_mac_id ?r1") (auto simp: d_def present_def mac_state_ok_def)
  have inv: "dict_get (mac_by_numeric_id ?r1) i = Some m \<longleftrightarrow> m \<noteq> ''index'' \<and> dict_get d m = Some i" for i m
    using ok1 by (simp add: mac_state_ok_def d_def)
  have files: "ids_ok e" if "dict_get (fs_files fs) p = Some (Saved e)" for p e
    using ok that by (simp add: mac_state_ok_def)
  let ?n = "index_of d + 1"
  have both: "present r' = present_after mac d \<and> mac_state_ok (fs', r') \<and>
      (res = None \<or> res = dict_get (present r') mac) \<and> (res \<noteq> None \<or> fs' = fs)"
  proof (cases "dict_get d mac")
    case (Some i)
    have "dict_get (dict_set i mac (mac_by_numeric_id ?r1)) j = dict_get (mac_by_numeric_id ?r1) j" for j
      using Some mac inv[of i mac] by (auto simp: dict_simps)
    moreover have "(res, fs', r') = (Some i, fs, ?r1\<lparr>present_client_mac_id := Some d,
        mac_by_numeric_id := dict_set i mac (mac_by_numeric_id ?r1)\<rparr>)"
      using add Some by (auto simp: add_client_mac_def Let_def d_def[symmetric])
    ultimately show ?thesis
      using Some inv dok files
      by (auto simp: present_after_def present_def mac_state_ok_def)
  next
    case None
    let ?d' = "dict_set ''index'' ?n (dict_set mac ?n d)"
    have d'ok: "ids_ok ?d'" using dok mac None by (intro ids_ok_add) auto
    have fresh: "dict_get d m \<noteq> Some ?n" if "m \<noteq> ''index''" for m
    proof
      assume "dict_get d m = Some ?n"
      with dok that have "?n \<le> index_of d" unfolding ids_ok_def by blast
      then show False by simp
    qed
    have inv': "dict_get (dict_set ?n mac (mac_by_numeric_id ?r1)) i = Some m \<longleftrightarrow>
        m \<noteq> ''index'' \<and> dict_get ?d' m = Some i" for i m
      using mac fresh[of m] None inv[of i m] by (auto simp: dict_simps)
    have pa: "present_after mac d = ?d'" using None by (simp add: present_after_def)
    have res: "(res, fs', r') =
       (let p = (case path_mac_file ?r1 of Some p \<Rightarrow> p | None \<Rightarrow> hd CONFIG_FILES_POSSIBLE_PATHS);
            r3 = ?r1\<lparr>present_client_mac_id := Some ?d',
                     mac_by_numeric_id := dict_set ?n mac (mac_by_numeric_id ?r1)\<rparr>
        in if p \<in> set (fs_writable fs)
           then (Some ?n, fs\<lparr>fs_files := dict_set p (Saved ?d') (fs_files fs)\<rparr>, r3\<lparr>path_mac_file := Some p\<rparr>)
           else (None, fs, r3))"
      using add None
      by (cases "path_mac_file ?r1") (auto simp: add_client_mac_def Let_def d_def[symmetric] index_of_def)
    show ?thesis
      using res d'ok inv' files mac
      by (auto simp: Let_def pa present_def mac_state_ok_def dict_simps split: if_splits)
  qed
  then show "present r' = present_after mac d" "mac_state_ok (fs', r')"
    "res = None \<or> res = dict_get (present r') mac" "res \<noteq> None \<or> fs' = fs" by blast+
qed

lemma get_id_state_ok:
  assumes ok: "mac_state_ok (fs, r)" and mac: "mac \<noteq> ''index''"
    and get: "get_id_from_mac mac (fs, r) = (res, fs', r')"
  shows "mac_state_ok (fs', r')" and "present r' = present_after mac (present (ensure_loaded fs r))"
    and "res = None \<or> res = dict_get (present r') mac"
proof -
  let ?r1 = "ensure_loaded fs r"
  note ok1 = ensure_loaded_ok[OF ok]
  have idem: "present (ensure_loaded fs ?r1) = present ?r1"
    by (auto simp: ensure_loaded_def load_from_file_def present_def split: option.splits registry_file.splits)
  have "mac_state_ok (fs', r') \<and> present r' = present_after mac (present ?r1) \<and>
      (res = None \<or> res = dict_get (present r') mac)"
  proof (cases "dict_get (present ?r1) mac")
    case None
    then have "add_client_mac mac (fs, ?r1) = (res, fs', r')"
      using get by (auto simp: get_id_from_mac_def present_def split: option.splits)
    from add_client_mac_cases[OF ok1 mac this] show ?thesis by (simp add: idem)
  next
    case (Some i)
    then have "(res, fs', r') = (Some i, fs, ?r1)"
      using get by (auto simp: get_id_from_mac_def present_def split: option.splits)
    with ok1 Some show ?thesis by (simp add: present_after_def)
  qed
  then show "mac_state_ok (fs', r')" "present r' = present_after mac (present ?r1)"
    "res = None \<or> res = dict_get (present r') mac" by blast+
qed

section \<open>Runs\<close>

text \<open>
  Calls on the registry of a running server; the name \<open>index\<close> is reserved by the file format and
  is not a MAC address, so calls with it are left out.
\<close>

datatype mac_call = AddMac string | GetId string | GetMac "int + string"

fun run_mac_call :: "mac_call \<Rightarrow> file_system \<times> mac_registry \<Rightarrow> file_system \<times> mac_registry" where
  "run_mac_call (AddMac mac) st = (if mac = ''index'' then st else snd (add_client_mac mac st))"
| "run_mac_call (GetId mac) st = (if mac = ''index'' then st else snd (get_id_from_mac mac st))"
| "run_mac_call (GetMac x) st = snd (get_mac_from_id x st)"

definition registry_start :: "file_system \<times> mac_registry \<Rightarrow> bool" where
  "registry_start = (\<lambda>(fs, r). r = init_mac_registry \<and>
    (\<forall>(p, f) \<in> set (fs_files fs). case f of Saved d \<Rightarrow> ids_ok d | Unreadable \<Rightarrow> True))"

lemma mac_call_ok: "mac_state_ok st \<Longrightarrow> mac_state_ok (run_mac_call c st)"
proof (cases c)
  case (AddMac mac)
  assume "mac_state_ok st"
  then show ?thesis
    using AddMac add_client_mac_cases(2)[of "fst st" "snd st" mac]
    by (cases "add_client_mac mac st") auto
next
  case (GetId mac)
  assume "mac_state_ok st"
  then show ?thesis
    using GetId get_id_state_ok(1)[of "fst st" "snd st" mac]
    by (cases "get_id_from_mac mac st") auto
next
  case (GetMac x)
  assume "mac_state_ok st"
  then show ?thesis
    using GetMac ensure_loaded_ok[of "fst st" "snd st"]
    by (cases st) (auto simp: get_mac_from_id_def Let_def split: option.splits)
qed

interpretation macs: kept_invariant registry_start run_mac_call mac_state_ok
proof unfold_locales
  show "registry_start st \<Longrightarrow> mac_state_ok st" for st
    by (auto simp: registry_start_def mac_state_ok_def init_mac_registry_def present_def
        dest!: map_of_SomeD split: registry_file.splits)
qed (rule mac_call_ok)

lemma loaded_present: "present_client_mac_id r \<noteq> None \<Longrightarrow> ensure_loaded fs r = r"
  by (auto simp: ensure_loaded_def)

text \<open>A loaded registry only grows.\<close>

definition grows :: "mac_registry \<Rightarrow> mac_registry \<Rightarrow> bool" where
  "grows r r' \<longleftrightarrow> present_client_mac_id r' \<noteq> None \<and>
    (\<forall>m i. m \<noteq> ''index'' \<longrightarrow> dict_get (present r) m = Some i \<longrightarrow> dict_get (present r') m = Some i)"

lemma add_loaded: "present_client_mac_id (snd (snd (add_client_mac mac st))) \<noteq> None"
  by (auto simp: add_client_mac_def Let_def split: option.splits prod.splits)

lemma get_id_loaded: "present_client_mac_id (snd (snd (get_id_from_mac mac st))) \<noteq> None"
  using add_loaded by (auto simp: get_id_from_mac_def Let_def split: option.splits prod.splits)

lemma present_after_keeps:
  "m \<noteq> ''index'' \<Longrightarrow> dict_get d m = Some i \<Longrightarrow> dict_get (present_after mac d) m = Some i"
  by (auto simp: present_after_def dict_simps)

lemma mac_call_grows:
  assumes "mac_state_ok (fs, r)" and "present_client_mac_id r \<noteq> None"
  shows "grows r (snd (run_mac_call c (fs, r)))"
proof (cases c)
  case (AddMac mac)
  then show ?thesis
    using assms add_client_mac_cases(1)[OF assms(1), of mac] add_loaded[of mac "(fs, r)"]
    by (cases "add_client_mac mac (fs, r)")
       (auto simp: grows_def loaded_present present_after_keeps)
next
  case (GetId mac)
  then show ?thesis
    using assms get_id_state_ok(2)[OF assms(1), of mac] get_id_loaded[of mac "(fs, r)"]
    by (cases "get_id_from_mac mac (fs, r)")
       (auto simp: grows_def loaded_present present_after_keeps)
next
  case (GetMac x)
  then show ?thesis
    using assms by (auto simp: get_mac_from_id_def grows_def loaded_present split: option.splits sum.splits)
qed

lemma mac_calls_grow:
  "mac_state_ok st \<Longrightarrow> present_client_mac_id (snd st) \<noteq> None \<Longrightarrow>
   grows (snd st) (snd (fold run_mac_call cs st))"
proof (induction cs arbitrary: st)
  case (Cons c cs)
  have g: "grows (snd st) (snd (run_mac_call c st))"
    using mac_call_grows[of "fst st" "snd st" c] Cons.prems by simp
  then have "present_client_mac_id (snd (run_mac_call c st)) \<noteq> None" by (simp add: grows_def)
  from Cons.IH[OF mac_call_ok[OF Cons.prems(1)] this] g show ?case by (auto simp: grows_def)
qed (simp add: grows_def)

section \<open>Properties\<close>

text \<open>
  Claim C12. Once a MAC address has been given a numeric id, it keeps that id for the life of the
  server whatever other registrations follow, the id leads back to the address (given as a number or
  as its decimal text), and no other address has it.
\<close>

theorem mac_ids_are_stable_and_unique:
  assumes "registry_start (fs, init_mac_registry)" and "mac \<noteq> ''index''" and "other \<noteq> ''index''"
    and "add_client_mac mac (fold run_mac_call cs (fs, init_mac_registry)) = (Some i, st)"
    and "st' = fold run_mac_call cs' st"
  shows "fst (get_id_from_mac mac st') = Some i \<and>
    fst (get_mac_from_id (Inl i) st') = Some mac \<and>
    fst (get_mac_from_id (Inr (str_int i)) st') = Some mac \<and>
    (fst (get_id_from_mac other st') = Some i \<longrightarrow> other = mac)"
proof -
  let ?st0 = "fold run_mac_call cs (fs, init_mac_registry)"
  have ok0: "mac_state_ok ?st0" using assms(1) by (rule macs.inv_run)
  obtain fs1 r1 where st: "st = (fs1, r1)" by force
  have add: "add_client_mac mac (fst ?st0, snd ?st0) = (Some i, fs1, r1)" using assms(4) st by simp
  note cs = add_client_mac_cases[OF _ assms(2) add]
  have ok1: "mac_state_ok st" and i: "dict_get (present r1) mac = Some i"
    using cs(2,3) ok0 st by simp_all
  have l1: "present_client_mac_id r1 \<noteq> None" using add_loaded[of mac ?st0] assms(4) st by simp
  obtain fs' r' where st': "st' = (fs', r')" by force
  have ok': "mac_state_ok (fs', r')" using macs.inv_fold[OF ok1] assms(5) st' by metis
  have g: "grows r1 r'" using mac_calls_grow[OF ok1] l1 st st' assms(5) by (metis snd_conv)
  then have i': "dict_get (present r') mac = Some i" and l': "present_client_mac_id r' \<noteq> None"
    using i assms(2) by (auto simp: grows_def)
  then obtain d where d: "present_client_mac_id r' = Some d" by auto
  have inv: "dict_get (mac_by_numeric_id r') i = Some mac"
    using ok' i' assms(2) by (auto simp: mac_state_ok_def)
  have "other = mac" if same: "fst (get_id_from_mac other (fs', r')) = Some i"
  proof -
    obtain fs2 r2 where g2: "get_id_from_mac other (fs', r') = (Some i, fs2, r2)"
      using same by (cases "get_id_from_mac other (fs', r')") auto
    note gs = get_id_state_ok[OF ok' assms(3) g2]
    have "dict_get (present r2) other = Some i" using gs(3) by simp
    moreover have "dict_get (present r2) mac = Some i"
      using gs(2) i' assms(2) by (simp add: loaded_present[OF l'] present_after_keeps)
    ultimately show ?thesis using gs(1) assms(2,3)
      by (cases "present_client_mac_id r2") (auto simp: mac_state_ok_def present_def ids_ok_def)
  qed
  moreover have "fst (get_id_from_mac mac (fs', r')) = Some i"
    using i' d by (simp add: get_id_from_mac_def loaded_present[OF l'] present_def)
  ultimately show ?thesis
    using inv by (auto simp: st' get_mac_from_id_def loaded_present[OF l'])
qed

definition demo_fs :: file_system where
  "demo_fs = \<lparr>fs_files = [(1, Saved [(''aa:01'', 0), (''index'', 0)])], fs_writable = [0, 1]\<rparr>"

theorem mac_ids_are_stable_and_unique_witness:
  "fst (get_mac_from_id (Inr ''1'') (fold run_mac_call [AddMac ''cc:03'', GetId ''aa:01'']
     (snd (add_client_mac ''bb:02'' (demo_fs, init_mac_registry))))) = Some ''bb:02''"
proof -
  have start: "registry_start (demo_fs, init_mac_registry)"
    by (simp add: registry_start_def demo_fs_def ids_ok_def index_of_def dict_ok_def)
  have add: "add_client_mac ''bb:02'' (fold run_mac_call [] (demo_fs, init_mac_registry)) =
      (Some 1, snd (add_client_mac ''bb:02'' (demo_fs, init_mac_registry)))"
    by code_simp
  have "str_int 1 = ''1''" by code_simp
  with mac_ids_are_stable_and_unique[OF start _ _ add refl, of "''aa:01''" "[AddMac ''cc:03'', GetId ''aa:01'']"]
  show ?thesis by simp
qed

definition path_ok :: "file_system \<times> mac_registry \<Rightarrow> bool" where
  "path_ok = (\<lambda>(fs, r). \<forall>p. path_mac_file r = Some p \<longrightarrow>
     find (path_exists fs) CONFIG_FILES_POSSIBLE_PATHS = Some p)"

lemma find_first_after_save:
  assumes "find (path_exists fs) CONFIG_FILES_POSSIBLE_PATHS = Some p \<or> p = hd CONFIG_FILES_POSSIBLE_PATHS"
  shows "find (path_exists (fs\<lparr>fs_files := dict_set p f (fs_files fs)\<rparr>)) CONFIG_FILES_POSSIBLE_PATHS = Some p"
  using assms
  by (auto simp: CONFIG_FILES_POSSIBLE_PATHS_def path_exists_def dict_simps split: if_splits)

lemma ensure_loaded_path: "path_ok (fs, r) \<Longrightarrow> path_ok (fs, ensure_loaded fs r)"
  by (auto simp: path_ok_def ensure_loaded_def load_from_file_def split: option.splits registry_file.splits)

lemma load_fresh:
  "find (path_exists fs) CONFIG_FILES_POSSIBLE_PATHS = Some p \<Longrightarrow>
   dict_get (fs_files fs) p = Some (Saved d) \<Longrightarrow> present (ensure_loaded fs init_mac_registry) = d"
  by (simp add: ensure_loaded_def load_from_file_def init_mac_registry_def present_def)

lemma add_path:
  assumes "path_ok (fs, r)" and "add_client_mac mac (fs, r) = (res, fs', r')"
  shows "path_ok (fs', r')"
    and "dict_get (present (ensure_loaded fs r)) mac = None \<Longrightarrow> res \<noteq> None \<Longrightarrow>
      present (ensure_loaded fs' init_mac_registry) = present r'"
proof -
  let ?r1 = "ensure_loaded fs r"
  let ?p = "case path_mac_file ?r1 of Some p \<Rightarrow> p | None \<Rightarrow> hd CONFIG_FILES_POSSIBLE_PATHS"
  have p1: "path_ok (fs, ?r1)" using assms(1) by (rule ensure_loaded_path)
  then have p: "find (path_exists fs) CONFIG_FILES_POSSIBLE_PATHS = Some ?p \<or> ?p = hd CONFIG_FILES_POSSIBLE_PATHS"
    by (auto simp: path_ok_def split: option.splits)
  note saved = find_first_after_save[OF p]
  show "path_ok (fs', r')"
    using assms(2) p1 saved
    by (auto simp: add_client_mac_def Let_def path_ok_def split: option.splits if_splits)
  show "present (ensure_loaded fs' init_mac_registry) = present r'"
    if new: "dict_get (present (ensure_loaded fs r)) mac = None" and saved_res: "res \<noteq> None"
  proof -
    obtain d where "fs' = fs\<lparr>fs_files := dict_set ?p (Saved d) (fs_files fs)\<rparr>" "present r' = d"
      using assms(2) new saved_res
      by (auto simp: add_client_mac_def Let_def present_def[of "_\<lparr>present_client_mac_id := _\<rparr>"]
          present_def[of "_\<lparr>path_mac_file := _\<rparr>"] split: if_splits)
    with load_fresh[OF saved] show ?thesis by (simp add: dict_simps)
  qed
qed

lemma call_path: "path_ok st \<Longrightarrow> path_ok (run_mac_call c st)"
proof (cases c)
  case (AddMac mac)
  assume "path_ok st"
  then show ?thesis
    using AddMac add_path(1)[of "fst st" "snd st" mac] by (cases "add_client_mac mac st") auto
next
  case (GetId mac)
  assume p: "path_ok st"
  obtain fs r where st: "st = (fs, r)" by force
  have p1: "path_ok (fs, ensure_loaded fs r)" using p st by (simp add: ensure_loaded_path)
  have "path_ok (snd (add_client_mac mac (fs, ensure_loaded fs r)))"
    using add_path(1)[OF p1] by (cases "add_client_mac mac (fs, ensure_loaded fs r)") auto
  with p p1 GetId st show ?thesis
    by (auto simp: get_id_from_mac_def Let_def split: option.splits)
next
  case (GetMac x)
  assume "path_ok st"
  then show ?thesis
    using GetMac by (cases st) (auto simp: get_mac_from_id_def Let_def ensure_loaded_path split: option.splits)
qed

interpretation paths: kept_invariant registry_start run_mac_call path_ok
proof unfold_locales
  show "registry_start st \<Longrightarrow> path_ok st" for st
    by (auto simp: registry_start_def path_ok_def init_mac_registry_def)
qed (rule call_path)

text \<open>
  A registration that was saved survives a restart: a new registry object on the same
  files reads back exactly the registry in memory, and gives the same id to the address.
\<close>

theorem saved_registry_survives_restart:
  assumes "registry_start (fs0, init_mac_registry)" and "mac \<noteq> ''index''"
    and "fold run_mac_call cs (fs0, init_mac_registry) = (fs, r)"
    and "dict_get (present (ensure_loaded fs r)) mac = None"
    and "add_client_mac mac (fs, r) = (Some i, fs', r')"
  shows "present (ensure_loaded fs' init_mac_registry) = present r' \<and>
    fst (get_id_from_mac mac (fs', init_mac_registry)) = Some i"
proof -
  have "path_ok (fs, r)" "mac_state_ok (fs, r)"
    using paths.inv_run[OF assms(1), of cs] macs.inv_run[OF assms(1), of cs] assms(3) by simp_all
  then have same: "present (ensure_loaded fs' init_mac_registry) = present r'"
    and i: "dict_get (present r') mac = Some i"
    using add_path(2)[OF _ assms(5,4)] add_client_mac_cases(3)[OF _ assms(2,5)] by simp_all
  then have "dict_get (present (ensure_loaded fs' init_mac_registry)) mac = Some i" by simp
  with same show ?thesis
    by (auto simp: get_id_from_mac_def present_def split: option.splits)
qed

theorem saved_registry_survives_restart_witness:
  "fst (get_id_from_mac ''bb:02''
     (fst (snd (add_client_mac ''bb:02'' (demo_fs, init_mac_registry))), init_mac_registry)) = Some 1"
proof -
  have start: "registry_start (demo_fs, init_mac_registry)"
    by (simp add: registry_start_def demo_fs_def ids_ok_def index_of_def dict_ok_def)
  have none: "dict_get (present (ensure_loaded demo_fs init_mac_registry)) ''bb:02'' = None" by code_simp
  have "fst (add_client_mac ''bb:02'' (demo_fs, init_mac_registry)) = Some 1" by code_simp
  then have add: "add_client_mac ''bb:02'' (demo_fs, init_mac_registry) =
      (Some 1, fst (snd (add_client_mac ''bb:02'' (demo_fs, init_mac_registry))),
       snd (snd (add_client_mac ''bb:02'' (demo_fs, init_mac_registry))))"
    by (cases "add_client_mac ''bb:02'' (demo_fs, init_mac_registry)") auto
  show ?thesis
    using saved_registry_survives_restart[OF start _ _ none add, of "[]"] by simp
qed

text \<open>
  When the file cannot be written the new registration reports failure and nothing is
  saved, but it stays in memory: the next request for the same address returns the unsaved id as if
  it had been registered, and a restarted server gives that id to the next new address.
\<close>

theorem unsaved_id_is_served_and_reused:
  assumes "fs = \<lparr>fs_files = [], fs_writable = []\<rparr>" and "m1 \<noteq> m2" and "m1 \<noteq> ''index''"
  shows "case add_client_mac m1 (fs, init_mac_registry) of
    (res, fs', r') \<Rightarrow> res = None \<and> fs' = fs \<and> fst (get_id_from_mac m1 (fs', r')) = Some 0 \<and>
      fst (get_id_from_mac m2 (fs'\<lparr>fs_writable := [0]\<rparr>, init_mac_registry)) = Some 0"
  using assms
  by (simp add: add_client_mac_def get_id_from_mac_def ensure_loaded_def load_from_file_def
      init_mac_registry_def present_def path_exists_def CONFIG_FILES_POSSIBLE_PATHS_def
      dict_simps Let_def)

theorem unsaved_id_is_served_and_reused_witness:
  "fst (get_id_from_mac ''aa:01'' (snd (add_client_mac ''aa:01''
     (\<lparr>fs_files = [], fs_writable = []\<rparr>, init_mac_registry)))) = Some 0"
  using unsaved_id_is_served_and_reused[OF refl, of "''aa:01''" "''bb:02''"]
  by (simp add: case_prod_beta)

end
