(* ===== verification/TimeSync.thy ===== *)
theory TimeSync
  imports Prelude
begin

text \<open>
  Synchronization of the client clocks (\<open>server/services/time_sync_service.py\<close>): probes and replies
  in the manner of NTP, the choice of the best measurement, and the conversion of a client time to
  UTC. All times are integer nanoseconds, as in the code.
\<close>

section \<open>State\<close>

record PendingTimeSyncProbe =
  pp_client :: client_id
  pp_request :: string
  pp_t1_utc :: int
  pp_t1_mono :: int

record TimeSyncMeasurement =
  tm_client :: client_id
  tm_request :: string
  tm_boot :: string
  t1_utc_ns :: int
  t1_server_monotonic_ns :: int
  c2_client_monotonic_ns :: int
  c3_client_monotonic_ns :: int
  t4_server_monotonic_ns :: int
  tm_rtt :: int
  tm_ref_client :: int
  tm_ref_utc :: int

definition measurement_offset_ns :: "TimeSyncMeasurement \<Rightarrow> int" where
  "measurement_offset_ns m = tm_ref_utc m - tm_ref_client m"

definition measurement_uncertainty_ns :: "TimeSyncMeasurement \<Rightarrow> int" where
  "measurement_uncertainty_ns m = tm_rtt m div 2"

record ClientTimeSyncState =
  cs_client :: client_id
  cs_boot :: string
  ref_client_monotonic_ns :: int
  ref_utc_ns :: int
  network_rtt_ns :: int
  uncertainty_ns :: int
  synced_at_server_monotonic_ns :: int

record time_sync =
  pending_probes :: "(string, PendingTimeSyncProbe) dict"
  client_states :: "(client_id, ClientTimeSyncState) dict"

definition init_time_sync :: time_sync where
  "init_time_sync = \<lparr>pending_probes = [], client_states = []\<rparr>"

section \<open>Operations\<close>

definition register_probe_sent ::
  "client_id \<Rightarrow> string \<Rightarrow> int \<Rightarrow> int \<Rightarrow> time_sync \<Rightarrow> time_sync" where
  "register_probe_sent cid rid t1u t1m s =
    s\<lparr>pending_probes := dict_set rid
       \<lparr>pp_client = cid, pp_request = rid, pp_t1_utc = t1u, pp_t1_mono = t1m\<rparr> (pending_probes s)\<rparr>"

definition cancel_probe :: "string \<Rightarrow> time_sync \<Rightarrow> time_sync" where
  "cancel_probe rid s = s\<lparr>pending_probes := dict_pop rid (pending_probes s)\<rparr>"

definition complete_probe ::
  "client_id \<Rightarrow> string \<Rightarrow> string \<Rightarrow> int \<Rightarrow> int \<Rightarrow> int \<Rightarrow> time_sync
     \<Rightarrow> TimeSyncMeasurement option \<times> time_sync" where
  "complete_probe cid in_reply_to boot c2 c3 t4 s =
    (let s' = s\<lparr>pending_probes := dict_pop in_reply_to (pending_probes s)\<rparr> in
     case dict_get (pending_probes s) in_reply_to of
       None \<Rightarrow> (None, s')
     | Some probe \<Rightarrow>
         if pp_client probe \<noteq> cid then (None, s')
         else if boot = [] then (None, s')
         else if c3 < c2 then (None, s')
         else if t4 < pp_t1_mono probe then (None, s')
         else
           let server_elapsed = t4 - pp_t1_mono probe;
               client_processing = c3 - c2;
               rtt = server_elapsed - client_processing
           in if rtt < 0 then (None, s')
              else (Some \<lparr>tm_client = cid, tm_request = in_reply_to, tm_boot = boot,
                          t1_utc_ns = pp_t1_utc probe, t1_server_monotonic_ns = pp_t1_mono probe,
                          c2_client_monotonic_ns = c2, c3_client_monotonic_ns = c3,
                          t4_server_monotonic_ns = t4, tm_rtt = rtt,
                          tm_ref_client = (c2 + c3) div 2,
                          tm_ref_utc = pp_t1_utc probe + server_elapsed div 2\<rparr>, s'))"

definition invalidate_client :: "client_id \<Rightarrow> time_sync \<Rightarrow> time_sync" where
  "invalidate_client cid s =
    (let ids = keys_where (\<lambda>p. pp_client p = cid) (pending_probes s) in
     s\<lparr>client_states := dict_pop cid (client_states s),
       pending_probes := foldr dict_pop ids (pending_probes s)\<rparr>)"

text \<open>\<open>min(ms, key=...)\<close>: the first measurement with the least round trip time.\<close>

fun best_measurement :: "TimeSyncMeasurement \<Rightarrow> TimeSyncMeasurement list \<Rightarrow> TimeSyncMeasurement" where
  "best_measurement b [] = b"
| "best_measurement b (m # ms) = best_measurement (if tm_rtt m < tm_rtt b then m else b) ms"

definition apply_measurements ::
  "client_id \<Rightarrow> TimeSyncMeasurement list \<Rightarrow> time_sync \<Rightarrow> ClientTimeSyncState option \<times> time_sync" where
  "apply_measurements cid ms s =
    (case filter (\<lambda>m. tm_client m = cid) ms of
       [] \<Rightarrow> (None, s)
     | m # rest \<Rightarrow>
         if length (fromkeys (map tm_boot (m # rest))) \<noteq> 1 then (None, invalidate_client cid s)
         else
           let best = best_measurement m rest;
               st = \<lparr>cs_client = cid, cs_boot = tm_boot best,
                     ref_client_monotonic_ns = tm_ref_client best, ref_utc_ns = tm_ref_utc best,
                     network_rtt_ns = tm_rtt best,
                     uncertainty_ns = measurement_uncertainty_ns best,
                     synced_at_server_monotonic_ns = t4_server_monotonic_ns best\<rparr>
           in (Some st, s\<lparr>client_states := dict_set cid st (client_states s)\<rparr>))"

definition clear_time_sync :: "time_sync \<Rightarrow> time_sync" where
  "clear_time_sync s = s\<lparr>client_states := [], pending_probes := []\<rparr>"

definition client_monotonic_to_utc :: "client_id \<Rightarrow> int \<Rightarrow> time_sync \<Rightarrow> int option \<times> string" where
  "client_monotonic_to_utc cid c s =
    (case dict_get (client_states s) cid of
       None \<Rightarrow> (None, ''client not synchronized'')
     | Some st \<Rightarrow> (Some (ref_utc_ns st + (c - ref_client_monotonic_ns st)), ''ok''))"

definition is_synchronized :: "client_id \<Rightarrow> time_sync \<Rightarrow> bool" where
  "is_synchronized cid s \<longleftrightarrow> cid \<in> set (dict_keys (client_states s))"

text \<open>The age limit is the already truncated product \<open>int(max_age_s * 1_000_000_000)\<close>.\<close>

definition need_resync :: "client_id \<Rightarrow> int \<Rightarrow> int \<Rightarrow> time_sync \<Rightarrow> bool" where
  "need_resync cid max_age_ns now s =
    (case dict_get (client_states s) cid of
       None \<Rightarrow> True
     | Some st \<Rightarrow> now - synced_at_server_monotonic_ns st \<ge> max_age_ns)"

section \<open>Clocks\<close>

text \<open>
  A measurement taken while the client clock is \<open>\<delta>\<close> ahead of the server's monotonic clock and UTC is
  \<open>\<upsilon>\<close> ahead of it, with the request received and the reply sent by the client between the two server
  times.
\<close>

definition measured :: "int \<Rightarrow> int \<Rightarrow> TimeSyncMeasurement \<Rightarrow> bool" where
  "measured \<delta> \<upsilon> m \<longleftrightarrow>
    t1_utc_ns m = t1_server_monotonic_ns m + \<upsilon> \<and>
    t1_server_monotonic_ns m \<le> c2_client_monotonic_ns m - \<delta> \<and>
    c2_client_monotonic_ns m \<le> c3_client_monotonic_ns m \<and>
    c3_client_monotonic_ns m - \<delta> \<le> t4_server_monotonic_ns m \<and>
    tm_rtt m = (t4_server_monotonic_ns m - t1_server_monotonic_ns m)
                 - (c3_client_monotonic_ns m - c2_client_monotonic_ns m) \<and>
    tm_ref_client m = (c2_client_monotonic_ns m + c3_client_monotonic_ns m) div 2 \<and>
    tm_ref_utc m = t1_utc_ns m + (t4_server_monotonic_ns m - t1_server_monotonic_ns m) div 2"

lemma midpoint_error:
  fixes t1 t4 c2 c3 \<delta> :: int
  assumes "t1 \<le> c2 - \<delta>" "c2 \<le> c3" "c3 - \<delta> \<le> t4"
  shows "\<bar>(t1 + (t4 - t1) div 2) - ((c2 + c3) div 2 - \<delta>)\<bar> \<le> ((t4 - t1) - (c3 - c2) + 1) div 2"
  using assms by presburger

lemma measured_offset:
  assumes "measured \<delta> \<upsilon> m"
  shows "\<bar>measurement_offset_ns m - (\<upsilon> - \<delta>)\<bar> \<le> (tm_rtt m + 1) div 2"
proof -
  note d = assms[unfolded measured_def]
  have "measurement_offset_ns m - (\<upsilon> - \<delta>) =
      (t1_server_monotonic_ns m + (t4_server_monotonic_ns m - t1_server_monotonic_ns m) div 2)
        - ((c2_client_monotonic_ns m + c3_client_monotonic_ns m) div 2 - \<delta>)"
    using d by (simp add: measurement_offset_ns_def)
  with midpoint_error[of "t1_server_monotonic_ns m" "c2_client_monotonic_ns m" \<delta>
      "c3_client_monotonic_ns m" "t4_server_monotonic_ns m"] d show ?thesis by metis
qed

lemma best_measurement_in: "best_measurement b ms \<in> set (b # ms)"
  by (induction b ms rule: best_measurement.induct) auto

lemma best_measurement_least: "x \<in> set (b # ms) \<Longrightarrow> tm_rtt (best_measurement b ms) \<le> tm_rtt x"
proof (induction b ms arbitrary: x rule: best_measurement.induct)
  case (2 b m ms)
  let ?k = "if tm_rtt m < tm_rtt b then m else b"
  have k: "tm_rtt (best_measurement ?k ms) \<le> tm_rtt ?k" by (rule "2.IH") simp
  have rest: "tm_rtt (best_measurement ?k ms) \<le> tm_rtt y" if "y \<in> set ms" for y
    using that by (intro "2.IH") simp
  from "2.prems" consider "x = b" | "x = m" | "x \<in> set ms" by auto
  then show ?case
  proof cases
    case 3
    then show ?thesis using rest by simp
  qed (use k in \<open>auto split: if_splits\<close>)
qed simp

lemma complete_measured:
  assumes "complete_probe cid rid boot c2 c3 t4 s = (Some m, s')"
    and "dict_get (pending_probes s) rid = Some p"
    and "pp_t1_utc p = pp_t1_mono p + \<upsilon>" and "pp_t1_mono p \<le> c2 - \<delta>" and "c3 - \<delta> \<le> t4"
  shows "measured \<delta> \<upsilon> m"
  using assms by (auto simp: complete_probe_def Let_def measured_def split: if_splits)

section \<open>Properties\<close>


definition demo_sync :: time_sync where
  "demo_sync = register_probe_sent ''A'' ''r1'' 5000 1000 init_time_sync"

definition demo_measurement :: TimeSyncMeasurement where
  "demo_measurement = the (fst (complete_probe ''A'' ''r1'' ''boot'' 310 315 1031 demo_sync))"


text \<open>
  A probe is answered at most once and only by its client: whatever the reply, a second
  reply to the same request is refused and changes nothing, and a measurement only comes from a reply
  of the client the probe was sent to, with a boot id and a round trip time that is not negative.
\<close>

theorem probe_is_answered_once:
  "case complete_probe cid rid boot c2 c3 t4 s of
     (res, s') \<Rightarrow>
       complete_probe cid2 rid boot2 d2 d3 u4 s' = (None, s') \<and> client_states s' = client_states s \<and>
       (case res of
          None \<Rightarrow> True
        | Some m \<Rightarrow> \<exists>p. dict_get (pending_probes s) rid = Some p \<and> pp_client p = cid \<and>
            tm_client m = cid \<and> tm_boot m \<noteq> [] \<and> 0 \<le> tm_rtt m)"
proof -
  have twice: "dict_pop rid (dict_pop rid d) = dict_pop rid d" for d :: "(string, PendingTimeSyncProbe) dict"
    by (simp add: delete_idem)
  have none: "complete_probe cid2 rid boot2 d2 d3 u4 (s\<lparr>pending_probes := dict_pop rid (pending_probes s)\<rparr>)
      = (None, s\<lparr>pending_probes := dict_pop rid (pending_probes s)\<rparr>)"
    by (simp add: complete_probe_def dict_simps twice)
  show ?thesis
    by (auto simp: complete_probe_def[of cid rid boot c2 c3 t4 s] Let_def none split: option.splits)
qed

lemma dict_keys_foldr_pop: "dict_ok d \<Longrightarrow> dict_ok (foldr dict_pop ks d)"
  by (rule pd.foldr_pop_ok)

text \<open>
  Invalidating a client forgets its synchronization and every probe still pending for it,
  and nothing else: its times are no longer converted, replies to its old probes give no measurement,
  and the probes and states of the other clients are untouched.
\<close>

theorem invalidate_forgets_one_client:
  assumes "dict_ok (pending_probes s)"
  shows "client_monotonic_to_utc cid c (invalidate_client cid s) = (None, ''client not synchronized'') \<and>
    need_resync cid age now (invalidate_client cid s) \<and>
    dict_get (pending_probes (invalidate_client cid s)) rid =
      (case dict_get (pending_probes s) rid of
         None \<Rightarrow> None | Some p \<Rightarrow> if pp_client p = cid then None else Some p) \<and>
    (other \<noteq> cid \<longrightarrow>
       dict_get (client_states (invalidate_client cid s)) other = dict_get (client_states s) other)"
proof -
  have "dict_get (foldr dict_pop (keys_where (\<lambda>p. pp_client p = cid) (pending_probes s)) (pending_probes s)) rid
    = (case dict_get (pending_probes s) rid of
         None \<Rightarrow> None | Some p \<Rightarrow> if pp_client p = cid then None else Some p)"
    unfolding pd.foldr_pop using in_keys_where[OF assms, of rid]
    by (auto simp: restrict_map_def split: option.splits)
  then show ?thesis
    by (simp add: invalidate_client_def Let_def client_monotonic_to_utc_def need_resync_def dict_simps)
qed

theorem invalidate_forgets_one_client_witness:
  "dict_get (pending_probes (invalidate_client ''A'' demo_sync)) ''r1'' = None"
proof -
  have "dict_ok (pending_probes demo_sync)" by code_simp
  from invalidate_forgets_one_client[OF this, of "''A''" 0 0 0 "''r1''" "''B''"] show ?thesis
    by (simp add: demo_sync_def register_probe_sent_def init_time_sync_def)
qed

end
