(* ===== verification/RunControl.thy ===== *)
theory RunControl
  imports Channels "HOL-Library.Sublist"
begin

text \<open>
  The run control board (\<open>client/hardware/rc/rc_interface.py\<close>): registers of 32 bits in a mapped byte
  memory, the configuration of the acquisition registers, reset, boot and start of channels, and the
  rate monitors. A register access goes through the four bytes of the mapping, in little-endian order;
  \<open>writes\<close> records the register writes in the order the board sees them. When the mapping could not be
  made every access fails, as the missing attribute does in the code. The texts of the results are left
  out; the pauses after writes are not modelled.
\<close>

unbundle bit_operations_syntax

section \<open>The board\<close>

record rc_board =
  mapped :: bool
  mem :: "int \<Rightarrow> 8 word"
  writes :: "(int \<times> int) list"

definition MAX_REGISTER_VALUE :: int where
  "MAX_REGISTER_VALUE = 0xFFFFFFFF"

definition ACQ_CONFIG_REGISTERS :: "int list" where
  "ACQ_CONFIG_REGISTERS = [16, 18, 19, 31, 39]"

definition ACQ_REGISTER_WRITE_ORDER :: "int list" where
  "ACQ_REGISTER_WRITE_ORDER = [16, 18, 31, 39, 19]"

definition TRIGGER_REG15_ALLOWED_MASK :: int where
  "TRIGGER_REG15_ALLOWED_MASK = push_bit 1 1 OR push_bit 4 1 OR push_bit 7 1 OR push_bit 8 1"

definition RC_REG15_TRIGGERED_RATE_ENABLE_BIT :: int where
  "RC_REG15_TRIGGERED_RATE_ENABLE_BIT = push_bit 1 1"

definition RC_REG31_MODE_BIT :: int where
  "RC_REG31_MODE_BIT = push_bit 7 1"

definition RC_REG31_CHANNEL_MASK :: int where
  "RC_REG31_CHANNEL_MASK = 0x7F"

definition RC_HARDWARE_SNAPSHOT :: "int list" where
  "RC_HARDWARE_SNAPSHOT = [0, 1, 10, 15, 16, 18, 19, 31, 39]"

definition max_regs :: int where "max_regs = 50"

definition num_channels :: int where "num_channels = 7"

text \<open>An integer, or a text read with \<open>int(x, 0)\<close>.\<close>

definition auto_int :: "int + string \<Rightarrow> py_exn + int" where
  "auto_int x =
    (case x of
       Inl n \<Rightarrow> Inr n
     | Inr s \<Rightarrow> (case py_int_base0 s of None \<Rightarrow> Inl ValueError | Some n \<Rightarrow> Inr n))"

definition checkRegBoundary :: "int \<Rightarrow> bool" where
  "checkRegBoundary addr \<longleftrightarrow> \<not> (addr < 0 \<or> addr > max_regs)"

definition checkChannelsBoundary :: "int \<Rightarrow> bool" where
  "checkChannelsBoundary ch \<longleftrightarrow> \<not> (ch < 0 \<or> ch \<ge> num_channels)"

text \<open>\<open>int.to_bytes(value, 4, 'little')\<close> raises \<open>OverflowError\<close> outside 32 bits.\<close>

definition to_bytes :: "int \<Rightarrow> (8 word) list option" where
  "to_bytes v =
    (if v < 0 \<or> v \<ge> 2 ^ 32 then None
     else Some [word_of_int v, word_of_int (v div 256), word_of_int (v div 65536), word_of_int (v div 16777216)])"

fun from_bytes :: "(8 word) list \<Rightarrow> int" where
  "from_bytes [] = 0"
| "from_bytes (b # bs) = uint b + 256 * from_bytes bs"

definition mem_slice :: "(int \<Rightarrow> 8 word) \<Rightarrow> int \<Rightarrow> (8 word) list" where
  "mem_slice m a = [m (4 * a), m (4 * a + 1), m (4 * a + 2), m (4 * a + 3)]"

definition mem_store :: "int \<Rightarrow> (8 word) list \<Rightarrow> (int \<Rightarrow> 8 word) \<Rightarrow> int \<Rightarrow> 8 word" where
  "mem_store a bs m =
    (\<lambda>i. if 4 * a \<le> i \<and> i < 4 * a + int (length bs) then bs ! nat (i - 4 * a) else m i)"

definition read :: "int \<Rightarrow> rc_board \<Rightarrow> int option" where
  "read addr b =
    (if checkRegBoundary addr
     then if mapped b then Some (from_bytes (mem_slice (mem b) addr)) else None
     else None)"

definition write_reg :: "int \<Rightarrow> int \<Rightarrow> rc_board \<Rightarrow> bool \<times> rc_board" where
  "write_reg addr value b =
    (if checkRegBoundary addr then
       (case to_bytes value of
          None \<Rightarrow> (False, b)
        | Some bs \<Rightarrow>
            if mapped b
            then (True, b\<lparr>mem := mem_store addr bs (mem b), writes := writes b @ [(addr, value)]\<rparr>)
            else (False, b))
     else (False, b))"

definition read_register :: "int \<Rightarrow> rc_board \<Rightarrow> bool \<times> int \<times> int option" where
  "read_register addr b =
    (case read addr b of None \<Rightarrow> (False, addr, None) | Some v \<Rightarrow> (True, addr, Some v))"

fun int_like :: "pyval \<Rightarrow> int option" where
  "int_like (PInt n) = Some n"
| "int_like (PBool t) = Some (of_bool t)"
| "int_like _ = None"

text \<open>A register address of a payload: \<open>auto_int\<close> accepts integers and texts.\<close>

definition addr_of :: "pyval \<Rightarrow> py_exn + int" where
  "addr_of v =
    (case v of
       PStr s \<Rightarrow> auto_int (Inr s)
     | _ \<Rightarrow> (case int_like v of Some n \<Rightarrow> auto_int (Inl n) | None \<Rightarrow> Inl TypeError))"

text \<open>The result is keyed by the addresses as given; the first reading of an address is kept.\<close>

fun read_addresses ::
  "pyval list \<Rightarrow> rc_board \<Rightarrow> (pyval, int option) dict \<Rightarrow> py_exn + (pyval, int option) dict" where
  "read_addresses [] b res = Inr res"
| "read_addresses (v # vs) b res =
    (case addr_of v of
       Inl e \<Rightarrow> Inl e
     | Inr a \<Rightarrow>
         read_addresses vs b (if v \<in> set (dict_keys res) then res else dict_set v (read a b) res))"

definition read_acq_registers :: "pyval list \<Rightarrow> rc_board \<Rightarrow> py_exn + (pyval, int option) dict" where
  "read_acq_registers addrs b =
    read_addresses (if addrs = [] then map PInt RC_HARDWARE_SNAPSHOT else addrs) b []"

definition write_register :: "int \<Rightarrow> int \<Rightarrow> rc_board \<Rightarrow> (bool \<times> int \<times> int) \<times> rc_board" where
  "write_register addr value b =
    (let (ok, b') = write_reg addr value b in ((ok, addr, value), b'))"

section \<open>Acquisition registers\<close>

text \<open>The result of one register: its success, and the value written.\<close>

type_synonym reg_key = "int + string"

record acq_result =
  ar_success :: bool
  successful_registers :: "int list"
  failed_registers :: "reg_key list"
  register_results :: "(reg_key, bool \<times> int option) dict"

definition acq_failure :: "reg_key list \<Rightarrow> acq_result" where
  "acq_failure failed =
    \<lparr>ar_success = False, successful_registers = [], failed_registers = failed,
     register_results = map (\<lambda>k. (k, (False, None))) failed\<rparr>"

definition in_32_bits :: "int \<Rightarrow> bool" where
  "in_32_bits v \<longleftrightarrow> \<not> (v < 0 \<or> v > MAX_REGISTER_VALUE)"

text \<open>The first loop: the accepted registers and the failures.\<close>

fun normalize_registers ::
  "(string \<times> pyval) list \<Rightarrow> (int, int) dict \<Rightarrow> reg_key list \<Rightarrow> (int, int) dict \<times> reg_key list" where
  "normalize_registers [] norm failed = (norm, failed)"
| "normalize_registers ((raw, v) # rest) norm failed =
    (case auto_int (Inr raw) of
       Inl e \<Rightarrow> normalize_registers rest norm (failed @ [Inr raw])
     | Inr addr \<Rightarrow>
         if addr \<notin> set ACQ_CONFIG_REGISTERS then normalize_registers rest norm (failed @ [Inl addr])
         else case int_like v of
           None \<Rightarrow> normalize_registers rest norm (failed @ [Inl addr])
         | Some n \<Rightarrow>
             if \<not> in_32_bits n then normalize_registers rest norm (failed @ [Inl addr])
             else normalize_registers rest (dict_set addr n norm) failed)"

text \<open>The second loop, over the fixed write order.\<close>

definition write_one ::
  "(int, int) dict \<Rightarrow> int \<Rightarrow> acq_result \<times> rc_board \<Rightarrow> acq_result \<times> rc_board" where
  "write_one norm addr st =
    (let (res, b) = st in
     case dict_get norm addr of
       None \<Rightarrow> (res, b)
     | Some v \<Rightarrow>
         (case write_reg addr v b of
            (True, b') \<Rightarrow>
              (res\<lparr>successful_registers := successful_registers res @ [addr],
                   register_results := dict_set (Inl addr) (True, Some v) (register_results res)\<rparr>, b')
          | (False, b') \<Rightarrow>
              (res\<lparr>failed_registers := failed_registers res @ [Inl addr],
                   register_results := dict_set (Inl addr) (False, None) (register_results res)\<rparr>, b')))"

definition reg15_valid :: "pyval \<Rightarrow> pyval \<Rightarrow> bool" where
  "reg15_valid msk value =
    ((case int_like msk of
        None \<Rightarrow> False
      | Some m \<Rightarrow> in_32_bits m \<and> m AND NOT TRIGGER_REG15_ALLOWED_MASK = 0) \<and>
     (case int_like value of
        None \<Rightarrow> False
      | Some v \<Rightarrow> in_32_bits v \<and>
          (case int_like msk of None \<Rightarrow> True | Some m \<Rightarrow> v AND NOT m = 0)))"

definition reg15_fail :: "acq_result \<Rightarrow> acq_result" where
  "reg15_fail res =
    res\<lparr>failed_registers := failed_registers res @ [Inl 15],
        register_results := dict_set (Inl 15) (False, None) (register_results res)\<rparr>"

definition merge_reg15 :: "int \<Rightarrow> int \<Rightarrow> int \<Rightarrow> int" where
  "merge_reg15 previous msk value =
    (previous AND (NOT msk AND MAX_REGISTER_VALUE)) OR (value AND msk)"

definition configure_reg15 ::
  "(string, pyval) dict \<Rightarrow> acq_result \<times> rc_board \<Rightarrow> acq_result \<times> rc_board" where
  "configure_reg15 cfg st =
    (let (res, b) = st;
         msk = (case dict_get cfg ''mask'' of None \<Rightarrow> PNone | Some x \<Rightarrow> x);
         value = (case dict_get cfg ''value'' of None \<Rightarrow> PNone | Some x \<Rightarrow> x) in
     if \<not> reg15_valid msk value then (reg15_fail res, b)
     else case read 15 b of
       None \<Rightarrow> (reg15_fail res, b)
     | Some previous \<Rightarrow>
         let new_value = merge_reg15 previous (the (int_like msk)) (the (int_like value)) in
         (case write_reg 15 new_value b of
            (True, b') \<Rightarrow>
              (res\<lparr>successful_registers := successful_registers res @ [15],
                   register_results := dict_set (Inl 15) (True, Some new_value) (register_results res)\<rparr>, b')
          | (False, b') \<Rightarrow> (reg15_fail res, b')))"

definition apply_acq_registers ::
  "(string, pyval) dict \<Rightarrow> (string, pyval) dict option \<Rightarrow> rc_board \<Rightarrow> acq_result \<times> rc_board" where
  "apply_acq_registers raw reg15 b =
    (let (norm, failed) = normalize_registers raw [] [];
         res0 = \<lparr>ar_success = False, successful_registers = [], failed_registers = failed,
                 register_results = fold (\<lambda>k. dict_set k (False, None)) failed []\<rparr>;
         (res1, b1) = fold (write_one norm) ACQ_REGISTER_WRITE_ORDER (res0, b);
         (res2, b2) = (case reg15 of None \<Rightarrow> (res1, b1) | Some cfg \<Rightarrow> configure_reg15 cfg (res1, b1))
     in (res2\<lparr>ar_success := failed_registers res2 = []\<rparr>, b2))"

definition set_acq_registers :: "pyval \<Rightarrow> rc_board \<Rightarrow> acq_result \<times> rc_board" where
  "set_acq_registers cfg b =
    (case cfg of
       PDict d \<Rightarrow>
         let raw = (case dict_get d ''registers'' of None \<Rightarrow> PDict [] | Some x \<Rightarrow> x);
             reg15 = (case dict_get d ''reg15'' of None \<Rightarrow> PNone | Some x \<Rightarrow> x)
         in (case raw of
               PDict regs \<Rightarrow>
                 (case reg15 of
                    PNone \<Rightarrow> apply_acq_registers regs None b
                  | PDict c \<Rightarrow> apply_acq_registers regs (Some c) b
                  | _ \<Rightarrow> (acq_failure [Inl 15], b))
             | _ \<Rightarrow> (acq_failure [], b))
     | _ \<Rightarrow> (acq_failure [], b))"

section \<open>Channels\<close>

record channel_result =
  cr_success :: bool
  cr_done :: "int list"
  cr_failed :: "int list"
  cr_mask :: "int option"

definition channel_mask :: "int list \<Rightarrow> int" where
  "channel_mask chs = fold (\<lambda>ch m. m OR push_bit (nat ch) 1) chs 0"

text \<open>
  The common beginning of \<open>reset\<close>, \<open>boot\<close> and \<open>start\<close>: the selected channels and their mask, or
  the result of a refused selection. An exception of \<open>channels_definition\<close> goes to the caller.
\<close>

definition select_channels :: "channel_arg \<Rightarrow> py_exn + channel_result + int list \<times> int" where
  "select_channels chs =
    (case channels_definition chs num_channels False False of
       Inl e \<Rightarrow> Inl e
     | Inr [] \<Rightarrow> Inr (Inl \<lparr>cr_success = False, cr_done = [], cr_failed = [], cr_mask = None\<rparr>)
     | Inr cs \<Rightarrow>
         (case find (\<lambda>ch. \<not> checkChannelsBoundary ch) cs of
            Some ch \<Rightarrow> Inr (Inl \<lparr>cr_success = False, cr_done = [], cr_failed = [ch], cr_mask = None\<rparr>)
          | None \<Rightarrow> Inr (Inr (cs, channel_mask cs))))"

definition channels_done :: "bool \<Rightarrow> int list \<Rightarrow> int \<Rightarrow> channel_result" where
  "channels_done ok cs msk =
    (if ok then \<lparr>cr_success = True, cr_done = cs, cr_failed = [], cr_mask = Some msk\<rparr>
     else \<lparr>cr_success = False, cr_done = [], cr_failed = cs, cr_mask = Some msk\<rparr>)"

text \<open>Writes that are all attempted, in order: whether all succeeded.\<close>

fun write_all :: "(int \<times> int) list \<Rightarrow> rc_board \<Rightarrow> bool \<times> rc_board" where
  "write_all [] b = (True, b)"
| "write_all ((a, v) # rest) b =
    (let (ok, b1) = write_reg a v b; (oks, b2) = write_all rest b1 in (ok \<and> oks, b2))"

text \<open>Writes joined by \<open>and\<close>: the first failure stops the sequence.\<close>

fun write_until :: "(int \<times> int) list \<Rightarrow> rc_board \<Rightarrow> bool \<times> rc_board" where
  "write_until [] b = (True, b)"
| "write_until ((a, v) # rest) b =
    (let (ok, b1) = write_reg a v b in if ok then write_until rest b1 else (False, b1))"

definition reset :: "channel_arg \<Rightarrow> rc_board \<Rightarrow> (py_exn + channel_result) \<times> rc_board" where
  "reset chs b =
    (case select_channels chs of
       Inl e \<Rightarrow> (Inl e, b)
     | Inr (Inl res) \<Rightarrow> (Inr res, b)
     | Inr (Inr (cs, msk)) \<Rightarrow>
         (case (read 0 b, read 1 b) of
            (Some reg0, Some reg1) \<Rightarrow>
              let (ok, b') = write_all [(0, reg0 AND NOT msk), (1, reg1 AND NOT msk)] b
              in (Inr (channels_done ok cs msk), b')
          | _ \<Rightarrow> (Inr (channels_done False cs msk), b)))"

definition boot :: "channel_arg \<Rightarrow> rc_board \<Rightarrow> (py_exn + channel_result) \<times> rc_board" where
  "boot chs b =
    (case select_channels chs of
       Inl e \<Rightarrow> (Inl e, b)
     | Inr (Inl res) \<Rightarrow> (Inr res, b)
     | Inr (Inr (cs, msk)) \<Rightarrow>
         let (ok, b') = write_all [(17, msk), (0, msk), (1, msk)] b
         in (Inr (channels_done ok cs msk), b'))"

definition start :: "channel_arg \<Rightarrow> rc_board \<Rightarrow> (py_exn + channel_result) \<times> rc_board" where
  "start chs b =
    (case select_channels chs of
       Inl e \<Rightarrow> (Inl e, b)
     | Inr (Inl res) \<Rightarrow> (Inr res, b)
     | Inr (Inr (cs, msk)) \<Rightarrow>
         let (ok, b') = write_all [(1, msk), (0, msk), (39, msk)] b
         in (Inr (channels_done ok cs msk), b'))"

text \<open>
  One channel at a time. The Boolean after the success is the code's \<open>was_on\<close> or \<open>was_boot\<close>;
  \<open>boot_channel\<close> and \<open>start_channel\<close> raise \<open>TypeError\<close> when a register cannot be read.
\<close>

definition reset_channel :: "int \<Rightarrow> rc_board \<Rightarrow> (bool \<times> bool) \<times> rc_board" where
  "reset_channel ch b =
    (if \<not> checkChannelsBoundary ch then ((False, False), b)
     else case (read 0 b, read 1 b) of
       (Some reg0, Some reg1) \<Rightarrow>
         let msk = push_bit (nat ch) 1 in
         if \<not> (reg0 AND msk \<noteq> 0 \<and> reg1 AND msk \<noteq> 0) then ((True, False), b)
         else let (ok, b') = write_until [(0, reg0 AND NOT msk), (1, reg1 AND NOT msk)] b
              in ((ok, True), b')
     | _ \<Rightarrow> ((False, False), b))"

definition boot_channel :: "int \<Rightarrow> rc_board \<Rightarrow> (py_exn + bool \<times> bool) \<times> rc_board" where
  "boot_channel ch b =
    (if \<not> checkChannelsBoundary ch then (Inr (False, False), b)
     else case (read 0 b, read 1 b, read 17 b) of
       (Some reg0, Some reg1, Some reg17) \<Rightarrow>
         let msk = push_bit (nat ch) 1 in
         if reg0 AND msk \<noteq> 0 \<and> reg1 AND msk \<noteq> 0 \<and> reg17 AND msk \<noteq> 0 then (Inr (True, True), b)
         else let (ok, b') = write_until [(17, reg17 OR msk), (0, reg0 OR msk), (1, reg1 OR msk)] b
              in (Inr (ok, ok), b')
     | _ \<Rightarrow> (Inl TypeError, b))"

definition start_channel :: "int \<Rightarrow> rc_board \<Rightarrow> (py_exn + bool) \<times> rc_board" where
  "start_channel ch b =
    (if \<not> checkChannelsBoundary ch then (Inr False, b)
     else case (read 0 b, read 1 b) of
       (Some reg0, Some reg1) \<Rightarrow>
         let msk = push_bit (nat ch) 1 in
         if reg0 AND msk \<noteq> 0 \<and> reg1 AND msk \<noteq> 0 then (Inr True, b)
         else let (ok, b') = write_until [(1, reg1 OR msk), (0, reg0 OR msk)] b
              in (Inr ok, b')
     | _ \<Rightarrow> (Inl TypeError, b))"

definition feb_reset_after_flash :: "rc_board \<Rightarrow> bool \<times> rc_board" where
  "feb_reset_after_flash b = write_all [(1, 0), (0, 0), (17, 0)] b"

definition feb_select_for_address_change ::
  "channel_arg \<Rightarrow> rc_board \<Rightarrow> (py_exn + channel_result) \<times> rc_board" where
  "feb_select_for_address_change chs b =
    (case channels_definition chs num_channels False False of
       Inl e \<Rightarrow> (Inl e, b)
     | Inr cs \<Rightarrow>
         if length cs \<noteq> 1 then
           (Inr \<lparr>cr_success = False, cr_done = [], cr_failed = cs, cr_mask = Some 0\<rparr>, b)
         else
           let ch = hd cs in
           if \<not> checkChannelsBoundary ch then
             (Inr \<lparr>cr_success = False, cr_done = [], cr_failed = [ch], cr_mask = Some 0\<rparr>, b)
           else
             let msk = push_bit (nat ch) 1; (ok, b') = write_reg 1 msk b
             in (Inr (channels_done ok [ch] msk), b'))"

section \<open>Rates\<close>

record channel_rate =
  rate_value :: "int option"
  rate_register :: int
  rate_enabled :: "bool option"

record rate_report =
  rr_success :: bool
  rr_enable_mask :: "int option"
  rr_channels :: "(string, channel_rate) dict"

definition channel_rates ::
  "int \<Rightarrow> int option \<Rightarrow> int list \<Rightarrow> rc_board \<Rightarrow> (string, channel_rate) dict \<times> bool" where
  "channel_rates base enable cs b =
    fold (\<lambda>ch (d, ok).
        let v = read (ch + base) b in
        (dict_set (str_int ch)
           \<lparr>rate_value = v, rate_register = ch + base,
            rate_enabled = map_option (\<lambda>m. m AND push_bit (nat ch) 1 \<noteq> 0) enable\<rparr> d,
         ok \<and> v \<noteq> None))
      cs ([], True)"

definition no_rates :: rate_report where
  "no_rates = \<lparr>rr_success = False, rr_enable_mask = None, rr_channels = []\<rparr>"

definition free_rate_monitoring :: "channel_arg \<Rightarrow> rc_board \<Rightarrow> py_exn + rate_report" where
  "free_rate_monitoring chs b =
    (case channels_definition chs num_channels False False of
       Inl e \<Rightarrow> Inl e
     | Inr [] \<Rightarrow> Inr no_rates
     | Inr cs \<Rightarrow>
         let enable = read 39 b; (d, ok) = channel_rates 20 enable cs b in
         Inr \<lparr>rr_success = (enable \<noteq> None \<and> ok), rr_enable_mask = enable, rr_channels = d\<rparr>)"

datatype trigger_config = Exact "int list" | Majority nat

definition decode_auto_trigger_config :: "int option \<Rightarrow> trigger_config option" where
  "decode_auto_trigger_config reg31 =
    (case reg31 of
       None \<Rightarrow> None
     | Some v \<Rightarrow>
         let m = v AND RC_REG31_CHANNEL_MASK in
         if v AND RC_REG31_MODE_BIT \<noteq> 0
         then Some (Exact (filter (\<lambda>ch. m AND push_bit (nat ch) 1 \<noteq> 0) [0..num_channels - 1]))
         else Some (Majority (length (filter (\<lambda>i. bit m i) [0..<7]))))"

record trigger_report =
  tr_success :: bool
  tr_external :: "int option"
  tr_auto :: "int option"
  tr_config :: "trigger_config option"
  tr_enable_mask :: "int option"
  tr_channels :: "(string, channel_rate) dict"

definition trg_rate_monitoring ::
  "channel_arg \<Rightarrow> bool \<Rightarrow> rc_board \<Rightarrow> py_exn + trigger_report option" where
  "trg_rate_monitoring chs include b =
    (case channels_definition chs num_channels False False of
       Inl e \<Rightarrow> Inl e
     | Inr [] \<Rightarrow> Inr None
     | Inr cs \<Rightarrow>
         let ext = read 27 b; auto = read 28 b; cfg = read 31 b; enable = read 39 b;
             ok = (None \<notin> {ext, auto, cfg, enable});
             rep = \<lparr>tr_success = ok, tr_external = ext, tr_auto = auto,
                    tr_config = decode_auto_trigger_config cfg, tr_enable_mask = enable,
                    tr_channels = []\<rparr>
         in if \<not> include then Inr (Some rep)
            else let (d, oks) = channel_rates 32 enable cs b
                 in Inr (Some (rep\<lparr>tr_channels := d, tr_success := ok \<and> oks\<rparr>)))"

record all_rates =
  al_success :: bool
  al_triggered_enabled :: bool
  al_free :: rate_report
  al_trigger :: "trigger_report option"

definition monitor_all_rates :: "channel_arg \<Rightarrow> rc_board \<Rightarrow> py_exn + all_rates option" where
  "monitor_all_rates chs b =
    (case read 15 b of
       None \<Rightarrow> Inr None
     | Some reg15 \<Rightarrow>
         let enabled = (reg15 AND RC_REG15_TRIGGERED_RATE_ENABLE_BIT \<noteq> 0) in
         (case free_rate_monitoring chs b of
            Inl e \<Rightarrow> Inl e
          | Inr free \<Rightarrow>
              (case trg_rate_monitoring chs enabled b of
                 Inl e \<Rightarrow> Inl e
               | Inr trg \<Rightarrow>
                   Inr (Some \<lparr>al_success = (rr_success free \<and> (case trg of None \<Rightarrow> False | Some t \<Rightarrow> tr_success t)),
                              al_triggered_enabled = enabled, al_free = free, al_trigger = trg\<rparr>))))"

end
