(* ===== verification/WorkQueue.thy ===== *)
theory WorkQueue
  imports Prelude "HOL-Library.Multiset" "HOL-Library.Product_Lexorder"
begin

text \<open>
  The priority queue of the hardware services (\<open>queue.PriorityQueue\<close> of the standard library, as
  \<open>rc_service.py\<close> and \<open>hv_service.py\<close> use it): entries are (priority, counter, request), the least
  pair is taken first, and the counter makes the order within a priority that of arrival. The services
  rely on the laws of the locale \<open>prio_queue\<close>.
\<close>

type_synonym 'r entry = "int \<times> nat \<times> 'r"

definition entry_key :: "'r entry \<Rightarrow> int \<times> nat" where
  "entry_key e = (fst e, fst (snd e))"

type_synonym 'r pqueue = "'r entry list"

definition pq_put :: "'r entry \<Rightarrow> 'r pqueue \<Rightarrow> 'r pqueue" where
  "pq_put e q = insort_key entry_key e q"

definition pq_get :: "'r pqueue \<Rightarrow> ('r entry \<times> 'r pqueue) option" where
  "pq_get q = (case q of [] \<Rightarrow> None | e # rest \<Rightarrow> Some (e, rest))"

definition pq_ok :: "'r pqueue \<Rightarrow> bool" where
  "pq_ok q \<longleftrightarrow> sorted (map entry_key q)"

locale prio_queue =
  fixes put :: "'e \<Rightarrow> 'q \<Rightarrow> 'q"
    and get :: "'q \<Rightarrow> ('e \<times> 'q) option"
    and content :: "'q \<Rightarrow> 'e multiset"
    and ok :: "'q \<Rightarrow> bool"
    and key :: "'e \<Rightarrow> 'k::linorder"
  assumes ok_put: "ok q \<Longrightarrow> ok (put e q)"
    and content_put: "content (put e q) = add_mset e (content q)"
    and get_None: "get q = None \<longleftrightarrow> content q = {#}"
    and get_Some: "ok q \<Longrightarrow> get q = Some (e, r) \<Longrightarrow>
        content q = add_mset e (content r) \<and> ok r \<and> (\<forall>x \<in># content r. key e \<le> key x)"
begin

primrec drain :: "nat \<Rightarrow> 'q \<Rightarrow> 'e list" where
  "drain 0 q = []"
| "drain (Suc n) q = (case get q of None \<Rightarrow> [] | Some (e, r) \<Rightarrow> e # drain n r)"

lemma drain_subset: "ok q \<Longrightarrow> set (drain n q) \<subseteq> set_mset (content q)"
proof (induction n arbitrary: q)
  case (Suc n)
  show ?case
  proof (cases "get q")
    case (Some er)
    then obtain e r where er: "get q = Some (e, r)" by (cases er) auto
    with get_Some[OF Suc.prems er] Suc.IH[of r] show ?thesis by auto
  qed simp
qed simp

lemma drain_sorted: "ok q \<Longrightarrow> sorted (map key (drain n q))"
proof (induction n arbitrary: q)
  case (Suc n)
  show ?case
  proof (cases "get q")
    case (Some er)
    then obtain e r where er: "get q = Some (e, r)" by (cases er) auto
    note g = get_Some[OF Suc.prems er]
    with Suc.IH[of r] drain_subset[of r n] er show ?thesis by auto
  qed simp
qed simp

lemma drain_all: "ok q \<Longrightarrow> size (content q) \<le> n \<Longrightarrow> mset (drain n q) = content q"
proof (induction n arbitrary: q)
  case (Suc n)
  show ?case
  proof (cases "get q")
    case None
    then have "content q = {#}" using get_None by blast
    with None show ?thesis by simp
  next
    case (Some er)
    then obtain e r where er: "get q = Some (e, r)" by (cases er) auto
    with get_Some[OF Suc.prems(1) er] Suc show ?thesis by auto
  qed
qed simp

end

interpretation wq: prio_queue pq_put pq_get mset pq_ok entry_key
proof unfold_locales
  fix q r :: "'r pqueue" and e :: "'r entry"
  show "pq_ok q \<Longrightarrow> pq_ok (pq_put e q)" by (simp add: pq_ok_def pq_put_def sorted_insort_key)
  show "mset (pq_put e q) = add_mset e (mset q)" by (simp add: pq_put_def)
  show "pq_get q = None \<longleftrightarrow> mset q = {#}" by (cases q) (simp_all add: pq_get_def)
  show "pq_ok q \<Longrightarrow> pq_get q = Some (e, r) \<Longrightarrow>
      mset q = add_mset e (mset r) \<and> pq_ok r \<and> (\<forall>x \<in># mset r. entry_key e \<le> entry_key x)"
    by (cases q) (auto simp: pq_get_def pq_ok_def)
qed

end
