(* ===== verification/RcService.thy ===== *)
theory RcService
  imports RunControl WorkQueue Protocol
begin

text \<open>
  The service in front of the run control board (\<open>client/hardware/rc/rc_service.py\<close>,
  \<open>rc_commands.py\<close>, \<open>rc_messages.py\<close> and \<open>client/communication/priority_utils.py\<close>): requests wait in a
  priority queue, one worker executes them, expired ones are answered without being executed, and
  successful writes of the tracked configuration registers are notified. Time is an integer clock.
  The texts of errors are left out.
\<close>

unbundle bit_operations_syntax

section \<open>Messages\<close>

datatype RCMessagePriority = EMERGENCY | CONTROL | RC_ACQUISITION | RC_MONITORING

fun priority_value :: "RCMessagePriority \<Rightarrow> int" where
  "priority_value EMERGENCY = 0"
| "priority_value CONTROL = 1"
| "priority_value RC_ACQUISITION = 2"
| "priority_value RC_MONITORING = 3"

definition PLANE_DEFAULT_PRIORITY :: "(string, int) dict" where
  "PLANE_DEFAULT_PRIORITY = [(''control'', 1), (''acquisition'', 2), (''monitoring'', 3)]"

text \<open>The priority of a message is \<open>None\<close> or an integer once the message has been validated.\<close>

definition resolve_priority_value :: "string \<Rightarrow> ProtocolMessage \<Rightarrow> int" where
  "resolve_priority_value plane_name m =
    (case int_like (priority m) of
       Some p \<Rightarrow> p
     | None \<Rightarrow> (case dict_get PLANE_DEFAULT_PRIORITY plane_name of None \<Rightarrow> 1 | Some p \<Rightarrow> p))"

record RCRequest =
  rq_id :: string
  rq_command :: string
  rq_payload :: "(string, pyval) dict"
  rq_sender :: "string option"
  rq_deadline :: "int option"

datatype rc_result =
    NoResult
  | ChannelResult channel_result
  | RegisterResult bool int "int option"
  | RegistersResult "(pyval, int option) dict"
  | AcqResult acq_result
  | FreeRates rate_report
  | TriggerRates "trigger_report option"
  | AllRates "all_rates option"
  | FebReset bool

datatype rc_error = Missing string | Failed_command | Unknown_command | Raised py_exn | Expired | Timeout

record RCResponse =
  rs_reply_to :: string
  rs_status :: MessageStatus
  rs_result :: rc_result
  rs_error :: "rc_error option"

definition ok_response :: "RCRequest \<Rightarrow> rc_result \<Rightarrow> RCResponse" where
  "ok_response rq res =
    \<lparr>rs_reply_to = rq_id rq, rs_status = OK, rs_result = res, rs_error = None\<rparr>"

definition error_response :: "RCRequest \<Rightarrow> rc_result \<Rightarrow> rc_error \<Rightarrow> RCResponse" where
  "error_response rq res e =
    \<lparr>rs_reply_to = rq_id rq, rs_status = ST_ERROR, rs_result = res, rs_error = Some e\<rparr>"

section \<open>Commands\<close>

definition make_response :: "RCRequest \<Rightarrow> bool \<Rightarrow> rc_result \<Rightarrow> RCResponse" where
  "make_response rq success res =
    (if success then ok_response rq res else error_response rq res Failed_command)"

text \<open>
  The channels of a payload. A list with anything but integers raises on its first comparison or
  shift, as an argument of another type does.
\<close>

definition arg_of :: "pyval \<Rightarrow> channel_arg" where
  "arg_of v =
    (case v of
       PInt n \<Rightarrow> ArgInt n
     | PBool t \<Rightarrow> ArgInt (of_bool t)
     | PStr s \<Rightarrow> ArgStr s
     | PList vs \<Rightarrow> (case map_result int_like vs of None \<Rightarrow> ArgOther | Some ns \<Rightarrow> ArgList ns)
     | _ \<Rightarrow> ArgOther)"

type_synonym rc_outcome = "(py_exn + RCResponse) \<times> rc_board"

definition command_channels ::
  "(channel_arg \<Rightarrow> rc_board \<Rightarrow> (py_exn + channel_result) \<times> rc_board) \<Rightarrow> RCRequest \<Rightarrow> rc_board \<Rightarrow> rc_outcome" where
  "command_channels op rq b =
    (case dict_get (rq_payload rq) ''channels'' of
       None \<Rightarrow> (Inl KeyError, b)
     | Some chs \<Rightarrow>
         (case op (arg_of chs) b of
            (Inl e, b') \<Rightarrow> (Inl e, b')
          | (Inr res, b') \<Rightarrow> (Inr (make_response rq (cr_success res) (ChannelResult res)), b')))"

definition command_start_acquisition_mode :: "RCRequest \<Rightarrow> rc_board \<Rightarrow> rc_outcome" where
  "command_start_acquisition_mode = command_channels start"

definition command_boot_mode :: "RCRequest \<Rightarrow> rc_board \<Rightarrow> rc_outcome" where
  "command_boot_mode = command_channels boot"

definition command_reset :: "RCRequest \<Rightarrow> rc_board \<Rightarrow> rc_outcome" where
  "command_reset = command_channels reset"

definition payload_get :: "RCRequest \<Rightarrow> string \<Rightarrow> pyval" where
  "payload_get rq k = get_or PNone (rq_payload rq) k"

definition command_read_register :: "RCRequest \<Rightarrow> rc_board \<Rightarrow> rc_outcome" where
  "command_read_register rq b =
    (if payload_get rq ''address'' = PNone then (Inr (error_response rq NoResult (Missing ''address'')), b)
     else case addr_of (payload_get rq ''address'') of
       Inl e \<Rightarrow> (Inl e, b)
     | Inr a \<Rightarrow>
         (case read_register a b of
            (ok, addr, v) \<Rightarrow> (Inr (make_response rq ok (RegisterResult ok addr v)), b)))"

text \<open>Iterating over the payload value: a list, the characters of a text, the keys of a dictionary.\<close>

definition iterate :: "pyval \<Rightarrow> pyval list option" where
  "iterate v =
    (case v of
       PList vs \<Rightarrow> Some vs
     | PStr s \<Rightarrow> Some (map (\<lambda>c. PStr [c]) s)
     | PDict d \<Rightarrow> Some (map (\<lambda>(k, x). PStr k) d)
     | _ \<Rightarrow> if truthy v then None else Some [])"

definition command_read_acq_registers :: "RCRequest \<Rightarrow> rc_board \<Rightarrow> rc_outcome" where
  "command_read_acq_registers rq b =
    (if payload_get rq ''rc_acq_registers'' = PNone
     then (Inr (error_response rq NoResult (Missing ''address'')), b)
     else case iterate (payload_get rq ''rc_acq_registers'') of
       None \<Rightarrow> (Inl TypeError, b)
     | Some vs \<Rightarrow>
         (case read_acq_registers vs b of
            Inl e \<Rightarrow> (Inl e, b)
          | Inr res \<Rightarrow> (Inr (make_response rq True (RegistersResult res)), b)))"

definition command_set_rc_acq_registers :: "RCRequest \<Rightarrow> rc_board \<Rightarrow> rc_outcome" where
  "command_set_rc_acq_registers rq b =
    (if payload_get rq ''rc_acq_dict'' = PNone
     then (Inr (error_response rq NoResult (Missing ''settings'')), b)
     else let (res, b') = set_acq_registers (payload_get rq ''rc_acq_dict'') b
          in (Inr (make_response rq (ar_success res) (AcqResult res)), b'))"

text \<open>
  A write. An address given as a text passes the boundary check and then fails as an index, inside
  the \<open>try\<close> of \<open>RC.write\<close>; a value that is not an integer fails there too.
\<close>

definition write_payload :: "pyval \<Rightarrow> pyval \<Rightarrow> rc_board \<Rightarrow> py_exn + bool \<times> rc_board" where
  "write_payload addr value b =
    (case addr_of addr of
       Inl e \<Rightarrow> Inl e
     | Inr a \<Rightarrow>
         (case (int_like addr, int_like value) of
            (Some n, Some v) \<Rightarrow> Inr (write_reg n v b)
          | _ \<Rightarrow> Inr (False, b)))"

definition command_write_register :: "RCRequest \<Rightarrow> rc_board \<Rightarrow> rc_outcome" where
  "command_write_register rq b =
    (let addr = payload_get rq ''address''; value = payload_get rq ''value'' in
     if addr = PNone then (Inr (error_response rq NoResult (Missing ''address'')), b)
     else if value = PNone then (Inr (error_response rq NoResult (Missing ''value'')), b)
     else case write_payload addr value b of
       Inl e \<Rightarrow> (Inl e, b)
     | Inr (ok, b') \<Rightarrow>
         (Inr (make_response rq ok
            (RegisterResult ok (case int_like addr of None \<Rightarrow> 0 | Some n \<Rightarrow> n) (int_like value))), b'))"

definition channels_or_all :: "RCRequest \<Rightarrow> channel_arg" where
  "channels_or_all rq = arg_of (get_or (PStr ''all'') (rq_payload rq) ''channels'')"

definition command_free_rate_monitoring :: "RCRequest \<Rightarrow> rc_board \<Rightarrow> rc_outcome" where
  "command_free_rate_monitoring rq b =
    (case free_rate_monitoring (channels_or_all rq) b of
       Inl e \<Rightarrow> (Inl e, b)
     | Inr res \<Rightarrow> (Inr (make_response rq (rr_success res) (FreeRates res)), b))"

definition command_trg_rate_monitoring :: "RCRequest \<Rightarrow> rc_board \<Rightarrow> rc_outcome" where
  "command_trg_rate_monitoring rq b =
    (case trg_rate_monitoring (channels_or_all rq) True b of
       Inl e \<Rightarrow> (Inl e, b)
     | Inr res \<Rightarrow>
         (Inr (make_response rq (case res of None \<Rightarrow> False | Some t \<Rightarrow> tr_success t) (TriggerRates res)), b))"

definition command_all_rate_monitoring :: "RCRequest \<Rightarrow> rc_board \<Rightarrow> rc_outcome" where
  "command_all_rate_monitoring rq b =
    (case monitor_all_rates (channels_or_all rq) b of
       Inl e \<Rightarrow> (Inl e, b)
     | Inr res \<Rightarrow>
         (Inr (make_response rq
            (case res of
               None \<Rightarrow> False
             | Some r \<Rightarrow> rr_success (al_free r) \<and> (case al_trigger r of None \<Rightarrow> False | Some t \<Rightarrow> tr_success t))
            (AllRates res)), b))"

definition command_feb_reset_after_flash :: "RCRequest \<Rightarrow> rc_board \<Rightarrow> rc_outcome" where
  "command_feb_reset_after_flash rq b =
    (let (ok, b') = feb_reset_after_flash b in (Inr (make_response rq ok (FebReset ok)), b'))"

definition command_feb_select_for_address_change :: "RCRequest \<Rightarrow> rc_board \<Rightarrow> rc_outcome" where
  "command_feb_select_for_address_change = command_channels feb_select_for_address_change"

definition COMMAND_HANDLERS :: "(string, RCRequest \<Rightarrow> rc_board \<Rightarrow> rc_outcome) dict" where
  "COMMAND_HANDLERS =
    [(''rc_acq_start'', command_start_acquisition_mode),
     (''rc_boot'', command_boot_mode),
     (''rc_reset'', command_reset),
     (''rc_read_register'', command_read_register),
     (''rc_write_register'', command_write_register),
     (''rc_read_acq_registers'', command_read_acq_registers),
     (''set_rc_acq'', command_set_rc_acq_registers),
     (''rc_free_rate_monitoring'', command_free_rate_monitoring),
     (''rc_trg_rate_monitoring'', command_trg_rate_monitoring),
     (''rc_all_rate_monitoring'', command_all_rate_monitoring),
     (''rc_feb_reset_after_flash'', command_feb_reset_after_flash),
     (''rc_feb_select_address_change'', command_feb_select_for_address_change)]"

section \<open>The service\<close>

definition TRACKED_CONFIGURATION_REGISTERS :: "int list" where
  "TRACKED_CONFIGURATION_REGISTERS = [31, 39]"

text \<open>A call of the configuration callback: register, old and new value, sender, request.\<close>

record config_event =
  ce_register :: int
  ce_old :: "int option"
  ce_new :: int
  ce_reason :: "string option"
  ce_request :: string

record rc_service =
  sv_board :: rc_board
  input_queue :: "RCRequest pqueue"
  counter :: nat
  sv_events :: "config_event list"
  sv_has_callback :: bool
  sv_responses :: "(nat \<times> RCResponse) list"

definition init_rc_service :: "rc_board \<Rightarrow> bool \<Rightarrow> rc_service" where
  "init_rc_service b cb =
    \<lparr>sv_board = b, input_queue = [], counter = 0, sv_events = [], sv_has_callback = cb, sv_responses = []\<rparr>"

definition read_configuration_register :: "int \<Rightarrow> rc_board \<Rightarrow> int option" where
  "read_configuration_register addr b =
    (case command_read_register
            \<lparr>rq_id = ''prewrite'', rq_command = ''rc_read_register'',
             rq_payload = [(''address'', PInt addr)], rq_sender = None, rq_deadline = None\<rparr> b of
       (Inr rsp, b') \<Rightarrow>
         if rs_status rsp \<noteq> OK then None
         else (case rs_result rsp of RegisterResult ok a v \<Rightarrow> v | _ \<Rightarrow> None)
     | _ \<Rightarrow> None)"

definition notify_configuration_change ::
  "RCRequest \<Rightarrow> int option \<Rightarrow> pyval \<Rightarrow> rc_service \<Rightarrow> rc_service" where
  "notify_configuration_change rq old_value new_value s =
    (if \<not> sv_has_callback s then s
     else case (int_like (payload_get rq ''address''), int_like new_value) of
       (Some a, Some v) \<Rightarrow>
         if a \<notin> set TRACKED_CONFIGURATION_REGISTERS then s
         else if old_value = Some v then s
         else s\<lparr>sv_events := sv_events s @
                  [\<lparr>ce_register = a, ce_old = old_value, ce_new = v, ce_reason = rq_sender rq,
                    ce_request = rq_id rq\<rparr>]\<rparr>
     | _ \<Rightarrow> s)"

definition is_tracked_write :: "RCRequest \<Rightarrow> bool" where
  "is_tracked_write rq \<longleftrightarrow> rq_command rq = ''rc_write_register'' \<and>
    (case int_like (payload_get rq ''address'') of
       None \<Rightarrow> False | Some a \<Rightarrow> a \<in> set TRACKED_CONFIGURATION_REGISTERS)"

definition execute_response :: "RCRequest \<Rightarrow> rc_service \<Rightarrow> RCResponse \<times> rc_service" where
  "execute_response rq s =
    (case dict_get COMMAND_HANDLERS (rq_command rq) of
       None \<Rightarrow> (error_response rq NoResult Unknown_command, s)
     | Some handler \<Rightarrow>
         let previous_value =
               (if is_tracked_write rq
                then read_configuration_register (the (int_like (payload_get rq ''address''))) (sv_board s)
                else None)
         in (case handler rq (sv_board s) of
               (Inl e, b') \<Rightarrow> (error_response rq NoResult (Raised e), s\<lparr>sv_board := b'\<rparr>)
             | (Inr rsp, b') \<Rightarrow>
                 let s1 = s\<lparr>sv_board := b'\<rparr> in
                 (rsp, if is_tracked_write rq \<and> rs_status rsp = OK
                       then notify_configuration_change rq previous_value (payload_get rq ''value'') s1
                       else s1)))"

text \<open>
  \<open>request\<close> up to the wait: the deadline is filled in and the request is queued; the number of the
  entry identifies its response queue.
\<close>

definition submit_request :: "RCRequest \<Rightarrow> int \<Rightarrow> int \<Rightarrow> int \<Rightarrow> rc_service \<Rightarrow> rc_service" where
  "submit_request rq prio timeout now s =
    (let rq' = (if rq_deadline rq = None then rq\<lparr>rq_deadline := Some (now + timeout)\<rparr> else rq) in
     s\<lparr>input_queue := pq_put (prio, counter s, rq') (input_queue s), counter := Suc (counter s)\<rparr>)"

text \<open>The end of \<open>request\<close>: the response that is in the response queue in time, or an error.\<close>

definition request_result :: "RCRequest \<Rightarrow> nat \<Rightarrow> rc_service \<Rightarrow> RCResponse" where
  "request_result rq n s =
    (case map_of (sv_responses s) n of
       None \<Rightarrow> error_response rq NoResult Timeout
     | Some rsp \<Rightarrow> rsp)"

text \<open>One turn of the worker loop at a given time.\<close>

definition worker_step :: "int \<Rightarrow> rc_service \<Rightarrow> rc_service" where
  "worker_step now s =
    (case pq_get (input_queue s) of
       None \<Rightarrow> s
     | Some ((prio, n, rq), q) \<Rightarrow>
         let s1 = s\<lparr>input_queue := q\<rparr> in
         if (case rq_deadline rq of None \<Rightarrow> False | Some d \<Rightarrow> now > d)
         then s1\<lparr>sv_responses := sv_responses s1 @ [(n, error_response rq NoResult Expired)]\<rparr>
         else let (rsp, s2) = execute_response rq s1
              in s2\<lparr>sv_responses := sv_responses s2 @ [(n, rsp)]\<rparr>)"

end
