(* ===== verification/RunControlProps.thy ===== *)
theory RunControlProps
  imports RunControl
begin

text \<open>
  Properties of the run control board: registers behave as 32-bit cells, the acquisition configuration
  writes only its registers and in the fixed order, register 15 is changed only under its mask, and
  reset, boot and start change exactly the bits of the selected channels.
\<close>

unbundle bit_operations_syntax

section \<open>Registers\<close>

lemma byte_digits:
  fixes v :: int
  assumes "0 \<le> v" "v < 2 ^ 32"
  shows "v mod 256 + 256 * (v div 256 mod 256 + 256 * (v div 65536 mod 256 + 256 * (v div 16777216 mod 256))) = v"
proof -
  have "v div 65536 = v div 256 div 256" "v div 16777216 = v div 256 div 256 div 256"
    by (simp_all add: zdiv_zmult2_eq[symmetric])
  moreover have "v div 256 div 256 div 256 mod 256 = v div 256 div 256 div 256"
    using assms by (intro mod_pos_pos_trivial) (simp_all add: zdiv_zmult2_eq[symmetric])
  ultimately show ?thesis by (metis add.commute div_mult_mod_eq mult.commute)
qed

lemma from_to_bytes: "to_bytes v = Some bs \<Longrightarrow> from_bytes bs = v \<and> length bs = 4"
proof -
  assume tb: "to_bytes v = Some bs"
  then have r: "0 \<le> v" "v < 2 ^ 32" by (auto simp: to_bytes_def split: if_splits)
  from tb have eq: "from_bytes bs =
      v mod 256 + 256 * (v div 256 mod 256 + 256 * (v div 65536 mod 256 + 256 * (v div 16777216 mod 256)))"
    by (auto simp: to_bytes_def uint_word_of_int split: if_splits)
  have "from_bytes bs = v" using eq byte_digits[OF r] by (rule trans)
  moreover have "length bs = 4" using tb by (auto simp: to_bytes_def split: if_splits)
  ultimately show ?thesis ..
qed

lemma mem_slice_store:
  "length bs = 4 \<Longrightarrow> mem_slice (mem_store a bs m) c = (if c = a then bs else mem_slice m c)"
proof -
  assume "length bs = 4"
  then obtain w x y z where bs: "bs = [w, x, y, z]" by (auto simp: length_Suc_conv numeral_eq_Suc)
  show ?thesis
  proof (cases "c = a")
    case True
    then show ?thesis by (simp add: mem_slice_def mem_store_def bs nth_Cons')
  next
    case False
    have keep: "mem_store a bs m (4 * c + k) = m (4 * c + k)" if "0 \<le> k" "k < 4" for k
    proof -
      have "\<not> (4 * a \<le> 4 * c + k \<and> 4 * c + k < 4 * a + 4)" using False that by presburger
      then show ?thesis by (auto simp: mem_store_def bs)
    qed
    from keep[of 0] keep[of 1] keep[of 2] keep[of 3] False show ?thesis by (simp add: mem_slice_def)
  qed
qed

lemma from_bytes_range: "0 \<le> from_bytes bs \<and> from_bytes bs < 256 ^ length bs"
proof (induction bs)
  case (Cons x bs)
  have "uint x < 2 ^ 8" "0 \<le> uint x" using uint_bounded[of x] by simp_all
  with Cons show ?case by simp
qed simp

lemma read_range: "read a b = Some v \<Longrightarrow> 0 \<le> v \<and> v < 2 ^ 32"
  using from_bytes_range[of "mem_slice (mem b) a"]
  by (auto simp: read_def mem_slice_def split: if_splits)

text \<open>A write that succeeds, and when it does.\<close>

definition storable :: "int \<Rightarrow> bool" where
  "storable v \<longleftrightarrow> 0 \<le> v \<and> v < 2 ^ 32"

lemma write_reg_cases:
  "write_reg a v b = (ok, b') \<Longrightarrow>
   ok = (mapped b \<and> checkRegBoundary a \<and> storable v) \<and> mapped b' = mapped b \<and>
   writes b' = (if ok then writes b @ [(a, v)] else writes b) \<and>
   (\<not> ok \<longrightarrow> b' = b) \<and>
   (\<forall>c. read c b' = (if ok \<and> c = a then Some v else read c b))"
proof -
  assume w: "write_reg a v b = (ok, b')"
  have tb: "to_bytes v \<noteq> None \<longleftrightarrow> storable v" by (auto simp: to_bytes_def storable_def)
  show ?thesis
  proof (cases "mapped b \<and> checkRegBoundary a \<and> storable v")
    case True
    with tb obtain bs where bs: "to_bytes v = Some bs" by auto
    with True w from_to_bytes[OF bs] show ?thesis
      by (auto simp: write_reg_def read_def mem_slice_store)
  next
    case False
    with w tb show ?thesis by (auto simp: write_reg_def split: option.splits if_splits)
  qed
qed

lemma write_all_cases:
  "mapped b \<Longrightarrow> \<forall>(a, v) \<in> set ws. checkRegBoundary a \<and> storable v \<Longrightarrow>
   \<exists>b'. write_all ws b = (True, b') \<and> mapped b' \<and> writes b' = writes b @ ws \<and>
     (\<forall>c. read c b' = (case map_of (rev ws) c of Some v \<Rightarrow> Some v | None \<Rightarrow> read c b))"
proof (induction ws arbitrary: b)
  case (Cons av ws)
  obtain a v where av: "av = (a, v)" by force
  obtain ok b1 where w: "write_reg a v b = (ok, b1)" by force
  from write_reg_cases[OF w] Cons.prems have
    1: "ok" "mapped b1" "writes b1 = writes b @ [(a, v)]" "\<And>c. read c b1 = (if c = a then Some v else read c b)"
    by (auto simp: av)
  have "\<forall>(a, v) \<in> set ws. checkRegBoundary a \<and> storable v" using Cons.prems(2) by simp
  from Cons.IH[OF 1(2) this] obtain b2 where
    2: "write_all ws b1 = (True, b2)" "mapped b2" "writes b2 = writes b1 @ ws"
      "\<forall>c. read c b2 = (case map_of (rev ws) c of Some v \<Rightarrow> Some v | None \<Rightarrow> read c b1)" by blast
  show ?case
    using w 1 2 by (auto simp: av map_add_def split: option.splits)
qed simp

section \<open>Acquisition configuration\<close>

lemma storable_32: "in_32_bits v \<longleftrightarrow> storable v"
  by (auto simp: in_32_bits_def storable_def MAX_REGISTER_VALUE_def)

text \<open>Only configuration registers, with values of 32 bits.\<close>

definition norm_ok :: "(int, int) dict \<Rightarrow> bool" where
  "norm_ok norm \<longleftrightarrow> (\<forall>a v. dict_get norm a = Some v \<longrightarrow> a \<in> set ACQ_CONFIG_REGISTERS \<and> storable v)"

lemma norm_okD: "norm_ok norm \<Longrightarrow> dict_get norm a = Some v \<Longrightarrow> a \<in> set ACQ_CONFIG_REGISTERS \<and> storable v"
  by (simp add: norm_ok_def)

lemma norm_ok_set:
  "norm_ok norm \<Longrightarrow> a \<in> set ACQ_CONFIG_REGISTERS \<Longrightarrow> storable v \<Longrightarrow> norm_ok (dict_set a v norm)"
  by (auto simp: norm_ok_def dict_simps)

lemma normalize_ok: "norm_ok norm \<Longrightarrow> norm_ok (fst (normalize_registers raw norm failed))"
  by (induction raw norm failed rule: normalize_registers.induct)
     (auto simp: storable_32 norm_ok_set split: sum.split option.split)

lemma acq_registers_in_bounds: "a \<in> set ACQ_CONFIG_REGISTERS \<Longrightarrow> checkRegBoundary a"
  by (auto simp: ACQ_CONFIG_REGISTERS_def checkRegBoundary_def max_regs_def)

lemma write_one_cases:
  assumes "norm_ok norm"
    and "write_one norm a (res, b) = (res', b')"
  shows "mapped b' = mapped b"
    and "writes b' = writes b @ (case dict_get norm a of Some v \<Rightarrow> if mapped b then [(a, v)] else [] | None \<Rightarrow> [])"
    and "read c b' = (case dict_get norm a of Some v \<Rightarrow> if mapped b \<and> c = a then Some v else read c b | None \<Rightarrow> read c b)"
proof -
  have "mapped b' = mapped b \<and>
    writes b' = writes b @ (case dict_get norm a of Some v \<Rightarrow> if mapped b then [(a, v)] else [] | None \<Rightarrow> []) \<and>
    read c b' = (case dict_get norm a of Some v \<Rightarrow> if mapped b \<and> c = a then Some v else read c b | None \<Rightarrow> read c b)"
  proof (cases "dict_get norm a")
    case None
    with assms(2) show ?thesis by (simp add: write_one_def)
  next
    case (Some v)
    obtain ok b1 where w: "write_reg a v b = (ok, b1)" by force
    have "b' = b1" using assms(2) Some w by (cases ok) (auto simp: write_one_def)
    moreover have "checkRegBoundary a \<and> storable v"
      using norm_okD[OF assms(1) Some] acq_registers_in_bounds by blast
    ultimately show ?thesis using write_reg_cases[OF w] Some by auto
  qed
  then show "mapped b' = mapped b"
    "writes b' = writes b @ (case dict_get norm a of Some v \<Rightarrow> if mapped b then [(a, v)] else [] | None \<Rightarrow> [])"
    "read c b' = (case dict_get norm a of Some v \<Rightarrow> if mapped b \<and> c = a then Some v else read c b | None \<Rightarrow> read c b)"
    by blast+
qed

text \<open>The writes of the second loop: the accepted registers, in the order of the list.\<close>

definition planned_writes :: "(int, int) dict \<Rightarrow> int list \<Rightarrow> (int \<times> int) list" where
  "planned_writes norm order =
    concat (map (\<lambda>a. case dict_get norm a of None \<Rightarrow> [] | Some v \<Rightarrow> [(a, v)]) order)"

lemma fold_write_one:
  assumes ok: "norm_ok norm"
    and "fold (write_one norm) order (res, b) = (res', b')"
  shows "mapped b' = mapped b"
    and "writes b' = writes b @ (if mapped b then planned_writes norm order else [])"
    and "read c b' = (if mapped b \<and> c \<in> set order \<and> dict_get norm c \<noteq> None then dict_get norm c else read c b)"
proof -
  have "mapped b' = mapped b \<and> writes b' = writes b @ (if mapped b then planned_writes norm order else []) \<and>
    read c b' = (if mapped b \<and> c \<in> set order \<and> dict_get norm c \<noteq> None then dict_get norm c else read c b)"
    using assms(2)
  proof (induction order arbitrary: res b)
    case (Cons a order)
    obtain res1 b1 where w: "write_one norm a (res, b) = (res1, b1)" by force
    note 1 = write_one_cases[OF ok w]
    have "fold (write_one norm) order (res1, b1) = (res', b')" using Cons.prems w by simp
    from Cons.IH[OF this] 1 show ?case
      by (auto simp: planned_writes_def split: option.splits)
  qed (simp add: planned_writes_def)
  then show "mapped b' = mapped b"
    "writes b' = writes b @ (if mapped b then planned_writes norm order else [])"
    "read c b' = (if mapped b \<and> c \<in> set order \<and> dict_get norm c \<noteq> None then dict_get norm c else read c b)"
    by blast+
qed

lemma planned_subseq: "subseq (map fst (planned_writes norm order)) order"
  by (induction order) (auto simp: planned_writes_def split: option.splits)

lemma merge_storable:
  assumes "storable p" "storable v"
  shows "storable (merge_reg15 p m v)"
proof -
  have nn: "0 \<le> p" "0 \<le> v" using assms by (auto simp: storable_def)
  have t: "take_bit 32 p = p" "take_bit 32 v = v"
    using assms by (auto simp: storable_def take_bit_int_eq_self)
  have "take_bit 32 (merge_reg15 p m v) = merge_reg15 p m v"
    by (subst t(1)[symmetric], subst t(2)[symmetric])
       (simp add: merge_reg15_def bit_eq_iff bit_simps, metis t bit_take_bit_iff)
  then have "0 \<le> merge_reg15 p m v \<and> merge_reg15 p m v < 2 ^ 32"
    by (metis take_bit_int_less_exp take_bit_nonnegative)
  then show ?thesis by (simp add: storable_def)
qed

lemma merge_bits: "bit (merge_reg15 p m v) n =
    (if bit m n then bit v n else bit p n \<and> n < 32)"
proof -
  have "MAX_REGISTER_VALUE = mask 32" by (simp add: MAX_REGISTER_VALUE_def mask_eq_exp_minus_1)
  from bit_mask_iff[where ?'a = int, of 32 n, folded this] show ?thesis
    by (auto simp: merge_reg15_def bit_and_iff bit_or_iff bit_not_iff)
qed

lemma int_like_valid:
  assumes "reg15_valid m v"
  obtains mi vi where "int_like m = Some mi" "int_like v = Some vi" "storable mi" "storable vi"
    "mi AND NOT TRIGGER_REG15_ALLOWED_MASK = 0" "vi AND NOT mi = 0"
  using assms by (auto simp: reg15_valid_def storable_32 split: option.splits)

lemma configure_reg15_cases:
  assumes "configure_reg15 cfg (res, b) = (res', b')"
  shows "mapped b' = mapped b"
    and "(b' = b \<and> failed_registers res' \<noteq> []) \<or>
      (\<exists>p mi vi. read 15 b = Some p \<and> map_option int_like (dict_get cfg ''mask'') = Some (Some mi) \<and>
        map_option int_like (dict_get cfg ''value'') = Some (Some vi) \<and>
        mi AND NOT TRIGGER_REG15_ALLOWED_MASK = 0 \<and> vi AND NOT mi = 0 \<and>
        failed_registers res' = failed_registers res \<and>
        writes b' = writes b @ [(15, merge_reg15 p mi vi)] \<and>
        (\<forall>c. read c b' = (if c = 15 then Some (merge_reg15 p mi vi) else read c b)))"
proof -
  let ?m = "case dict_get cfg ''mask'' of None \<Rightarrow> PNone | Some x \<Rightarrow> x"
  let ?v = "case dict_get cfg ''value'' of None \<Rightarrow> PNone | Some x \<Rightarrow> x"
  have both: "mapped b' = mapped b \<and> ((b' = b \<and> failed_registers res' \<noteq> []) \<or>
      (\<exists>p mi vi. read 15 b = Some p \<and> map_option int_like (dict_get cfg ''mask'') = Some (Some mi) \<and>
        map_option int_like (dict_get cfg ''value'') = Some (Some vi) \<and>
        mi AND NOT TRIGGER_REG15_ALLOWED_MASK = 0 \<and> vi AND NOT mi = 0 \<and>
        failed_registers res' = failed_registers res \<and>
        writes b' = writes b @ [(15, merge_reg15 p mi vi)] \<and>
        (\<forall>c. read c b' = (if c = 15 then Some (merge_reg15 p mi vi) else read c b))))"
  proof (cases "reg15_valid ?m ?v \<and> read 15 b \<noteq> None")
    case False
    then have "b' = b \<and> res' = reg15_fail res"
      using assms by (cases "reg15_valid ?m ?v") (auto simp: configure_reg15_def Let_def)
    then show ?thesis by (simp add: reg15_fail_def)
  next
    case True
    then obtain p where p: "read 15 b = Some p" by auto
    from True obtain mi vi where iv: "int_like ?m = Some mi" "int_like ?v = Some vi" "storable mi" "storable vi"
      "mi AND NOT TRIGGER_REG15_ALLOWED_MASK = 0" "vi AND NOT mi = 0" by (blast elim: int_like_valid)
    then have given: "map_option int_like (dict_get cfg ''mask'') = Some (Some mi)"
      "map_option int_like (dict_get cfg ''value'') = Some (Some vi)"
      by (auto split: option.splits)
    let ?n = "merge_reg15 p mi vi"
    obtain ok b1 where w: "write_reg 15 ?n b = (ok, b1)" by force
    have "storable ?n" using read_range[OF p] iv by (intro merge_storable) (simp_all add: storable_def)
    moreover have "mapped b" using p by (simp add: read_def split: if_splits)
    moreover have "checkRegBoundary 15" by (simp add: checkRegBoundary_def max_regs_def)
    ultimately have ok: "ok" and b1: "mapped b1 = mapped b" "writes b1 = writes b @ [(15, ?n)]"
      "\<forall>c. read c b1 = (if c = 15 then Some ?n else read c b)"
      using write_reg_cases[OF w] by simp_all
    have "b' = b1 \<and> failed_registers res' = failed_registers res"
      using assms True p iv(1,2) w ok by (auto simp: configure_reg15_def Let_def)
    with b1 p iv given show ?thesis by blast
  qed
  then show "mapped b' = mapped b" by blast
  from both show "(b' = b \<and> failed_registers res' \<noteq> []) \<or>
      (\<exists>p mi vi. read 15 b = Some p \<and> map_option int_like (dict_get cfg ''mask'') = Some (Some mi) \<and>
        map_option int_like (dict_get cfg ''value'') = Some (Some vi) \<and>
        mi AND NOT TRIGGER_REG15_ALLOWED_MASK = 0 \<and> vi AND NOT mi = 0 \<and>
        failed_registers res' = failed_registers res \<and>
        writes b' = writes b @ [(15, merge_reg15 p mi vi)] \<and>
        (\<forall>c. read c b' = (if c = 15 then Some (merge_reg15 p mi vi) else read c b)))" by blast
qed

lemma norm_ok_Nil: "norm_ok []"
  by (simp add: norm_ok_def)

text \<open>The steps of an accepted configuration, with the board after the register loop.\<close>

lemma apply_acq_steps:
  assumes "apply_acq_registers raw reg15 b = (res, b')"
  obtains norm failed res1 b1 where "norm_ok norm" and "normalize_registers raw [] [] = (norm, failed)"
    and "mapped b1 = mapped b"
    and "writes b1 = writes b @ (if mapped b then planned_writes norm ACQ_REGISTER_WRITE_ORDER else [])"
    and "\<forall>c. read c b1 = (if mapped b \<and> c \<in> set ACQ_REGISTER_WRITE_ORDER \<and> dict_get norm c \<noteq> None
           then dict_get norm c else read c b)"
    and "reg15 = None \<and> b' = b1 \<or> (\<exists>cfg r. reg15 = Some cfg \<and> configure_reg15 cfg (res1, b1) = (r, b') \<and>
           failed_registers res = failed_registers r)"
proof -
  obtain norm failed where n: "normalize_registers raw [] [] = (norm, failed)" by force
  then have nok: "norm_ok norm" using normalize_ok[OF norm_ok_Nil, of raw "[]"] by simp
  let ?r0 = "\<lparr>ar_success = False, successful_registers = [], failed_registers = failed,
                 register_results = fold (\<lambda>k. dict_set k (False, None)) failed []\<rparr>"
  obtain res1 b1 where f: "fold (write_one norm) ACQ_REGISTER_WRITE_ORDER (?r0, b) = (res1, b1)" by force
  have "reg15 = None \<and> b' = b1 \<or> (\<exists>cfg r. reg15 = Some cfg \<and> configure_reg15 cfg (res1, b1) = (r, b') \<and>
           failed_registers res = failed_registers r)"
    using assms n f by (auto simp: apply_acq_registers_def Let_def split: option.splits prod.splits)
  with that[OF nok n] fold_write_one[OF nok f] show thesis by blast
qed

lemma set_acq_cases:
  assumes "set_acq_registers cfg b = (res, b')" and "b' \<noteq> b"
  obtains raw reg15 where "apply_acq_registers raw reg15 b = (res, b')"
  using assms by (auto simp: set_acq_registers_def Let_def split: pyval.splits)

section \<open>Channel masks\<close>

lemma bit_channel_mask_acc:
  "bit (fold (\<lambda>ch m. m OR push_bit (nat ch) 1) cs acc) n \<longleftrightarrow> bit acc n \<or> n \<in> nat ` set cs" for acc :: int
  by (induction cs arbitrary: acc) (auto simp: bit_simps)

lemma bit_channel_mask: "bit (channel_mask cs) n \<longleftrightarrow> n \<in> nat ` set cs"
  unfolding channel_mask_def bit_channel_mask_acc by simp

lemma channel_mask_storable:
  assumes "\<forall>c \<in> set cs. 0 \<le> c \<and> c < num_channels"
  shows "storable (channel_mask cs)"
proof -
  have "take_bit 32 (channel_mask cs) = channel_mask cs"
    using assms by (auto simp: bit_eq_iff bit_simps bit_channel_mask num_channels_def)
  then have "0 \<le> channel_mask cs \<and> channel_mask cs < 2 ^ 32"
    by (metis take_bit_int_less_exp take_bit_nonnegative)
  then show ?thesis by (simp add: storable_def)
qed

lemma select_range:
  assumes "select_channels chs = Inr (Inr (cs, m))"
  shows "m = channel_mask cs" and "cs \<noteq> []" and "\<forall>c \<in> set cs. 0 \<le> c \<and> c < num_channels"
  using assms user_check.in_range[of chs num_channels cs]
  by (auto simp: select_channels_def find_None_iff checkChannelsBoundary_def not_le not_less
      split: sum.splits list.splits option.splits)

lemma clear_storable: "storable v \<Longrightarrow> storable (v AND NOT m)"
proof -
  assume "storable v"
  then have t: "take_bit 32 v = v" by (simp add: storable_def take_bit_int_eq_self)
  have "take_bit 32 (v AND NOT m) = v AND NOT m"
    by (metis t take_bit_and bit_and_iff bit_eq_iff bit_take_bit_iff)
  then have "0 \<le> v AND NOT m \<and> v AND NOT m < 2 ^ 32"
    by (metis take_bit_int_less_exp take_bit_nonnegative)
  then show ?thesis by (simp add: storable_def)
qed

lemma nat_image: "\<forall>c \<in> set cs. 0 \<le> c \<Longrightarrow> n \<in> nat ` set cs \<longleftrightarrow> int n \<in> set cs"
  by (auto simp: image_iff) (metis nat_int)

lemma selected:
  assumes "channels_definition chs num_channels False False = Inr cs" and "cs \<noteq> []"
  shows "select_channels chs = Inr (Inr (cs, channel_mask cs))" and "storable (channel_mask cs)"
    and "\<And>n. bit (channel_mask cs) n \<longleftrightarrow> int n \<in> set cs"
proof -
  have r: "\<forall>c \<in> set cs. 0 \<le> c \<and> c < num_channels"
    using user_check.in_range[OF assms(1)] by auto
  then have "find (\<lambda>ch. \<not> checkChannelsBoundary ch) cs = None"
    by (auto simp: find_None_iff checkChannelsBoundary_def)
  with assms show "select_channels chs = Inr (Inr (cs, channel_mask cs))"
    by (cases cs) (auto simp: select_channels_def)
  show "storable (channel_mask cs)" using r by (rule channel_mask_storable)
  show "bit (channel_mask cs) n \<longleftrightarrow> int n \<in> set cs" for n
    using r by (simp add: bit_channel_mask nat_image)
qed

lemma small_in_bounds:
  "checkRegBoundary 0" "checkRegBoundary 1" "checkRegBoundary 17" "checkRegBoundary 39"
  by (simp_all add: checkRegBoundary_def max_regs_def)

section \<open>Properties\<close>

text \<open>
  A register is a 32-bit cell: a write succeeds exactly when the board is mapped, the
  register is one of 0..50 and the value fits in 32 bits; then that register reads back the value,
  through its four bytes, and every other register is unchanged; a failed write changes nothing.
\<close>

theorem register_reads_back:
  "case write_reg a v b of
     (ok, b') \<Rightarrow> ok = (mapped b \<and> 0 \<le> a \<and> a \<le> 50 \<and> 0 \<le> v \<and> v < 2 ^ 32) \<and>
       (\<forall>c. read c b' = (if ok \<and> c = a then Some v else read c b)) \<and> (ok \<or> b' = b)"
proof -
  obtain ok b' where w: "write_reg a v b = (ok, b')" by force
  show ?thesis
    using write_reg_cases[OF w] by (auto simp: w checkRegBoundary_def max_regs_def storable_def)
qed

text \<open>
  Whatever configuration it is given, \<open>set_acq_registers\<close> writes only acquisition
  registers, each at most once and in the fixed order 16, 18, 31, 39, 19, 15; the registers it wrote
  hold the values written and no other register changes.
\<close>

theorem acq_writes_only_its_registers_in_order:
  "case set_acq_registers cfg b of
     (res, b') \<Rightarrow> \<exists>ws. writes b' = writes b @ ws \<and>
       subseq (map fst ws) [16, 18, 31, 39, 19, 15] \<and>
       (\<forall>c. read c b' = (case map_of ws c of Some v \<Rightarrow> Some v | None \<Rightarrow> read c b))"
proof -
  obtain res b' where r: "set_acq_registers cfg b = (res, b')" by force
  show ?thesis
  proof (cases "b' = b")
    case True
    then show ?thesis by (simp add: r)
  next
    case False
    obtain raw reg15 where a: "apply_acq_registers raw reg15 b = (res, b')"
      using set_acq_cases[OF r False] .
    obtain norm failed res1 b1 where
      nok: "norm_ok norm" and m1: "mapped b1 = mapped b" and
      w1: "writes b1 = writes b @ (if mapped b then planned_writes norm ACQ_REGISTER_WRITE_ORDER else [])" and
      r1: "\<forall>c. read c b1 = (if mapped b \<and> c \<in> set ACQ_REGISTER_WRITE_ORDER \<and> dict_get norm c \<noteq> None
           then dict_get norm c else read c b)" and
      last: "reg15 = None \<and> b' = b1 \<or> (\<exists>c r. reg15 = Some c \<and> configure_reg15 c (res1, b1) = (r, b') \<and>
           failed_registers res = failed_registers r)"
      using apply_acq_steps[OF a] .
    define ws where "ws = (if mapped b then planned_writes norm ACQ_REGISTER_WRITE_ORDER else [])"
    have ord: "subseq (map fst ws) [16, 18, 31, 39, 19]"
      using planned_subseq[of norm ACQ_REGISTER_WRITE_ORDER]
      by (auto simp: ws_def ACQ_REGISTER_WRITE_ORDER_def)
    have get: "map_of ws c = (if mapped b \<and> c \<in> set ACQ_REGISTER_WRITE_ORDER then dict_get norm c else None)" for c
      by (auto simp: ws_def planned_writes_def ACQ_REGISTER_WRITE_ORDER_def map_add_def split: option.splits)
    have r1': "read c b1 = (case map_of ws c of Some v \<Rightarrow> Some v | None \<Rightarrow> read c b)" for c
      using r1 by (auto simp: get split: option.splits)
    have sub5: "subseq (map fst ws) [16, 18, 31, 39, 19, 15]"
      using subseq_order.trans[OF ord, of "[16, 18, 31, 39, 19, 15]"] by simp
    have same: ?thesis if "b' = b1"
      unfolding r using that w1 r1' sub5 by (auto simp: ws_def[symmetric] intro!: exI[of _ ws])
    from last show ?thesis
    proof (elim disjE exE conjE)
      fix c r' assume "configure_reg15 c (res1, b1) = (r', b')"
      from configure_reg15_cases(2)[OF this] show ?thesis
      proof (elim disjE exE conjE)
        fix p mi vi
        assume w2: "writes b' = writes b1 @ [(15, merge_reg15 p mi vi)]"
          and r2: "\<forall>c. read c b' = (if c = 15 then Some (merge_reg15 p mi vi) else read c b1)"
        let ?ws = "ws @ [(15, merge_reg15 p mi vi)]"
        have no15: "map_of ws 15 = None" by (simp add: get ACQ_REGISTER_WRITE_ORDER_def)
        have "subseq (map fst ?ws) ([16, 18, 31, 39, 19] @ [15])"
          using ord by (simp add: list_emb_append_mono del: append_Cons append_Nil)
        moreover have "\<forall>c. read c b' = (case map_of ?ws c of Some v \<Rightarrow> Some v | None \<Rightarrow> read c b)"
          using r2 r1' no15 by (auto simp: map_add_def split: option.splits)
        ultimately show ?thesis
          unfolding r using w1 w2 by (auto simp: ws_def[symmetric] intro!: exI[of _ ?ws])
      qed (rule same)
    qed (rule same)
  qed
qed

lemma allowed_bits: "bit TRIGGER_REG15_ALLOWED_MASK n \<longleftrightarrow> n \<in> {1, 4, 7, 8}"
  unfolding TRIGGER_REG15_ALLOWED_MASK_def bit_or_iff bit_push_bit_iff bit_1_iff by auto

lemma and_not_0: "m AND NOT k = 0 \<Longrightarrow> bit m n \<Longrightarrow> bit k n" for m k :: int
  by (metis bit_and_iff bit_not_iff bit_0_eq bot_apply bot_bool_def possible_bit_int)

lemma read_bit_32: "read a b = Some p \<Longrightarrow> bit p n \<Longrightarrow> n < 32"
proof (rule ccontr)
  assume r: "read a b = Some p" and n: "bit p n" "\<not> n < 32"
  from read_range[OF r] have "take_bit 32 p = p" by (simp add: take_bit_int_eq_self)
  with n show False by (metis bit_take_bit_iff)
qed

lemma apply_acq_reg15:
  assumes a: "apply_acq_registers raw reg15 b = (res, b')" and p: "read 15 b = Some p"
  shows "\<exists>q. read 15 b' = Some q \<and> (\<forall>n. n \<notin> {1, 4, 7, 8} \<longrightarrow> bit q n = bit p n) \<and>
      (\<forall>c m v. reg15 = Some c \<and> failed_registers res = [] \<and> dict_get c ''mask'' = Some (PInt m) \<and>
         dict_get c ''value'' = Some (PInt v) \<longrightarrow> (\<forall>n. bit q n = (if bit m n then bit v n else bit p n)))"
proof -
  obtain norm failed res1 b1 where
    r1: "\<forall>c. read c b1 = (if mapped b \<and> c \<in> set ACQ_REGISTER_WRITE_ORDER \<and> dict_get norm c \<noteq> None
         then dict_get norm c else read c b)" and
    last: "reg15 = None \<and> b' = b1 \<or> (\<exists>c r. reg15 = Some c \<and> configure_reg15 c (res1, b1) = (r, b') \<and>
         failed_registers res = failed_registers r)"
    using apply_acq_steps[OF a] .
  have p1: "read 15 b1 = Some p" using r1 p by (simp add: ACQ_REGISTER_WRITE_ORDER_def)
  from last show ?thesis
  proof (elim disjE exE conjE)
    fix c r assume c: "reg15 = Some c" and "configure_reg15 c (res1, b1) = (r, b')"
      and f: "failed_registers res = failed_registers r"
    from configure_reg15_cases(2)[OF this(2)] show ?thesis
    proof (elim disjE exE conjE)
      assume "b' = b1" and "failed_registers r \<noteq> []"
      with p1 f show ?thesis by simp
    next
      fix p' mi vi
      assume given: "map_option int_like (dict_get c ''mask'') = Some (Some mi)"
        "map_option int_like (dict_get c ''value'') = Some (Some vi)"
        and sub: "mi AND NOT TRIGGER_REG15_ALLOWED_MASK = 0"
        and p': "read 15 b1 = Some p'"
        and r2: "\<forall>c. read c b' = (if c = 15 then Some (merge_reg15 p' mi vi) else read c b1)"
      have bits: "bit (merge_reg15 p mi vi) n = (if bit mi n then bit vi n else bit p n)" for n
        using read_bit_32[OF p1] by (auto simp: merge_bits)
      have "read 15 b' = Some (merge_reg15 p mi vi)" using r2 p1 p' by simp
      moreover have "\<forall>n. n \<notin> {1, 4, 7, 8} \<longrightarrow> bit (merge_reg15 p mi vi) n = bit p n"
        using and_not_0[OF sub] by (auto simp: bits allowed_bits)
      moreover have "\<forall>c' m v. reg15 = Some c' \<and> failed_registers res = [] \<and>
          dict_get c' ''mask'' = Some (PInt m) \<and> dict_get c' ''value'' = Some (PInt v) \<longrightarrow>
          (\<forall>n. bit (merge_reg15 p mi vi) n = (if bit m n then bit v n else bit p n))"
        using given by (auto simp: c bits)
      ultimately show ?thesis by blast
    qed
  qed (use p1 in simp)
qed


definition demo_board :: rc_board where
  "demo_board = \<lparr>mapped = True, mem = (\<lambda>i. 255), writes = []\<rparr>"

definition demo_reg15 :: pyval where
  "demo_reg15 = PDict [(''reg15'', PDict [(''mask'', PInt 0x92), (''value'', PInt 0x10)])]"


text \<open>
  Resetting channels on a mapped board succeeds for every accepted selection, reports
  exactly the selected channels, clears their bits in registers 0 and 1 (in that order), keeps the
  bits of every other channel and changes no other register.
\<close>

theorem reset_clears_selected_channels:
  assumes "channels_definition chs num_channels False False = Inr cs" and "cs \<noteq> []" and "mapped b"
  shows "\<exists>res b' p0 p1 q0 q1. reset chs b = (Inr res, b') \<and> cr_success res \<and> cr_done res = cs \<and>
    writes b' = writes b @ [(0, q0), (1, q1)] \<and>
    read 0 b = Some p0 \<and> read 1 b = Some p1 \<and> read 0 b' = Some q0 \<and> read 1 b' = Some q1 \<and>
    (\<forall>n. bit q0 n = (bit p0 n \<and> int n \<notin> set cs) \<and> bit q1 n = (bit p1 n \<and> int n \<notin> set cs)) \<and>
    (\<forall>c. c \<in> {0, 1} \<or> read c b' = read c b)"
proof -
  note sel = selected[OF assms(1,2)]
  obtain p0 p1 where p: "read 0 b = Some p0" "read 1 b = Some p1"
    using assms(3) small_in_bounds by (auto simp: read_def)
  let ?m = "channel_mask cs"
  let ?ws = "[(0, p0 AND NOT ?m), (1, p1 AND NOT ?m)]"
  have "\<forall>(a, v) \<in> set ?ws. checkRegBoundary a \<and> storable v"
    using read_range[OF p(1)] read_range[OF p(2)] small_in_bounds
    by (auto simp: storable_def intro!: clear_storable[unfolded storable_def])
  from write_all_cases[OF assms(3) this] obtain b' where
    w: "write_all ?ws b = (True, b')" "writes b' = writes b @ ?ws"
    and r: "\<forall>c. read c b' = (case map_of (rev ?ws) c of Some v \<Rightarrow> Some v | None \<Rightarrow> read c b)" by blast
  have "reset chs b = (Inr (channels_done True cs ?m), b')"
    using w by (simp add: reset_def sel(1) p)
  then show ?thesis
    using w r p sel(3)
    by (intro exI[of _ "channels_done True cs ?m"] exI[of _ b'] exI[of _ p0] exI[of _ p1]
        exI[of _ "p0 AND NOT ?m"] exI[of _ "p1 AND NOT ?m"])
       (auto simp: channels_done_def bit_and_iff bit_not_iff)
qed

theorem reset_clears_selected_channels_witness:
  "\<exists>res b'. reset (ArgList [2, 5]) demo_board = (Inr res, b') \<and> cr_done res = [2, 5]"
proof -
  have "channels_definition (ArgList [2, 5]) num_channels False False = Inr [2, 5]" by code_simp
  moreover have "mapped demo_board" by (simp add: demo_board_def)
  ultimately show ?thesis using reset_clears_selected_channels[of "ArgList [2, 5]" "[2, 5]"] by blast
qed

text \<open>
  Booting or starting channels on a mapped board leaves exactly the selected channels
  active: boot writes their mask to registers 17, 0 and 1, start to registers 1, 0 and 39, in these
  orders; the mask has the bits of the selected channels and no other, and no other register changes.
\<close>

theorem boot_and_start_select_exactly:
  assumes "channels_definition chs num_channels False False = Inr cs" and "cs \<noteq> []" and "mapped b"
  shows "\<exists>m. (\<forall>n. bit m n = (int n \<in> set cs)) \<and>
    (\<exists>b'. boot chs b = (Inr (channels_done True cs m), b') \<and> writes b' = writes b @ [(17, m), (0, m), (1, m)] \<and>
       (\<forall>c. read c b' = (if c \<in> {0, 1, 17} then Some m else read c b))) \<and>
    (\<exists>b'. start chs b = (Inr (channels_done True cs m), b') \<and> writes b' = writes b @ [(1, m), (0, m), (39, m)] \<and>
       (\<forall>c. read c b' = (if c \<in> {0, 1, 39} then Some m else read c b)))"
proof -
  note sel = selected[OF assms(1,2)]
  let ?m = "channel_mask cs"
  have b: "\<exists>b'. boot chs b = (Inr (channels_done True cs ?m), b') \<and>
      writes b' = writes b @ [(17, ?m), (0, ?m), (1, ?m)] \<and>
      (\<forall>c. read c b' = (if c \<in> {0, 1, 17} then Some ?m else read c b))"
    using write_all_cases[OF assms(3), of "[(17, ?m), (0, ?m), (1, ?m)]"] sel(2) small_in_bounds
    by (auto simp: boot_def sel(1))
  have s: "\<exists>b'. start chs b = (Inr (channels_done True cs ?m), b') \<and>
      writes b' = writes b @ [(1, ?m), (0, ?m), (39, ?m)] \<and>
      (\<forall>c. read c b' = (if c \<in> {0, 1, 39} then Some ?m else read c b))"
    using write_all_cases[OF assms(3), of "[(1, ?m), (0, ?m), (39, ?m)]"] sel(2) small_in_bounds
    by (auto simp: start_def sel(1))
  show ?thesis using b s sel(3) by blast
qed

theorem boot_and_start_select_exactly_witness:
  "\<exists>m b'. start (ArgStr ''0,3'') demo_board = (Inr (channels_done True [0, 3] m), b') \<and>
     (\<forall>n. bit m n = (int n \<in> set [0, 3]))"
proof -
  have "channels_definition (ArgStr ''0,3'') num_channels False False = Inr [0, 3]" by code_simp
  moreover have "mapped demo_board" by (simp add: demo_board_def)
  ultimately show ?thesis using boot_and_start_select_exactly[of "ArgStr ''0,3''" "[0, 3]"] by blast
qed

end
