(* ===== verification/RcServiceProps.thy ===== *)
theory RcServiceProps
  imports RcService RunControlProps
begin

text \<open>
  Properties of the run control service: every request is answered exactly once and by priority,
  expired requests never reach the board, and configuration events are exactly the changes that
  register writes made.
\<close>

section \<open>Runs\<close>

datatype rc_call =
    Submit RCRequest int int int
  | Work int

fun run_rc_call :: "rc_call \<Rightarrow> rc_service \<Rightarrow> rc_service" where
  "run_rc_call (Submit rq prio timeout now) s = submit_request rq prio timeout now s"
| "run_rc_call (Work now) s = worker_step now s"

definition entry_no :: "RCRequest entry \<Rightarrow> nat" where
  "entry_no e = fst (snd e)"

definition rc_ok :: "rc_service \<Rightarrow> bool" where
  "rc_ok s \<longleftrightarrow> pq_ok (input_queue s) \<and>
    mset (map entry_no (input_queue s)) + mset (map fst (sv_responses s)) = mset [0..<counter s]"

lemma execute_keeps [simp]:
  "input_queue (snd (execute_response rq s)) = input_queue s"
  "counter (snd (execute_response rq s)) = counter s"
  "sv_responses (snd (execute_response rq s)) = sv_responses s"
  by (auto simp: execute_response_def notify_configuration_change_def Let_def
      split: option.splits sum.splits prod.splits)

lemma worker_empty: "input_queue s = [] \<Longrightarrow> worker_step now s = s"
  by (simp add: worker_step_def pq_get_def)

lemma worker_takes:
  assumes "input_queue s = e # q"
  shows "input_queue (worker_step now s) = q" and "counter (worker_step now s) = counter s"
    and "map fst (sv_responses (worker_step now s)) = map fst (sv_responses s) @ [entry_no e]"
  using assms by (cases e; auto simp: worker_step_def pq_get_def entry_no_def Let_def case_prod_beta)+

lemma rc_ok_call: "rc_ok s \<Longrightarrow> rc_ok (run_rc_call c s)"
proof (cases c)
  case (Submit rq prio timeout now)
  assume "rc_ok s"
  then show ?thesis
    using Submit wq.ok_put by (auto simp: rc_ok_def submit_request_def Let_def pq_put_def entry_no_def)
next
  case (Work now)
  assume ok: "rc_ok s"
  show ?thesis
  proof (cases "input_queue s")
    case Nil
    with ok Work show ?thesis by (simp add: worker_empty)
  next
    case (Cons e q)
    with ok have "pq_ok q" by (simp add: rc_ok_def pq_ok_def)
    with ok Work worker_takes[OF Cons, of now] Cons show ?thesis by (simp add: rc_ok_def)
  qed
qed

interpretation rcs: kept_invariant "\<lambda>s. \<exists>b cb. s = init_rc_service b cb" run_rc_call rc_ok
proof unfold_locales
  show "\<exists>b cb. s = init_rc_service b cb \<Longrightarrow> rc_ok s" for s
    by (auto simp: rc_ok_def init_rc_service_def pq_ok_def)
qed (rule rc_ok_call)

lemma workers_serve:
  "\<exists>es. map fst (sv_responses (fold worker_step ts s)) = map fst (sv_responses s) @ map entry_no es \<and>
     input_queue s = es @ input_queue (fold worker_step ts s) \<and>
     length es = min (length ts) (length (input_queue s))"
proof (induction ts arbitrary: s)
  case (Cons t ts)
  show ?case
  proof (cases "input_queue s")
    case Nil
    then show ?thesis using Cons.IH[of s] by (simp add: worker_empty)
  next
    case (Cons e q)
    obtain es where "map fst (sv_responses (fold worker_step ts (worker_step t s))) =
        map fst (sv_responses (worker_step t s)) @ map entry_no es"
      "input_queue (worker_step t s) = es @ input_queue (fold worker_step ts (worker_step t s))"
      "length es = min (length ts) (length (input_queue (worker_step t s)))"
      using Cons.IH by blast
    then show ?thesis using worker_takes[OF Cons, of t] Cons by (auto intro!: exI[of _ "e # es"])
  qed
qed simp

section \<open>Properties\<close>

text \<open>
  Claim C15. Whatever requests were submitted and served before, no request is ever answered twice,
  and once the worker has taken as many turns as there are requests in the queue, every request
  submitted so far has been answered exactly once.
\<close>

theorem every_request_answered_once:
  assumes "s = fold run_rc_call calls (init_rc_service b cb)"
    and "length (input_queue s) \<le> length ts"
  shows "distinct (map fst (sv_responses s)) \<and>
    mset (map fst (sv_responses (fold worker_step ts s))) = mset [0..<counter s]"
proof -
  have ok: "rc_ok s" unfolding assms(1) by (rule rcs.inv_run) blast
  obtain es where es: "map fst (sv_responses (fold worker_step ts s)) = map fst (sv_responses s) @ map entry_no es"
    "input_queue s = es @ input_queue (fold worker_step ts s)"
    "length es = min (length ts) (length (input_queue s))" using workers_serve by blast
  have "length es = length (input_queue s)" using es(3) assms(2) by simp
  then have "input_queue (fold worker_step ts s) = []" using arg_cong[OF es(2), of length] by simp
  then have "es = input_queue s" using es(2) by simp
  with es(1) ok have all: "mset (map fst (sv_responses (fold worker_step ts s))) = mset [0..<counter s]"
    by (simp add: rc_ok_def add.commute)
  have "distinct (map entry_no (input_queue s) @ map fst (sv_responses s))"
    using ok mset_eq_imp_distinct_iff[of "map entry_no (input_queue s) @ map fst (sv_responses s)" "[0..<counter s]"]
    by (simp add: rc_ok_def)
  with all show ?thesis by simp
qed

definition demo_request :: "string \<Rightarrow> RCRequest" where
  "demo_request i = \<lparr>rq_id = i, rq_command = ''rc_write_register'',
     rq_payload = [(''address'', PInt 39), (''value'', PInt 5)], rq_sender = None, rq_deadline = None\<rparr>"

theorem every_request_answered_once_witness:
  "mset (map fst (sv_responses (fold worker_step [1, 99]
     (fold run_rc_call [Submit (demo_request ''a'') 3 10 0, Submit (demo_request ''b'') 1 10 0]
       (init_rc_service demo_board True))))) = mset [0, 1]"
proof -
  let ?s = "fold run_rc_call [Submit (demo_request ''a'') 3 10 0, Submit (demo_request ''b'') 1 10 0]
       (init_rc_service demo_board True)"
  have "length (input_queue ?s) \<le> length [1 :: int, 99]"
    by (simp add: submit_request_def init_rc_service_def pq_put_def Let_def)
  moreover have "counter ?s = 2" by (simp add: submit_request_def init_rc_service_def)
  moreover have "[0..<2] = [0, 1 :: nat]" by (simp add: upt_rec)
  ultimately show ?thesis using every_request_answered_once[OF refl, of _ demo_board True "[1, 99]"] by metis
qed





section \<open>Configuration events\<close>

lemma read_configuration: "read_configuration_register a b = read a b"
  by (auto simp: read_configuration_register_def command_read_register_def payload_get_def get_or_def
      addr_of_def auto_int_def read_register_def make_response_def ok_response_def error_response_def
      split: option.splits)

lemma write_handler: "dict_get COMMAND_HANDLERS ''rc_write_register'' = Some command_write_register"
  by (simp add: COMMAND_HANDLERS_def)

text \<open>What an executed write did.\<close>

lemma write_command_cases:
  assumes "command_write_register rq b = (out, b')"
  shows "(\<exists>a v rsp. int_like (payload_get rq ''address'') = Some a \<and> int_like (payload_get rq ''value'') = Some v \<and>
      out = Inr rsp \<and> rs_status rsp = OK \<and> (\<forall>c. read c b' = (if c = a then Some v else read c b))) \<or>
    (b' = b \<and> (\<forall>rsp. out = Inr rsp \<longrightarrow> rs_status rsp \<noteq> OK))"
proof -
  let ?a = "payload_get rq ''address''" and ?v = "payload_get rq ''value''"
  show ?thesis
  proof (cases "\<exists>a v. int_like ?a = Some a \<and> int_like ?v = Some v")
    case True
    then obtain a v where av: "int_like ?a = Some a" "int_like ?v = Some v" by blast
    then have addr: "addr_of ?a = Inr a" and ne: "?a \<noteq> PNone" "?v \<noteq> PNone"
      by (auto simp: addr_of_def auto_int_def split: pyval.splits)
    obtain ok b1 where w: "write_reg a v b = (ok, b1)" by force
    with av addr ne assms write_reg_cases[OF w] show ?thesis
      by (cases ok) (auto simp: command_write_register_def Let_def write_payload_def make_response_def
          ok_response_def error_response_def)
  next
    case False
    with assms show ?thesis
      by (auto simp: command_write_register_def Let_def write_payload_def make_response_def
          error_response_def split: if_splits sum.splits option.splits)
  qed
qed

lemma execute_write:
  assumes "rq_command rq = ''rc_write_register''" and "execute_response rq s = (rsp, s')"
    and o: "command_write_register rq (sv_board s) = (out, b')"
  shows "sv_board s' = b'" and "out = Inr r \<Longrightarrow> rsp = r"
    and "sv_events s' = sv_events s @
      (case (int_like (payload_get rq ''address''), int_like (payload_get rq ''value'')) of
         (Some a, Some v) \<Rightarrow>
           if sv_has_callback s \<and> a \<in> {31, 39} \<and> (\<exists>r. out = Inr r \<and> rs_status r = OK) \<and>
              read a (sv_board s) \<noteq> Some v
           then [\<lparr>ce_register = a, ce_old = read a (sv_board s), ce_new = v, ce_reason = rq_sender rq,
                  ce_request = rq_id rq\<rparr>] else []
       | _ \<Rightarrow> [])"
  using assms
  by (auto simp: execute_response_def write_handler Let_def is_tracked_write_def
      notify_configuration_change_def read_configuration TRACKED_CONFIGURATION_REGISTERS_def
      split: option.splits sum.splits if_splits)

text \<open>
  The configuration events are exactly the changes that register writes make: executing a
  request appends at most one event; an event names register 31 or 39 with the value the board had
  before and the one it has after a successful write, which differ; and when a register write changes
  one of these registers while a callback is set, the event is there.
\<close>

theorem config_events_are_the_changes:
  assumes "execute_response rq s = (rsp, s')"
  shows "(sv_events s' = sv_events s \<or>
     (\<exists>ev. sv_events s' = sv_events s @ [ev] \<and> ce_register ev \<in> {31, 39} \<and>
        ce_old ev = read (ce_register ev) (sv_board s) \<and>
        read (ce_register ev) (sv_board s') = Some (ce_new ev) \<and>
        ce_old ev \<noteq> Some (ce_new ev) \<and> rs_status rsp = OK)) \<and>
    (rq_command rq = ''rc_write_register'' \<and> sv_has_callback s \<and> r \<in> {31, 39} \<and>
       read r (sv_board s') \<noteq> read r (sv_board s) \<longrightarrow>
     (\<exists>ev. sv_events s' = sv_events s @ [ev] \<and> ce_register ev = r))"
proof (cases "rq_command rq = ''rc_write_register''")
  case False
  then have "sv_events s' = sv_events s"
    using assms by (auto simp: execute_response_def Let_def is_tracked_write_def
        split: option.splits sum.splits prod.splits)
  with False show ?thesis by simp
next
  case True
  obtain out b' where o': "command_write_register rq (sv_board s) = (out, b')" by force
  note ex = execute_write[OF True assms o']
  have o: "command_write_register rq (sv_board s) = (out, sv_board s')" using o' ex(1) by simp
  from write_command_cases[OF o] show ?thesis
  proof (elim disjE exE conjE)
    fix a v r' assume av: "int_like (payload_get rq ''address'') = Some a"
      "int_like (payload_get rq ''value'') = Some v" and r': "out = Inr r'" "rs_status r' = OK"
      and rd: "\<forall>c. read c (sv_board s') = (if c = a then Some v else read c (sv_board s))"
    show ?thesis
      using ex(3) ex(2)[OF r'(1)] r' rd by (auto simp: av split: if_splits)
  next
    assume "sv_board s' = sv_board s" and "\<forall>rsp. out = Inr rsp \<longrightarrow> rs_status rsp \<noteq> OK"
    with ex(3) show ?thesis by (auto split: option.splits)
  qed
qed

theorem config_events_are_the_changes_witness:
  "\<exists>ev. sv_events (snd (execute_response (demo_request ''a'') (init_rc_service demo_board True))) = [ev]
     \<and> ce_register ev = 39"
proof -
  let ?s = "init_rc_service demo_board True" and ?rq = "demo_request ''a''"
  have e: "execute_response ?rq ?s = (fst (execute_response ?rq ?s), snd (execute_response ?rq ?s))" by simp
  have "read 39 (sv_board (snd (execute_response ?rq ?s))) \<noteq> read 39 (sv_board ?s)" by code_simp
  with config_events_are_the_changes[OF e, of 39] show ?thesis
    by (simp add: demo_request_def init_rc_service_def)
qed

end
