(* ===== verification/HvChannels.thy ===== *)
theory HvChannels
  imports Channels Timeouts
begin

text \<open>
  The high voltage object of a client (\<open>client/hardware/hv/hv_interface.py\<close>, class \<open>HV\<close>): its six
  lists of channels and the operations that move a channel between them. Every operation runs
  under \<open>channels_lock\<close>. The record also holds what \<open>HVModBus\<close> keeps (theory \<open>HvModbus\<close>): the address of
  the opened module, whether the client object still exists, and the history of the calls made
  to the serial line and to the clock, on which the answers of the environment depend.
\<close>

section \<open>State\<close>

datatype bus_call =
    Connected
  | Connect
  | CloseClient
  | ReadRegisters int nat int
  | WriteRegister int int int
  | WriteCoil int bool int
  | WriteRegisters int "int list" int
  | ReadDirect int nat int
  | Now
  | Monotonic
  | Sleep nat

record hv =
  ok_ch :: "int list"
  bad_ch :: "int list"
  on_ch :: "int list"
  off_ch :: "int list"
  fixed_bad :: "int list"
  missing_serial :: "int list"
  ch_addr :: "int option"
  has_client :: bool
  calls :: "bus_call list"

section \<open>Moving a channel\<close>

text \<open>\<open>if x not in xs: xs.append(x)\<close>, and \<open>if x in xs: xs.remove(x)\<close>, which is \<open>remove1\<close>.\<close>

definition add_new :: "'a \<Rightarrow> 'a list \<Rightarrow> 'a list" where
  "add_new x xs = (if x \<in> set xs then xs else xs @ [x])"

definition moveToOk :: "int \<Rightarrow> hv \<Rightarrow> hv" where
  "moveToOk ch s =
    (let off1 = (if ch \<notin> set (off_ch s) \<and> ch \<notin> set (on_ch s) then off_ch s @ [ch] else off_ch s)
     in s\<lparr>bad_ch := sort (remove1 ch (bad_ch s)), ok_ch := sort (add_new ch (ok_ch s)),
          off_ch := sort off1\<rparr>)"

definition moveToBad :: "int \<Rightarrow> hv \<Rightarrow> hv" where
  "moveToBad ch s =
    s\<lparr>ok_ch := sort (remove1 ch (ok_ch s)), bad_ch := sort (add_new ch (bad_ch s)),
      on_ch := sort (remove1 ch (on_ch s)), off_ch := sort (add_new ch (off_ch s))\<rparr>"

definition moveToOn :: "int \<Rightarrow> hv \<Rightarrow> hv" where
  "moveToOn ch s =
    (if ch \<notin> set (ok_ch s) then s
     else s\<lparr>off_ch := sort (remove1 ch (off_ch s)), on_ch := sort (add_new ch (on_ch s))\<rparr>)"

definition moveToOff :: "int \<Rightarrow> hv \<Rightarrow> hv" where
  "moveToOff ch s =
    s\<lparr>on_ch := sort (remove1 ch (on_ch s)), off_ch := sort (add_new ch (off_ch s))\<rparr>"

definition moveToFixedBad :: "int \<Rightarrow> hv \<Rightarrow> hv" where
  "moveToFixedBad ch s =
    s\<lparr>on_ch := sort (remove1 ch (on_ch s)), off_ch := sort (remove1 ch (off_ch s)),
      ok_ch := sort (remove1 ch (ok_ch s)), bad_ch := sort (remove1 ch (bad_ch s)),
      fixed_bad := add_new ch (fixed_bad s)\<rparr>"

definition moveToMissingSerial :: "int \<Rightarrow> hv \<Rightarrow> hv" where
  "moveToMissingSerial ch s =
    s\<lparr>on_ch := sort (remove1 ch (on_ch s)), off_ch := sort (remove1 ch (off_ch s)),
      ok_ch := sort (remove1 ch (ok_ch s)), bad_ch := sort (remove1 ch (bad_ch s)),
      missing_serial := add_new ch (missing_serial s)\<rparr>"

definition removeFromFixedBad :: "int \<Rightarrow> hv \<Rightarrow> hv" where
  "removeFromFixedBad ch s = moveToBad ch (s\<lparr>fixed_bad := remove1 ch (fixed_bad s)\<rparr>)"

definition removeFromMissingSerial :: "int \<Rightarrow> hv \<Rightarrow> hv" where
  "removeFromMissingSerial ch s = moveToBad ch (s\<lparr>missing_serial := remove1 ch (missing_serial s)\<rparr>)"

text \<open>\<open>sorted(set(xs))\<close>.\<close>

definition sorted_set :: "int list \<Rightarrow> int list" where
  "sorted_set xs = sort (remdups xs)"

definition getOkOffChannels :: "hv \<Rightarrow> int list" where
  "getOkOffChannels s = sorted_set (filter (\<lambda>ch. ch \<in> set (off_ch s)) (ok_ch s))"

definition set_fixed_bad_channels :: "pyval \<Rightarrow> hv \<Rightarrow> (py_exn + unit) \<times> hv" where
  "set_fixed_bad_channels chs s =
    (case hv_channels_definition chs 7 of
       Inl e \<Rightarrow> (Inl e, s)
     | Inr new_fixed \<Rightarrow>
         let old_fixed = fixed_bad s;
             removed = sorted_set (filter (\<lambda>ch. ch \<notin> set new_fixed) old_fixed);
             added = sorted_set (filter (\<lambda>ch. ch \<notin> set old_fixed) new_fixed)
         in (Inr (), fold moveToFixedBad added (fold removeFromFixedBad removed s)))"

definition get_channel_lists :: "hv \<Rightarrow> (string, int list) dict" where
  "get_channel_lists s =
    [(''ok_channels'', ok_ch s), (''bad_channels'', bad_ch s), (''on_channels'', on_ch s),
     (''off_channels'', off_ch s), (''missing_serial_channels'', missing_serial s),
     (''fixed_bad_channels'', fixed_bad s)]"

text \<open>The state and power state shown for a channel (\<open>_build_channel_state_lookup\<close>).\<close>

definition channel_state :: "hv \<Rightarrow> int \<Rightarrow> string \<times> string option" where
  "channel_state s ch =
    (if ch \<in> set (fixed_bad s) then (''fixed_bad'', None)
     else if ch \<in> set (missing_serial s) then (''missing_serial'', None)
     else if ch \<in> set (bad_ch s) then (''bad'', None)
     else if ch \<in> set (on_ch s) then (''ok'', Some ''on'')
     else if ch \<in> set (off_ch s) then (''ok'', Some ''off'')
     else (''unknown'', None))"

definition build_channel_state_lookup ::
  "int list \<Rightarrow> hv \<Rightarrow> (int, string \<times> string option) dict" where
  "build_channel_state_lookup chs s =
    fold (\<lambda>ch d. dict_set ch (channel_state s ch) d) chs []"

section \<open>Invariant of the lists\<close>

lemma set_add_new [simp]: "set (add_new x xs) = insert x (set xs)"
  by (auto simp: add_new_def)

lemma distinct_add_new [simp]: "distinct xs \<Longrightarrow> distinct (add_new x xs)"
  by (simp add: add_new_def)

lemma set_sorted_set [simp]: "set (sorted_set xs) = set xs"
  by (simp add: sorted_set_def)

lemma sorted_sorted_set [simp]: "sorted (sorted_set xs)" "distinct (sorted_set xs)"
  by (simp_all add: sorted_set_def)

text \<open>
  The lists hold no channel twice; a channel is not both usable and bad, nor both on and off, and
  only a usable channel is on.
\<close>

definition hv_lists_ok :: "hv \<Rightarrow> bool" where
  "hv_lists_ok s \<longleftrightarrow>
    distinct (ok_ch s) \<and> distinct (bad_ch s) \<and> distinct (on_ch s) \<and> distinct (off_ch s) \<and>
    distinct (fixed_bad s) \<and> distinct (missing_serial s) \<and>
    set (ok_ch s) \<inter> set (bad_ch s) = {} \<and> set (on_ch s) \<inter> set (off_ch s) = {} \<and>
    set (on_ch s) \<subseteq> set (ok_ch s)"

lemma moveToOk_ok [keeps]: "hv_lists_ok s \<Longrightarrow> hv_lists_ok (moveToOk ch s)"
  by (auto simp: hv_lists_ok_def moveToOk_def Let_def)

lemma moveToBad_ok [keeps]: "hv_lists_ok s \<Longrightarrow> hv_lists_ok (moveToBad ch s)"
  by (auto simp: hv_lists_ok_def moveToBad_def)

lemma moveToOn_ok [keeps]: "hv_lists_ok s \<Longrightarrow> hv_lists_ok (moveToOn ch s)"
  by (auto simp: hv_lists_ok_def moveToOn_def)

lemma moveToOff_ok [keeps]: "hv_lists_ok s \<Longrightarrow> hv_lists_ok (moveToOff ch s)"
  by (auto simp: hv_lists_ok_def moveToOff_def)

lemma moveToFixedBad_ok [keeps]: "hv_lists_ok s \<Longrightarrow> hv_lists_ok (moveToFixedBad ch s)"
  by (auto simp: hv_lists_ok_def moveToFixedBad_def)

lemma moveToMissingSerial_ok [keeps]: "hv_lists_ok s \<Longrightarrow> hv_lists_ok (moveToMissingSerial ch s)"
  by (auto simp: hv_lists_ok_def moveToMissingSerial_def)

lemma hv_lists_ok_less [keeps]:
  "hv_lists_ok s \<Longrightarrow> hv_lists_ok (s\<lparr>fixed_bad := remove1 ch (fixed_bad s)\<rparr>)"
  "hv_lists_ok s \<Longrightarrow> hv_lists_ok (s\<lparr>missing_serial := remove1 ch (missing_serial s)\<rparr>)"
  by (simp_all add: hv_lists_ok_def)

lemma removeFromFixedBad_ok [keeps]: "hv_lists_ok s \<Longrightarrow> hv_lists_ok (removeFromFixedBad ch s)"
  by (simp add: removeFromFixedBad_def keeps)

lemma removeFromMissingSerial_ok [keeps]:
  "hv_lists_ok s \<Longrightarrow> hv_lists_ok (removeFromMissingSerial ch s)"
  by (simp add: removeFromMissingSerial_def keeps)

lemma fold_keeps: "(\<And>x s. P s \<Longrightarrow> P (f x s)) \<Longrightarrow> P s \<Longrightarrow> P (fold f xs s)"
  by (induction xs arbitrary: s) auto

lemma set_fixed_bad_channels_ok [keeps]:
  "hv_lists_ok s \<Longrightarrow> hv_lists_ok (snd (set_fixed_bad_channels chs s))"
  using fold_keeps[of hv_lists_ok moveToFixedBad, OF moveToFixedBad_ok]
    fold_keeps[of hv_lists_ok removeFromFixedBad, OF removeFromFixedBad_ok]
  by (simp add: set_fixed_bad_channels_def Let_def split: sum.splits)

section \<open>Where a move puts a channel\<close>

lemma moves_membership [simp]:
  "hv_lists_ok s \<Longrightarrow> set (bad_ch (moveToBad ch s)) = insert ch (set (bad_ch s))"
  "hv_lists_ok s \<Longrightarrow> set (ok_ch (moveToBad ch s)) = set (ok_ch s) - {ch}"
  "hv_lists_ok s \<Longrightarrow> set (on_ch (moveToBad ch s)) = set (on_ch s) - {ch}"
  "hv_lists_ok s \<Longrightarrow> set (off_ch (moveToBad ch s)) = insert ch (set (off_ch s))"
  "hv_lists_ok s \<Longrightarrow> set (on_ch (moveToOff ch s)) = set (on_ch s) - {ch}"
  "hv_lists_ok s \<Longrightarrow> set (off_ch (moveToOff ch s)) = insert ch (set (off_ch s))"
  "hv_lists_ok s \<Longrightarrow> set (ok_ch (moveToOk ch s)) = insert ch (set (ok_ch s))"
  "hv_lists_ok s \<Longrightarrow> set (bad_ch (moveToOk ch s)) = set (bad_ch s) - {ch}"
  "hv_lists_ok s \<Longrightarrow> set (on_ch (moveToOn ch s)) =
     (if ch \<in> set (ok_ch s) then insert ch (set (on_ch s)) else set (on_ch s))"
  "hv_lists_ok s \<Longrightarrow> set (off_ch (moveToOn ch s)) =
     (if ch \<in> set (ok_ch s) then set (off_ch s) - {ch} else set (off_ch s))"
  by (auto simp: hv_lists_ok_def moveToBad_def moveToOff_def moveToOk_def moveToOn_def Let_def)

lemma moves_frame [simp]:
  "ok_ch (moveToOn ch s) = ok_ch s" "bad_ch (moveToOn ch s) = bad_ch s"
  "ok_ch (moveToOff ch s) = ok_ch s" "bad_ch (moveToOff ch s) = bad_ch s"
  "on_ch (moveToOk ch s) = on_ch s"
  "calls (moveToOk ch s) = calls s" "calls (moveToBad ch s) = calls s"
  "calls (moveToOn ch s) = calls s" "calls (moveToOff ch s) = calls s"
  "calls (moveToFixedBad ch s) = calls s" "calls (moveToMissingSerial ch s) = calls s"
  "fixed_bad (moveToOk ch s) = fixed_bad s" "fixed_bad (moveToBad ch s) = fixed_bad s"
  "fixed_bad (moveToOn ch s) = fixed_bad s" "fixed_bad (moveToOff ch s) = fixed_bad s"
  by (simp_all add: moveToOn_def moveToOff_def moveToOk_def moveToBad_def moveToFixedBad_def
      moveToMissingSerial_def Let_def)

end
