(* ===== verification/HvModbus.thy ===== *)
theory HvModbus
  imports HvChannels
begin

text \<open>
  The Modbus layer of the high voltage modules (\<open>client/hardware/hv/hvmodbus.py\<close>, class
  \<open>HVModBus\<close>): reconnection, guarded reads and writes, the register and coil accesses the
  interface uses, and the texts of the status and alarm codes. The Modbus client of the library and the
  clock are an environment whose answers may depend on every call made so far; nothing else
  is assumed of it here. Times and durations are whole milliseconds.
\<close>

section \<open>Environment\<close>

text \<open>
  The answers of the client library to the last call of a history, and the clock:
  \<open>conn\<close> answers \<open>client.connected\<close>, \<open>close()\<close> and \<open>connect()\<close>, \<open>regs\<close> gives the registers read
  (\<open>None\<close>: no response, or an error response), \<open>wrote\<close> whether a write was acknowledged,
  \<open>direct\<close> is the \<open>registers\<close> attribute of the response to a read made without the checks,
  \<open>int32\<close> is \<open>convert_from_registers\<close> for \<open>INT32\<close>; each may raise. \<open>now\<close> and \<open>mono\<close> are
  \<open>time.time()\<close> and \<open>time.monotonic()\<close>.
\<close>

record env =
  conn :: "bus_call list \<Rightarrow> py_exn + bool"
  regs :: "bus_call list \<Rightarrow> py_exn + int list option"
  direct :: "bus_call list \<Rightarrow> py_exn + int list"
  wrote :: "bus_call list \<Rightarrow> py_exn + bool"
  int32 :: "int list \<Rightarrow> py_exn + int"
  now :: "bus_call list \<Rightarrow> int"
  mono :: "bus_call list \<Rightarrow> int"

definition issue :: "bus_call \<Rightarrow> hv \<Rightarrow> hv" where
  "issue c s = s\<lparr>calls := calls s @ [c]\<rparr>"

type_synonym 'a act = "hv \<Rightarrow> (py_exn + 'a) \<times> hv"

definition ret :: "'a \<Rightarrow> 'a act" where
  "ret x s = (Inr x, s)"

definition raise :: "py_exn \<Rightarrow> 'a act" where
  "raise e s = (Inl e, s)"

definition seq :: "'a act \<Rightarrow> ('a \<Rightarrow> 'b act) \<Rightarrow> 'b act" where
  "seq f g s = (case f s of (Inl e, s1) \<Rightarrow> (Inl e, s1) | (Inr x, s1) \<Rightarrow> g x s1)"

text \<open>\<open>try: f except Exception: g\<close>.\<close>

definition attempt :: "'a act \<Rightarrow> 'a act \<Rightarrow> 'a act" where
  "attempt f g s = (case f s of (Inl e, s1) \<Rightarrow> g s1 | (Inr x, s1) \<Rightarrow> (Inr x, s1))"

text \<open>A call of the environment, and the effect of its answer.\<close>

definition ask :: "bus_call \<Rightarrow> (bus_call list \<Rightarrow> py_exn + 'a) \<Rightarrow> 'a act" where
  "ask c answer s = (let s1 = issue c s in (answer (calls s1), s1))"

definition read_clock :: "env \<Rightarrow> hv \<Rightarrow> int \<times> hv" where
  "read_clock e s = (let s1 = issue Now s in (now e (calls s1), s1))"

definition read_monotonic :: "env \<Rightarrow> hv \<Rightarrow> int \<times> hv" where
  "read_monotonic e s = (let s1 = issue Monotonic s in (mono e (calls s1), s1))"

definition sleep :: "nat \<Rightarrow> hv \<Rightarrow> hv" where
  "sleep ms s = issue (Sleep ms) s"

section \<open>Connection\<close>

definition ensure_connected :: "env \<Rightarrow> bool act" where
  "ensure_connected e s =
    (if \<not> has_client s then (Inr False, s)
     else attempt
       (seq (ask Connected (conn e)) (\<lambda>c.
          if c then ret True
          else seq (ask CloseClient (conn e)) (\<lambda>_. ask Connect (conn e))))
       (ret False) s)"

definition guarded :: "env \<Rightarrow> bus_call \<Rightarrow> (bus_call list \<Rightarrow> py_exn + 'a) \<Rightarrow> 'a act" where
  "guarded e c answer =
    seq (ensure_connected e) (\<lambda>ok. if ok then ask c answer else raise ModbusException)"

definition safe_read :: "env \<Rightarrow> int \<Rightarrow> nat \<Rightarrow> int \<Rightarrow> int list act" where
  "safe_read e addr cnt slave =
    seq (guarded e (ReadRegisters addr cnt slave) (regs e))
      (\<lambda>rr. case rr of None \<Rightarrow> raise ModbusException | Some rs \<Rightarrow> ret rs)"

definition safe_write :: "env \<Rightarrow> int \<Rightarrow> int \<Rightarrow> int \<Rightarrow> unit act" where
  "safe_write e addr value slave =
    seq (guarded e (WriteRegister addr value slave) (wrote e))
      (\<lambda>ok. if ok then ret () else raise ModbusException)"

definition safe_write_coil :: "env \<Rightarrow> int \<Rightarrow> bool \<Rightarrow> int \<Rightarrow> unit act" where
  "safe_write_coil e addr value slave =
    seq (guarded e (WriteCoil addr value slave) (wrote e))
      (\<lambda>ok. if ok then ret () else raise ModbusException)"

definition safe_write_multiple :: "env \<Rightarrow> int \<Rightarrow> int list \<Rightarrow> int \<Rightarrow> unit act" where
  "safe_write_multiple e addr values slave =
    seq (guarded e (WriteRegisters addr values slave) (wrote e))
      (\<lambda>ok. if ok then ret () else raise ModbusException)"

definition read_direct :: "env \<Rightarrow> int \<Rightarrow> nat \<Rightarrow> int \<Rightarrow> int list act" where
  "read_direct e addr cnt slave s =
    (if has_client s then ask (ReadDirect addr cnt slave) (direct e) s else (Inl AttributeError, s))"

definition handleInterrupt :: "env \<Rightarrow> unit act" where
  "handleInterrupt e s =
    (if \<not> has_client s then (Inr (), s)
     else attempt
       (seq (ask Connected (conn e)) (\<lambda>c.
          if c then ret () else seq (ask CloseClient (conn e)) (\<lambda>_. ret ())))
       (ret ()) s)"

text \<open>With the client object gone, \<open>self.client.connect()\<close> raises and is caught.\<close>

definition reset_connection :: "env \<Rightarrow> bool act" where
  "reset_connection e s =
    (if \<not> has_client s then (Inr False, s\<lparr>ch_addr := None\<rparr>)
     else attempt
       (seq (ask CloseClient (conn e)) (\<lambda>_ s1.
          ask Connect (conn e) (s1\<lparr>ch_addr := None\<rparr>)))
       (ret False) s)"

definition first_reg :: "int list \<Rightarrow> int act" where
  "first_reg rr = (case rr of [] \<Rightarrow> raise IndexError | r # rs \<Rightarrow> ret r)"

definition open_channel :: "env \<Rightarrow> int \<Rightarrow> bool act" where
  "open_channel e ch =
    seq (handleInterrupt e) (\<lambda>_.
      attempt (seq (safe_read e 0 1 ch) (\<lambda>_ s. (Inr True, s\<lparr>ch_addr := Some ch\<rparr>))) (ret False))"

definition close_bus :: "env \<Rightarrow> hv \<Rightarrow> hv" where
  "close_bus e s =
    (if \<not> has_client s then s
     else case ask CloseClient (conn e) s of
            (Inl x, s1) \<Rightarrow> s1
          | (Inr b, s1) \<Rightarrow> s1\<lparr>has_client := False\<rparr>)"

definition num_modbus_channels :: int where
  "num_modbus_channels = 20"

definition checkAddressBoundary :: "int \<Rightarrow> bool" where
  "checkAddressBoundary ch \<longleftrightarrow> \<not> (ch < 1 \<or> ch > num_modbus_channels)"

definition isConnected :: "hv \<Rightarrow> bool" where
  "isConnected s \<longleftrightarrow> ch_addr s \<noteq> None"

definition checkAddress :: "env \<Rightarrow> int \<Rightarrow> bool act" where
  "checkAddress e ch =
    seq (open_channel e ch) (\<lambda>opened s.
      if opened then (Inr (ch_addr s = Some ch \<and> isConnected s), s)
      else (Inr False, s\<lparr>ch_addr := None\<rparr>))"

section \<open>Registers and coils\<close>

definition statusString :: "int \<Rightarrow> string" where
  "statusString code =
    (case dict_get [(0, ''UP''), (1, ''DOWN''), (2, ''RUP''), (3, ''RDN''), (4, ''TUP''), (5, ''TDN''),
                    (6, ''TRIP'')] code of
       None \<Rightarrow> ''undef'' | Some t \<Rightarrow> t)"

definition alarmString :: "int \<Rightarrow> string" where
  "alarmString code =
    (if code = 0 then ''none''
     else '' '' @ (if bit code 0 then ''OV '' else []) @ (if bit code 1 then ''UV '' else [])
            @ (if bit code 2 then ''OC '' else []) @ (if bit code 3 then ''OT '' else []))"

definition getStatus :: "env \<Rightarrow> int \<Rightarrow> string act" where
  "getStatus e slave =
    seq (safe_read e 6 1 slave) (\<lambda>rr. seq (first_reg rr) (\<lambda>r. ret (statusString r)))"

definition getAlarm :: "env \<Rightarrow> int \<Rightarrow> string act" where
  "getAlarm e slave =
    seq (safe_read e 0x2E 1 slave) (\<lambda>rr. seq (first_reg rr) (\<lambda>r. ret (alarmString r)))"

definition getVoltageSet :: "env \<Rightarrow> int \<Rightarrow> int act" where
  "getVoltageSet e slave = seq (safe_read e 0x26 1 slave) first_reg"

definition setVoltageSet :: "env \<Rightarrow> int \<Rightarrow> int \<Rightarrow> unit act" where
  "setVoltageSet e value slave = safe_write e 0x26 value slave"

definition getThreshold :: "env \<Rightarrow> int \<Rightarrow> int act" where
  "getThreshold e slave = seq (safe_read e 0x2D 1 slave) first_reg"

definition setThreshold :: "env \<Rightarrow> int \<Rightarrow> int \<Rightarrow> unit act" where
  "setThreshold e value slave = safe_write e 0x2D value slave"

text \<open>The two words of a 32 bit value, low word first on the line.\<close>

definition read_int32 :: "env \<Rightarrow> int \<Rightarrow> int \<Rightarrow> int act" where
  "read_int32 e addr slave = seq (safe_read e addr 2 slave) (\<lambda>rr s. (int32 e (rev rr), s))"

definition getVoltage :: "env \<Rightarrow> int \<Rightarrow> int act" where
  "getVoltage e slave = read_int32 e 0x2A slave"

definition getCurrent :: "env \<Rightarrow> int \<Rightarrow> int act" where
  "getCurrent e slave = read_int32 e 0x28 slave"

definition getTemperature :: "env \<Rightarrow> int \<Rightarrow> int act" where
  "getTemperature e slave = seq (safe_read e 7 1 slave) first_reg"

definition setModbusAddress :: "env \<Rightarrow> int \<Rightarrow> int \<Rightarrow> unit act" where
  "setModbusAddress e addr slave = safe_write e 0 addr slave"

definition powerOn :: "env \<Rightarrow> int \<Rightarrow> unit act" where
  "powerOn e slave = safe_write_coil e 1 True slave"

definition powerOff :: "env \<Rightarrow> int \<Rightarrow> unit act" where
  "powerOff e slave = safe_write_coil e 1 False slave"

definition resetCoil :: "env \<Rightarrow> int \<Rightarrow> unit act" where
  "resetCoil e slave = safe_write_coil e 2 True slave"

fun find_in :: "env \<Rightarrow> int list \<Rightarrow> int option act" where
  "find_in e [] s = (Inr None, s)"
| "find_in e (a # as) s =
    (case attempt (checkAddress e a) (ret False) s of
       (Inl x, s1) \<Rightarrow> (Inl x, s1)
     | (Inr True, s1) \<Rightarrow> (Inr (Some a), s1)
     | (Inr False, s1) \<Rightarrow> find_in e as s1)"

definition find_feb_address :: "env \<Rightarrow> int option \<Rightarrow> int option act" where
  "find_feb_address e preferred =
    find_in e (fromkeys ((case preferred of None \<Rightarrow> [] | Some a \<Rightarrow> [a]) @ [1..num_modbus_channels]))"

section \<open>What a Modbus operation can change\<close>

text \<open>The module a call addresses, and whether the call powers it on.\<close>

fun slave_of :: "bus_call \<Rightarrow> (int \<times> bool) option" where
  "slave_of (ReadRegisters a n ch) = Some (ch, False)"
| "slave_of (WriteRegister a v ch) = Some (ch, False)"
| "slave_of (WriteCoil a v ch) = Some (ch, a = 1 \<and> v)"
| "slave_of (WriteRegisters a vs ch) = Some (ch, False)"
| "slave_of (ReadDirect a n ch) = Some (ch, False)"
| "slave_of c = None"

definition addressed :: "bus_call list \<Rightarrow> (int \<times> bool) set" where
  "addressed cs = {ch. Some ch \<in> slave_of ` set cs}"

text \<open>The modules of \<open>X\<close>, without powering them on.\<close>

definition quiet :: "int set \<Rightarrow> (int \<times> bool) set" where
  "quiet X = X \<times> {False}"

lemma in_quiet [simp]: "(ch, b) \<in> quiet X \<longleftrightarrow> ch \<in> X \<and> \<not> b"
  by (auto simp: quiet_def)

lemma addressed_simps [simp]:
  "addressed [] = {}" "addressed (xs @ ys) = addressed xs \<union> addressed ys"
  "addressed (c # cs) = (case slave_of c of None \<Rightarrow> {} | Some ch \<Rightarrow> {ch}) \<union> addressed cs"
  by (auto simp: addressed_def split: option.splits)

text \<open>Only the opened address changes, and the history grows by calls to modules of \<open>A\<close>.\<close>

definition bus_step :: "(int \<times> bool) set \<Rightarrow> hv \<Rightarrow> hv \<Rightarrow> bool" where
  "bus_step A s s' \<longleftrightarrow>
    (\<exists>m a. s' = s\<lparr>ch_addr := a, calls := calls s @ m\<rparr> \<and> addressed m \<subseteq> A)"

definition bus_only :: "(int \<times> bool) set \<Rightarrow> 'a act \<Rightarrow> bool" where
  "bus_only A f \<longleftrightarrow> (\<forall>s. bus_step A s (snd (f s)))"

named_theorems bus_rules \<open>operations that only use the bus\<close>

lemma bus_stepI:
  "s' = s\<lparr>ch_addr := a, calls := calls s @ m\<rparr> \<Longrightarrow> addressed m \<subseteq> A \<Longrightarrow> bus_step A s s'"
  by (auto simp: bus_step_def)

lemma bus_step_refl [simp]: "bus_step A s s"
  by (rule bus_stepI[where a = "ch_addr s" and m = "[]"]) simp_all

lemma bus_step_trans: "bus_step A s s1 \<Longrightarrow> bus_step A s1 s2 \<Longrightarrow> bus_step A s s2"
  unfolding bus_step_def
proof (elim exE conjE)
  fix m a m' a'
  assume "s1 = s\<lparr>ch_addr := a, calls := calls s @ m\<rparr>" "addressed m \<subseteq> A"
    and "s2 = s1\<lparr>ch_addr := a', calls := calls s1 @ m'\<rparr>" "addressed m' \<subseteq> A"
  then show "\<exists>m a. s2 = s\<lparr>ch_addr := a, calls := calls s @ m\<rparr> \<and> addressed m \<subseteq> A"
    by (intro exI[of _ "m @ m'"] exI[of _ a']) simp
qed

lemma bus_step_mono: "bus_step A s s' \<Longrightarrow> A \<subseteq> B \<Longrightarrow> bus_step B s s'"
  by (auto simp: bus_step_def)

lemma bus_step_addr [simp]: "bus_step A s (s\<lparr>ch_addr := a\<rparr>)"
  by (rule bus_stepI[where a = a and m = "[]"]) simp_all

lemma bus_step_issue [simp]:
  "bus_step A s (issue c s) \<longleftrightarrow> (case slave_of c of None \<Rightarrow> True | Some ch \<Rightarrow> ch \<in> A)"
proof
  assume "bus_step A s (issue c s)"
  then obtain m a where m: "issue c s = s\<lparr>ch_addr := a, calls := calls s @ m\<rparr>" "addressed m \<subseteq> A"
    by (auto simp: bus_step_def)
  then have "calls (issue c s) = calls s @ m" by simp
  then have "m = [c]" by (simp add: issue_def)
  with m(2) show "case slave_of c of None \<Rightarrow> True | Some ch \<Rightarrow> ch \<in> A"
    by (auto split: option.splits)
next
  assume "case slave_of c of None \<Rightarrow> True | Some ch \<Rightarrow> ch \<in> A"
  then show "bus_step A s (issue c s)"
    by (intro bus_stepI[where a = "ch_addr s" and m = "[c]"]) (auto simp: issue_def split: option.splits)
qed

lemma bus_only_basic [bus_rules]: "bus_only A (ret x)" "bus_only A (raise e)"
  by (simp_all add: bus_only_def ret_def raise_def)

lemma bus_only_ask [bus_rules]:
  "(case slave_of c of None \<Rightarrow> True | Some ch \<Rightarrow> ch \<in> A) \<Longrightarrow> bus_only A (ask c ans)"
  by (simp add: bus_only_def ask_def Let_def)

lemma bus_only_seq [bus_rules]:
  assumes f: "bus_only A f" and g: "\<And>x. bus_only A (g x)"
  shows "bus_only A (seq f g)"
  unfolding bus_only_def seq_def
proof
  fix s
  obtain r s1 where r: "f s = (r, s1)" by (cases "f s")
  have "bus_step A s s1" using f r unfolding bus_only_def by (metis snd_conv)
  moreover have "bus_step A s1 (snd (g x s1))" for x using g by (simp add: bus_only_def)
  ultimately show "bus_step A s (snd (case f s of (Inl e, s1) \<Rightarrow> (Inl e, s1) | (Inr x, s1) \<Rightarrow> g x s1))"
    by (auto simp: r intro: bus_step_trans split: sum.split)
qed

lemma bus_only_attempt [bus_rules]:
  assumes f: "bus_only A f" and g: "bus_only A g"
  shows "bus_only A (attempt f g)"
  unfolding bus_only_def attempt_def
proof
  fix s
  obtain r s1 where r: "f s = (r, s1)" by (cases "f s")
  have "bus_step A s s1" using f r unfolding bus_only_def by (metis snd_conv)
  moreover have "bus_step A s1 (snd (g s1))" using g by (simp add: bus_only_def)
  ultimately show "bus_step A s (snd (case f s of (Inl e, s1) \<Rightarrow> g s1 | (Inr x, s1) \<Rightarrow> (Inr x, s1)))"
    by (auto simp: r intro: bus_step_trans split: sum.split)
qed

lemma bus_only_if [bus_rules]:
  "bus_only A f \<Longrightarrow> bus_only A g \<Longrightarrow> bus_only A (if b then f else g)"
  by simp

lemma bus_onlyD: "bus_only A f \<Longrightarrow> f s = (r, s') \<Longrightarrow> bus_step A s s'"
  unfolding bus_only_def by (metis snd_conv)

lemma ensure_connected_bus [bus_rules]: "bus_only A (ensure_connected e)"
proof -
  have "bus_only A (attempt
       (seq (ask Connected (conn e)) (\<lambda>c.
          if c then ret True
          else seq (ask CloseClient (conn e)) (\<lambda>_. ask Connect (conn e))))
       (ret False))"
    by (intro bus_rules) simp_all
  then show ?thesis by (simp add: bus_only_def ensure_connected_def)
qed

lemma guarded_bus [bus_rules]:
  "(case slave_of c of None \<Rightarrow> True | Some ch \<Rightarrow> ch \<in> A) \<Longrightarrow> bus_only A (guarded e c ans)"
  unfolding guarded_def by (intro bus_rules)

lemma safe_bus [bus_rules]:
  "(ch, False) \<in> A \<Longrightarrow> bus_only A (safe_read e a n ch)"
  "(ch, False) \<in> A \<Longrightarrow> bus_only A (safe_write e a v ch)"
  "(ch, a = 1 \<and> b) \<in> A \<Longrightarrow> bus_only A (safe_write_coil e a b ch)"
  "(ch, False) \<in> A \<Longrightarrow> bus_only A (safe_write_multiple e a vs ch)"
  unfolding safe_read_def safe_write_def safe_write_coil_def safe_write_multiple_def
  by (intro bus_rules; simp add: bus_rules split: option.split)+

lemma read_direct_bus [bus_rules]: "(ch, False) \<in> A \<Longrightarrow> bus_only A (read_direct e a n ch)"
  using bus_only_ask[where c = "ReadDirect a n ch" and A = A and ans = "direct e"]
  by (simp add: bus_only_def read_direct_def)

lemma handleInterrupt_bus [bus_rules]: "bus_only A (handleInterrupt e)"
proof -
  have "bus_only A (attempt
       (seq (ask Connected (conn e)) (\<lambda>c.
          if c then ret () else seq (ask CloseClient (conn e)) (\<lambda>_. ret ())))
       (ret ()))"
    by (intro bus_rules) simp_all
  then show ?thesis by (simp add: bus_only_def handleInterrupt_def)
qed

lemma first_reg_bus [bus_rules]: "bus_only A (first_reg rr)"
  by (simp add: first_reg_def bus_rules split: list.split)

lemma open_channel_bus [bus_rules]: "(ch, False) \<in> A \<Longrightarrow> bus_only A (open_channel e ch)"
proof -
  assume ch: "(ch, False) \<in> A"
  have "bus_only A (\<lambda>s. (Inr True, s\<lparr>ch_addr := Some ch\<rparr>))" by (simp add: bus_only_def)
  with ch show ?thesis unfolding open_channel_def by (intro bus_rules) simp_all
qed

lemma checkAddress_bus [bus_rules]: "(ch, False) \<in> A \<Longrightarrow> bus_only A (checkAddress e ch)"
proof -
  assume ch: "(ch, False) \<in> A"
  have "bus_only A (\<lambda>s. if opened then (Inr (ch_addr s = Some ch \<and> isConnected s), s)
      else (Inr False, s\<lparr>ch_addr := None\<rparr>))" for opened
    by (simp add: bus_only_def)
  with ch show ?thesis unfolding checkAddress_def by (intro bus_rules) simp_all
qed

lemma read_int32_bus [bus_rules]: "(ch, False) \<in> A \<Longrightarrow> bus_only A (read_int32 e a ch)"
proof -
  have "bus_only A (\<lambda>s. (int32 e (rev rr), s))" for rr by (simp add: bus_only_def)
  then show "(ch, False) \<in> A \<Longrightarrow> ?thesis" unfolding read_int32_def by (intro bus_rules)
qed

lemma register_ops_bus [bus_rules]:
  assumes "(ch, False) \<in> A"
  shows "bus_only A (getStatus e ch)" "bus_only A (getAlarm e ch)"
    "bus_only A (getVoltageSet e ch)" "bus_only A (setVoltageSet e v ch)"
    "bus_only A (getThreshold e ch)" "bus_only A (setThreshold e v ch)"
    "bus_only A (setModbusAddress e v ch)"
    "bus_only A (getVoltage e ch)" "bus_only A (getCurrent e ch)" "bus_only A (getTemperature e ch)"
    "bus_only A (powerOff e ch)" "bus_only A (resetCoil e ch)"
  using assms
  unfolding getStatus_def getAlarm_def getVoltageSet_def setVoltageSet_def getThreshold_def
    setThreshold_def getVoltage_def getCurrent_def getTemperature_def setModbusAddress_def powerOff_def resetCoil_def
  by (intro bus_rules; simp)+

lemma powerOn_bus [bus_rules]: "(ch, True) \<in> A \<Longrightarrow> bus_only A (powerOn e ch)"
  unfolding powerOn_def by (intro bus_rules) simp

lemma bus_step_lists:
  "bus_step A s s' \<Longrightarrow>
    ok_ch s' = ok_ch s \<and> bad_ch s' = bad_ch s \<and> on_ch s' = on_ch s \<and> off_ch s' = off_ch s \<and>
    fixed_bad s' = fixed_bad s \<and> missing_serial s' = missing_serial s"
  by (auto simp: bus_step_def)

lemma bus_step_ok: "bus_step A s s' \<Longrightarrow> hv_lists_ok s' = hv_lists_ok s"
  by (auto simp: bus_step_def hv_lists_ok_def)

end
