(* ===== verification/HvInterface.thy ===== *)
theory HvInterface
  imports HvModbus
begin

text \<open>
  The operations of the class \<open>HV\<close> (\<open>client/hardware/hv/hv_interface.py\<close>) over the Modbus layer.
  The lists of channels that every result repeats are those of the state an operation returns.
  Voltages and currents are the integers read (thousandths, before the division), temperatures
  the register read. The \<open>while\<close> loops that wait for the end of a ramp run on fuel: \<open>None\<close> is a loop
  that has not ended; \<open>HvProps\<close> shows that the fuel given is enough for every environment whose
  clock advances while the program sleeps.
\<close>

section \<open>Construction\<close>

definition normalize_one :: "env \<Rightarrow> int \<Rightarrow> hv \<Rightarrow> bool \<times> hv" where
  "normalize_one e ch s =
    (if \<not> checkAddressBoundary ch then (False, s)
     else case checkAddress e ch s of (Inl x, s1) \<Rightarrow> (False, s1) | (Inr b, s1) \<Rightarrow> (b, s1))"

fun normalize_each :: "env \<Rightarrow> int list \<Rightarrow> hv \<Rightarrow> (int list \<times> int list) \<times> hv" where
  "normalize_each e [] s = (([], []), s)"
| "normalize_each e (ch # chs) s =
    (let (good, s1) = normalize_one e ch s;
         ((oks, bads), s2) = normalize_each e chs s1
     in if good then ((ch # oks, bads), s2) else ((oks, ch # bads), s2))"

definition checkChannel :: "env \<Rightarrow> pyval \<Rightarrow> (int list \<times> int list) act" where
  "checkChannel e chs s =
    (case hv_channels_definition chs 7 of
       Inl x \<Rightarrow> (Inl x, s)
     | Inr l \<Rightarrow> let (r, s1) = normalize_each e l s in (Inr r, s1))"

definition read_status_alarm :: "env \<Rightarrow> int \<Rightarrow> (string \<times> string) act" where
  "read_status_alarm e ch =
    seq (getStatus e ch) (\<lambda>st. seq (getAlarm e ch) (\<lambda>al. ret (st, al)))"

text \<open>
  \<open>sync_power_state\<close> is only called with the list \<open>self.ok_ch\<close> itself. \<open>moveToBad\<close> removes the
  channel from that list object while the \<open>for\<close> loop iterates over it, so that the loop skips the
  next channel; it then assigns a new list, and later removals no longer reach the iterated one.
  \<open>shared\<close> says whether the iterated list still is \<open>self.ok_ch\<close>.
\<close>

fun sync_power_state :: "env \<Rightarrow> bool \<Rightarrow> int list \<Rightarrow> hv \<Rightarrow> hv" where
  "sync_power_state e shared [] s = s"
| "sync_power_state e shared (ch # rest) s =
    (case read_status_alarm e ch s of
       (Inr (st, al), s1) \<Rightarrow>
         sync_power_state e shared rest
           (if st \<in> {''ON'', ''UP''} then moveToOn ch s1 else moveToOff ch s1)
     | (Inl x, s1) \<Rightarrow>
         sync_power_state e False
           (if shared \<and> ch \<in> set (ok_ch s1) then tl rest else rest) (moveToBad ch s1))"

definition hv_new :: hv where
  "hv_new = \<lparr>ok_ch = [], bad_ch = [], on_ch = [], off_ch = [], fixed_bad = [], missing_serial = [],
     ch_addr = None, has_client = True, calls = []\<rparr>"

definition hv_init :: "env \<Rightarrow> int list \<Rightarrow> (py_exn + unit) \<times> hv" where
  "hv_init e fixed =
    (case ask Connect (conn e) hv_new of
       (Inl x, s1) \<Rightarrow> (Inl x, s1)
     | (Inr b, s1) \<Rightarrow>
         (case checkChannel e (PList (map PInt (filter (\<lambda>ch. ch \<notin> set fixed) [1..7]))) s1 of
            (Inl x, s2) \<Rightarrow> (Inl x, s2)
          | (Inr (oks, bads), s2) \<Rightarrow>
              let s3 = fold moveToFixedBad fixed (s2\<lparr>ok_ch := oks, bad_ch := bads\<rparr>)
              in (Inr (), sync_power_state e True (ok_ch s3) s3)))"

section \<open>One action per channel\<close>

record hv_result =
  requested_channels :: "int list"
  used_channels :: "int list"
  skipped_channels :: "int list"
  successful_channels :: "int list"
  failed_channels :: "int list"

text \<open>
  The loop of most operations: \<open>try\<close> the action; a channel on which it raises is handled by \<open>bad\<close>,
  the others by \<open>good\<close>. The outcomes are the values read, in the order of the channels.
\<close>

type_synonym 'a outcomes = "(int \<times> 'a option) list"

fun try_each ::
  "(int \<Rightarrow> 'a act) \<Rightarrow> (int \<Rightarrow> hv \<Rightarrow> hv) \<Rightarrow> (int \<Rightarrow> hv \<Rightarrow> hv) \<Rightarrow> int list \<Rightarrow> hv
     \<Rightarrow> 'a outcomes \<times> hv" where
  "try_each f good bad [] s = ([], s)"
| "try_each f good bad (ch # chs) s =
    (case f ch s of
       (Inr x, s1) \<Rightarrow> let (outs, s2) = try_each f good bad chs (good ch s1) in ((ch, Some x) # outs, s2)
     | (Inl err, s1) \<Rightarrow> let (outs, s2) = try_each f good bad chs (bad ch s1) in ((ch, None) # outs, s2))"

definition succeeded :: "'a outcomes \<Rightarrow> int list" where
  "succeeded outs = map fst (filter (\<lambda>(ch, v). v \<noteq> None) outs)"

definition raised :: "'a outcomes \<Rightarrow> int list" where
  "raised outs = map fst (filter (\<lambda>(ch, v). v = None) outs)"

definition unchanged :: "int \<Rightarrow> hv \<Rightarrow> hv" where
  "unchanged ch s = s"

definition split_ok :: "int list \<Rightarrow> hv \<Rightarrow> int list \<times> int list" where
  "split_ok l s =
    (filter (\<lambda>ch. ch \<in> set (ok_ch s)) l, filter (\<lambda>ch. ch \<notin> set (ok_ch s)) l)"

definition hv_action ::
  "(int \<Rightarrow> 'a act) \<Rightarrow> (int \<Rightarrow> hv \<Rightarrow> hv) \<Rightarrow> (int \<Rightarrow> hv \<Rightarrow> hv) \<Rightarrow> pyval
     \<Rightarrow> (hv_result \<times> 'a outcomes) act" where
  "hv_action f good bad chs s =
    (case hv_channels_definition chs 7 of
       Inl x \<Rightarrow> (Inl x, s)
     | Inr l \<Rightarrow>
         let (used, skipped) = split_ok l s;
             (outs, s1) = try_each f good bad used s
         in (Inr (\<lparr>requested_channels = l, used_channels = used, skipped_channels = skipped,
               successful_channels = succeeded outs, failed_channels = raised outs\<rparr>, outs), s1))"

definition hv_force_action ::
  "(int \<Rightarrow> 'a act) \<Rightarrow> (int \<Rightarrow> hv \<Rightarrow> hv) \<Rightarrow> (int \<Rightarrow> hv \<Rightarrow> hv) \<Rightarrow> pyval
     \<Rightarrow> (hv_result \<times> 'a outcomes) act" where
  "hv_force_action f good bad chs s =
    (case hv_channels_definition chs 7 of
       Inl x \<Rightarrow> (Inl x, s)
     | Inr l \<Rightarrow>
         let (outs, s1) = try_each f good bad l s
         in (Inr (\<lparr>requested_channels = l, used_channels = l, skipped_channels = [],
               successful_channels = succeeded outs, failed_channels = raised outs\<rparr>, outs), s1))"

text \<open>\<open>try: reset; powerOff except: log\<close>, done wherever a channel has to be left safe.\<close>

definition shut_down :: "env \<Rightarrow> int \<Rightarrow> hv \<Rightarrow> hv" where
  "shut_down e ch s = snd (seq (resetCoil e ch) (\<lambda>_. powerOff e ch) s)"

definition shut_down_bad :: "env \<Rightarrow> int \<Rightarrow> hv \<Rightarrow> hv" where
  "shut_down_bad e ch s = moveToBad ch (shut_down e ch s)"

definition set_common_voltage :: "env \<Rightarrow> pyval \<Rightarrow> int \<Rightarrow> hv_result act" where
  "set_common_voltage e chs v =
    seq (hv_action (setVoltageSet e v) unchanged moveToBad chs) (\<lambda>(r, _). ret r)"

definition set_common_threshold :: "env \<Rightarrow> pyval \<Rightarrow> int \<Rightarrow> hv_result act" where
  "set_common_threshold e chs v =
    seq (hv_action (setThreshold e v) unchanged moveToBad chs) (\<lambda>(r, _). ret r)"

text \<open>The first value read for a channel is kept.\<close>

definition first_values :: "'a outcomes \<Rightarrow> (int, 'a) dict" where
  "first_values outs =
    fold (\<lambda>(ch, v) d. case v of None \<Rightarrow> d
        | Some x \<Rightarrow> if ch \<in> set (dict_keys d) then d else dict_set ch x d) outs []"

definition last_values :: "'a outcomes \<Rightarrow> (int, 'a) dict" where
  "last_values outs =
    fold (\<lambda>(ch, v) d. case v of None \<Rightarrow> d | Some x \<Rightarrow> dict_set ch x d) outs []"

definition get_voltage :: "env \<Rightarrow> pyval \<Rightarrow> (hv_result \<times> (int, int) dict) act" where
  "get_voltage e chs =
    seq (hv_action (getVoltageSet e) unchanged moveToBad chs) (\<lambda>(r, outs). ret (r, first_values outs))"

definition get_threshold :: "env \<Rightarrow> pyval \<Rightarrow> (hv_result \<times> (int, int) dict) act" where
  "get_threshold e chs =
    seq (hv_action (getThreshold e) unchanged moveToBad chs) (\<lambda>(r, outs). ret (r, first_values outs))"

definition get_volt_thr_configuration ::
  "env \<Rightarrow> pyval \<Rightarrow> (hv_result \<times> (int, int \<times> int) dict) act" where
  "get_volt_thr_configuration e chs =
    seq (hv_action (\<lambda>ch. seq (getVoltageSet e ch) (\<lambda>v. seq (getThreshold e ch) (\<lambda>t. ret (v, t))))
          unchanged moveToBad chs) (\<lambda>(r, outs). ret (r, first_values outs))"

definition get_ch_status :: "env \<Rightarrow> pyval \<Rightarrow> (hv_result \<times> (int, string) dict) act" where
  "get_ch_status e chs =
    seq (hv_action (getStatus e) unchanged moveToBad chs) (\<lambda>(r, outs). ret (r, last_values outs))"

definition get_ch_alarm :: "env \<Rightarrow> pyval \<Rightarrow> (hv_result \<times> (int, string) dict) act" where
  "get_ch_alarm e chs =
    seq (hv_action (getAlarm e) unchanged moveToBad chs) (\<lambda>(r, outs). ret (r, last_values outs))"

definition hv_on :: "env \<Rightarrow> pyval \<Rightarrow> hv_result act" where
  "hv_on e chs = seq (hv_action (powerOn e) moveToOn (shut_down_bad e) chs) (\<lambda>(r, _). ret r)"

definition hv_off :: "env \<Rightarrow> pyval \<Rightarrow> hv_result act" where
  "hv_off e chs = seq (hv_action (powerOff e) moveToOff moveToBad chs) (\<lambda>(r, _). ret r)"

definition force_off :: "env \<Rightarrow> pyval \<Rightarrow> hv_result act" where
  "force_off e chs = seq (hv_force_action (powerOff e) moveToOff moveToBad chs) (\<lambda>(r, _). ret r)"

definition hv_reset :: "env \<Rightarrow> pyval \<Rightarrow> hv_result act" where
  "hv_reset e chs = seq (hv_action (resetCoil e) unchanged moveToBad chs) (\<lambda>(r, _). ret r)"

definition force_reset :: "env \<Rightarrow> pyval \<Rightarrow> hv_result act" where
  "force_reset e chs = seq (hv_force_action (resetCoil e) unchanged moveToBad chs) (\<lambda>(r, _). ret r)"

section \<open>Monitoring\<close>

text \<open>
  The entry of a channel: the values read (\<open>None\<close>: the read failed or was not made), and its state
  before the reads.
\<close>

type_synonym 'a mon_entry = "'a option \<times> string \<times> string option"

definition mon_entries :: "hv \<Rightarrow> 'a outcomes \<Rightarrow> (int, 'a mon_entry) dict" where
  "mon_entries s outs = fold (\<lambda>(ch, v) d. dict_set ch (v, channel_state s ch) d) outs []"

definition get_ch_electrical ::
  "env \<Rightarrow> pyval \<Rightarrow> (hv_result \<times> (int, (int \<times> int \<times> int) mon_entry) dict) act" where
  "get_ch_electrical e chs s =
    seq (hv_force_action (\<lambda>ch. seq (getVoltage e ch) (\<lambda>v. seq (getCurrent e ch) (\<lambda>c.
            seq (getTemperature e ch) (\<lambda>t. ret (v, c, t))))) unchanged moveToBad chs)
      (\<lambda>(r, outs). ret (r, mon_entries s outs)) s"

definition get_ch_status_and_alarm ::
  "env \<Rightarrow> pyval \<Rightarrow> (hv_result \<times> (int, (string \<times> string) mon_entry) dict) act" where
  "get_ch_status_and_alarm e chs s =
    seq (hv_force_action (read_status_alarm e) unchanged moveToBad chs)
      (\<lambda>(r, outs). ret (r, mon_entries s outs)) s"

record hv_snapshot =
  snap_requested :: "int list"
  snap_used :: "int list"
  snap_skipped :: "int list"
  electrical_failed :: "int list"
  status_alarm_failed :: "int list"
  electrical :: "(int, (int \<times> int \<times> int) mon_entry) dict"
  status_alarm :: "(int, (string \<times> string) mon_entry) dict"
  channel_lists :: "(string, int list) dict"

definition monitor_snapshot :: "env \<Rightarrow> pyval \<Rightarrow> hv_snapshot act" where
  "monitor_snapshot e chs s =
    (case hv_channels_definition chs 7 of
       Inl x \<Rightarrow> (Inl x, s)
     | Inr l \<Rightarrow>
         let monitored = filter (\<lambda>ch. ch \<notin> set (fixed_bad s)) l;
             skipped = filter (\<lambda>ch. ch \<in> set (fixed_bad s)) l;
             add = (\<lambda>ch d. dict_set ch (None, channel_state s ch) d);
             add' = (\<lambda>ch d. dict_set ch (None, channel_state s ch) d)
         in seq (get_ch_electrical e (PList (map PInt monitored))) (\<lambda>(r, el).
            seq (get_ch_status_and_alarm e (PList (map PInt monitored))) (\<lambda>(r', sa) s1.
              (Inr \<lparr>snap_requested = l, snap_used = monitored, snap_skipped = skipped,
                 electrical_failed = failed_channels r, status_alarm_failed = failed_channels r',
                 electrical = fold add skipped el, status_alarm = fold add' skipped sa,
                 channel_lists = get_channel_lists s1\<rparr>, s1))) s)"

section \<open>Waiting for ramps\<close>

record wait =
  w_pending :: "int list"
  w_done :: "int list"
  w_failed :: "int list"
  w_hv :: hv

text \<open>\<open>while pending and time.time() < deadline: for ch in list(pending): ...; if pending: sleep\<close>.\<close>

fun poll_loop ::
  "nat \<Rightarrow> env \<Rightarrow> int \<Rightarrow> nat \<Rightarrow> (int \<Rightarrow> wait \<Rightarrow> wait) \<Rightarrow> wait \<Rightarrow> wait option" where
  "poll_loop 0 e deadline poll body w = None"
| "poll_loop (Suc n) e deadline poll body w =
    (if w_pending w = [] then Some w
     else let (t, s1) = read_clock e (w_hv w); w1 = w\<lparr>w_hv := s1\<rparr> in
       if \<not> t < deadline then Some w1
       else let w2 = fold body (w_pending w1) w1;
                w3 = (if w_pending w2 = [] then w2 else w2\<lparr>w_hv := sleep poll (w_hv w2)\<rparr>)
            in poll_loop n e deadline poll body w3)"

text \<open>One turn per poll interval of the timeout, one for a rest of it, and the last test.\<close>

definition poll_fuel :: "nat \<Rightarrow> nat \<Rightarrow> nat" where
  "poll_fuel timeout poll = Suc (Suc (timeout div poll))"

definition RAMP_WAIT_MS :: nat where
  "RAMP_WAIT_MS = nat (RAMP_WAIT_S * 1000)"

definition wait_reached :: "int \<Rightarrow> hv \<Rightarrow> wait \<Rightarrow> wait" where
  "wait_reached ch s w =
    w\<lparr>w_done := w_done w @ [ch], w_pending := remove1 ch (w_pending w), w_hv := s\<rparr>"

definition wait_fails :: "int \<Rightarrow> hv \<Rightarrow> wait \<Rightarrow> wait" where
  "wait_fails ch s w =
    w\<lparr>w_failed := w_failed w @ [ch], w_pending := remove1 ch (w_pending w), w_hv := s\<rparr>"

definition wait_up_body :: "env \<Rightarrow> int \<Rightarrow> wait \<Rightarrow> wait" where
  "wait_up_body e ch w =
    (case read_status_alarm e ch (w_hv w) of
       (Inl x, s1) \<Rightarrow> wait_fails ch (shut_down_bad e ch s1) w
     | (Inr (st, al), s1) \<Rightarrow>
         if st = ''UP'' then wait_reached ch (moveToOn ch s1) w
         else if st = ''TRIP'' \<or> al \<noteq> ''none'' then wait_fails ch (shut_down_bad e ch s1) w
         else w\<lparr>w_hv := s1\<rparr>)"

definition on_and_wait ::
  "env \<Rightarrow> pyval \<Rightarrow> nat \<Rightarrow> nat \<Rightarrow> hv \<Rightarrow> ((py_exn + hv_result) \<times> hv) option" where
  "on_and_wait e chs timeout poll s =
    (case hv_channels_definition chs 7 of
       Inl x \<Rightarrow> Some (Inl x, s)
     | Inr l \<Rightarrow>
         let (used, skipped) = split_ok l s;
             (outs, s1) = try_each (powerOn e) unchanged (shut_down_bad e) used s;
             pending = filter (\<lambda>ch. ch \<notin> set (raised outs)) (succeeded outs);
             (t0, s2) = read_clock e (sleep 500 s1)
         in map_option (\<lambda>w.
              (Inr \<lparr>requested_channels = l, used_channels = used, skipped_channels = skipped,
                 successful_channels = sort (w_done w),
                 failed_channels = sorted_set (w_failed w @ w_pending w)\<rparr>,
               fold (shut_down_bad e) (w_pending w) (w_hv w)))
            (poll_loop (poll_fuel timeout poll) e (t0 + int timeout) poll (wait_up_body e)
              \<lparr>w_pending = pending, w_done = [], w_failed = raised outs, w_hv = s2\<rparr>))"

definition wait_down_body :: "env \<Rightarrow> int \<Rightarrow> wait \<Rightarrow> wait" where
  "wait_down_body e ch w =
    (case getStatus e ch (w_hv w) of
       (Inl x, s1) \<Rightarrow> wait_fails ch (moveToBad ch s1) w
     | (Inr st, s1) \<Rightarrow>
         if st \<in> {''DOWN'', ''OFF''} then wait_reached ch (moveToOff ch s1) w
         else if st = ''TRIP'' then wait_fails ch (shut_down_bad e ch s1) w
         else w\<lparr>w_hv := s1\<rparr>)"

definition off_and_wait ::
  "env \<Rightarrow> pyval \<Rightarrow> nat \<Rightarrow> nat \<Rightarrow> hv \<Rightarrow> ((py_exn + hv_result) \<times> hv) option" where
  "off_and_wait e chs timeout poll s =
    (case hv_channels_definition chs 7 of
       Inl x \<Rightarrow> Some (Inl x, s)
     | Inr l \<Rightarrow>
         let (used, skipped) = split_ok l s;
             (outs, s1) = try_each (powerOff e) unchanged moveToBad used s;
             pending = filter (\<lambda>ch. ch \<notin> set (raised outs)) (succeeded outs);
             (t0, s2) = read_clock e s1
         in map_option (\<lambda>w.
              (Inr \<lparr>requested_channels = l, used_channels = used, skipped_channels = skipped,
                 successful_channels = sort (w_done w),
                 failed_channels = sorted_set (w_failed w @ w_pending w)\<rparr>,
               fold moveToBad (w_pending w) (w_hv w)))
            (poll_loop (poll_fuel timeout poll) e (t0 + int timeout) poll (wait_down_body e)
              \<lparr>w_pending = pending, w_done = [], w_failed = raised outs, w_hv = s2\<rparr>))"

definition ramp_body :: "env \<Rightarrow> int \<Rightarrow> wait \<Rightarrow> wait" where
  "ramp_body e ch w =
    (case read_status_alarm e ch (w_hv w) of
       (Inl x, s1) \<Rightarrow> wait_fails ch s1 w
     | (Inr (st, al), s1) \<Rightarrow>
         if st = ''UP'' then wait_reached ch s1 w
         else if st = ''TRIP'' \<or> al \<noteq> ''none'' then wait_fails ch s1 w
         else w\<lparr>w_hv := s1\<rparr>)"

definition wait_ramp_end ::
  "env \<Rightarrow> int list \<Rightarrow> nat \<Rightarrow> nat \<Rightarrow> hv \<Rightarrow> (int list \<times> hv) option" where
  "wait_ramp_end e chs timeout poll s =
    (let (t0, s1) = read_clock e (sleep 500 s)
     in map_option (\<lambda>w.
          let failed = sorted_set (w_failed w @ w_pending w)
          in (failed, fold (shut_down_bad e) failed (w_hv w)))
        (poll_loop (poll_fuel timeout poll) e (t0 + int timeout) poll (ramp_body e)
          \<lparr>w_pending = chs, w_done = [], w_failed = [], w_hv = s1\<rparr>))"

end
