(* ===== verification/HvRecovery.thy ===== *)
theory HvRecovery
  imports HvInterface
begin

text \<open>
  The longer operations of the class \<open>HV\<close> (\<open>client/hardware/hv/hv_interface.py\<close>): the acquisition
  configuration of the channels, the power state of channels that may be ramping, the two
  recoveries, and the change of a module's address. \<open>HvProps\<close> states what they guarantee.
\<close>

section \<open>Rounding\<close>

text \<open>
  \<open>int(round(x))\<close> of a float, from its 64 bits: ties go to the even integer, infinities and NaN raise.
\<close>

definition round_float :: "64 word \<Rightarrow> py_exn + int" where
  "round_float w =
    (let b = uint w;
         ex = (b div 2 ^ 52) mod 2 ^ 11;
         frac = b mod 2 ^ 52;
         sgn = (if b \<ge> 2 ^ 63 then -1 else 1)
     in if ex = 2047 then Inl (if frac = 0 then OverflowError else ValueError)
        else
          let m = (if ex = 0 then frac else 2 ^ 52 + frac);
              e' = (if ex = 0 then 1 else ex)
          in if e' \<ge> 1075 then Inr (sgn * (m * 2 ^ nat (e' - 1075)))
             else
               let d = 2 ^ nat (1075 - e');
                   q = m div d;
                   r = m mod d
               in Inr (sgn * (if 2 * r > d \<or> 2 * r = d \<and> odd q then q + 1 else q)))"

fun py_round :: "pyval \<Rightarrow> py_exn + int" where
  "py_round (PInt n) = Inr n"
| "py_round (PBool b) = Inr (of_bool b)"
| "py_round (PFloat w) = round_float w"
| "py_round v = Inl TypeError"

definition given :: "(string, pyval) dict \<Rightarrow> string \<Rightarrow> pyval option" where
  "given d k = (case dict_get d k of None \<Rightarrow> None | Some PNone \<Rightarrow> None | Some v \<Rightarrow> Some v)"

section \<open>Acquisition configuration\<close>

type_synonym acq_configuration = "(int + string, (string, pyval) dict) dict"

text \<open>\<open>acq_configuration.get(ch) or acq_configuration.get(str(ch))\<close>: an empty entry is false.\<close>

definition channel_config :: "acq_configuration \<Rightarrow> int \<Rightarrow> (string, pyval) dict option" where
  "channel_config cfg ch =
    (case dict_get cfg (Inl ch) of
       Some (x # xs) \<Rightarrow> Some (x # xs)
     | _ \<Rightarrow> dict_get cfg (Inr (str_int ch)))"

record applied =
  prev_voltage :: int
  prev_threshold :: int
  new_voltage :: int
  new_threshold :: int

definition rounded :: "int \<Rightarrow> pyval option \<Rightarrow> int act" where
  "rounded prev v s = (case v of None \<Rightarrow> (Inr prev, s) | Some x \<Rightarrow> (py_round x, s))"

text \<open>One channel: \<open>None\<close> when its configuration is missing or empty.\<close>

definition configure_one :: "env \<Rightarrow> acq_configuration \<Rightarrow> int \<Rightarrow> applied option act" where
  "configure_one e cfg ch =
    (case channel_config cfg (ch - 1) of
       None \<Rightarrow> ret None
     | Some c \<Rightarrow>
         let v = given c ''voltage''; t = given c ''threshold'' in
         if v = None \<and> t = None then ret None
         else seq (getVoltageSet e ch) (\<lambda>pv.
              seq (getThreshold e ch) (\<lambda>pt.
              seq (rounded pv v) (\<lambda>nv.
              seq (rounded pt t) (\<lambda>nt.
              seq (if v = None then ret () else setVoltageSet e nv ch) (\<lambda>_.
              seq (if t = None then ret () else setThreshold e nt ch) (\<lambda>_.
                ret (Some \<lparr>prev_voltage = pv, prev_threshold = pt,
                           new_voltage = nv, new_threshold = nt\<rparr>))))))))"

definition configured :: "applied option outcomes \<Rightarrow> (int \<times> applied) list" where
  "configured outs = List.map_filter (\<lambda>(ch, v). case v of Some (Some a) \<Rightarrow> Some (ch, a) | _ \<Rightarrow> None) outs"

definition not_configured :: "applied option outcomes \<Rightarrow> int list" where
  "not_configured outs = map fst (filter (\<lambda>(ch, v). case v of Some (Some a) \<Rightarrow> False | _ \<Rightarrow> True) outs)"

definition set_acquisition_configuration ::
  "env \<Rightarrow> pyval \<Rightarrow> acq_configuration \<Rightarrow> bool \<Rightarrow> nat \<Rightarrow> nat \<Rightarrow> hv
     \<Rightarrow> ((py_exn + hv_result \<times> (int, applied) dict) \<times> hv) option" where
  "set_acquisition_configuration e chs cfg wait_ramp timeout poll s =
    (case hv_channels_definition chs 7 of
       Inl x \<Rightarrow> Some (Inl x, s)
     | Inr l \<Rightarrow>
         let (used, skipped) = split_ok l s;
             on_set = (if wait_ramp then on_ch s else []);
             (outs, s1) = try_each (configure_one e cfg) unchanged moveToBad used s;
             done = configured outs;
             values = fold (\<lambda>(ch, a) d. dict_set ch a d) done [];
             ramp = map fst (filter (\<lambda>(ch, a). ch \<in> set on_set \<and> new_voltage a \<noteq> prev_voltage a) done)
         in map_option (\<lambda>(ramp_failed, s2).
              (Inr (\<lparr>requested_channels = l, used_channels = used, skipped_channels = skipped,
                  successful_channels = filter (\<lambda>ch. ch \<notin> set ramp_failed) (map fst done),
                  failed_channels = not_configured outs @ ramp_failed\<rparr>,
                foldr dict_pop ramp_failed values), s2))
            (if ramp = [] then Some ([], s1) else wait_ramp_end e ramp timeout poll s1))"

section \<open>Power state\<close>

text \<open>
  One turn of the \<open>while True\<close> loop on a channel: its power state or a failure (\<open>Some None\<close>), or
  \<open>None\<close> while it ramps.
\<close>

definition power_state_turn :: "env \<Rightarrow> int \<Rightarrow> hv \<Rightarrow> bool option option \<times> hv" where
  "power_state_turn e ch s =
    (case getStatus e ch s of
       (Inl x, s1) \<Rightarrow> (Some None, moveToBad ch s1)
     | (Inr st, s1) \<Rightarrow>
         if st \<in> {''UP'', ''ON''} then (Some (Some True), moveToOn ch s1)
         else if st \<in> {''DOWN'', ''OFF''} then (Some (Some False), moveToOff ch s1)
         else if st = ''TRIP'' then (Some None, moveToBad ch s1)
         else if st \<in> {''RUP'', ''RDN'', ''TUP'', ''TDN''} then (None, s1)
         else (Some None, s1))"

fun power_state_loop ::
  "nat \<Rightarrow> env \<Rightarrow> int \<Rightarrow> int \<Rightarrow> nat \<Rightarrow> hv \<Rightarrow> (bool option \<times> hv) option" where
  "power_state_loop 0 e deadline ch poll s = None"
| "power_state_loop (Suc n) e deadline ch poll s =
    (case power_state_turn e ch s of
       (Some r, s1) \<Rightarrow> Some (r, s1)
     | (None, s1) \<Rightarrow>
         let (t, s2) = read_monotonic e s1 in
         if t \<ge> deadline then Some (None, s2)
         else power_state_loop n e deadline ch poll (sleep poll s2))"

fun power_state_each ::
  "env \<Rightarrow> nat \<Rightarrow> nat \<Rightarrow> int list \<Rightarrow> hv \<Rightarrow> (bool outcomes \<times> hv) option" where
  "power_state_each e timeout poll [] s = Some ([], s)"
| "power_state_each e timeout poll (ch # chs) s =
    (let (t0, s1) = read_monotonic e s in
     case power_state_loop (poll_fuel timeout poll) e (t0 + int timeout) ch poll s1 of
       None \<Rightarrow> None
     | Some (r, s2) \<Rightarrow>
         map_option (\<lambda>(outs, s3). ((ch, r) # outs, s3)) (power_state_each e timeout poll chs s2))"

definition get_power_state ::
  "env \<Rightarrow> pyval \<Rightarrow> nat \<Rightarrow> nat \<Rightarrow> hv
     \<Rightarrow> ((py_exn + hv_result \<times> (int, bool) dict) \<times> hv) option" where
  "get_power_state e chs timeout poll s =
    (case hv_channels_definition chs 7 of
       Inl x \<Rightarrow> Some (Inl x, s)
     | Inr l \<Rightarrow>
         map_option (\<lambda>(outs, s1).
           (Inr (\<lparr>requested_channels = l, used_channels = l, skipped_channels = [],
               successful_channels = succeeded outs, failed_channels = raised outs\<rparr>,
             last_values outs), s1))
           (power_state_each e timeout poll l s))"

section \<open>Recovery\<close>

datatype recovery = StillBad | RecoveredOn | RecoveredOff

definition recover_one :: "env \<Rightarrow> int \<Rightarrow> hv \<Rightarrow> recovery \<times> hv" where
  "recover_one e ch s =
    (if \<not> checkAddressBoundary ch then (StillBad, s)
     else case checkAddress e ch s of
       (Inl x, s1) \<Rightarrow> (StillBad, s1)
     | (Inr False, s1) \<Rightarrow> (StillBad, s1)
     | (Inr True, s1) \<Rightarrow>
         (case getStatus e ch s1 of
            (Inl x, s2) \<Rightarrow> (StillBad, s2)
          | (Inr st, s2) \<Rightarrow>
              if st = ''UP'' then (RecoveredOn, moveToOn ch (moveToOk ch s2))
              else (RecoveredOff, moveToOff ch (moveToOk ch s2))))"

fun recover_each :: "env \<Rightarrow> int list \<Rightarrow> hv \<Rightarrow> (int \<times> recovery) list \<times> hv" where
  "recover_each e [] s = ([], s)"
| "recover_each e (ch # chs) s =
    (let (r, s1) = recover_one e ch s; (rs, s2) = recover_each e chs s1 in ((ch, r) # rs, s2))"

definition recover_bad_channels :: "env \<Rightarrow> hv \<Rightarrow> (int \<times> recovery) list \<times> hv" where
  "recover_bad_channels e s = recover_each e (bad_ch s) s"

record recovery_result =
  checked_channels :: "int list"
  recovered_channels :: "int list"
  still_bad_channels :: "int list"

text \<open>The checks before a channel is powered: \<open>True\<close> if it answers, is not tripped and has no alarm.\<close>

definition check_safe :: "env \<Rightarrow> int \<Rightarrow> bool act" where
  "check_safe e ch =
    (if \<not> checkAddressBoundary ch then ret False
     else seq (checkAddress e ch) (\<lambda>b.
       if \<not> b then ret False
       else seq (getStatus e ch) (\<lambda>st.
         if st = ''TRIP'' then ret False
         else seq (getAlarm e ch) (\<lambda>al. ret (al = ''none'')))))"

definition restore_one ::
  "env \<Rightarrow> (int, (string, pyval) dict) dict \<Rightarrow> int \<Rightarrow> hv \<Rightarrow> bool \<times> hv" where
  "restore_one e info ch s =
    (case dict_get info ch of
       None \<Rightarrow> (False, s)
     | Some params \<Rightarrow>
         (case (given params ''voltage'', given params ''threshold'') of
            (Some v, Some t) \<Rightarrow>
              (case seq (rounded 0 (Some v)) (\<lambda>nv. seq (setVoltageSet e nv ch) (\<lambda>_.
                    seq (rounded 0 (Some t)) (\<lambda>nt. setThreshold e nt ch))) s of
                 (Inl x, s1) \<Rightarrow> (False, moveToBad ch s1)
               | (Inr u, s1) \<Rightarrow> (True, s1))
          | _ \<Rightarrow> (False, s)))"

fun restore_each ::
  "env \<Rightarrow> (int, (string, pyval) dict) dict \<Rightarrow> int list \<Rightarrow> hv \<Rightarrow> int list \<times> hv" where
  "restore_each e info [] s = ([], s)"
| "restore_each e info (ch # chs) s =
    (let (ok, s1) = restore_one e info ch s; (fails, s2) = restore_each e info chs s1
     in (if ok then fails else ch # fails, s2))"

definition recover_ok_off_acquisition ::
  "env \<Rightarrow> (int, (string, pyval) dict) dict option \<Rightarrow> hv
     \<Rightarrow> ((py_exn + recovery_result) \<times> hv) option" where
  "recover_ok_off_acquisition e acq_info s =
    (let ok_off = getOkOffChannels s in
     if ok_off = [] then
       Some (Inr \<lparr>checked_channels = [], recovered_channels = [], still_bad_channels = []\<rparr>, s)
     else case acq_info of
       Some (p # ps) \<Rightarrow>
         let (outs, s1) = try_each (check_safe e) unchanged unchanged ok_off s;
             safe = map fst (filter (\<lambda>(ch, v). v = Some True) outs);
             unsafe = map fst (filter (\<lambda>(ch, v). v \<noteq> Some True) outs);
             (fails, s2) = restore_each e (p # ps) safe s1
         in if safe = [] then
              Some (Inr \<lparr>checked_channels = ok_off, recovered_channels = [],
                         still_bad_channels = unsafe\<rparr>, s2)
            else
              map_option (\<lambda>(r, s3).
                (map_sum id (\<lambda>res. \<lparr>checked_channels = ok_off,
                   recovered_channels = filter (\<lambda>ch. ch \<in> set (successful_channels res)) safe,
                   still_bad_channels = unsafe @ fails @
                     filter (\<lambda>ch. ch \<notin> set (successful_channels res)) safe\<rparr>) r, s3))
              (on_and_wait e (PList (map PInt safe)) RAMP_WAIT_MS 2000 s2)
     | _ \<Rightarrow>
         Some (Inr \<lparr>checked_channels = ok_off, recovered_channels = [],
                    still_bad_channels = ok_off\<rparr>, s))"

section \<open>Address of a module\<close>

text \<open>Whether the change succeeded, and the address found.\<close>

definition change_feb_address ::
  "env \<Rightarrow> int \<Rightarrow> int option \<Rightarrow> hv \<Rightarrow> (bool \<times> int option) \<times> hv" where
  "change_feb_address e new_address standard s =
    (let preferred = (case standard of None \<Rightarrow> new_address | Some a \<Rightarrow> if a = 0 then new_address else a) in
     case seq (reset_connection e) (\<lambda>_ s1. find_feb_address e (Some preferred) (sleep 2000 s1)) s of
       (Inl x, s2) \<Rightarrow> ((False, None), s2)
     | (Inr None, s2) \<Rightarrow> ((False, None), s2)
     | (Inr (Some old), s2) \<Rightarrow>
         if old = new_address then ((True, Some old), moveToOk new_address s2)
         else
           (case seq (attempt (setModbusAddress e new_address old) (ret ())) (\<lambda>_.
                 seq (reset_connection e) (\<lambda>_ s3. checkAddress e new_address (sleep 2000 s3))) s2 of
              (Inl x, s4) \<Rightarrow> ((False, None), s4)
            | (Inr True, s4) \<Rightarrow> ((True, Some old), moveToOk new_address s4)
            | (Inr False, s4) \<Rightarrow> ((False, Some old), s4)))"

end
