(* ===== verification/HvSteps.thy ===== *)
theory HvSteps
  imports HvRecovery
begin

text \<open>
  What every operation of the high voltage object keeps: the invariant of its lists and, for the
  calls it makes, the set of modules addressed. One relation between states, \<open>hv_step A\<close>, is closed
  under composition, so each operation is one application of the rules of its parts; the rules of
  the polling loop carry the proofs about the three waits.
\<close>

section \<open>Steps of the high voltage object\<close>

definition hv_step :: "(int \<times> bool) set \<Rightarrow> hv \<Rightarrow> hv \<Rightarrow> bool" where
  "hv_step A s s' \<longleftrightarrow>
    (hv_lists_ok s \<longrightarrow> hv_lists_ok s') \<and> (\<exists>m. calls s' = calls s @ m \<and> addressed m \<subseteq> A)"

definition hv_only :: "(int \<times> bool) set \<Rightarrow> 'a act \<Rightarrow> bool" where
  "hv_only A f \<longleftrightarrow> (\<forall>s. hv_step A s (snd (f s)))"

named_theorems hv_rules \<open>operations that keep the lists and address only the given modules\<close>

lemma hv_step_refl [simp]: "hv_step A s s"
  by (auto simp: hv_step_def)

lemma hv_step_trans: "hv_step A s s1 \<Longrightarrow> hv_step A s1 s2 \<Longrightarrow> hv_step A s s2"
  unfolding hv_step_def by (metis (no_types) Un_subset_iff addressed_simps(2) append.assoc)

lemma hv_step_mono: "hv_step A s s' \<Longrightarrow> A \<subseteq> B \<Longrightarrow> hv_step B s s'"
  unfolding hv_step_def by (meson subset_trans)

lemma bus_hv_step: "bus_step A s s' \<Longrightarrow> hv_step A s s'"
  unfolding hv_step_def using bus_step_ok by (auto simp: bus_step_def hv_lists_ok_def)

lemma bus_hv_only: "bus_only A f \<Longrightarrow> hv_only A f"
  by (auto simp: bus_only_def hv_only_def intro: bus_hv_step)

lemma hv_step_moves [simp]:
  "hv_step A s (moveToOk ch s)" "hv_step A s (moveToBad ch s)" "hv_step A s (moveToOn ch s)"
  "hv_step A s (moveToOff ch s)" "hv_step A s (moveToFixedBad ch s)"
  "hv_step A s (moveToMissingSerial ch s)" "hv_step A s (unchanged ch s)"
  by (auto simp: hv_step_def unchanged_def keeps)

lemma hv_step_issue [simp]:
  "hv_step A s (sleep d s)" "hv_step A s (snd (read_clock e s))" "hv_step A s (snd (read_monotonic e s))"
  by (auto simp: sleep_def read_clock_def read_monotonic_def Let_def intro!: bus_hv_step)

lemma hv_only_basic [hv_rules]: "hv_only A (ret x)" "hv_only A (raise e)"
  by (simp_all add: hv_only_def ret_def raise_def)

lemma hv_onlyD: "hv_only A f \<Longrightarrow> f s = (r, s') \<Longrightarrow> hv_step A s s'"
  unfolding hv_only_def by (metis snd_conv)

lemma hv_only_seq [hv_rules]:
  assumes f: "hv_only A f" and g: "\<And>x. hv_only A (g x)"
  shows "hv_only A (seq f g)"
  unfolding hv_only_def
proof
  fix s
  obtain r s1 where r: "f s = (r, s1)" by (cases "f s")
  show "hv_step A s (snd (seq f g s))"
    using hv_onlyD[OF f r] g
    by (cases r) (auto simp: seq_def r hv_only_def intro: hv_step_trans)
qed

lemma hv_step_fold:
  "(\<And>ch s. ch \<in> set chs \<Longrightarrow> hv_step A s (f ch s)) \<Longrightarrow> hv_step A s (fold f chs s)"
proof (induction chs arbitrary: s)
  case (Cons ch chs)
  have "hv_step A s (f ch s)" using Cons.prems by simp
  moreover have "hv_step A (f ch s) (fold f chs (f ch s))" using Cons by simp
  ultimately show ?case by (auto intro: hv_step_trans)
qed simp

section \<open>Operations on one channel after the other\<close>

lemma try_each_step:
  assumes "\<And>ch. ch \<in> set chs \<Longrightarrow> hv_only A (f ch)"
    and "\<And>ch s. ch \<in> set chs \<Longrightarrow> hv_step A s (good ch s)"
    and "\<And>ch s. ch \<in> set chs \<Longrightarrow> hv_step A s (bad ch s)"
  shows "hv_step A s (snd (try_each f good bad chs s))"
  using assms
proof (induction chs arbitrary: s)
  case (Cons ch chs)
  obtain r s1 where r: "f ch s = (r, s1)" by (cases "f ch s")
  have s1: "hv_step A s s1" using Cons.prems(1) r by (auto dest: hv_onlyD)
  have rest: "hv_step A s2 (snd (try_each f good bad chs s2))" for s2
    using Cons.prems by (intro Cons.IH) auto
  have "hv_step A s1 (good ch s1)" "hv_step A s1 (bad ch s1)" using Cons.prems by auto
  with s1 rest show ?case
    by (cases r) (simp_all add: r case_prod_beta Let_def, (metis hv_step_trans)+)
qed simp

lemma hv_check_range: "hv_channels_definition chs 7 = Inr l \<Longrightarrow> set l \<subseteq> {1..7}"
  using hv_check.in_range by fastforce

lemma split_ok_subset: "set (fst (split_ok l s)) \<subseteq> set l"
  by (auto simp: split_ok_def)

lemma hv_action_step [hv_rules]:
  assumes "\<And>ch. ch \<in> {1..7} \<Longrightarrow> hv_only A (f ch)"
    and "\<And>ch s. ch \<in> {1..7} \<Longrightarrow> hv_step A s (good ch s)"
    and "\<And>ch s. ch \<in> {1..7} \<Longrightarrow> hv_step A s (bad ch s)"
  shows "hv_only A (hv_action f good bad chs)" "hv_only A (hv_force_action f good bad chs)"
proof -
  have each: "hv_step A s (snd (try_each f good bad l s))" if "set l \<subseteq> {1..7}" for l s
    using that assms by (intro try_each_step) auto
  have used: "set (filter p l) \<subseteq> {1..7}" if "hv_channels_definition chs 7 = Inr l" for l p
    using hv_check_range[OF that] by auto
  show "hv_only A (hv_action f good bad chs)"
    using each[OF used] by (simp add: hv_only_def hv_action_def split_ok_def Let_def case_prod_beta split: sum.split)
  show "hv_only A (hv_force_action f good bad chs)"
    using each[OF hv_check_range] by (simp add: hv_only_def hv_force_action_def Let_def case_prod_beta split: sum.split)
qed

lemma read_status_alarm_bus [bus_rules]: "(ch, False) \<in> A \<Longrightarrow> bus_only A (read_status_alarm e ch)"
  unfolding read_status_alarm_def by (intro bus_rules)

lemma shut_down_bus: "(ch, False) \<in> A \<Longrightarrow> bus_step A s (shut_down e ch s)"
proof -
  assume ch: "(ch, False) \<in> A"
  have "bus_only A (seq (resetCoil e ch) (\<lambda>_. powerOff e ch))" using ch by (intro bus_rules)
  then show ?thesis by (simp add: bus_only_def shut_down_def)
qed

lemma shut_down_bad_step [simp]: "(ch, False) \<in> A \<Longrightarrow> hv_step A s (shut_down_bad e ch s)"
  unfolding shut_down_bad_def
  by (rule hv_step_trans[OF bus_hv_step[OF shut_down_bus[where e = e]] hv_step_moves(2)])

lemma snd_only [hv_rules]: "hv_only A (case x of (r, y) \<Rightarrow> ret (g r y))"
  by (simp add: hv_rules split: prod.split)

lemma simple_operations [hv_rules]:
  "hv_only (quiet {1..7}) (set_common_voltage e chs v)" "hv_only (quiet {1..7}) (set_common_threshold e chs v)"
  "hv_only (quiet {1..7}) (get_voltage e chs)" "hv_only (quiet {1..7}) (get_threshold e chs)"
  "hv_only (quiet {1..7}) (get_volt_thr_configuration e chs)"
  "hv_only (quiet {1..7}) (get_ch_status e chs)" "hv_only (quiet {1..7}) (get_ch_alarm e chs)"
  "hv_only (quiet {1..7}) (hv_off e chs)" "hv_only (quiet {1..7}) (hv_reset e chs)"
  "hv_only (quiet {1..7}) (force_off e chs)" "hv_only (quiet {1..7}) (force_reset e chs)"
  unfolding set_common_voltage_def set_common_threshold_def get_voltage_def get_threshold_def
    get_volt_thr_configuration_def get_ch_status_def get_ch_alarm_def hv_off_def
    hv_reset_def force_off_def force_reset_def
  by (intro hv_rules bus_hv_only bus_rules; simp)+

lemma hv_on_step [hv_rules]: "hv_only ({1..7} \<times> UNIV) (hv_on e chs)"
  unfolding hv_on_def by (intro hv_rules bus_hv_only bus_rules; simp)

section \<open>The polling loop\<close>

lemma poll_loop_keeps:
  assumes run: "poll_loop n e deadline poll body w = Some w'"
    and P: "P w"
    and A: "\<And>w. P w \<Longrightarrow> set (w_pending w) \<subseteq> A"
    and bus: "\<And>w s. P w \<Longrightarrow> bus_step {} (w_hv w) s \<Longrightarrow> P (w\<lparr>w_hv := s\<rparr>)"
    and body: "\<And>w ch. P w \<Longrightarrow> ch \<in> A \<Longrightarrow> P (body ch w)"
  shows "P w'"
  using run P
proof (induction n arbitrary: w)
  case (Suc n)
  let ?w1 = "w\<lparr>w_hv := issue Now (w_hv w)\<rparr>"
  let ?w2 = "fold body (w_pending w) ?w1"
  have P1: "P ?w1" using Suc.prems(2) by (intro bus) simp_all
  have "P (fold body chs v)" if "P v" "set chs \<subseteq> A" for chs v
    using that by (induction chs arbitrary: v) (auto intro: body)
  from this[OF P1 A[OF Suc.prems(2)]] have P2: "P ?w2" .
  have P3: "P (?w2\<lparr>w_hv := sleep poll (w_hv ?w2)\<rparr>)"
    using P2 by (intro bus) (simp_all add: sleep_def)
  from Suc.prems(1) show ?case
    using Suc.prems(2) P1 Suc.IH[OF _ P2] Suc.IH[OF _ P3]
    by (auto simp: read_clock_def Let_def split: if_splits)
qed simp

text \<open>The same for a list without repetition, where every channel handled is still pending.\<close>

lemma fold_pending:
  assumes "P w" and "distinct chs" and "set chs \<subseteq> set (w_pending w)"
    and body: "\<And>w ch. P w \<Longrightarrow> ch \<in> set (w_pending w) \<Longrightarrow> P (body ch w)"
    and others: "\<And>w ch. set (w_pending w) - {ch} \<subseteq> set (w_pending (body ch w))"
  shows "P (fold body chs w)"
  using assms(1-3)
proof (induction chs arbitrary: w)
  case (Cons ch chs)
  have "set chs \<subseteq> set (w_pending (body ch w))" using Cons.prems others[of w ch] by auto
  with Cons show ?case by (auto intro: body)
qed simp

lemma poll_loop_pending:
  assumes run: "poll_loop n e deadline poll body w = Some w'"
    and P: "P w"
    and dist: "\<And>w. P w \<Longrightarrow> distinct (w_pending w)"
    and bus: "\<And>w s. P w \<Longrightarrow> bus_step {} (w_hv w) s \<Longrightarrow> P (w\<lparr>w_hv := s\<rparr>)"
    and body: "\<And>w ch. P w \<Longrightarrow> ch \<in> set (w_pending w) \<Longrightarrow> P (body ch w)"
    and others: "\<And>w ch. set (w_pending w) - {ch} \<subseteq> set (w_pending (body ch w))"
  shows "P w'"
  using run P
proof (induction n arbitrary: w)
  case (Suc n)
  let ?w1 = "w\<lparr>w_hv := issue Now (w_hv w)\<rparr>"
  let ?w2 = "fold body (w_pending w) ?w1"
  have P1: "P ?w1" using Suc.prems(2) by (intro bus) simp_all
  have P2: "P ?w2"
    using fold_pending[OF P1 _ _ body others] dist[OF Suc.prems(2)] by simp
  have P3: "P (?w2\<lparr>w_hv := sleep poll (w_hv ?w2)\<rparr>)"
    using P2 by (intro bus) (simp_all add: sleep_def)
  from Suc.prems(1) show ?case
    using Suc.prems(2) P1 Suc.IH[OF _ P2] Suc.IH[OF _ P3]
    by (auto simp: read_clock_def Let_def split: if_splits)
qed simp

section \<open>Termination of the polling loop\<close>

definition slept :: "bus_call list \<Rightarrow> int" where
  "slept cs = sum_list (map (\<lambda>c. case c of Sleep d \<Rightarrow> int d | _ \<Rightarrow> 0) cs)"

text \<open>
  The law of the clocks: between two readings at least the time slept has passed, and a clock is
  not set back.
\<close>

definition clock_law :: "env \<Rightarrow> bool" where
  "clock_law e \<longleftrightarrow> (\<forall>h m.
     now e (h @ [Now] @ m @ [Now]) \<ge> now e (h @ [Now]) + slept m \<and>
     mono e (h @ [Monotonic] @ m @ [Monotonic]) \<ge> mono e (h @ [Monotonic]) + slept m)"

lemma slept_simps [simp]:
  "slept [] = 0" "slept (xs @ ys) = slept xs + slept ys" "slept [Sleep d] = int d" "slept [Now] = 0"
  "slept [Monotonic] = 0"
  by (simp_all add: slept_def)

lemma slept_nonneg: "slept cs \<ge> 0"
  unfolding slept_def by (rule sum_list_nonneg) (auto split: bus_call.split)

lemma grow_slept:
  "hv_step A s s' \<Longrightarrow> calls s = h @ m \<Longrightarrow> \<exists>m'. calls s' = h @ m' \<and> slept m' \<ge> slept m"
  unfolding hv_step_def using slept_nonneg by (metis append.assoc le_add_same_cancel1 slept_simps(2))

lemma poll_fuel_enough: "0 < poll \<Longrightarrow> int timeout \<le> int (Suc (timeout div poll)) * int poll"
proof -
  assume "0 < poll"
  then have "timeout < Suc (timeout div poll) * poll"
    by (simp add: dividend_less_div_times add.commute)
  then show ?thesis by (metis less_imp_of_nat_less less_le_not_le of_nat_mult)
qed

lemma fold_body_grows:
  "(\<And>ch w. \<exists>A. hv_step A (w_hv w) (w_hv (body ch w))) \<Longrightarrow> calls (w_hv w) = h @ m \<Longrightarrow>
   \<exists>m'. calls (w_hv (fold body chs w)) = h @ m' \<and> slept m' \<ge> slept m"
proof (induction chs arbitrary: w m)
  case (Cons ch chs)
  obtain A where "hv_step A (w_hv w) (w_hv (body ch w))" using Cons.prems(1) by blast
  from grow_slept[OF this Cons.prems(2)] obtain m1 where
    m1: "calls (w_hv (body ch w)) = h @ m1" "slept m1 \<ge> slept m" by blast
  from Cons.IH[OF Cons.prems(1) m1(1)] m1(2) show ?case by force
qed simp

lemma poll_loop_ends:
  assumes clock: "clock_law e"
    and body: "\<And>ch w. \<exists>A. hv_step A (w_hv w) (w_hv (body ch w))"
    and hist: "calls (w_hv w) = h @ [Now] @ m"
    and fuel: "deadline \<le> now e (h @ [Now]) + slept m + int n * int poll"
  shows "\<exists>w'. poll_loop (Suc n) e deadline poll body w = Some w'"
  using hist fuel
proof (induction n arbitrary: w m)
  case 0
  have "now e (h @ [Now] @ m @ [Now]) \<ge> deadline"
    using clock[unfolded clock_law_def, rule_format, THEN conjunct1, of h m] 0 by simp
  with 0 show ?case by (auto simp: read_clock_def issue_def Let_def)
next
  case (Suc n)
  let ?w1 = "w\<lparr>w_hv := issue Now (w_hv w)\<rparr>"
  let ?w2 = "fold body (w_pending w) ?w1"
  have c1: "calls (w_hv ?w1) = (h @ [Now]) @ m @ [Now]" using Suc.prems by (simp add: issue_def)
  from fold_body_grows[OF body c1] obtain m2 where
    m2: "calls (w_hv ?w2) = (h @ [Now]) @ m2" "slept m2 \<ge> slept m" by fastforce
  let ?w3 = "?w2\<lparr>w_hv := sleep poll (w_hv ?w2)\<rparr>"
  have c3: "calls (w_hv ?w3) = h @ [Now] @ (m2 @ [Sleep poll])"
    using m2 by (simp add: sleep_def issue_def)
  have "deadline \<le> now e (h @ [Now]) + slept (m2 @ [Sleep poll]) + int n * int poll"
    using Suc.prems(2) m2(2) by (simp add: algebra_simps)
  from Suc.IH[OF c3 this] have more: "\<exists>w'. poll_loop (Suc n) e deadline poll body ?w3 = Some w'" .
  have stop: "poll_loop (Suc n) e deadline poll body v = Some v" if "w_pending v = []" for v
    using that by simp
  show ?case
    using more stop
    by (subst poll_loop.simps(2)) (auto simp: read_clock_def Let_def simp del: poll_loop.simps)
qed

lemma poll_loop_fuel:
  assumes "clock_law e" and "0 < poll"
    and "\<And>ch w. \<exists>A. hv_step A (w_hv w) (w_hv (body ch w))"
    and "read_clock e s = (t0, w_hv w)"
  shows "\<exists>w'. poll_loop (poll_fuel timeout poll) e (t0 + int timeout) poll body w = Some w'"
  unfolding poll_fuel_def
proof (rule poll_loop_ends[OF assms(1,3), of w "calls s" "[]"])
  show "calls (w_hv w) = calls s @ [Now] @ []"
    using assms(4)[symmetric] by (simp add: read_clock_def Let_def issue_def)
  show "t0 + int timeout \<le> now e (calls s @ [Now]) + slept [] + int (Suc (timeout div poll)) * int poll"
    using poll_fuel_enough[OF assms(2), of timeout] assms(4)
    by (auto simp: read_clock_def Let_def issue_def simp del: of_nat_Suc)
qed

end
