(* ===== verification/HvRuns.thy ===== *)
theory HvRuns
  imports HvSteps
begin

text \<open>
  Runs of the high voltage object: its construction followed by any sequence of operations, against
  any environment. Every operation is a step (\<open>hv_step\<close>), so the invariant of the lists holds
  after every run (locale \<open>kept_invariant\<close>).
\<close>

section \<open>Every operation is a step\<close>

lemma hv_only_bus_seq [hv_rules]: "hv_only A (\<lambda>s. (r, s))"
  by (simp add: hv_only_def)

lemma hv_step_let_snd: "hv_step A s (snd p) \<Longrightarrow> p = (r, s') \<Longrightarrow> hv_step A s s'"
  by simp

lemma electrical_bus: "(ch, False) \<in> A \<Longrightarrow> bus_only A (seq (getVoltage e ch) (\<lambda>v. seq (getCurrent e ch) (\<lambda>c.
    seq (getTemperature e ch) (\<lambda>t. ret (v, c, t)))))"
  by (intro bus_rules)

lemma monitor_steps [hv_rules]:
  "hv_only (quiet {1..7}) (get_ch_electrical e chs)" "hv_only (quiet {1..7}) (get_ch_status_and_alarm e chs)"
proof -
  have "hv_only (quiet {1..7}) (seq (hv_force_action (\<lambda>ch. seq (getVoltage e ch) (\<lambda>v. seq (getCurrent e ch) (\<lambda>c.
            seq (getTemperature e ch) (\<lambda>t. ret (v, c, t))))) unchanged moveToBad chs)
      (\<lambda>(r, outs). ret (r, mon_entries s outs)))" for s
    by (intro hv_rules bus_hv_only electrical_bus; simp)
  then show "hv_only (quiet {1..7}) (get_ch_electrical e chs)"
    by (simp add: hv_only_def get_ch_electrical_def)
  have "hv_only (quiet {1..7}) (seq (hv_force_action (read_status_alarm e) unchanged moveToBad chs)
      (\<lambda>(r, outs). ret (r, mon_entries s outs)))" for s
    by (intro hv_rules bus_hv_only bus_rules; simp)
  then show "hv_only (quiet {1..7}) (get_ch_status_and_alarm e chs)"
    by (simp add: hv_only_def get_ch_status_and_alarm_def)
qed

lemma monitor_snapshot_step [hv_rules]: "hv_only (quiet {1..7}) (monitor_snapshot e chs)"
proof -
  have "hv_only (quiet {1..7}) (seq (get_ch_electrical e x) (\<lambda>(r, el).
          seq (get_ch_status_and_alarm e x) (\<lambda>(r', sa) s1. (Inr (g r el r' sa s1), s1))))" for x g
    by (intro hv_rules) (auto simp: hv_only_def split: prod.split
        intro: hv_rules[unfolded hv_only_def, rule_format] intro!: hv_rules(1-3))
  from this[unfolded hv_only_def, rule_format] show ?thesis
    unfolding hv_only_def monitor_snapshot_def Let_def
    by (auto simp only: snd_conv hv_step_refl split: sum.split)
qed

lemma sync_power_state_step: "hv_step (quiet UNIV) s (sync_power_state e shared chs s)"
proof (induction "length chs" arbitrary: shared chs s rule: less_induct)
  case less
  show ?case
  proof (cases chs)
    case (Cons ch rest)
    obtain r s1 where r: "read_status_alarm e ch s = (r, s1)" by (cases "read_status_alarm e ch s")
    have s1: "hv_step (quiet UNIV) s s1"
      using bus_hv_step[OF bus_onlyD[OF read_status_alarm_bus r]] by simp
    have next_step: "hv_step (quiet UNIV) s (sync_power_state e b l s2)"
      if "hv_step (quiet UNIV) s1 s2" "length l \<le> length rest" for b l s2
    proof -
      have "hv_step (quiet UNIV) s2 (sync_power_state e b l s2)" using that(2) Cons by (intro less(1)) simp
      with s1 that(1) show ?thesis by (meson hv_step_trans)
    qed
    show ?thesis
    proof (cases r)
      case (Inl x)
      then show ?thesis
        by (simp add: Cons r, intro conjI impI) (rule next_step; simp)+
    next
      case (Inr p)
      obtain st al where p: "p = (st, al)" by (cases p)
      show ?thesis
        by (simp add: Cons r Inr p, intro conjI impI) (rule next_step; simp)+
    qed
  qed simp
qed

lemma normalize_one_bus: "(ch, False) \<in> A \<Longrightarrow> bus_step A s (snd (normalize_one e ch s))"
  using checkAddress_bus[of ch A e]
  by (auto simp: normalize_one_def bus_only_def split: prod.split sum.split) (metis snd_conv)+

lemma normalize_each_bus: "bus_step (quiet UNIV) s (snd (normalize_each e chs s))"
proof (induction chs arbitrary: s)
  case (Cons ch chs)
  have "bus_step (quiet UNIV) s (snd (normalize_one e ch s))" by (rule normalize_one_bus) simp
  with Cons show ?case by (auto simp: Let_def case_prod_beta intro: bus_step_trans)
qed simp

lemma normalize_each_split:
  "normalize_each e chs s = ((oks, bads), s') \<Longrightarrow> distinct chs \<Longrightarrow>
    distinct oks \<and> distinct bads \<and> set oks \<inter> set bads = {} \<and> set oks \<union> set bads = set chs"
proof (induction chs arbitrary: s s' oks bads)
  case (Cons ch chs)
  obtain good s1 where g: "normalize_one e ch s = (good, s1)" by (cases "normalize_one e ch s")
  obtain o' b' s2 where r: "normalize_each e chs s1 = ((o', b'), s2)"
    by (cases "normalize_each e chs s1") auto
  from Cons.IH[OF r] Cons.prems g r show ?case by (auto split: if_splits)
qed simp

lemma hv_init_ok: "hv_init e fixed = (Inr (), s) \<Longrightarrow> hv_lists_ok s"
proof -
  assume init: "hv_init e fixed = (Inr (), s)"
  let ?scan = "filter (\<lambda>ch. ch \<notin> set fixed) [1..7]"
  have def: "hv_channels_definition (PList (map PInt ?scan)) 7 = Inr ?scan"
    by (simp add: hv_channels_definition_def check_hv_ints list_all_iff)
  obtain b where b: "ask Connect (conn e) hv_new = (Inr b, issue Connect hv_new)"
    using init by (auto simp: hv_init_def ask_def Let_def split: sum.splits)
  obtain oks bads s2 where n: "normalize_each e ?scan (issue Connect hv_new) = ((oks, bads), s2)"
    by (cases "normalize_each e ?scan (issue Connect hv_new)") auto
  let ?s3 = "s2\<lparr>ok_ch := oks, bad_ch := bads\<rparr>"
  have "bus_step (quiet UNIV) hv_new s2"
    using bus_step_trans[of "quiet UNIV" hv_new "issue Connect hv_new" s2]
      normalize_each_bus[of "issue Connect hv_new" e ?scan] n by simp
  then have "hv_lists_ok ?s3"
    using normalize_each_split[OF n] bus_step_lists[of "quiet UNIV" hv_new s2]
    by (auto simp: hv_lists_ok_def hv_new_def)
  then have "hv_lists_ok (fold moveToFixedBad fixed ?s3)"
    by (rule fold_keeps[rotated]) (rule moveToFixedBad_ok)
  moreover have "s = sync_power_state e True (ok_ch (fold moveToFixedBad fixed ?s3)) (fold moveToFixedBad fixed ?s3)"
    using init by (simp add: hv_init_def b checkChannel_def def n Let_def)
  ultimately show ?thesis using sync_power_state_step by (auto simp: hv_step_def)
qed

section \<open>The waits\<close>

lemma wait_moves [simp]:
  "w_hv (wait_reached ch s w) = s" "w_hv (wait_fails ch s w) = s"
  "w_pending (wait_reached ch s w) = remove1 ch (w_pending w)"
  "w_pending (wait_fails ch s w) = remove1 ch (w_pending w)"
  "w_done (wait_reached ch s w) = w_done w @ [ch]" "w_done (wait_fails ch s w) = w_done w"
  "w_failed (wait_reached ch s w) = w_failed w" "w_failed (wait_fails ch s w) = w_failed w @ [ch]"
  by (simp_all add: wait_reached_def wait_fails_def)

text \<open>A body either leaves the channel pending or removes it, and makes a step on its module.\<close>

definition polls :: "(int \<Rightarrow> wait \<Rightarrow> wait) \<Rightarrow> bool" where
  "polls body \<longleftrightarrow> (\<forall>ch w. hv_step (quiet {ch}) (w_hv w) (w_hv (body ch w)) \<and>
     w_pending (body ch w) \<in> {w_pending w, remove1 ch (w_pending w)})"

lemma hv_step_read:
  "read_status_alarm e ch s = (r, s1) \<Longrightarrow> hv_step (quiet {ch}) s s1"
  "getStatus e ch s = (r', s1) \<Longrightarrow> hv_step (quiet {ch}) s s1"
  using bus_onlyD[OF read_status_alarm_bus[of ch "quiet {ch}" e]]
    bus_onlyD[OF register_ops_bus(1)[of ch "quiet {ch}" e]]
  by (auto intro: bus_hv_step)

lemma hv_step_after:
  "hv_step A s s1 \<Longrightarrow> hv_step A s (moveToOn ch s1)" "hv_step A s s1 \<Longrightarrow> hv_step A s (moveToOff ch s1)"
  "hv_step A s s1 \<Longrightarrow> hv_step A s (moveToBad ch s1)" "hv_step A s s1 \<Longrightarrow> hv_step A s (moveToOk ch s1)"
  "hv_step A s s1 \<Longrightarrow> (ch, False) \<in> A \<Longrightarrow> hv_step A s (shut_down_bad e ch s1)"
  by (meson hv_step_trans hv_step_moves shut_down_bad_step)+

lemma bodies_poll: "polls (wait_up_body e)" "polls (wait_down_body e)" "polls (ramp_body e)"
  unfolding polls_def wait_up_body_def wait_down_body_def ramp_body_def
  by (auto split: prod.split sum.split dest!: hv_step_read intro: hv_step_after)

lemma quiet_subset: "(ch, False) \<in> A \<Longrightarrow> quiet {ch} \<subseteq> A"
  by (auto simp: quiet_def)

lemma pollsD: "polls body \<Longrightarrow> (ch, False) \<in> A \<Longrightarrow> hv_step A (w_hv w) (w_hv (body ch w))"
  unfolding polls_def by (meson hv_step_mono quiet_subset)

lemma polls_pending: "polls body \<Longrightarrow> set (w_pending (body ch w)) \<subseteq> set (w_pending w)"
  unfolding polls_def using set_remove1_subset by (metis insertE order_refl singletonD)

lemma poll_loop_step:
  assumes run: "poll_loop n e deadline poll body w = Some w'" and polls: "polls body"
    and A: "set (w_pending w) \<subseteq> X"
  shows "hv_step (quiet X) (w_hv w) (w_hv w') \<and> set (w_pending w') \<subseteq> X"
proof -
  let ?P = "\<lambda>v. hv_step (quiet X) (w_hv w) (w_hv v) \<and> set (w_pending v) \<subseteq> X"
  have bus: "?P (v\<lparr>w_hv := s\<rparr>)" if "?P v" "bus_step {} (w_hv v) s" for v s
    using that by (auto intro: hv_step_trans[OF _ bus_hv_step[OF bus_step_mono]])
  have body: "?P (body ch v)" if "?P v" "ch \<in> X" for v ch
    using that pollsD[OF polls, of ch "quiet X" v] polls_pending[OF polls, of ch v]
    by (auto intro: hv_step_trans)
  show ?thesis
    by (rule poll_loop_keeps[OF run, of ?P X]) (use A bus body in auto)
qed

lemma succeeded_subset: "set (succeeded outs) \<subseteq> fst ` set outs" "set (raised outs) \<subseteq> fst ` set outs"
  by (auto simp: succeeded_def raised_def)

lemma try_each_channels: "map fst (fst (try_each f good bad chs s)) = chs"
  by (induction chs arbitrary: s) (auto simp: Let_def case_prod_beta split: prod.split sum.split)

lemma try_each_subset:
  "try_each f good bad chs s = (outs, s1) \<Longrightarrow> set (succeeded outs) \<union> set (raised outs) = set chs"
proof -
  assume "try_each f good bad chs s = (outs, s1)"
  then have "set chs = fst ` set outs"
    using try_each_channels[of f good bad chs s] by (metis fst_conv list.set_map)
  then show ?thesis by (force simp: succeeded_def raised_def)
qed

lemma hv_only_mono: "hv_only A f \<Longrightarrow> A \<subseteq> B \<Longrightarrow> hv_only B f"
  by (auto simp: hv_only_def intro: hv_step_mono)

text \<open>Both waits on a power command are instances of one scheme.\<close>

lemma wait_scheme_step:
  assumes t: "try_each f unchanged bad used s = (outs, s1)"
    and f: "\<And>ch. ch \<in> set used \<Longrightarrow> hv_only A (f ch)"
    and bad: "\<And>ch s. hv_step (quiet {ch}) s (bad ch s)"
    and s2: "hv_step A s1 s2" and A: "quiet (set used) \<subseteq> A"
    and run: "poll_loop n e d poll body
      \<lparr>w_pending = filter (\<lambda>ch. ch \<notin> set (raised outs)) (succeeded outs), w_done = [],
       w_failed = raised outs, w_hv = s2\<rparr> = Some w" and polls: "polls body"
    and last: "\<And>ch s. hv_step (quiet {ch}) s (g ch s)"
  shows "hv_step A s (fold g (w_pending w) (w_hv w))"
proof -
  have sub: "quiet {ch} \<subseteq> A" if "ch \<in> set used" for ch using A that by (auto simp: quiet_def)
  have "hv_step A s (snd (try_each f unchanged bad used s))"
    by (rule try_each_step) (auto intro: f hv_step_mono[OF bad] dest: sub)
  then have s1: "hv_step A s s1" by (simp add: t)
  have w: "hv_step A s2 (w_hv w) \<and> set (w_pending w) \<subseteq> set used"
    using poll_loop_step[OF run polls, of "set used"] try_each_subset[OF t] hv_step_mono[OF _ A] by auto
  then have "hv_step A (w_hv w) (fold g (w_pending w) (w_hv w))"
    by (intro hv_step_fold hv_step_mono[OF last sub]) auto
  with s1 s2 w show ?thesis by (meson hv_step_trans)
qed

lemma read_clock_step: "read_clock e s = (t, s') \<Longrightarrow> hv_step A s s'"
  using hv_step_issue(2)[of A s e] by simp

lemma shut_down_bad_quiet: "hv_step (quiet {ch}) s (shut_down_bad e ch s)"
  by (rule shut_down_bad_step) simp

lemma on_and_wait_step:
  assumes "on_and_wait e chs timeout poll s = Some (r, s')" and "hv_channels_definition chs 7 = Inr l"
  shows "hv_step (set (fst (split_ok l s)) \<times> UNIV) s s'"
proof -
  let ?used = "fst (split_ok l s)"
  obtain outs s1 where t: "try_each (powerOn e) unchanged (shut_down_bad e) ?used s = (outs, s1)"
    by (cases "try_each (powerOn e) unchanged (shut_down_bad e) ?used s")
  obtain t0 s2 where c: "read_clock e (sleep 500 s1) = (t0, s2)" by (cases "read_clock e (sleep 500 s1)")
  have s2: "hv_step (set ?used \<times> UNIV) s1 s2"
    using read_clock_step[OF c] hv_step_issue(1) by (meson hv_step_trans)
  have sub: "quiet (set ?used) \<subseteq> set ?used \<times> UNIV" by (auto simp: quiet_def)
  have f: "hv_only (set ?used \<times> UNIV) (powerOn e ch)" if "ch \<in> set ?used" for ch
    using that by (intro bus_hv_only bus_rules) simp
  show ?thesis
    using assms wait_scheme_step[OF t f shut_down_bad_quiet s2 sub _ bodies_poll(1) shut_down_bad_quiet]
    by (auto simp: on_and_wait_def t c Let_def case_prod_beta)
qed

lemma off_and_wait_step:
  assumes "off_and_wait e chs timeout poll s = Some (r, s')" and "hv_channels_definition chs 7 = Inr l"
  shows "hv_step (quiet (set (fst (split_ok l s)))) s s'"
proof -
  let ?used = "fst (split_ok l s)"
  obtain outs s1 where t: "try_each (powerOff e) unchanged moveToBad ?used s = (outs, s1)"
    by (cases "try_each (powerOff e) unchanged moveToBad ?used s")
  obtain t0 s2 where c: "read_clock e s1 = (t0, s2)" by (cases "read_clock e s1")
  have f: "hv_only (quiet (set ?used)) (powerOff e ch)" if "ch \<in> set ?used" for ch
    using that by (intro bus_hv_only bus_rules) simp
  show ?thesis
    using assms wait_scheme_step[OF t f hv_step_moves(2) read_clock_step[OF c] subset_refl _
        bodies_poll(2) hv_step_moves(2)]
    by (auto simp: off_and_wait_def t c Let_def case_prod_beta)
qed

lemma wait_ramp_end_step:
  assumes "wait_ramp_end e chs timeout poll s = Some (failed, s')"
  shows "hv_step (quiet UNIV) s s'"
proof -
  obtain t0 s1 where c: "read_clock e (sleep 500 s) = (t0, s1)" by (cases "read_clock e (sleep 500 s)")
  have s1: "hv_step (quiet UNIV) s s1"
    using read_clock_step[OF c] hv_step_issue(1) by (meson hv_step_trans)
  obtain w where w: "poll_loop (poll_fuel timeout poll) e (t0 + int timeout) poll (ramp_body e)
      \<lparr>w_pending = chs, w_done = [], w_failed = [], w_hv = s1\<rparr> = Some w"
    and s': "s' = fold (shut_down_bad e) failed (w_hv w)"
    using assms by (auto simp: wait_ramp_end_def c Let_def)
  have "hv_step (quiet UNIV) s1 (w_hv w)" using poll_loop_step[OF w bodies_poll(3), of UNIV] by simp
  moreover have "hv_step (quiet UNIV) (w_hv w) s'" unfolding s' by (rule hv_step_fold) simp
  ultimately show ?thesis using s1 by (meson hv_step_trans)
qed

section \<open>Configuration, power state and recovery\<close>

lemma rounded_bus [bus_rules]: "bus_only A (rounded prev v)"
  by (simp add: bus_only_def rounded_def split: option.split)

lemma configure_one_bus [bus_rules]: "(ch, False) \<in> A \<Longrightarrow> bus_only A (configure_one e cfg ch)"
  unfolding configure_one_def Let_def by (cases "channel_config cfg (ch - 1)") (auto intro!: bus_rules)

lemma set_acquisition_configuration_step:
  assumes "set_acquisition_configuration e chs cfg wr timeout poll s = Some (r, s')"
  shows "hv_step (quiet UNIV) s s'"
proof (cases "hv_channels_definition chs 7")
  case (Inr l)
  let ?used = "fst (split_ok l s)"
  have "hv_step (quiet UNIV) s (snd (try_each (configure_one e cfg) unchanged moveToBad ?used s))"
    by (intro try_each_step bus_hv_only bus_rules) simp_all
  then show ?thesis
    using assms Inr
    by (auto simp: set_acquisition_configuration_def Let_def case_prod_beta split: if_splits
        intro: hv_step_trans dest!: wait_ramp_end_step)
qed (use assms in \<open>simp add: set_acquisition_configuration_def\<close>)

lemma hv_step_if:
  "hv_step A s (snd p) \<Longrightarrow> hv_step A s (snd q) \<Longrightarrow> hv_step A s (snd (if b then p else q))"
  by simp

lemma power_state_turn_step: "hv_step (quiet UNIV) s (snd (power_state_turn e ch s))"
proof -
  obtain r s1 where r: "getStatus e ch s = (r, s1)" by (cases "getStatus e ch s")
  have "hv_step (quiet UNIV) s s1" using hv_step_mono[OF hv_step_read(2)[OF r]] quiet_subset[of ch "quiet UNIV"] by simp
  then show ?thesis
    unfolding power_state_turn_def r
    by (cases r) (simp_all only: prod.case sum.case, (rule hv_step_if | simp add: hv_step_after)+)
qed

lemma power_state_loop_step:
  "power_state_loop n e d ch poll s = Some (r, s') \<Longrightarrow> hv_step (quiet UNIV) s s'"
proof (induction n arbitrary: s)
  case (Suc n)
  obtain q s1 where q: "power_state_turn e ch s = (q, s1)" by (cases "power_state_turn e ch s")
  have s1: "hv_step (quiet UNIV) s s1" using power_state_turn_step[of s e ch] q by simp
  obtain t s2 where c: "read_monotonic e s1 = (t, s2)" by (cases "read_monotonic e s1")
  have s2: "hv_step (quiet UNIV) s1 s2" using hv_step_issue(3)[of "quiet UNIV" s1 e] c by simp
  show ?case
  proof (cases q)
    case None
    show ?thesis
    proof (cases "t \<ge> d")
      case False
      with Suc None q c have "hv_step (quiet UNIV) (sleep poll s2) s'" by simp
      then show ?thesis using s1 s2 by (meson hv_step_issue(1) hv_step_trans)
    qed (use Suc.prems None q c s1 s2 in \<open>auto intro: hv_step_trans\<close>)
  qed (use Suc.prems q s1 in simp)
qed simp

lemma power_state_each_step:
  "power_state_each e timeout poll chs s = Some (outs, s') \<Longrightarrow> hv_step (quiet UNIV) s s'"
proof (induction chs arbitrary: s outs)
  case (Cons ch chs)
  obtain t s1 where c: "read_monotonic e s = (t, s1)" by (cases "read_monotonic e s")
  have s1: "hv_step (quiet UNIV) s s1" using hv_step_issue(3)[of "quiet UNIV" s e] c by simp
  obtain q s2 where q: "power_state_loop (poll_fuel timeout poll) e (t + int timeout) ch poll s1 = Some (q, s2)"
    and rest: "\<exists>o'. power_state_each e timeout poll chs s2 = Some (o', s')"
    using Cons.prems by (auto simp: c split: option.splits)
  from rest Cons.IH have "hv_step (quiet UNIV) s2 s'" by blast
  with s1 power_state_loop_step[OF q] show ?case by (meson hv_step_trans)
qed simp

lemma get_power_state_step:
  "get_power_state e chs timeout poll s = Some (r, s') \<Longrightarrow> hv_step (quiet UNIV) s s'"
  by (auto simp: get_power_state_def dest: power_state_each_step split: sum.splits)

lemma checkAddress_step: "checkAddress e ch s = (r, s1) \<Longrightarrow> hv_step (quiet {ch}) s s1"
  by (rule bus_hv_step[OF bus_onlyD[OF checkAddress_bus]]) simp_all

lemma recover_one_step: "hv_step (quiet UNIV) s (snd (recover_one e ch s))"
proof -
  obtain r s1 where r: "checkAddress e ch s = (r, s1)" by (cases "checkAddress e ch s")
  obtain q s2 where q: "getStatus e ch s1 = (q, s2)" by (cases "getStatus e ch s1")
  have s1: "hv_step (quiet UNIV) s s1" using hv_step_mono[OF checkAddress_step[OF r]] quiet_subset[of ch "quiet UNIV"] by simp
  have s2: "hv_step (quiet UNIV) s s2"
    using hv_step_trans[OF s1 hv_step_mono[OF hv_step_read(2)[OF q]]] quiet_subset[of ch "quiet UNIV"] by simp
  show ?thesis
    using s1 s2 by (auto simp: recover_one_def r q intro: hv_step_after split: sum.split bool.split)
qed

lemma recover_each_step: "hv_step (quiet UNIV) s (snd (recover_each e chs s))"
proof (induction chs arbitrary: s)
  case (Cons ch chs)
  then show ?case
    using recover_one_step[of s e ch] by (auto simp: Let_def case_prod_beta intro: hv_step_trans)
qed simp

lemma check_safe_bus [bus_rules]: "(ch, False) \<in> A \<Longrightarrow> bus_only A (check_safe e ch)"
  unfolding check_safe_def by (auto intro!: bus_rules)

lemma restore_one_step: "hv_step (quiet UNIV) s (snd (restore_one e info ch s))"
proof -
  have "bus_only (quiet UNIV) (seq (rounded 0 (Some v)) (\<lambda>nv. seq (setVoltageSet e nv ch) (\<lambda>_.
      seq (rounded 0 (Some t)) (\<lambda>nt. setThreshold e nt ch))))" for v t
    by (intro bus_rules) simp_all
  then show ?thesis
    by (auto simp: restore_one_def split: option.split prod.split sum.split
        dest!: bus_onlyD intro: hv_step_after bus_hv_step)
qed

lemma restore_each_step: "hv_step (quiet UNIV) s (snd (restore_each e info chs s))"
proof (induction chs arbitrary: s)
  case (Cons ch chs)
  then show ?case
    using restore_one_step[of s e info ch] by (auto simp: Let_def case_prod_beta intro: hv_step_trans)
qed simp

lemma on_and_wait_step':
  assumes "on_and_wait e chs timeout poll s = Some (r, s')"
  shows "hv_step UNIV s s'"
proof (cases "hv_channels_definition chs 7")
  case (Inr l)
  show ?thesis by (rule hv_step_mono[OF on_and_wait_step[OF assms Inr]]) simp
qed (use assms in \<open>simp add: on_and_wait_def\<close>)

lemma recover_ok_off_acquisition_step:
  assumes "recover_ok_off_acquisition e info s = Some (r, s')"
  shows "hv_step UNIV s s'"
proof -
  have checked: "hv_step UNIV s (snd (try_each (check_safe e) unchanged unchanged (getOkOffChannels s) s))"
    by (intro try_each_step bus_hv_only bus_rules) simp_all
  then have "hv_step UNIV s (snd (restore_each e i chs (snd (try_each (check_safe e) unchanged unchanged (getOkOffChannels s) s))))" for i chs
    using hv_step_mono[OF restore_each_step subset_UNIV] by (blast intro: hv_step_trans)
  with assms checked show ?thesis
    by (auto simp: recover_ok_off_acquisition_def Let_def case_prod_beta split: if_splits option.splits list.splits
        intro: hv_step_trans dest!: on_and_wait_step')
qed

lemma reset_connection_step: "hv_only A (reset_connection e)"
proof -
  have "bus_only A (\<lambda>s1. ask Connect (conn e) (s1\<lparr>ch_addr := None\<rparr>))"
    unfolding bus_only_def ask_def Let_def snd_conv
    by (rule allI, rule bus_step_trans[OF bus_step_addr[where a = None]]) simp
  then have "bus_only A (attempt (seq (ask CloseClient (conn e)) (\<lambda>_ s1.
      ask Connect (conn e) (s1\<lparr>ch_addr := None\<rparr>))) (ret False))"
    by (intro bus_rules) simp_all
  then have "bus_only A (reset_connection e)" by (simp add: bus_only_def reset_connection_def)
  then show ?thesis by (rule bus_hv_only)
qed

lemma find_in_step: "hv_step (quiet UNIV) s (snd (find_in e as s))"
proof (induction as arbitrary: s)
  case (Cons a as)
  obtain r s1 where r: "attempt (checkAddress e a) (ret False) s = (r, s1)"
    by (cases "attempt (checkAddress e a) (ret False) s")
  have "bus_only (quiet UNIV) (attempt (checkAddress e a) (ret False))" by (intro bus_rules) simp
  from bus_hv_step[OF bus_onlyD[OF this r]] have "hv_step (quiet UNIV) s s1" .
  with Cons show ?case
    by (auto simp: r intro: hv_step_trans split: sum.split bool.split)
qed simp

lemma hv_only_sleep: "hv_only A f \<Longrightarrow> hv_only A (\<lambda>s. f (sleep d s))"
  unfolding hv_only_def using hv_step_issue(1) by (blast intro: hv_step_trans)

lemma change_feb_address_step: "hv_step (quiet UNIV) s (snd (change_feb_address e a std s))"
proof -
  have "hv_only (quiet UNIV) (find_feb_address e p)" for p
    using find_in_step by (simp add: hv_only_def find_feb_address_def)
  then have find: "hv_only (quiet UNIV) (seq (reset_connection e) (\<lambda>_ s1. find_feb_address e p (sleep 2000 s1)))" for p
    by (intro hv_rules reset_connection_step hv_only_sleep)
  have "hv_only (quiet UNIV) (attempt (setModbusAddress e a old) (ret ()))" for old
    by (intro bus_hv_only bus_rules) simp
  then have change: "hv_only (quiet UNIV) (seq (attempt (setModbusAddress e a old) (ret ())) (\<lambda>_.
      seq (reset_connection e) (\<lambda>_ s3. checkAddress e a (sleep 2000 s3))))" for old
    by (intro hv_rules reset_connection_step hv_only_sleep bus_hv_only bus_rules) simp_all
  show ?thesis
    by (auto simp: change_feb_address_def Let_def split: prod.split sum.split option.split bool.split
        dest!: hv_onlyD[OF find] hv_onlyD[OF change] intro: hv_step_trans hv_step_after)
qed

section \<open>Runs\<close>

datatype hv_call =
    SetCommonVoltage pyval int | SetCommonThreshold pyval int
  | GetVoltage pyval | GetThreshold pyval | GetVoltThr pyval | GetPowerState pyval nat nat
  | SetAcquisitionConfiguration pyval acq_configuration bool nat nat
  | GetChStatus pyval | GetChAlarm pyval | MonitorSnapshot pyval
  | On pyval | Off pyval | ForceOff pyval | Reset pyval | ForceReset pyval
  | RecoverBad | RecoverOkOff "(int, (string, pyval) dict) dict option"
  | OnAndWait pyval nat nat | OffAndWait pyval nat nat
  | ChangeFebAddress int "int option"
  | SetFixedBad pyval | MoveToBad int | MoveToOk int | MoveToOn int | MoveToOff int
  | MoveToMissingSerial int | RemoveFromFixedBad int | RemoveFromMissingSerial int

text \<open>A loop that does not end leaves the run where it is.\<close>

definition after :: "(('r \<times> hv) option) \<Rightarrow> hv \<Rightarrow> hv" where
  "after r s = (case r of None \<Rightarrow> s | Some (x, s') \<Rightarrow> s')"

fun exec_hv :: "env \<Rightarrow> hv_call \<Rightarrow> hv \<Rightarrow> hv" where
  "exec_hv e (SetCommonVoltage chs v) s = snd (set_common_voltage e chs v s)"
| "exec_hv e (SetCommonThreshold chs v) s = snd (set_common_threshold e chs v s)"
| "exec_hv e (GetVoltage chs) s = snd (get_voltage e chs s)"
| "exec_hv e (GetThreshold chs) s = snd (get_threshold e chs s)"
| "exec_hv e (GetVoltThr chs) s = snd (get_volt_thr_configuration e chs s)"
| "exec_hv e (GetPowerState chs t p) s = after (get_power_state e chs t p s) s"
| "exec_hv e (SetAcquisitionConfiguration chs c wr t p) s =
    after (set_acquisition_configuration e chs c wr t p s) s"
| "exec_hv e (GetChStatus chs) s = snd (get_ch_status e chs s)"
| "exec_hv e (GetChAlarm chs) s = snd (get_ch_alarm e chs s)"
| "exec_hv e (MonitorSnapshot chs) s = snd (monitor_snapshot e chs s)"
| "exec_hv e (On chs) s = snd (hv_on e chs s)"
| "exec_hv e (Off chs) s = snd (hv_off e chs s)"
| "exec_hv e (ForceOff chs) s = snd (force_off e chs s)"
| "exec_hv e (Reset chs) s = snd (hv_reset e chs s)"
| "exec_hv e (ForceReset chs) s = snd (force_reset e chs s)"
| "exec_hv e RecoverBad s = snd (recover_bad_channels e s)"
| "exec_hv e (RecoverOkOff i) s = after (recover_ok_off_acquisition e i s) s"
| "exec_hv e (OnAndWait chs t p) s = after (on_and_wait e chs t p s) s"
| "exec_hv e (OffAndWait chs t p) s = after (off_and_wait e chs t p s) s"
| "exec_hv e (ChangeFebAddress a std) s = snd (change_feb_address e a std s)"
| "exec_hv e (SetFixedBad chs) s = snd (set_fixed_bad_channels chs s)"
| "exec_hv e (MoveToBad ch) s = moveToBad ch s"
| "exec_hv e (MoveToOk ch) s = moveToOk ch s"
| "exec_hv e (MoveToOn ch) s = moveToOn ch s"
| "exec_hv e (MoveToOff ch) s = moveToOff ch s"
| "exec_hv e (MoveToMissingSerial ch) s = moveToMissingSerial ch s"
| "exec_hv e (RemoveFromFixedBad ch) s = removeFromFixedBad ch s"
| "exec_hv e (RemoveFromMissingSerial ch) s = removeFromMissingSerial ch s"

lemma off_and_wait_step':
  assumes "off_and_wait e chs timeout poll s = Some (r, s')"
  shows "hv_step (quiet UNIV) s s'"
proof (cases "hv_channels_definition chs 7")
  case (Inr l)
  show ?thesis by (rule hv_step_mono[OF off_and_wait_step[OF assms Inr]]) (auto simp: quiet_def)
qed (use assms in \<open>simp add: off_and_wait_def\<close>)

lemma after_ok:
  "hv_lists_ok s \<Longrightarrow> (\<And>r s'. o' = Some (r, s') \<Longrightarrow> hv_step A s s') \<Longrightarrow> hv_lists_ok (after o' s)"
  by (auto simp: after_def hv_step_def split: option.split)

lemma hv_only_ok: "hv_only A f \<Longrightarrow> hv_lists_ok s \<Longrightarrow> hv_lists_ok (snd (f s))"
  by (simp add: hv_only_def hv_step_def)

lemma exec_hv_ok: "hv_lists_ok s \<Longrightarrow> hv_lists_ok (exec_hv e c s)"
  by (cases c)
     (simp_all add: keeps hv_only_ok[OF simple_operations(1)] hv_only_ok[OF simple_operations(2)]
       hv_only_ok[OF simple_operations(3)] hv_only_ok[OF simple_operations(4)]
       hv_only_ok[OF simple_operations(5)] hv_only_ok[OF simple_operations(6)]
       hv_only_ok[OF simple_operations(7)] hv_only_ok[OF simple_operations(8)]
       hv_only_ok[OF simple_operations(9)] hv_only_ok[OF simple_operations(10)]
       hv_only_ok[OF simple_operations(11)] hv_only_ok[OF hv_on_step]
       hv_only_ok[OF monitor_snapshot_step] recover_bad_channels_def
       recover_each_step[unfolded hv_step_def] change_feb_address_step[unfolded hv_step_def]
       after_ok[OF _ get_power_state_step] after_ok[OF _ set_acquisition_configuration_step]
       after_ok[OF _ recover_ok_off_acquisition_step] after_ok[OF _ on_and_wait_step']
       after_ok[OF _ off_and_wait_step'])

interpretation hv_lists: kept_invariant "\<lambda>s. \<exists>fixed. hv_init e fixed = (Inr (), s)" "exec_hv e" hv_lists_ok for e
  by unfold_locales (auto intro: hv_init_ok exec_hv_ok)

end
