(* ===== verification/HvSerial.thy ===== *)
theory HvSerial
  imports HvModbus
begin

text \<open>
  The serial numbers kept in the registers of a module (\<open>hvmodbus.py\<close>: \<open>_pack_sn_to_registers\<close>,
  \<open>getInfo\<close>; \<open>hv_interface.py\<close>: the operations on serials). A text is the list of its code points;
  UTF-8 is the strict codec of \<open>str.encode\<close> and \<open>bytes.decode\<close>.
\<close>

type_synonym code_points = "nat list"

section \<open>UTF-8\<close>

definition utf8_char :: "nat \<Rightarrow> py_exn + nat list" where
  "utf8_char c =
    (if c < 0x80 then Inr [c]
     else if c < 0x800 then Inr [0xC0 + c div 64, 0x80 + c mod 64]
     else if 0xD800 \<le> c \<and> c \<le> 0xDFFF then Inl ValueError
     else if c < 0x10000 then Inr [0xE0 + c div 4096, 0x80 + c div 64 mod 64, 0x80 + c mod 64]
     else Inr [0xF0 + c div 262144, 0x80 + c div 4096 mod 64, 0x80 + c div 64 mod 64, 0x80 + c mod 64])"

fun utf8_encode :: "code_points \<Rightarrow> py_exn + nat list" where
  "utf8_encode [] = Inr []"
| "utf8_encode (c # cs) =
    (case utf8_char c of
       Inl e \<Rightarrow> Inl e
     | Inr b \<Rightarrow> (case utf8_encode cs of Inl e \<Rightarrow> Inl e | Inr bs \<Rightarrow> Inr (b @ bs)))"

text \<open>The first code point of a byte sequence and the number of bytes it takes.\<close>

definition trail :: "nat \<Rightarrow> bool" where
  "trail b \<longleftrightarrow> 0x80 \<le> b \<and> b < 0xC0"

definition utf8_first :: "nat list \<Rightarrow> (nat \<times> nat) option" where
  "utf8_first bs =
    (case bs of
       [] \<Rightarrow> None
     | b # r \<Rightarrow>
         if b < 0x80 then Some (b, 1)
         else if 0xC2 \<le> b \<and> b \<le> 0xDF then
           (case r of
              c # _ \<Rightarrow> if trail c then Some ((b - 0xC0) * 64 + (c - 0x80), 2) else None
            | _ \<Rightarrow> None)
         else if 0xE0 \<le> b \<and> b \<le> 0xEF then
           (case r of
              c # d # _ \<Rightarrow>
                if trail c \<and> trail d \<and> (b = 0xE0 \<longrightarrow> 0xA0 \<le> c) \<and> (b = 0xED \<longrightarrow> c \<le> 0x9F)
                then Some ((b - 0xE0) * 4096 + (c - 0x80) * 64 + (d - 0x80), 3) else None
            | _ \<Rightarrow> None)
         else if 0xF0 \<le> b \<and> b \<le> 0xF4 then
           (case r of
              c # d # f # _ \<Rightarrow>
                if trail c \<and> trail d \<and> trail f \<and> (b = 0xF0 \<longrightarrow> 0x90 \<le> c) \<and> (b = 0xF4 \<longrightarrow> c \<le> 0x8F)
                then Some ((b - 0xF0) * 262144 + (c - 0x80) * 4096 + (d - 0x80) * 64 + (f - 0x80), 4)
                else None
            | _ \<Rightarrow> None)
         else None)"

text \<open>\<open>bytes.decode()\<close>; at most one step per byte.\<close>

fun utf8_decode_n :: "nat \<Rightarrow> nat list \<Rightarrow> py_exn + code_points" where
  "utf8_decode_n 0 bs = Inr []"
| "utf8_decode_n (Suc n) bs =
    (if bs = [] then Inr []
     else case utf8_first bs of
       None \<Rightarrow> Inl UnicodeDecodeError
     | Some (c, k) \<Rightarrow> map_sum id (\<lambda>cs. c # cs) (utf8_decode_n n (drop k bs)))"

definition utf8_decode :: "nat list \<Rightarrow> py_exn + code_points" where
  "utf8_decode bs = utf8_decode_n (length bs) bs"

section \<open>Registers of a serial\<close>

text \<open>\<open>sn.encode("utf-8")[:12].ljust(12, b"\x00")\<close>, and the big endian words of the bytes.\<close>

fun words_of :: "nat list \<Rightarrow> int list" where
  "words_of (a # b # bs) = int (a * 256 + b) # words_of bs"
| "words_of _ = []"

definition pack_sn_to_registers :: "code_points \<Rightarrow> py_exn + int list" where
  "pack_sn_to_registers sn =
    map_sum id (\<lambda>b. let t = take 12 b in words_of (t @ replicate (12 - length t) 0)) (utf8_encode sn)"

text \<open>\<open>struct.pack(">nh", *l)\<close>: the words are packed as signed ones.\<close>

fun pack_signed :: "int list \<Rightarrow> py_exn + nat list" where
  "pack_signed [] = Inr []"
| "pack_signed (w # ws) =
    (if w < -32768 \<or> w > 32767 then Inl StructError
     else map_sum id (\<lambda>bs. nat (w mod 65536 div 256) # nat (w mod 256) # bs) (pack_signed ws))"

definition unpack_text :: "int list \<Rightarrow> py_exn + code_points" where
  "unpack_text l = (case pack_signed l of Inl e \<Rightarrow> Inl e | Inr bs \<Rightarrow> utf8_decode bs)"

definition setPMTSerialNumber :: "env \<Rightarrow> code_points \<Rightarrow> int \<Rightarrow> unit act" where
  "setPMTSerialNumber e sn slave =
    (case pack_sn_to_registers sn of
       Inl x \<Rightarrow> raise x
     | Inr data \<Rightarrow> safe_write_multiple e 8 data slave)"

text \<open>
  \<open>getInfo\<close>: the firmware version, the serials of the PMT, of the HV board and of the FEB, and the
  device id, each read on its own; any of them may raise.
\<close>

definition read_text :: "env \<Rightarrow> int \<Rightarrow> nat \<Rightarrow> int \<Rightarrow> code_points act" where
  "read_text e addr cnt slave = seq (read_direct e addr cnt slave) (\<lambda>l s. (unpack_text l, s))"

definition getInfo ::
  "env \<Rightarrow> int \<Rightarrow> (code_points \<times> code_points \<times> code_points \<times> code_points \<times> int) act" where
  "getInfo e slave =
    seq (read_text e 0x02 1 slave) (\<lambda>fwver.
    seq (read_text e 0x08 6 slave) (\<lambda>pmtsn.
    seq (read_text e 0x0E 6 slave) (\<lambda>hvsn.
    seq (read_text e 0x14 6 slave) (\<lambda>febsn.
    seq (read_direct e 0x04 2 slave) (\<lambda>l.
      case l of a # b # r \<Rightarrow> ret (fwver, pmtsn, hvsn, febsn, b * 65536 + a) | _ \<Rightarrow> raise IndexError)))))"

section \<open>Operations on serials\<close>

definition py_whitespace :: "nat \<Rightarrow> bool" where
  "py_whitespace c \<longleftrightarrow> (9 \<le> c \<and> c \<le> 13) \<or> (28 \<le> c \<and> c \<le> 32) \<or> c = 0x85 \<or> c = 0xA0 \<or> c = 0x1680 \<or>
     (0x2000 \<le> c \<and> c \<le> 0x200A) \<or> c \<in> {0x2028, 0x2029, 0x202F, 0x205F, 0x3000}"

definition rstrip_by :: "('a \<Rightarrow> bool) \<Rightarrow> 'a list \<Rightarrow> 'a list" where
  "rstrip_by p xs = rev (dropWhile p (rev xs))"

definition normalize_serial :: "code_points \<Rightarrow> code_points" where
  "normalize_serial sn = strip_by py_whitespace (rstrip_by (\<lambda>c. c = 0) sn)"

definition blank_serial :: "code_points \<Rightarrow> bool" where
  "blank_serial sn \<longleftrightarrow> strip_by py_whitespace (strip_by (\<lambda>c. c = 0) sn) = []"

definition set_pmt_serial :: "env \<Rightarrow> int \<Rightarrow> code_points \<Rightarrow> unit act" where
  "set_pmt_serial e ch sn =
    (if ch < 1 \<or> ch > num_modbus_channels then raise ValueError else setPMTSerialNumber e sn ch)"

fun check_missing_serial :: "env \<Rightarrow> int list \<Rightarrow> hv \<Rightarrow> int list \<times> hv" where
  "check_missing_serial e [] s = ([], s)"
| "check_missing_serial e (ch # chs) s =
    (let (lacks, s1) =
           (case getInfo e ch s of
              (Inl x, s1) \<Rightarrow> (True, moveToMissingSerial ch s1)
            | (Inr (fw, sn, hs, fs, i), s1) \<Rightarrow>
                if blank_serial sn then (True, moveToMissingSerial ch s1) else (False, s1));
         (rest, s2) = check_missing_serial e chs s1
     in (if lacks then ch # rest else rest, s2))"

definition zero_serial :: code_points where
  "zero_serial = [48]"

fun get_serial_map :: "env \<Rightarrow> int list \<Rightarrow> (int, code_points) dict \<Rightarrow> hv \<Rightarrow> (int, code_points) dict \<times> hv" where
  "get_serial_map e [] d s = (d, s)"
| "get_serial_map e (ch # chs) d s =
    (if ch \<in> set (dict_keys d) then get_serial_map e chs d s
     else case getInfo e ch s of
       (Inl x, s1) \<Rightarrow> get_serial_map e chs (dict_set ch zero_serial d) s1
     | (Inr (fw, sn, hs, fs, i), s1) \<Rightarrow>
         get_serial_map e chs
           (dict_set ch (if blank_serial sn then zero_serial else normalize_serial sn) d) s1)"

section \<open>Round trip\<close>

lemma utf8_encode_ascii: "list_all (\<lambda>c. c < 128) sn \<Longrightarrow> utf8_encode sn = Inr sn"
  by (induction sn) (auto simp: utf8_char_def)

lemma utf8_decode_ascii: "list_all (\<lambda>c. c < 128) bs \<Longrightarrow> utf8_decode bs = Inr bs"
proof -
  have "utf8_decode_n (length bs) bs = Inr bs" if "list_all (\<lambda>c. c < 128) bs" for bs
    using that by (induction bs) (auto simp: utf8_first_def)
  then show "list_all (\<lambda>c. c < 128) bs \<Longrightarrow> ?thesis" by (simp add: utf8_decode_def)
qed

lemma pack_words: "list_all (\<lambda>c. c < 128) bs \<Longrightarrow> even (length bs) \<Longrightarrow> pack_signed (words_of bs) = Inr bs"
proof (induction bs rule: words_of.induct)
  case (1 a b bs)
  moreover from 1 have "int (a * 256 + b) mod 65536 div 256 = int a" "int (a * 256 + b) mod 256 = int b"
    by auto
  ultimately show ?case by auto
qed auto

lemma rstrip_padding: "(sn \<noteq> [] \<Longrightarrow> last sn \<noteq> 0) \<Longrightarrow> rstrip_by (\<lambda>c. c = 0) (sn @ replicate n 0) = sn"
  for sn :: code_points
proof -
  assume l: "sn \<noteq> [] \<Longrightarrow> last sn \<noteq> 0"
  have "dropWhile (\<lambda>c. c = 0) (replicate n 0 @ rev sn) = dropWhile (\<lambda>c. c = 0) (rev sn)"
    by (induction n) auto
  also have "\<dots> = rev sn" using l by (cases sn rule: rev_cases) auto
  finally show ?thesis by (simp add: rstrip_by_def)
qed

lemma strip_by_id: "(xs \<noteq> [] \<Longrightarrow> \<not> p (hd xs) \<and> \<not> p (last xs)) \<Longrightarrow> strip_by p xs = xs"
proof (cases "xs = []")
  case False
  assume "xs \<noteq> [] \<Longrightarrow> \<not> p (hd xs) \<and> \<not> p (last xs)"
  with False have "\<not> p (hd xs)" "\<not> p (last xs)" by auto
  with False have "dropWhile p xs = xs" "dropWhile p (rev xs) = rev xs"
    by (simp_all add: dropWhile_eq_self_iff hd_rev)
  then show ?thesis by (simp add: strip_by_def)
qed (simp add: strip_by_def)

text \<open>
  A serial of at most twelve ASCII characters that does not begin or end with white space, nor
  end with NUL, survives the registers of the module: what is written, padded, split into
  words, read back as signed words, decoded and normalised is the serial.
\<close>

theorem serial_survives_registers:
  assumes "list_all (\<lambda>c. c < 128) sn" and "length sn \<le> 12"
    and "sn \<noteq> []" and "\<not> py_whitespace (hd sn)" and "\<not> py_whitespace (last sn)" and "last sn \<noteq> 0"
  shows "\<exists>ws txt. pack_sn_to_registers sn = Inr ws \<and> length ws = 6 \<and> unpack_text ws = Inr txt \<and>
    normalize_serial txt = sn"
proof -
  let ?b = "sn @ replicate (12 - length sn) 0"
  have ascii: "list_all (\<lambda>c. c < 128) ?b" using assms(1) by (auto simp: list_all_iff)
  have len: "length ?b = 12" using assms(2) by simp
  have "length (words_of bs) = length bs div 2" for bs by (induction bs rule: words_of.induct) auto
  then have "length (words_of ?b) = 6" using len by simp
  moreover have "unpack_text (words_of ?b) = Inr ?b"
    using pack_words[OF ascii] utf8_decode_ascii[OF ascii] len by (simp add: unpack_text_def)
  moreover have "normalize_serial ?b = sn"
    using assms rstrip_padding[of sn] strip_by_id[of sn py_whitespace] by (simp add: normalize_serial_def)
  ultimately show ?thesis
    using utf8_encode_ascii[OF assms(1)] assms(2) by (auto simp: pack_sn_to_registers_def Let_def)
qed

theorem serial_survives_registers_witness:
  "\<exists>ws txt. pack_sn_to_registers [72, 90, 51, 57] = Inr ws \<and> length ws = 6 \<and> unpack_text ws = Inr txt \<and>
    normalize_serial txt = [72, 90, 51, 57]"
  by (rule serial_survives_registers) (simp_all add: py_whitespace_def)

end
