(* ===== verification/HvCommands.thy ===== *)
theory HvCommands
  imports HvRuns HvSerial Protocol
begin

text \<open>
  The command handlers of the high voltage service (\<open>client/hardware/hv/hv_commands.py\<close>,
  \<open>hv_messages.py\<close>). The payload dictionary is a record of the keys the handlers read, \<open>None\<close> for an
  absent key. The channels of the periodic checks are lists of integers, as the service makes them.
  A handler returns its response or raises, and the state of the high voltage object; it is \<open>None\<close>
  when a wait has not ended. Error texts are left out.
\<close>

section \<open>Messages\<close>

datatype HVMessagePriority = HV_EMERGENCY | HV_CONTROL | HV_ACQUISITION | HV_MONITORING

fun hv_priority_value :: "HVMessagePriority \<Rightarrow> int" where
  "hv_priority_value HV_EMERGENCY = 0"
| "hv_priority_value HV_CONTROL = 1"
| "hv_priority_value HV_ACQUISITION = 2"
| "hv_priority_value HV_MONITORING = 3"

record hv_payload =
  p_channels :: "pyval option"
  p_list :: "int list"
  p_voltage :: "int option"
  p_threshold :: "int option"
  p_configuration :: "acq_configuration option"
  p_wait_ramp :: bool
  p_timeout :: "nat option"
  p_poll :: "nat option"
  p_acq_info :: "(int, (string, pyval) dict) dict option"
  p_channel_index :: "int option"
  p_standard_addr :: "int option"
  p_serials :: "(int, code_points) dict"

record HVRequest =
  hq_id :: string
  hq_command :: string
  hq_payload :: hv_payload
  hq_sender :: "string option"
  hq_deadline :: "int option"

text \<open>One entry of the safety check: channel, status, alarm and whether a read failed.\<close>

type_synonym safety_entry = "int \<times> string option \<times> string option \<times> bool"

datatype hv_data =
    NoData
  | ActionData hv_result
  | ValuesData hv_result "(int, int) dict"
  | VoltThrData hv_result "(int, int \<times> int) dict"
  | PowerData hv_result "(int, bool) dict"
  | AppliedData hv_result "(int, applied) dict"
  | SafetyData "safety_entry list" "safety_entry list"
  | PowerCheckData "(int \<times> string option) list" "int list" "int list" "int list"
  | RecoveryData "(int \<times> recovery) list"
  | AcquisitionRecovery recovery_result
  | PresenceData "int list" "int list"
  | SyncData "(int \<times> recovery) list" "int list" "int list" "int list" "int list"
  | AddressData bool "int option"
  | UserBadData "int list"
  | SerialsWritten "int list" "int list"
  | SerialMap "(int, code_points) dict"
  | ElectricalData hv_result "(int, (int \<times> int \<times> int) mon_entry) dict"
  | StatusAlarmData hv_result "(int, (string \<times> string) mon_entry) dict"
  | SnapshotData hv_snapshot
  | ListsData "(string, int list) dict"
  | BlockedByPolicy string

datatype hv_error = HvFailed | HvUnsafe | HvUnknown | HvRaised py_exn | HvExpired | HvTimeout | HvBlocked

record HVResponse =
  hs_reply_to :: string
  hs_status :: MessageStatus
  hs_result :: hv_data
  hs_error :: "hv_error option"

definition hv_ok :: "HVRequest \<Rightarrow> hv_data \<Rightarrow> HVResponse" where
  "hv_ok rq d = \<lparr>hs_reply_to = hq_id rq, hs_status = OK, hs_result = d, hs_error = None\<rparr>"

definition hv_err :: "HVRequest \<Rightarrow> hv_data \<Rightarrow> hv_error \<Rightarrow> HVResponse" where
  "hv_err rq d e = \<lparr>hs_reply_to = hq_id rq, hs_status = ST_ERROR, hs_result = d, hs_error = Some e\<rparr>"

type_synonym hv_outcome = "((py_exn + HVResponse) \<times> hv) option"

section \<open>Handlers\<close>

text \<open>\<open>_wrap_hv_action\<close>: an error when some channel failed.\<close>

definition wrap_hv_action :: "HVRequest \<Rightarrow> hv_result \<Rightarrow> hv_data \<Rightarrow> HVResponse" where
  "wrap_hv_action rq r d = (if failed_channels r \<noteq> [] then hv_err rq d HvFailed else hv_ok rq d)"

definition need :: "'a option \<Rightarrow> ('a \<Rightarrow> 'b act) \<Rightarrow> 'b act" where
  "need v f = (case v of None \<Rightarrow> raise KeyError | Some x \<Rightarrow> f x)"

definition simple :: "HVResponse act \<Rightarrow> hv \<Rightarrow> hv_outcome" where
  "simple f s = Some (f s)"

definition respond :: "('a \<Rightarrow> HVResponse) \<Rightarrow> ((py_exn + 'a) \<times> hv) option \<Rightarrow> hv_outcome" where
  "respond g o' = map_option (\<lambda>(r, s). (map_sum id g r, s)) o'"

definition channels_or_all :: "HVRequest \<Rightarrow> pyval" where
  "channels_or_all rq = (case p_channels (hq_payload rq) of None \<Rightarrow> PStr ''all'' | Some v \<Rightarrow> v)"

definition on_channels :: "HVRequest \<Rightarrow> (pyval \<Rightarrow> hv_result act) \<Rightarrow> hv \<Rightarrow> hv_outcome" where
  "on_channels rq f = simple (need (p_channels (hq_payload rq)) (\<lambda>chs.
     seq (f chs) (\<lambda>r. ret (wrap_hv_action rq r (ActionData r)))))"

definition command_common_threshold :: "env \<Rightarrow> HVRequest \<Rightarrow> hv \<Rightarrow> hv_outcome" where
  "command_common_threshold e rq = on_channels rq (\<lambda>chs.
     need (p_threshold (hq_payload rq)) (\<lambda>v. set_common_threshold e chs v))"

definition command_common_voltage :: "env \<Rightarrow> HVRequest \<Rightarrow> hv \<Rightarrow> hv_outcome" where
  "command_common_voltage e rq = on_channels rq (\<lambda>chs.
     need (p_voltage (hq_payload rq)) (\<lambda>v. set_common_voltage e chs v))"

definition command_hv_on :: "env \<Rightarrow> HVRequest \<Rightarrow> hv \<Rightarrow> hv_outcome" where
  "command_hv_on e rq = on_channels rq (hv_on e)"

definition command_hv_off :: "env \<Rightarrow> HVRequest \<Rightarrow> hv \<Rightarrow> hv_outcome" where
  "command_hv_off e rq = on_channels rq (hv_off e)"

definition command_hv_force_off :: "env \<Rightarrow> HVRequest \<Rightarrow> hv \<Rightarrow> hv_outcome" where
  "command_hv_force_off e rq = on_channels rq (force_off e)"

definition command_get_voltage :: "env \<Rightarrow> HVRequest \<Rightarrow> hv \<Rightarrow> hv_outcome" where
  "command_get_voltage e rq = simple (need (p_channels (hq_payload rq)) (\<lambda>chs.
     seq (get_voltage e chs) (\<lambda>(r, d). ret (wrap_hv_action rq r (ValuesData r d)))))"

definition command_get_threshold :: "env \<Rightarrow> HVRequest \<Rightarrow> hv \<Rightarrow> hv_outcome" where
  "command_get_threshold e rq = simple (need (p_channels (hq_payload rq)) (\<lambda>chs.
     seq (get_threshold e chs) (\<lambda>(r, d). ret (wrap_hv_action rq r (ValuesData r d)))))"

definition command_get_volt_thr_configuration :: "env \<Rightarrow> HVRequest \<Rightarrow> hv \<Rightarrow> hv_outcome" where
  "command_get_volt_thr_configuration e rq = simple (need (p_channels (hq_payload rq)) (\<lambda>chs.
     seq (get_volt_thr_configuration e chs) (\<lambda>(r, d). ret (wrap_hv_action rq r (VoltThrData r d)))))"

definition command_acquisition_configuration :: "env \<Rightarrow> HVRequest \<Rightarrow> hv \<Rightarrow> hv_outcome" where
  "command_acquisition_configuration e rq s =
    (case (p_channels (hq_payload rq), p_configuration (hq_payload rq)) of
       (Some chs, Some cfg) \<Rightarrow>
         respond (\<lambda>(r, d). wrap_hv_action rq r (AppliedData r d))
           (set_acquisition_configuration e chs cfg (p_wait_ramp (hq_payload rq)) RAMP_WAIT_MS 2000 s)
     | _ \<Rightarrow> Some (Inl KeyError, s))"

definition command_get_power_state :: "env \<Rightarrow> HVRequest \<Rightarrow> hv \<Rightarrow> hv_outcome" where
  "command_get_power_state e rq s =
    (case p_channels (hq_payload rq) of
       None \<Rightarrow> Some (Inl KeyError, s)
     | Some chs \<Rightarrow> respond (\<lambda>(r, d). wrap_hv_action rq r (PowerData r d))
         (get_power_state e chs RAMP_WAIT_MS 2000 s))"

definition command_hv_on_and_wait :: "env \<Rightarrow> HVRequest \<Rightarrow> hv \<Rightarrow> hv_outcome" where
  "command_hv_on_and_wait e rq s =
    (case p_channels (hq_payload rq) of
       None \<Rightarrow> Some (Inl KeyError, s)
     | Some chs \<Rightarrow> respond (\<lambda>r. wrap_hv_action rq r (ActionData r))
         (on_and_wait e chs RAMP_WAIT_MS 2000 s))"

definition command_hv_off_and_wait :: "env \<Rightarrow> HVRequest \<Rightarrow> hv \<Rightarrow> hv_outcome" where
  "command_hv_off_and_wait e rq s =
    (let p = hq_payload rq in
     case p_channels p of
       None \<Rightarrow> Some (Inl KeyError, s)
     | Some chs \<Rightarrow> respond (\<lambda>r. wrap_hv_action rq r (ActionData r))
         (off_and_wait e chs (case p_timeout p of None \<Rightarrow> RAMP_WAIT_MS | Some t \<Rightarrow> t)
            (case p_poll p of None \<Rightarrow> 2000 | Some t \<Rightarrow> t) s))"

section \<open>Periodic checks\<close>

definition alarm_active :: "string option \<Rightarrow> bool" where
  "alarm_active a \<longleftrightarrow> (case a of None \<Rightarrow> False | Some t \<Rightarrow> t \<noteq> ''none'')"

text \<open>
  One channel of the safety check: an unsafe one becomes bad, also when resetting it and switching
  it off fails (\<open>finally\<close>); both take the channel as a single number.
\<close>

definition secure_channel :: "env \<Rightarrow> bool \<Rightarrow> int \<Rightarrow> unit act" where
  "secure_channel e read_failed ch s =
    (if read_failed then (Inr (), moveToBad ch s)
     else case seq (force_reset e (PInt ch)) (\<lambda>_. force_off e (PInt ch)) s of
       (Inl x, s1) \<Rightarrow> (Inl x, moveToBad ch s1)
     | (Inr r, s1) \<Rightarrow> (Inr (), moveToBad ch s1))"

definition safety_entry_of ::
  "hv_result \<Rightarrow> (int, string) dict \<Rightarrow> hv_result \<Rightarrow> (int, string) dict \<Rightarrow> int \<Rightarrow> safety_entry" where
  "safety_entry_of sr sd ar ad ch =
    (ch, dict_get sd ch, dict_get ad ch, ch \<in> set (failed_channels sr) \<or> ch \<in> set (failed_channels ar))"

definition entry_unsafe :: "safety_entry \<Rightarrow> bool" where
  "entry_unsafe en = (case en of (ch, st, al, read_failed) \<Rightarrow>
     read_failed \<or> st = Some ''TRIP'' \<or> alarm_active al)"

fun secure_each :: "env \<Rightarrow> safety_entry list \<Rightarrow> unit act" where
  "secure_each e [] s = (Inr (), s)"
| "secure_each e (en # ens) s =
    (if entry_unsafe en
     then seq (secure_channel e (snd (snd (snd en))) (fst en)) (\<lambda>_. secure_each e ens) s
     else secure_each e ens s)"

definition command_check_channel_safety :: "env \<Rightarrow> HVRequest \<Rightarrow> hv \<Rightarrow> hv_outcome" where
  "command_check_channel_safety e rq =
    (let chs = p_list (hq_payload rq); arg = PList (map PInt chs) in
     simple (seq (get_ch_status e arg) (\<lambda>(sr, sd). seq (get_ch_alarm e arg) (\<lambda>(ar, ad).
       let entries = map (safety_entry_of sr sd ar ad) chs; bads = filter entry_unsafe entries in
       seq (secure_each e entries) (\<lambda>_.
         ret (if bads \<noteq> [] then hv_err rq (SafetyData entries bads) HvUnsafe
              else hv_ok rq (SafetyData entries [])))))))"

definition power_check_one :: "env \<Rightarrow> int \<Rightarrow> hv \<Rightarrow> (string option \<times> bool \<times> bool) \<times> hv" where
  "power_check_one e ch s =
    (case getStatus e ch s of
       (Inl x, s1) \<Rightarrow> ((None, False, False), s1)
     | (Inr st, s1) \<Rightarrow>
         if st = ''UP'' \<and> ch \<in> set (off_ch s1) then ((Some st, True, False), moveToOn ch s1)
         else if st = ''DOWN'' \<and> ch \<in> set (on_ch s1) then ((Some st, False, True), moveToOff ch s1)
         else ((Some st, False, False), s1))"

fun power_check_each ::
  "env \<Rightarrow> int list \<Rightarrow> hv \<Rightarrow> (int \<times> string option \<times> bool \<times> bool) list \<times> hv" where
  "power_check_each e [] s = ([], s)"
| "power_check_each e (ch # chs) s =
    (let (r, s1) = power_check_one e ch s; (rs, s2) = power_check_each e chs s1 in ((ch, r) # rs, s2))"

definition power_check :: "env \<Rightarrow> int list \<Rightarrow> hv \<Rightarrow> hv_data \<times> hv" where
  "power_check e chs s =
    (let (rs, s1) = power_check_each e chs s in
     (PowerCheckData (map (\<lambda>(ch, st, a, b). (ch, st)) rs)
        (map fst (filter (\<lambda>(ch, st, a, b). a) rs)) (map fst (filter (\<lambda>(ch, st, a, b). b) rs))
        (map fst (filter (\<lambda>(ch, st, a, b). st = None) rs)), s1))"

definition command_check_channel_power :: "env \<Rightarrow> HVRequest \<Rightarrow> hv \<Rightarrow> hv_outcome" where
  "command_check_channel_power e rq s =
    (let (d, s1) = power_check e (p_list (hq_payload rq)) s in Some (Inr (hv_ok rq d), s1))"

definition command_check_recovery_bad :: "env \<Rightarrow> HVRequest \<Rightarrow> hv \<Rightarrow> hv_outcome" where
  "command_check_recovery_bad e rq s =
    (let (r, s1) = recover_bad_channels e s in Some (Inr (hv_ok rq (RecoveryData r)), s1))"

definition command_check_channel_acquisition :: "env \<Rightarrow> HVRequest \<Rightarrow> hv \<Rightarrow> hv_outcome" where
  "command_check_channel_acquisition e rq s =
    respond (\<lambda>r. hv_ok rq (AcquisitionRecovery r))
      (recover_ok_off_acquisition e (p_acq_info (hq_payload rq)) s)"

definition presence_one :: "env \<Rightarrow> int \<Rightarrow> hv \<Rightarrow> bool \<times> hv" where
  "presence_one e ch s =
    (let (b, s1) = normalize_one e ch s in if b then (True, s1) else (False, moveToBad ch s1))"

fun presence_each :: "env \<Rightarrow> int list \<Rightarrow> hv \<Rightarrow> (int list \<times> int list) \<times> hv" where
  "presence_each e [] s = (([], []), s)"
| "presence_each e (ch # chs) s =
    (let (b, s1) = presence_one e ch s; ((good, bad), s2) = presence_each e chs s1
     in (if b then (ch # good, bad) else (good, ch # bad), s2))"

definition command_hv_sync :: "env \<Rightarrow> HVRequest \<Rightarrow> hv \<Rightarrow> hv_outcome" where
  "command_hv_sync e rq s =
    (case hv_channels_definition (channels_or_all rq) 7 of
       Inl x \<Rightarrow> Some (Inl x, s)
     | Inr l \<Rightarrow>
         let active = filter (\<lambda>ch. ch \<notin> set (fixed_bad s)) l;
             (rec, s1) = recover_bad_channels e s;
             ((good, bad), s2) = presence_each e active s1;
             (d, s3) = power_check e active s2
         in Some (Inr (hv_ok rq (case d of
              PowerCheckData chk ons offs fails \<Rightarrow> SyncData rec good bad ons offs | _ \<Rightarrow> NoData)), s3))"

section \<open>Addresses, bad channels, serials and monitoring\<close>

definition command_feb_change_address :: "env \<Rightarrow> HVRequest \<Rightarrow> hv \<Rightarrow> hv_outcome" where
  "command_feb_change_address e rq s =
    (case p_channel_index (hq_payload rq) of
       None \<Rightarrow> Some (Inl KeyError, s)
     | Some i \<Rightarrow>
         let ((ok, old), s1) = change_feb_address e (i + 1) (p_standard_addr (hq_payload rq)) s
         in Some (Inr (if ok then hv_ok rq (AddressData ok old)
                       else hv_err rq (AddressData ok old) HvFailed), s1))"

definition command_user_bad :: "(int \<Rightarrow> hv \<Rightarrow> hv) \<Rightarrow> HVRequest \<Rightarrow> hv \<Rightarrow> hv_outcome" where
  "command_user_bad move rq s =
    (case hv_channels_definition (channels_or_all rq) 7 of
       Inl x \<Rightarrow> Some (Inr (hv_err rq NoData (HvRaised x)), s)
     | Inr l \<Rightarrow> let s1 = fold move l s in Some (Inr (hv_ok rq (UserBadData (fixed_bad s1))), s1))"

definition command_hv_set_user_bad :: "env \<Rightarrow> HVRequest \<Rightarrow> hv \<Rightarrow> hv_outcome" where
  "command_hv_set_user_bad e = command_user_bad moveToFixedBad"

definition command_hv_unset_user_bad :: "env \<Rightarrow> HVRequest \<Rightarrow> hv \<Rightarrow> hv_outcome" where
  "command_hv_unset_user_bad e = command_user_bad removeFromFixedBad"

fun write_serials :: "env \<Rightarrow> (int \<times> code_points) list \<Rightarrow> hv \<Rightarrow> (int list \<times> int list) \<times> hv" where
  "write_serials e [] s = (([], []), s)"
| "write_serials e ((ch, sn) # r) s =
    (case set_pmt_serial e ch sn s of
       (Inl x, s1) \<Rightarrow> let ((good, bad), s2) = write_serials e r s1 in ((good, ch # bad), s2)
     | (Inr u, s1) \<Rightarrow>
         let ((good, bad), s2) = write_serials e r (removeFromMissingSerial ch s1)
         in ((ch # good, bad), s2))"

definition command_set_pmt_serials :: "env \<Rightarrow> HVRequest \<Rightarrow> hv \<Rightarrow> hv_outcome" where
  "command_set_pmt_serials e rq s =
    (let ((good, bad), s1) = write_serials e (p_serials (hq_payload rq)) s
     in Some (Inr (if bad = [] then hv_ok rq (SerialsWritten good bad)
                   else hv_err rq (SerialsWritten good bad) HvFailed), s1))"

definition command_get_serial_map :: "env \<Rightarrow> HVRequest \<Rightarrow> hv \<Rightarrow> hv_outcome" where
  "command_get_serial_map e rq s =
    (case hv_channels_definition (channels_or_all rq) 7 of
       Inl x \<Rightarrow> Some (Inr (hv_err rq NoData (HvRaised x)), s)
     | Inr l \<Rightarrow> let (d, s1) = get_serial_map e l [] s in Some (Inr (hv_ok rq (SerialMap d)), s1))"

definition command_hv_electrical_monitoring :: "env \<Rightarrow> HVRequest \<Rightarrow> hv \<Rightarrow> hv_outcome" where
  "command_hv_electrical_monitoring e rq = simple
    (seq (get_ch_electrical e (channels_or_all rq)) (\<lambda>(r, d). ret (wrap_hv_action rq r (ElectricalData r d))))"

definition command_hv_status_alarm_monitoring :: "env \<Rightarrow> HVRequest \<Rightarrow> hv \<Rightarrow> hv_outcome" where
  "command_hv_status_alarm_monitoring e rq = simple
    (seq (get_ch_status_and_alarm e (channels_or_all rq)) (\<lambda>(r, d).
      ret (wrap_hv_action rq r (StatusAlarmData r d))))"

definition command_hv_channel_lists :: "env \<Rightarrow> HVRequest \<Rightarrow> hv \<Rightarrow> hv_outcome" where
  "command_hv_channel_lists e rq s = Some (Inr (hv_ok rq (ListsData (get_channel_lists s))), s)"

definition command_hv_monitor_snapshot :: "env \<Rightarrow> HVRequest \<Rightarrow> hv \<Rightarrow> hv_outcome" where
  "command_hv_monitor_snapshot e rq = simple
    (seq (monitor_snapshot e (channels_or_all rq)) (\<lambda>d.
      ret (if electrical_failed d \<noteq> [] \<or> status_alarm_failed d \<noteq> [] then hv_err rq (SnapshotData d) HvFailed else hv_ok rq (SnapshotData d))))"

definition HV_COMMAND_HANDLERS :: "(string, env \<Rightarrow> HVRequest \<Rightarrow> hv \<Rightarrow> hv_outcome) dict" where
  "HV_COMMAND_HANDLERS =
    [(''set_common_voltage'', command_common_voltage),
     (''set_common_threshold'', command_common_threshold),
     (''set_acquisition_configuration'', command_acquisition_configuration),
     (''get_voltage_channels'', command_get_voltage),
     (''get_threshold_channels'', command_get_threshold),
     (''get_volt_thr_channels'', command_get_volt_thr_configuration),
     (''get_power_state_channels'', command_get_power_state),
     (''hv_set_user_bad'', command_hv_set_user_bad),
     (''hv_unset_user_bad'', command_hv_unset_user_bad),
     (''hv_on'', command_hv_on),
     (''hv_off'', command_hv_off),
     (''hv_force_off'', command_hv_force_off),
     (''hv_on_and_wait'', command_hv_on_and_wait),
     (''hv_off_and_wait'', command_hv_off_and_wait),
     (''set_hv_sync'', command_hv_sync),
     (''set_pmt_serials'', command_set_pmt_serials),
     (''get_serial_map'', command_get_serial_map),
     (''feb_change_address'', command_feb_change_address),
     (''check_channel_safety'', command_check_channel_safety),
     (''check_channel_power'', command_check_channel_power),
     (''check_recovery_bad'', command_check_recovery_bad),
     (''check_channel_acquisition'', command_check_channel_acquisition),
     (''hv_electrical_monitoring'', command_hv_electrical_monitoring),
     (''hv_status_alarm_monitoring'', command_hv_status_alarm_monitoring),
     (''hv_channel_lists'', command_hv_channel_lists),
     (''hv_monitor_snapshot'', command_hv_monitor_snapshot)]"

end
