(* ===== verification/HvService.thy ===== *)
theory HvService
  imports HvCommands WorkQueue
begin

text \<open>
  The service in front of the high voltage modules (\<open>client/hardware/hv/hv_service.py\<close>): the policy that
  filters commands, the worker that takes requests from a priority queue, the warnings and
  notifications that follow a command, and the turns of the two checking loops that queue periodic
  requests. A turn of a loop is one step; the time of its \<open>time.time()\<close> is an argument, and
  the queue's own wait is the choice of when a step happens.
\<close>

definition HV_POLICY_MONITOR_ONLY :: string where
  "HV_POLICY_MONITOR_ONLY = ''monitor_only''"

definition HV_POLICY_FULL_CONTROL :: string where
  "HV_POLICY_FULL_CONTROL = ''full_control''"

definition MONITOR_ONLY_ALLOWED_COMMANDS :: "string list" where
  "MONITOR_ONLY_ALLOWED_COMMANDS =
    [''set_hv_sync'', ''check_channel_safety'', ''check_channel_power'', ''check_recovery_bad'',
     ''check_channel_presence'', ''hv_off'', ''hv_force_off'', ''hv_off_and_wait'',
     ''set_common_voltage'', ''set_common_threshold'', ''set_acquisition_configuration'',
     ''get_voltage_channels'', ''get_threshold_channels'', ''get_volt_thr_channels'',
     ''get_power_state_channels'', ''set_pmt_serials'', ''feb_change_address'',
     ''hv_set_user_bad'', ''hv_unset_user_bad'', ''get_serial_map'', ''hv_monitor_snapshot'',
     ''hv_electrical_monitoring'', ''hv_status_alarm_monitoring'', ''hv_channel_lists'']"

text \<open>What the service reports: the two callbacks, and the entries of the warning queue.\<close>

datatype hv_report =
    StateChange string
  | ParameterUpdate string HVRequest HVResponse
  | BecameBad string "safety_entry list"
  | PowerAligned string "int list" "int list"
  | ChannelsRecovered string "int list"

record hv_service =
  sv_hv :: hv
  hv_policy :: string
  hv_queue :: "HVRequest pqueue"
  hv_counter :: nat
  hv_responses :: "(nat \<times> HVResponse) list"
  hv_reports :: "hv_report list"
  safety_check_pending :: bool
  recovery_check_pending :: bool
  power_check_pending :: bool
  check_acquisition_channels_pending :: bool
  last_recovery_check :: int
  last_power_check :: int
  last_acquisition_check :: int

text \<open>The state when the object exists and both checking loops have been entered at time \<open>t\<close>.\<close>

definition init_hv_service :: "hv \<Rightarrow> string \<Rightarrow> int \<Rightarrow> hv_service" where
  "init_hv_service h policy t = \<lparr>sv_hv = h, hv_policy = policy, hv_queue = [], hv_counter = 0,
     hv_responses = [], hv_reports = [], safety_check_pending = False, recovery_check_pending = False,
     power_check_pending = False, check_acquisition_channels_pending = False,
     last_recovery_check = t, last_power_check = t, last_acquisition_check = t\<rparr>"

definition set_policy :: "string \<Rightarrow> hv_service \<Rightarrow> hv_service" where
  "set_policy p s = s\<lparr>hv_policy := p\<rparr>"

definition is_command_allowed :: "string \<Rightarrow> string \<Rightarrow> bool" where
  "is_command_allowed policy cmd =
    (if policy = HV_POLICY_FULL_CONTROL then True
     else if policy = HV_POLICY_MONITOR_ONLY then cmd \<in> set MONITOR_ONLY_ALLOWED_COMMANDS
     else False)"

definition hv_execute_response :: "env \<Rightarrow> HVRequest \<Rightarrow> hv_service \<Rightarrow> (HVResponse \<times> hv_service) option" where
  "hv_execute_response e rq s =
    (if \<not> is_command_allowed (hv_policy s) (hq_command rq)
     then Some (hv_err rq (BlockedByPolicy (hv_policy s)) HvBlocked, s)
     else case dict_get HV_COMMAND_HANDLERS (hq_command rq) of
       None \<Rightarrow> Some (hv_err rq NoData HvUnknown, s)
     | Some handler \<Rightarrow>
         map_option (\<lambda>(r, h). (case r of Inl x \<Rightarrow> hv_err rq NoData (HvRaised x) | Inr rsp \<Rightarrow> rsp,
                               s\<lparr>sv_hv := h\<rparr>))
           (handler e rq (sv_hv s)))"

text \<open>\<open>_hv_warnings\<close>: only the periodic checks warn.\<close>

definition hv_warnings :: "HVRequest \<Rightarrow> HVResponse \<Rightarrow> hv_report list" where
  "hv_warnings rq rsp =
    (if hq_sender rq \<notin> {Some ''hv_safety_check'', Some ''hv_bad_recovery'', Some ''hv_power_check''} then []
     else case hs_result rsp of
       SafetyData checked bads \<Rightarrow>
         if hq_command rq = ''check_channel_safety'' \<and> bads \<noteq> [] then [BecameBad (hq_id rq) bads] else []
     | PowerCheckData checked ons offs fails \<Rightarrow>
         if hq_command rq = ''check_channel_power'' \<and> (ons \<noteq> [] \<or> offs \<noteq> [])
         then [PowerAligned (hq_id rq) ons offs] else []
     | RecoveryData rs \<Rightarrow>
         let back = map fst (filter (\<lambda>(ch, r). r \<noteq> StillBad) rs) in
         if hq_command rq = ''check_recovery_bad'' \<and> back \<noteq> []
         then [ChannelsRecovered (hq_id rq) back] else []
     | _ \<Rightarrow> [])"

definition NOTIFYING_COMMANDS :: "string list" where
  "NOTIFYING_COMMANDS =
    [''hv_on'', ''hv_off'', ''hv_on_and_wait'', ''set_hv_sync'', ''check_channel_safety'',
     ''check_channel_power'', ''check_recovery_bad'', ''hv_monitor_snapshot'',
     ''hv_electrical_monitoring'', ''hv_status_alarm_monitoring'', ''hv_channel_lists'']"

definition PARAMETER_COMMANDS :: "string list" where
  "PARAMETER_COMMANDS = [''set_common_voltage'', ''set_common_threshold'', ''set_acquisition_configuration'']"

definition clear_pending :: "string \<Rightarrow> hv_service \<Rightarrow> hv_service" where
  "clear_pending cmd s =
    (if cmd = ''check_channel_safety'' then s\<lparr>safety_check_pending := False\<rparr>
     else if cmd = ''check_recovery_bad'' then s\<lparr>recovery_check_pending := False\<rparr>
     else if cmd = ''check_channel_power'' then s\<lparr>power_check_pending := False\<rparr>
     else s)"

text \<open>One turn of the worker; \<open>None\<close> while a command waits without end.\<close>

definition hv_worker_step :: "env \<Rightarrow> int \<Rightarrow> hv_service \<Rightarrow> hv_service option" where
  "hv_worker_step e t s =
    (case pq_get (hv_queue s) of
       None \<Rightarrow> Some s
     | Some ((prio, n, rq), q) \<Rightarrow>
         let s1 = s\<lparr>hv_queue := q\<rparr> in
         if (case hq_deadline rq of None \<Rightarrow> False | Some d \<Rightarrow> t > d)
         then Some (clear_pending (hq_command rq)
                (s1\<lparr>hv_responses := hv_responses s1 @ [(n, hv_err rq NoData HvExpired)]\<rparr>))
         else map_option (\<lambda>(rsp, s2).
             clear_pending (hq_command rq)
               (s2\<lparr>hv_reports := hv_reports s2 @ hv_warnings rq rsp
                     @ (if hq_command rq \<in> set NOTIFYING_COMMANDS then [StateChange (hq_command rq)] else [])
                     @ (if hq_command rq \<in> set PARAMETER_COMMANDS
                        then [ParameterUpdate (hq_command rq) rq rsp] else []),
                   hv_responses := hv_responses s2 @ [(n, rsp)]\<rparr>))
           (hv_execute_response e rq s1))"

section \<open>Requests\<close>

definition hv_enqueue :: "int \<Rightarrow> HVRequest \<Rightarrow> hv_service \<Rightarrow> hv_service" where
  "hv_enqueue prio rq s =
    s\<lparr>hv_queue := pq_put (prio, hv_counter s, rq) (hv_queue s), hv_counter := Suc (hv_counter s)\<rparr>"

definition hv_submit_request :: "HVRequest \<Rightarrow> int \<Rightarrow> int \<Rightarrow> int \<Rightarrow> hv_service \<Rightarrow> hv_service" where
  "hv_submit_request rq prio timeout t s =
    hv_enqueue prio (if hq_deadline rq = None then rq\<lparr>hq_deadline := Some (t + timeout)\<rparr> else rq) s"

definition hv_request_result :: "HVRequest \<Rightarrow> nat \<Rightarrow> hv_service \<Rightarrow> HVResponse" where
  "hv_request_result rq n s =
    (case map_of (hv_responses s) n of None \<Rightarrow> hv_err rq NoData HvTimeout | Some rsp \<Rightarrow> rsp)"

section \<open>Periodic checks\<close>

definition empty_payload :: hv_payload where
  "empty_payload = \<lparr>p_channels = None, p_list = [], p_voltage = None, p_threshold = None,
     p_configuration = None, p_wait_ramp = False, p_timeout = None, p_poll = None, p_acq_info = None,
     p_channel_index = None, p_standard_addr = None, p_serials = []\<rparr>"

definition check_request :: "string \<Rightarrow> string \<Rightarrow> hv_payload \<Rightarrow> int \<Rightarrow> HVRequest" where
  "check_request cmd snder p d = \<lparr>hq_id = cmd, hq_command = cmd, hq_payload = p,
     hq_sender = Some snder, hq_deadline = Some d\<rparr>"

text \<open>The periods and deadlines of the class, in milliseconds.\<close>

definition SAFETY_CHECK_DEADLINE :: int where "SAFETY_CHECK_DEADLINE = 30000"

definition RECOVERY_CHECK_PERIOD :: int where "RECOVERY_CHECK_PERIOD = 300000"

definition RECOVERY_CHECK_DEADLINE :: int where "RECOVERY_CHECK_DEADLINE = 30000"

definition POWER_CHECK_PERIOD :: int where "POWER_CHECK_PERIOD = 300000"

definition CHECK_CHANNELS_ACQUISITION_PERIOD :: int where "CHECK_CHANNELS_ACQUISITION_PERIOD = 600000"

definition ACQUISITION_CHECK_DEADLINE :: int where "ACQUISITION_CHECK_DEADLINE = 120000"

definition safety_turn :: "int \<Rightarrow> hv_service \<Rightarrow> hv_service" where
  "safety_turn t s =
    (let chs = on_ch (sv_hv s) in
     if chs \<noteq> [] \<and> \<not> safety_check_pending s
     then hv_enqueue 0 (check_request ''check_channel_safety'' ''hv_safety_check''
            (empty_payload\<lparr>p_list := chs\<rparr>) (t + SAFETY_CHECK_DEADLINE)) (s\<lparr>safety_check_pending := True\<rparr>)
     else s)"

definition power_turn :: "int \<Rightarrow> hv_service \<Rightarrow> hv_service" where
  "power_turn t s =
    (let chs = ok_ch (sv_hv s) in
     if chs \<noteq> [] \<and> t - last_power_check s > POWER_CHECK_PERIOD \<and> \<not> power_check_pending s
     then hv_enqueue 3 (check_request ''check_channel_power'' ''hv_power_check''
            (empty_payload\<lparr>p_list := chs\<rparr>) (t + SAFETY_CHECK_DEADLINE))
            (s\<lparr>power_check_pending := True, last_power_check := t\<rparr>)
     else s)"

definition recovery_turn :: "int \<Rightarrow> hv_service \<Rightarrow> hv_service" where
  "recovery_turn t s =
    (if bad_ch (sv_hv s) \<noteq> [] \<and> t - last_recovery_check s > RECOVERY_CHECK_PERIOD
        \<and> \<not> recovery_check_pending s
     then hv_enqueue 3 (check_request ''check_recovery_bad'' ''hv_bad_recovery''
            empty_payload (t + RECOVERY_CHECK_DEADLINE))
            (s\<lparr>recovery_check_pending := True, last_recovery_check := t\<rparr>)
     else s)"

definition check_channels_turn :: "int \<Rightarrow> hv_service \<Rightarrow> hv_service" where
  "check_channels_turn t s = recovery_turn t (power_turn t (safety_turn t s))"

text \<open>
  The turn of the acquisition check. Nothing ever clears its pending flag: the worker's \<open>finally\<close> does
  not know the command \<open>check_channel_acquisition\<close>.
\<close>

definition acquisition_turn ::
  "(int, (string, pyval) dict) dict option \<Rightarrow> int \<Rightarrow> hv_service \<Rightarrow> hv_service" where
  "acquisition_turn acq_info t s =
    (if getOkOffChannels (sv_hv s) \<noteq> []
        \<and> t - last_acquisition_check s > CHECK_CHANNELS_ACQUISITION_PERIOD
     then
       (if \<not> check_acquisition_channels_pending s
        then hv_enqueue 3 (check_request ''check_channel_acquisition'' ''hv_acquisition_check''
               (empty_payload\<lparr>p_acq_info := acq_info\<rparr>) (t + ACQUISITION_CHECK_DEADLINE))
               (s\<lparr>check_acquisition_channels_pending := True\<rparr>)
        else s)\<lparr>last_acquisition_check := t\<rparr>
     else s)"

text \<open>The steps of a running service: a request, the worker, the two loops, a change of policy.\<close>

datatype hv_service_call =
    HvSubmit HVRequest int int int
  | HvWork int
  | HvCheck int
  | HvAcquisitionCheck "(int, (string, pyval) dict) dict option" int
  | HvPolicy string

fun hv_service_step :: "env \<Rightarrow> hv_service_call \<Rightarrow> hv_service \<Rightarrow> hv_service" where
  "hv_service_step e (HvSubmit rq prio timeout t) s = hv_submit_request rq prio timeout t s"
| "hv_service_step e (HvWork t) s = (case hv_worker_step e t s of None \<Rightarrow> s | Some s' \<Rightarrow> s')"
| "hv_service_step e (HvCheck t) s = check_channels_turn t s"
| "hv_service_step e (HvAcquisitionCheck i t) s = acquisition_turn i t s"
| "hv_service_step e (HvPolicy p) s = set_policy p s"

end
