(* ===== verification/HvProps.thy ===== *)
theory HvProps
  imports HvRuns
begin

text \<open>
  What the high voltage object guarantees: the lists stay consistent in every run; the commands that
  wait for a ramp always return, and settle every channel they used; the acquisition
  configuration reports the values it set; and three behaviours the code does not intend, each on a
  concrete environment.
\<close>

section \<open>The channels of a wait\<close>

definition destination :: "bool \<Rightarrow> hv \<Rightarrow> int list" where
  "destination up s = (if up then on_ch s else off_ch s)"

text \<open>
  The channels used by a command that waits are split into pending, settled and failed ones;
  the settled ones are usable and where they should be, the failed ones are bad and off.
\<close>

definition settling :: "bool \<Rightarrow> int set \<Rightarrow> wait \<Rightarrow> bool" where
  "settling up U w \<longleftrightarrow>
    hv_lists_ok (w_hv w) \<and> distinct (w_pending w) \<and>
    set (w_pending w) \<inter> set (w_done w) = {} \<and> set (w_pending w) \<inter> set (w_failed w) = {} \<and>
    set (w_done w) \<inter> set (w_failed w) = {} \<and>
    set (w_pending w) \<union> set (w_done w) \<union> set (w_failed w) = U \<and>
    set (w_pending w) \<subseteq> set (ok_ch (w_hv w)) \<and>
    set (w_done w) \<subseteq> set (ok_ch (w_hv w)) \<inter> set (destination up (w_hv w)) \<and>
    set (w_failed w) \<subseteq> set (bad_ch (w_hv w)) \<inter> set (off_ch (w_hv w))"

lemma settling_bus:
  "settling up U w \<Longrightarrow> bus_step A (w_hv w) s \<Longrightarrow> settling up U (w\<lparr>w_hv := s\<rparr>)"
  using bus_step_lists[of A "w_hv w" s] bus_step_ok[of A "w_hv w" s]
  by (auto simp: settling_def destination_def)

lemma settling_up:
  assumes "settling True U w" and "ch \<in> set (w_pending w)"
  shows "settling True U (wait_reached ch (moveToOn ch (w_hv w)) w)"
  using assms by (auto simp: settling_def destination_def keeps)

lemma settling_down:
  assumes "settling False U w" and "ch \<in> set (w_pending w)"
  shows "settling False U (wait_reached ch (moveToOff ch (w_hv w)) w)"
  using assms by (auto simp: settling_def destination_def keeps)

lemma settling_fails:
  assumes "settling up U w" and "ch \<in> set (w_pending w)"
  shows "settling up U (wait_fails ch (moveToBad ch (w_hv w)) w)"
  using assms by (auto simp: settling_def destination_def keeps)

lemma with_hv:
  "wait_reached ch s (w\<lparr>w_hv := s'\<rparr>) = wait_reached ch s w"
  "wait_fails ch s (w\<lparr>w_hv := s'\<rparr>) = wait_fails ch s w"
  by (simp_all add: wait_reached_def wait_fails_def)

text \<open>The same after calls on the bus, as the bodies of the loops combine them.\<close>

lemma settling_fails_bus:
  assumes "settling up U w" and "ch \<in> set (w_pending w)" and "bus_step A (w_hv w) s"
  shows "settling up U (wait_fails ch (moveToBad ch s) w)"
  using settling_fails[OF settling_bus[OF assms(1,3)], of ch] assms(2) by (simp add: with_hv)

lemma settling_shut_down:
  assumes "settling up U w" and "ch \<in> set (w_pending w)" and "bus_step UNIV (w_hv w) s"
  shows "settling up U (wait_fails ch (shut_down_bad e ch s) w)"
  unfolding shut_down_bad_def
  using assms shut_down_bus[of ch UNIV s e] by (blast intro: settling_fails_bus bus_step_trans)

lemma read_bus:
  "read_status_alarm e ch s = (r, s1) \<Longrightarrow> bus_step UNIV s s1"
  "getStatus e ch s = (q, s1) \<Longrightarrow> bus_step UNIV s s1"
  using bus_onlyD[OF read_status_alarm_bus] bus_onlyD[OF register_ops_bus(1)] by (metis UNIV_I)+

lemma wait_up_body_settling:
  assumes w: "settling True U w" and ch: "ch \<in> set (w_pending w)"
  shows "settling True U (wait_up_body e ch w)"
proof -
  obtain r s1 where r: "read_status_alarm e ch (w_hv w) = (r, s1)"
    by (cases "read_status_alarm e ch (w_hv w)")
  note b = read_bus(1)[OF r]
  have "settling True U (wait_reached ch (moveToOn ch s1) w)"
    using settling_up[OF settling_bus[OF w b], of ch] ch by (simp add: with_hv)
  then show ?thesis
    using settling_shut_down[OF w ch b, of e] settling_bus[OF w b]
    by (cases r) (simp_all add: wait_up_body_def r case_prod_beta)
qed

lemma wait_down_body_settling:
  assumes w: "settling False U w" and ch: "ch \<in> set (w_pending w)"
  shows "settling False U (wait_down_body e ch w)"
proof -
  obtain r s1 where r: "getStatus e ch (w_hv w) = (r, s1)" by (cases "getStatus e ch (w_hv w)")
  note b = read_bus(2)[OF r]
  have "settling False U (wait_reached ch (moveToOff ch s1) w)"
    using settling_down[OF settling_bus[OF w b], of ch] ch by (simp add: with_hv)
  then show ?thesis
    using settling_shut_down[OF w ch b, of e] settling_fails_bus[OF w ch b] settling_bus[OF w b]
    by (cases r) (auto simp: wait_down_body_def r)
qed

lemma poll_settling:
  assumes run: "poll_loop n e d poll body w = Some w'" and polls: "polls body"
    and w: "settling up U w"
    and body: "\<And>w ch. settling up U w \<Longrightarrow> ch \<in> set (w_pending w) \<Longrightarrow> settling up U (body ch w)"
  shows "settling up U w'"
proof (rule poll_loop_pending[OF run, of "settling up U"])
  show "set (w_pending v) - {ch} \<subseteq> set (w_pending (body ch v))" for v ch
  proof -
    have "w_pending (body ch v) \<in> {w_pending v, remove1 ch (w_pending v)}"
      using polls by (simp add: polls_def)
    then show ?thesis by (auto dest: in_set_remove1[THEN iffD2, rotated])
  qed
  show "distinct (w_pending v)" if "settling up U v" for v using that by (simp add: settling_def)
qed (fact w settling_bus body)+

text \<open>The channels still pending at the end fail too.\<close>

lemma settling_rest:
  assumes "settling up U w"
    and g: "\<And>ch s. \<exists>s1. bus_step UNIV s s1 \<and> g ch s = moveToBad ch s1"
  shows "\<exists>w'. settling up U w' \<and> w_pending w' = [] \<and> w_done w' = w_done w \<and>
    w_failed w' = w_failed w @ w_pending w \<and> w_hv w' = fold g (w_pending w) (w_hv w)"
  using assms(1)
proof (induction "w_pending w" arbitrary: w)
  case Nil
  then show ?case by (intro exI[of _ w]) simp
next
  case (Cons ch ps)
  obtain s1 where s1: "bus_step UNIV (w_hv w) s1" "g ch (w_hv w) = moveToBad ch s1" using g by blast
  let ?v = "wait_fails ch (g ch (w_hv w)) w"
  have p: "w_pending w = ch # ps" using Cons(2) by simp
  have "settling up U ?v" unfolding s1(2)
    by (rule settling_fails_bus[OF Cons(3) _ s1(1)]) (simp add: p)
  from Cons(1)[OF _ this] p show ?case by (auto simp: Cons(2)[symmetric])
qed

lemma try_each_lists:
  assumes "try_each f unchanged bad chs s = (outs, s')" and "hv_lists_ok s"
    and f: "\<And>ch. bus_only UNIV (f ch)"
    and bad: "\<And>ch s. \<exists>s1. bus_step UNIV s s1 \<and> bad ch s = moveToBad ch s1"
  shows "hv_lists_ok s' \<and> set (ok_ch s') = set (ok_ch s) - set (raised outs) \<and>
    set (raised outs) \<subseteq> set (bad_ch s') \<inter> set (off_ch s') \<and>
    set (bad_ch s) \<inter> set (off_ch s) \<subseteq> set (bad_ch s') \<inter> set (off_ch s')"
  using assms(1,2)
proof (induction chs arbitrary: s outs)
  case Nil
  then show ?case by (simp add: raised_def)
next
  case (Cons ch chs)
  obtain r s1 where r: "f ch s = (r, s1)" by (cases "f ch s")
  note b = bus_onlyD[OF f r]
  note l = bus_step_lists[OF b] bus_step_ok[OF b]
  show ?case
  proof (cases r)
    case (Inr x)
    obtain o' where o': "try_each f unchanged bad chs s1 = (o', s')" "outs = (ch, Some x) # o'"
      using Cons.prems(1) by (auto simp: r Inr unchanged_def[of ch s1] split: prod.splits)
    then show ?thesis using Cons.IH[OF o'(1)] Cons.prems(2) l by (auto simp: raised_def)
  next
    case (Inl x)
    obtain s2 where s2: "bus_step UNIV s1 s2" "bad ch s1 = moveToBad ch s2" using bad by blast
    obtain o' where o': "try_each f unchanged bad chs (moveToBad ch s2) = (o', s')" "outs = (ch, None) # o'"
      using Cons.prems(1) by (auto simp: r Inl s2(2) split: prod.splits)
    have ok: "hv_lists_ok s2" using Cons.prems(2) l bus_step_ok[OF s2(1)] by simp
    show ?thesis
      using Cons.IH[OF o'(1) moveToBad_ok[OF ok]] l bus_step_lists[OF s2(1)] o'(2)
      by (auto simp: raised_def ok)
  qed
qed

lemma try_each_distinct:
  assumes "try_each f good bad chs s = (outs, s')" and "distinct chs"
  shows "distinct (succeeded outs) \<and> set (succeeded outs) \<inter> set (raised outs) = {}"
proof -
  have d: "distinct (map fst outs)" using try_each_channels[of f good bad chs s] assms by simp
  then have "distinct (succeeded outs)" by (simp add: succeeded_def distinct_map_filter)
  moreover from d have "fst x \<noteq> fst y" if "x \<in> set outs" "y \<in> set outs" "x \<noteq> y" for x y
    using that by (meson distinct_map inj_onD)
  then have "set (succeeded outs) \<inter> set (raised outs) = {}"
    by (fastforce simp: succeeded_def raised_def)
  ultimately show ?thesis ..
qed

lemma settling_start:
  assumes t: "try_each f unchanged bad used s = (outs, s1)"
    and s: "hv_lists_ok s" "distinct used" "set used \<subseteq> set (ok_ch s)"
    and f: "\<And>ch. bus_only UNIV (f ch)"
    and bad: "\<And>ch s. \<exists>s1. bus_step UNIV s s1 \<and> bad ch s = moveToBad ch s1"
    and s2: "bus_step UNIV s1 s2"
  shows "settling up (set used)
    \<lparr>w_pending = filter (\<lambda>ch. ch \<notin> set (raised outs)) (succeeded outs), w_done = [],
     w_failed = raised outs, w_hv = s2\<rparr>"
  using try_each_lists[OF t s(1) f bad] try_each_distinct[OF t s(2)] try_each_subset[OF t] s
    bus_step_lists[OF s2] bus_step_ok[OF s2]
  by (auto simp: settling_def)

section \<open>Commands that wait\<close>

text \<open>A demonstration environment: every module answers, is up and has no alarm.\<close>

definition demo_env :: env where
  "demo_env = \<lparr>conn = (\<lambda>h. Inr True), regs = (\<lambda>h. Inr (Some [0])), direct = (\<lambda>h. Inr [0]), wrote = (\<lambda>h. Inr True),
     int32 = (\<lambda>rs. Inr 0), now = slept, mono = slept\<rparr>"

lemma demo_env_clock: "clock_law demo_env"
  by (simp add: clock_law_def demo_env_def slept_def)

lemma shut_down_bad_form: "\<exists>s1. bus_step UNIV s s1 \<and> shut_down_bad e ch s = moveToBad ch s1"
  using shut_down_bus[of ch UNIV s e] by (auto simp: shut_down_bad_def)

lemma moveToBad_form: "\<exists>s1. bus_step UNIV s s1 \<and> moveToBad ch s = moveToBad ch s1"
  by (rule exI[of _ s]) simp

lemma polls_end:
  assumes "clock_law e" and "0 < poll" and "polls body" and "read_clock e s = (t0, w_hv w)"
  shows "\<exists>w'. poll_loop (poll_fuel timeout poll) e (t0 + int timeout) poll body w = Some w'"
proof (rule poll_loop_fuel[OF assms(1,2) _ assms(4)])
  show "\<exists>A. hv_step A (w_hv v) (w_hv (body ch v))" for ch v
    using pollsD[OF assms(3), of ch UNIV v] by auto
qed

text \<open>The accesses allowed: to the channels used, powering them on only when that is the command.\<close>

definition commanded :: "bool \<Rightarrow> int list \<Rightarrow> (int \<times> bool) set" where
  "commanded up used = (if up then set used \<times> UNIV else quiet (set used))"

text \<open>What a command that waits leaves behind: its result, over the state it returns.\<close>

definition settled :: "bool \<Rightarrow> int list \<Rightarrow> hv \<Rightarrow> hv_result \<Rightarrow> hv \<Rightarrow> bool" where
  "settled up l s r s' \<longleftrightarrow>
    hv_lists_ok s' \<and> used_channels r = filter (\<lambda>ch. ch \<in> set (ok_ch s)) l \<and>
    set (successful_channels r) \<union> set (failed_channels r) = set (used_channels r) \<and>
    set (successful_channels r) \<inter> set (failed_channels r) = {} \<and>
    set (successful_channels r) \<subseteq> set (ok_ch s') \<inter> set (destination up s') \<and>
    set (failed_channels r) \<subseteq> set (bad_ch s') \<inter> set (off_ch s') \<and>
    (\<exists>m. calls s' = calls s @ m \<and> addressed m \<subseteq> commanded up (used_channels r))"

lemma settled_end:
  assumes w: "settling up (set used) w"
    and g: "\<And>ch s. \<exists>s1. bus_step UNIV s s1 \<and> g ch s = moveToBad ch s1"
    and step: "hv_step (commanded up used) s (fold g (w_pending w) (w_hv w))"
    and used: "used = filter (\<lambda>ch. ch \<in> set (ok_ch s)) l"
  shows "settled up l s \<lparr>requested_channels = l, used_channels = used, skipped_channels = sk,
      successful_channels = sort (w_done w), failed_channels = sorted_set (w_failed w @ w_pending w)\<rparr>
    (fold g (w_pending w) (w_hv w))"
proof -
  obtain w' where w': "settling up (set used) w'" "w_pending w' = []" "w_done w' = w_done w"
    "w_failed w' = w_failed w @ w_pending w" "w_hv w' = fold g (w_pending w) (w_hv w)"
    using settling_rest[OF w g] by blast
  then have "set (w_done w) \<union> set (w_failed w @ w_pending w) = set used"
    "set (w_done w) \<inter> set (w_failed w @ w_pending w) = {}"
    by (auto simp: settling_def)
  then show ?thesis
    using w' step used by (auto simp: settled_def settling_def hv_step_def)
qed

text \<open>
  Claim C19. Switching channels on and waiting for them always returns, whatever the modules answer,
  provided the clock advances while the program sleeps. Every channel used was usable before
  and is afterwards either on, or bad and off; no other module is ever addressed.
\<close>

theorem on_and_wait_settles:
  assumes clock: "clock_law e" and poll: "0 < poll"
    and s: "hv_lists_ok s" and l: "hv_channels_definition chs 7 = Inr l" "distinct l"
  shows "\<exists>r s'. on_and_wait e chs timeout poll s = Some (Inr r, s') \<and> settled True l s r s'"
proof -
  let ?used = "filter (\<lambda>ch. ch \<in> set (ok_ch s)) l"
  obtain outs s1 where t: "try_each (powerOn e) unchanged (shut_down_bad e) ?used s = (outs, s1)"
    by (cases "try_each (powerOn e) unchanged (shut_down_bad e) ?used s")
  obtain t0 s2 where c: "read_clock e (sleep 500 s1) = (t0, s2)" by (cases "read_clock e (sleep 500 s1)")
  let ?w = "\<lparr>w_pending = filter (\<lambda>ch. ch \<notin> set (raised outs)) (succeeded outs), w_done = [],
     w_failed = raised outs, w_hv = s2\<rparr>"
  have s2: "bus_step UNIV s1 s2"
    using c bus_step_trans[of UNIV s1 "sleep 500 s1" s2] by (auto simp: read_clock_def sleep_def Let_def)
  have "settling True (set ?used) ?w"
    by (rule settling_start[OF t s _ _ _ _ s2])
       (use l(2) shut_down_bad_form in \<open>auto intro!: bus_rules\<close>)
  moreover obtain w where w: "poll_loop (poll_fuel timeout poll) e (t0 + int timeout) poll (wait_up_body e) ?w = Some w"
    using polls_end[OF clock poll bodies_poll(1), of "sleep 500 s1" t0 ?w timeout] c by auto
  ultimately have "settling True (set ?used) w"
    using poll_settling[OF w bodies_poll(1)] wait_up_body_settling by blast
  moreover have run: "on_and_wait e chs timeout poll s = Some (Inr \<lparr>requested_channels = l,
      used_channels = ?used, skipped_channels = filter (\<lambda>ch. ch \<notin> set (ok_ch s)) l,
      successful_channels = sort (w_done w), failed_channels = sorted_set (w_failed w @ w_pending w)\<rparr>,
      fold (shut_down_bad e) (w_pending w) (w_hv w))"
    by (simp add: on_and_wait_def l split_ok_def t c w Let_def)
  moreover have "hv_step (commanded True ?used) s (fold (shut_down_bad e) (w_pending w) (w_hv w))"
    using on_and_wait_step[OF run l(1)] by (simp add: split_ok_def commanded_def)
  ultimately show ?thesis
    using settled_end[where g = "shut_down_bad e", OF _ shut_down_bad_form] by blast
qed

definition demo_hv :: hv where
  "demo_hv = snd (hv_init demo_env [2])"

lemma demo_hv_ok: "hv_lists_ok demo_hv" by code_simp

theorem on_and_wait_settles_witness:
  "\<exists>r s'. on_and_wait demo_env (PStr ''1,2,3'') 360000 2000 demo_hv = Some (Inr r, s') \<and>
    settled True [1, 2, 3] demo_hv r s'"
proof -
  have "hv_channels_definition (PStr ''1,2,3'') 7 = Inr [1, 2, 3]" by code_simp
  then show ?thesis
    using on_and_wait_settles[OF demo_env_clock _ demo_hv_ok] by simp
qed

text \<open>
  Switching channels off and waiting for them always returns, and every channel used is
  afterwards either usable and off, or bad and off; no module is powered on.
\<close>

theorem off_and_wait_settles:
  assumes clock: "clock_law e" and poll: "0 < poll"
    and s: "hv_lists_ok s" and l: "hv_channels_definition chs 7 = Inr l" "distinct l"
  shows "\<exists>r s'. off_and_wait e chs timeout poll s = Some (Inr r, s') \<and> settled False l s r s'"
proof -
  let ?used = "filter (\<lambda>ch. ch \<in> set (ok_ch s)) l"
  obtain outs s1 where t: "try_each (powerOff e) unchanged moveToBad ?used s = (outs, s1)"
    by (cases "try_each (powerOff e) unchanged moveToBad ?used s")
  obtain t0 s2 where c: "read_clock e s1 = (t0, s2)" by (cases "read_clock e s1")
  let ?w = "\<lparr>w_pending = filter (\<lambda>ch. ch \<notin> set (raised outs)) (succeeded outs), w_done = [],
     w_failed = raised outs, w_hv = s2\<rparr>"
  have s2: "bus_step UNIV s1 s2" using c by (auto simp: read_clock_def Let_def)
  have "settling False (set ?used) ?w"
    by (rule settling_start[OF t s _ _ _ _ s2])
       (use l(2) moveToBad_form in \<open>auto intro!: bus_rules\<close>)
  moreover obtain w where w: "poll_loop (poll_fuel timeout poll) e (t0 + int timeout) poll (wait_down_body e) ?w = Some w"
    using polls_end[OF clock poll bodies_poll(2), of s1 t0 ?w timeout] c by auto
  ultimately have "settling False (set ?used) w"
    using poll_settling[OF w bodies_poll(2)] wait_down_body_settling by blast
  moreover have run: "off_and_wait e chs timeout poll s = Some (Inr \<lparr>requested_channels = l,
      used_channels = ?used, skipped_channels = filter (\<lambda>ch. ch \<notin> set (ok_ch s)) l,
      successful_channels = sort (w_done w), failed_channels = sorted_set (w_failed w @ w_pending w)\<rparr>,
      fold moveToBad (w_pending w) (w_hv w))"
    by (simp add: off_and_wait_def l split_ok_def t c w Let_def)
  moreover have "hv_step (commanded False ?used) s (fold moveToBad (w_pending w) (w_hv w))"
    using off_and_wait_step[OF run l(1)] by (simp add: split_ok_def commanded_def)
  ultimately show ?thesis
    using settled_end[OF _ moveToBad_form] by blast
qed

theorem off_and_wait_settles_witness:
  "\<exists>r s'. off_and_wait demo_env (PStr ''1,2,3'') 360000 2000 demo_hv = Some (Inr r, s') \<and>
    settled False [1, 2, 3] demo_hv r s'"
proof -
  have "hv_channels_definition (PStr ''1,2,3'') 7 = Inr [1, 2, 3]" by code_simp
  then show ?thesis
    using off_and_wait_settles[OF demo_env_clock _ demo_hv_ok] by simp
qed

section \<open>Acquisition configuration\<close>

lemma seq_Inr_iff:
  "seq f g s = (Inr y, s') \<longleftrightarrow> (\<exists>x s1. f s = (Inr x, s1) \<and> g x s1 = (Inr y, s'))"
  by (auto simp: seq_def split: prod.split sum.split)

lemma ret_iff [simp]: "ret x s = (Inr y, s') \<longleftrightarrow> x = y \<and> s = s'"
  by (auto simp: ret_def)

text \<open>The value set for a channel: the configured one, rounded, or the one it had.\<close>

definition follows :: "pyval option \<Rightarrow> int \<Rightarrow> int \<Rightarrow> bool" where
  "follows v prev new \<longleftrightarrow> (case v of None \<Rightarrow> new = prev | Some x \<Rightarrow> py_round x = Inr new)"

definition applied_ok :: "acq_configuration \<Rightarrow> int \<Rightarrow> applied \<Rightarrow> bool" where
  "applied_ok cfg ch a \<longleftrightarrow>
    (case channel_config cfg (ch - 1) of
       None \<Rightarrow> False
     | Some c \<Rightarrow> follows (given c ''voltage'') (prev_voltage a) (new_voltage a) \<and>
         follows (given c ''threshold'') (prev_threshold a) (new_threshold a))"

lemma rounded_follows: "rounded prev v s = (Inr new, s') \<Longrightarrow> follows v prev new"
  by (auto simp: rounded_def follows_def split: option.splits)

lemma configure_one_applied: "configure_one e cfg ch s = (Inr (Some a), s') \<Longrightarrow> applied_ok cfg ch a"
  by (auto simp: configure_one_def applied_ok_def Let_def seq_Inr_iff dest!: rounded_follows
      split: option.splits if_splits)

lemma try_each_value:
  "(ch, Some x) \<in> set (fst (try_each f good bad chs s)) \<Longrightarrow> \<exists>s1 s2. f ch s1 = (Inr x, s2)"
  by (induction chs arbitrary: s)
     (auto simp: Let_def case_prod_beta split: sum.splits, metis prod.collapse)

lemma set_configured: "(ch, a) \<in> set (configured outs) \<longleftrightarrow> (ch, Some (Some a)) \<in> set outs"
  by (force simp: configured_def List.map_filter_def split: option.splits)

lemma configured_split:
  "fst ` set outs = fst ` set (configured outs) \<union> set (not_configured outs)"
  by (induction outs)
     (auto simp: configured_def not_configured_def List.map_filter_def split: option.splits)

lemma configured_disjoint:
  "distinct (map fst outs) \<Longrightarrow> fst ` set (configured outs) \<inter> set (not_configured outs) = {}"
proof (induction outs)
  case (Cons x outs)
  obtain ch v where x: "x = (ch, v)" by (cases x)
  have "ch \<notin> fst ` set (configured outs)" "ch \<notin> set (not_configured outs)"
    using Cons.prems configured_split[of outs] by (auto simp: x)
  with Cons show ?case
    by (auto simp: x configured_def not_configured_def List.map_filter_def split: option.splits)
qed (simp add: configured_def not_configured_def)

lemma dict_get_fold_set:
  "dict_get (fold (\<lambda>(k, v) d. dict_set k v d) xs d) = dict_get d ++ map_of (rev xs)"
  by (induction xs arbitrary: d) (auto simp: update_conv' fun_eq_iff map_add_def split: option.split)

lemma dict_get_collected:
  "k \<in> fst ` set xs \<Longrightarrow> \<exists>v. dict_get (fold (\<lambda>(k, v) d. dict_set k v d) xs []) k = Some v \<and> (k, v) \<in> set xs"
  by (cases "map_of (rev xs) k") (auto simp: dict_get_fold_set map_of_eq_None_iff dest: map_of_SomeD)

lemma ramp_failures:
  assumes "poll_loop n e d poll (ramp_body e) w = Some w'"
    and "set (w_pending w) \<union> set (w_failed w) \<subseteq> A"
  shows "set (w_pending w') \<union> set (w_failed w') \<subseteq> A"
proof (rule poll_loop_keeps[OF assms(1), of "\<lambda>w. set (w_pending w) \<union> set (w_failed w) \<subseteq> A" A])
  fix v :: wait and ch
  assume v: "set (w_pending v) \<union> set (w_failed v) \<subseteq> A" and ch: "ch \<in> A"
  have "w_failed (ramp_body e ch v) \<in> {w_failed v, w_failed v @ [ch]}"
    by (auto simp: ramp_body_def split: prod.split sum.split)
  with v ch polls_pending[OF bodies_poll(3), of e ch v]
  show "set (w_pending (ramp_body e ch v)) \<union> set (w_failed (ramp_body e ch v)) \<subseteq> A" by auto
qed (use assms(2) in auto)

lemma wait_ramp_end_returns:
  assumes "clock_law e" and "0 < poll"
  shows "\<exists>failed s'. wait_ramp_end e chs timeout poll s = Some (failed, s') \<and> set failed \<subseteq> set chs"
proof -
  obtain t0 s1 where c: "read_clock e (sleep 500 s) = (t0, s1)" by (cases "read_clock e (sleep 500 s)")
  let ?w = "\<lparr>w_pending = chs, w_done = [], w_failed = [], w_hv = s1\<rparr>"
  obtain w where w: "poll_loop (poll_fuel timeout poll) e (t0 + int timeout) poll (ramp_body e) ?w = Some w"
    using polls_end[OF assms bodies_poll(3), of "sleep 500 s" t0 ?w timeout] c by auto
  then have "set (w_pending w) \<union> set (w_failed w) \<subseteq> set chs" using ramp_failures[OF w] by simp
  with w show ?thesis by (auto simp: wait_ramp_end_def c Let_def)
qed

text \<open>The result of an acquisition configuration over the channels asked for.\<close>

definition configuration_reported ::
  "acq_configuration \<Rightarrow> int list \<Rightarrow> hv \<Rightarrow> hv_result \<Rightarrow> (int, applied) dict \<Rightarrow> bool" where
  "configuration_reported cfg l s r values \<longleftrightarrow>
    used_channels r = filter (\<lambda>ch. ch \<in> set (ok_ch s)) l \<and>
    set (successful_channels r) \<union> set (failed_channels r) = set (used_channels r) \<and>
    set (successful_channels r) \<inter> set (failed_channels r) = {} \<and>
    dom (dict_get values) = set (successful_channels r) \<and>
    list_all (\<lambda>ch. \<exists>a. dict_get values ch = Some a \<and> applied_ok cfg ch a) (successful_channels r)"

lemma configuration_reportedI:
  assumes t: "try_each (configure_one e cfg) unchanged moveToBad used s = (outs, s1)"
    and used: "used = filter (\<lambda>ch. ch \<in> set (ok_ch s)) l" "distinct used"
    and failed: "set failed \<subseteq> fst ` set (configured outs)"
  shows "configuration_reported cfg l s
    \<lparr>requested_channels = l, used_channels = used, skipped_channels = sk,
     successful_channels = filter (\<lambda>ch. ch \<notin> set failed) (map fst (configured outs)),
     failed_channels = not_configured outs @ failed\<rparr>
    (foldr dict_pop failed (fold (\<lambda>(ch, a) d. dict_set ch a d) (configured outs) []))"
proof -
  let ?d = "fold (\<lambda>(ch, a) d. dict_set ch a d) (configured outs) []"
  have chs: "map fst outs = used" using try_each_channels[of "configure_one e cfg" unchanged moveToBad used s] t by simp
  have get: "dict_get (foldr dict_pop failed ?d) = dict_get ?d |` (- set failed)" by (rule pd.foldr_pop)
  have dom: "dom (dict_get ?d) = fst ` set (configured outs)"
    by (simp add: dict_get_fold_set dom_map_of_conv_image_fst)
  have "\<exists>a. dict_get ?d ch = Some a \<and> applied_ok cfg ch a" if ch: "ch \<in> fst ` set (configured outs)" for ch
  proof -
    obtain a where a: "dict_get ?d ch = Some a" "(ch, a) \<in> set (configured outs)"
      using dict_get_collected[OF ch] by blast
    then have "(ch, Some (Some a)) \<in> set (fst (try_each (configure_one e cfg) unchanged moveToBad used s))"
      by (simp add: set_configured t)
    then obtain s2 s3 where "configure_one e cfg ch s2 = (Inr (Some a), s3)"
      by (blast dest: try_each_value)
    with a(1) show ?thesis by (blast dest: configure_one_applied)
  qed
  then have "\<exists>a. dict_get (foldr dict_pop failed ?d) ch = Some a \<and> applied_ok cfg ch a"
    if "ch \<in> fst ` set (configured outs)" "ch \<notin> set failed" for ch
    using that by (simp add: get)
  moreover have "set used = fst ` set outs" using chs by (metis list.set_map)
  ultimately show ?thesis
    using used configured_split[of outs] configured_disjoint[of outs] failed chs
    by (auto simp: configuration_reported_def get dom list_all_iff)
qed

text \<open>
  Setting the acquisition configuration always returns. Every channel used is reported as
  either set or failed; the values reported are those of the channels set, and each is the
  configured value, rounded, or the value the channel had where the configuration gives none.
\<close>

theorem acquisition_configuration_reported:
  assumes clock: "clock_law e" and poll: "0 < poll"
    and l: "hv_channels_definition chs 7 = Inr l" "distinct l"
  shows "\<exists>r values s'. set_acquisition_configuration e chs cfg wr timeout poll s =
      Some (Inr (r, values), s') \<and> configuration_reported cfg l s r values"
proof -
  let ?used = "filter (\<lambda>ch. ch \<in> set (ok_ch s)) l"
  obtain outs s1 where t: "try_each (configure_one e cfg) unchanged moveToBad ?used s = (outs, s1)"
    by (cases "try_each (configure_one e cfg) unchanged moveToBad ?used s")
  let ?ramp = "map fst (filter (\<lambda>(ch, a). ch \<in> set (if wr then on_ch s else []) \<and>
      new_voltage a \<noteq> prev_voltage a) (configured outs))"
  obtain failed s2 where f: "set failed \<subseteq> set ?ramp"
    "(if ?ramp = [] then Some ([], s1) else wait_ramp_end e ?ramp timeout poll s1) = Some (failed, s2)"
    using wait_ramp_end_returns[OF clock poll, of ?ramp timeout s1] by (cases "?ramp = []") auto
  have "set failed \<subseteq> fst ` set (configured outs)" using f(1) by force
  then have "configuration_reported cfg l s
    \<lparr>requested_channels = l, used_channels = ?used, skipped_channels = filter (\<lambda>ch. ch \<notin> set (ok_ch s)) l,
     successful_channels = filter (\<lambda>ch. ch \<notin> set failed) (map fst (configured outs)),
     failed_channels = not_configured outs @ failed\<rparr>
    (foldr dict_pop failed (fold (\<lambda>(ch, a) d. dict_set ch a d) (configured outs) []))"
    using configuration_reportedI[OF t refl] l(2) by simp
  then show ?thesis
    unfolding set_acquisition_configuration_def l sum.case split_ok_def prod.case Let_def t f(2)
      option.map by blast
qed

theorem acquisition_configuration_reported_witness:
  "\<exists>r values s'. set_acquisition_configuration demo_env (PList [PInt 3])
      [(Inr ''2'', [(''voltage'', PInt 900)])] True 360000 2000 demo_hv = Some (Inr (r, values), s') \<and>
    configuration_reported [(Inr ''2'', [(''voltage'', PInt 900)])] [3] demo_hv r values"
proof -
  have "hv_channels_definition (PList [PInt 3]) 7 = Inr [3]" by code_simp
  then show ?thesis using acquisition_configuration_reported[OF demo_env_clock] by simp
qed

section \<open>Power state\<close>

lemma power_state_ends:
  assumes clock: "clock_law e"
    and "calls s = h @ [Monotonic] @ m"
    and "deadline \<le> mono e (h @ [Monotonic]) + slept m + int n * int poll"
  shows "\<exists>r. power_state_loop (Suc n) e deadline ch poll s = Some r"
  using assms(2,3)
proof (induction n arbitrary: s m)
  case (0 s m)
  obtain q s1 where q: "power_state_turn e ch s = (q, s1)" by (cases "power_state_turn e ch s")
  have "hv_step (quiet UNIV) s s1" using power_state_turn_step[of s e ch] q by simp
  from grow_slept[OF this, of "h @ [Monotonic]" m] 0 obtain m1 where
    m1: "calls s1 = h @ [Monotonic] @ m1" "slept m1 \<ge> slept m" by auto
  have "mono e (h @ [Monotonic] @ m1 @ [Monotonic]) \<ge> deadline"
    using clock[unfolded clock_law_def, rule_format, THEN conjunct2, of h m1] 0 m1(2) by simp
  then show ?case by (auto simp: q read_monotonic_def issue_def Let_def m1(1) split: option.split)
next
  case (Suc n s m)
  obtain q s1 where q: "power_state_turn e ch s = (q, s1)" by (cases "power_state_turn e ch s")
  have "hv_step (quiet UNIV) s s1" using power_state_turn_step[of s e ch] q by simp
  from grow_slept[OF this, of "h @ [Monotonic]" m] Suc.prems(1) obtain m1 where
    m1: "calls s1 = h @ [Monotonic] @ m1" "slept m1 \<ge> slept m" by auto
  let ?s3 = "sleep poll (issue Monotonic s1)"
  have "calls ?s3 = h @ [Monotonic] @ (m1 @ [Monotonic, Sleep poll])"
    by (simp add: sleep_def issue_def m1(1))
  moreover have "deadline \<le> mono e (h @ [Monotonic]) + slept (m1 @ [Monotonic, Sleep poll]) + int n * int poll"
    using Suc.prems(2) m1(2) by (simp add: slept_def algebra_simps)
  ultimately have "\<exists>r. power_state_loop (Suc n) e deadline ch poll ?s3 = Some r" by (rule Suc.IH)
  then show ?case
    by (subst power_state_loop.simps(2))
       (auto simp: q read_monotonic_def Let_def simp del: power_state_loop.simps split: option.split)
qed

lemma power_state_each_returns:
  assumes "clock_law e" and "0 < poll"
  shows "\<exists>outs s'. power_state_each e timeout poll chs s = Some (outs, s') \<and> map fst outs = chs"
proof (induction chs arbitrary: s)
  case (Cons ch chs)
  let ?s1 = "issue Monotonic s" and ?t = "mono e (calls s @ [Monotonic])"
  have fuel: "?t + int timeout \<le> mono e (calls s @ [Monotonic]) + slept [] + int (Suc (timeout div poll)) * int poll"
    using poll_fuel_enough[OF assms(2), of timeout] by (simp del: of_nat_Suc)
  have "calls ?s1 = calls s @ [Monotonic] @ []" by (simp add: issue_def)
  then have "\<exists>r. power_state_loop (poll_fuel timeout poll) e (?t + int timeout) ch poll ?s1 = Some r"
    unfolding poll_fuel_def using power_state_ends[OF assms(1) _ fuel] by blast
  then obtain r s2 where "power_state_loop (poll_fuel timeout poll) e (?t + int timeout) ch poll ?s1 = Some (r, s2)"
    by fastforce
  then show ?case
    using Cons.IH[of s2] by (auto simp: read_monotonic_def Let_def issue_def)
qed simp

lemma dom_last_values: "dom (dict_get (last_values outs)) = set (succeeded outs)"
proof -
  have "dom (dict_get (fold (\<lambda>(ch, v) d. case v of None \<Rightarrow> d | Some x \<Rightarrow> dict_set ch x d) outs d)) =
      dom (dict_get d) \<union> set (succeeded outs)" for d :: "(int, 'a) dict"
  proof (induction outs arbitrary: d)
    case (Cons x outs)
    show ?case
    proof (cases x)
      case (Pair ch v)
      show ?thesis
        by (cases v) (auto simp: Pair Cons.IH succeeded_def update_conv')
    qed
  qed (simp add: succeeded_def)
  from this[of "[]"] show ?thesis by (simp add: last_values_def)
qed

text \<open>
  Reading the power state waits out the ramps and always returns: every channel asked for is
  reported either as successful, with its power state, or as failed.
\<close>

theorem power_state_returns:
  assumes "clock_law e" and "0 < poll"
    and "hv_channels_definition chs 7 = Inr l" and "distinct l"
  shows "\<exists>r d s'. get_power_state e chs timeout poll s = Some (Inr (r, d), s') \<and>
    set (successful_channels r) \<union> set (failed_channels r) = set l \<and>
    set (successful_channels r) \<inter> set (failed_channels r) = {} \<and>
    dom (dict_get d) = set (successful_channels r)"
proof -
  obtain outs s' where o: "power_state_each e timeout poll l s = Some (outs, s')" "map fst outs = l"
    using power_state_each_returns[OF assms(1,2)] by blast
  have "x = y" if "x \<in> set outs" "y \<in> set outs" "fst x = fst y" for x y
    using assms(4) o(2) that by (metis distinct_map inj_onD)
  then have "set (succeeded outs) \<inter> set (raised outs) = {}"
    by (fastforce simp: succeeded_def raised_def)
  moreover have "set (succeeded outs) \<union> set (raised outs) = set l"
    unfolding o(2)[symmetric] by (force simp: succeeded_def raised_def)
  ultimately show ?thesis
    by (auto simp: get_power_state_def assms(3) o(1) dom_last_values)
qed

theorem power_state_returns_witness:
  "\<exists>r d s'. get_power_state demo_env (PInt 3) 360000 2000 demo_hv = Some (Inr (r, d), s') \<and>
    set (successful_channels r) \<union> set (failed_channels r) = set [3] \<and>
    set (successful_channels r) \<inter> set (failed_channels r) = {} \<and>
    dom (dict_get d) = set (successful_channels r)"
proof -
  have "hv_channels_definition (PInt 3) 7 = Inr [3]" by code_simp
  then show ?thesis using power_state_returns[OF demo_env_clock, of 2000 "PInt 3" "[3]"] by simp
qed

section \<open>Lists of channels\<close>

text \<open>
  Claim C18. In every run, whatever the modules answer, the lists hold no channel twice, no channel is both
  usable and bad or both on and off, and every channel that is on is usable.
\<close>

theorem hv_lists_consistent:
  assumes "hv_init e fixed = (Inr (), s)"
  shows "hv_lists_ok (fold (exec_hv e) cs s)"
  using hv_lists.inv_run assms by blast

theorem hv_lists_consistent_witness:
  "hv_lists_ok (fold (exec_hv demo_env) [On (PStr ''all''), ForceOff (PInt 2), RecoverBad] demo_hv)"
proof -
  have "hv_init demo_env [2] = (Inr (), demo_hv)"
    unfolding demo_hv_def by (rule prod_eqI) (simp_all, code_simp)
  then show ?thesis by (rule hv_lists_consistent)
qed

section \<open>Behaviours the code does not intend\<close>

text \<open>The modules of \<open>dead\<close> answer every access but a status read; the others answer all of them.\<close>

definition no_status_env :: "int list \<Rightarrow> env" where
  "no_status_env dead = demo_env\<lparr>regs := (\<lambda>h. case last h of
       ReadRegisters a n ch \<Rightarrow> if a = 6 \<and> ch \<in> set dead then Inr None else Inr (Some [0])
     | _ \<Rightarrow> Inr (Some [0]))\<rparr>"

text \<open>
  Module 3 answers the scan but not the first status read: the loop over \<open>self.ok_ch\<close> then skips
  module 4, which stays usable and is neither on nor off, so that no recovery considers it.
\<close>

lemma startup_sync_skips_a_channel:
  "let s = snd (hv_init (no_status_env [3]) []) in
   4 \<in> set (ok_ch s) \<and> 4 \<notin> set (on_ch s) \<union> set (off_ch s) \<and> 4 \<notin> set (getOkOffChannels s) \<and>
   channel_state s 4 = (''unknown'', None) \<and> list_all (\<lambda>ch. ch \<in> set (on_ch s)) [1, 2, 5, 6, 7]"
  by code_simp

text \<open>
  A channel without stored parameters is reported as not recovered, and is powered on all the same.
\<close>

lemma recovery_powers_unconfigured_channel:
  "let s = moveToOff 5 demo_hv;
       r = recover_ok_off_acquisition demo_env (Some [(1, [])]) s in
   case r of
     Some (Inr res, s') \<Rightarrow> 5 \<in> set (recovered_channels res) \<and> 5 \<in> set (still_bad_channels res) \<and>
       WriteCoil 1 True 5 \<in> set (calls s') \<and> 5 \<in> set (on_ch s')
   | _ \<Rightarrow> False"
proof -
  have fuel: "poll_fuel RAMP_WAIT_MS 2000 = Suc (Suc 180)" "int RAMP_WAIT_MS = 360000"
    by (simp_all add: poll_fuel_def RAMP_WAIT_MS_def RAMP_WAIT_S_def RAMP_S_def)
  show ?thesis
    unfolding recover_ok_off_acquisition_def on_and_wait_def fuel by code_simp
qed

text \<open>
  Forcing all channels off while a module that is fixed bad does not answer makes it bad, and the
  recovery of the bad channels then makes it usable, although it still is fixed bad.
\<close>

lemma fixed_bad_channel_becomes_usable:
  "let e = demo_env\<lparr>wrote := (\<lambda>h. Inr (last h \<noteq> WriteCoil 1 False 2))\<rparr>;
       s = fold (exec_hv e) [ForceOff (PStr ''all''), RecoverBad] demo_hv in
   2 \<in> set (fixed_bad s) \<and> 2 \<in> set (ok_ch s)"
  by code_simp

end
