(* ===== verification/HvServiceProps.thy ===== *)
theory HvServiceProps
  imports HvService HvProps
begin

text \<open>
  What the high voltage service guarantees: under the policy \<open>monitor_only\<close> no sequence of requests and
  periodic checks ever powers a module on; every command keeps the lists of channels consistent;
  and the acquisition check is queued at most once in the life of a service.
\<close>

section \<open>Handlers are steps\<close>

definition handler_step :: "(int \<times> bool) set \<Rightarrow> (env \<Rightarrow> HVRequest \<Rightarrow> hv \<Rightarrow> hv_outcome) \<Rightarrow> bool" where
  "handler_step A f \<longleftrightarrow> (\<forall>e rq s r s'. f e rq s = Some (r, s') \<longrightarrow> hv_step A s s')"

lemma handler_stepI:
  "(\<And>e rq s r s'. f e rq s = Some (r, s') \<Longrightarrow> hv_step A s s') \<Longrightarrow> handler_step A f"
  by (simp add: handler_step_def)

lemma hv_only_subset: "hv_only A f \<Longrightarrow> A \<subseteq> B \<Longrightarrow> hv_only B f"
  by (rule hv_only_mono)

lemma quiet_mono: "X \<subseteq> Y \<Longrightarrow> quiet X \<subseteq> quiet Y"
  by (auto simp: quiet_def)

lemma hv_only_need [hv_rules]: "(\<And>x. hv_only A (f x)) \<Longrightarrow> hv_only A (need v f)"
  by (simp add: need_def hv_rules split: option.split)

lemma simple_step: "hv_only A f \<Longrightarrow> simple f s = Some (r, s') \<Longrightarrow> hv_step A s s'"
  by (auto simp: simple_def dest: hv_onlyD)

lemma respond_step:
  "respond g o' = Some (r, s') \<Longrightarrow> (\<And>q. o' = Some (q, s') \<Longrightarrow> hv_step A s s') \<Longrightarrow> hv_step A s s'"
  by (auto simp: respond_def)

lemma on_channels_step:
  assumes "\<And>chs. hv_only A (f chs)" and "on_channels rq f s = Some (r, s')"
  shows "hv_step A s s'"
  using assms(2) unfolding on_channels_def
  by (rule simple_step[rotated]) (intro hv_rules assms(1))

lemmas simple_quiet = simple_operations[THEN hv_only_subset, OF quiet_mono[OF subset_UNIV]]
  monitor_steps[THEN hv_only_subset, OF quiet_mono[OF subset_UNIV]]
  monitor_snapshot_step[THEN hv_only_subset, OF quiet_mono[OF subset_UNIV]]

lemma action_handlers_quiet:
  "handler_step (quiet UNIV) command_common_voltage" "handler_step (quiet UNIV) command_common_threshold"
  "handler_step (quiet UNIV) command_hv_off" "handler_step (quiet UNIV) command_hv_force_off"
  unfolding command_common_voltage_def command_common_threshold_def command_hv_off_def
    command_hv_force_off_def
  by (intro handler_stepI; erule on_channels_step[rotated]; intro hv_rules simple_quiet)+

lemma reading_handlers_quiet:
  "handler_step (quiet UNIV) command_get_voltage" "handler_step (quiet UNIV) command_get_threshold"
  "handler_step (quiet UNIV) command_get_volt_thr_configuration"
  "handler_step (quiet UNIV) command_hv_electrical_monitoring"
  "handler_step (quiet UNIV) command_hv_status_alarm_monitoring"
  "handler_step (quiet UNIV) command_hv_monitor_snapshot"
  unfolding command_get_voltage_def command_get_threshold_def command_get_volt_thr_configuration_def
    command_hv_electrical_monitoring_def command_hv_status_alarm_monitoring_def
    command_hv_monitor_snapshot_def
  by (intro handler_stepI; erule simple_step[rotated]; intro hv_rules simple_quiet)+

lemma waiting_handlers_quiet:
  "handler_step (quiet UNIV) command_acquisition_configuration"
  "handler_step (quiet UNIV) command_get_power_state"
  "handler_step (quiet UNIV) command_hv_off_and_wait"
  unfolding command_acquisition_configuration_def command_get_power_state_def
    command_hv_off_and_wait_def Let_def
  by (intro handler_stepI; auto split: option.splits elim!: respond_step
      intro: set_acquisition_configuration_step get_power_state_step off_and_wait_step')+

lemma secure_channel_step: "hv_only (quiet UNIV) (secure_channel e b ch)"
proof -
  have f: "hv_only (quiet UNIV) (seq (force_reset e (PInt ch)) (\<lambda>_. force_off e (PInt ch)))"
    by (intro hv_rules simple_quiet)
  show ?thesis
    by (auto simp: hv_only_def secure_channel_def split: prod.split sum.split
        dest!: hv_onlyD[OF f] intro: hv_step_after)
qed

lemma secure_each_step: "hv_only (quiet UNIV) (secure_each e ens)"
proof (induction ens)
  case (Cons en ens)
  have "hv_only (quiet UNIV) (seq (secure_channel e (snd (snd (snd en))) (fst en)) (\<lambda>_. secure_each e ens))"
    by (intro hv_rules secure_channel_step Cons.IH)
  with Cons.IH show ?case by (simp add: hv_only_def)
qed (simp add: hv_only_def)

lemma safety_handler_quiet: "handler_step (quiet UNIV) command_check_channel_safety"
  unfolding command_check_channel_safety_def Let_def split_def
  by (intro handler_stepI, erule simple_step[rotated])
     (intro hv_only_seq simple_quiet secure_each_step hv_only_basic)

lemma power_check_step: "hv_step (quiet UNIV) s (snd (power_check e chs s))"
proof -
  have one: "hv_step (quiet UNIV) s (snd (power_check_one e ch s))" for ch s
  proof -
    obtain r s1 where r: "getStatus e ch s = (r, s1)" by (cases "getStatus e ch s")
    have "hv_step (quiet UNIV) s s1"
      using hv_step_mono[OF hv_step_read(2)[OF r]] quiet_subset[of ch "quiet UNIV"] by simp
    then show ?thesis
      by (cases r) (simp_all add: power_check_one_def r hv_step_after)
  qed
  have "hv_step (quiet UNIV) s (snd (power_check_each e chs s))"
  proof (induction chs arbitrary: s)
    case (Cons ch chs)
    then show ?case using one by (auto simp: Let_def case_prod_beta intro: hv_step_trans)
  qed simp
  then show ?thesis by (simp add: power_check_def Let_def case_prod_beta)
qed

lemma presence_each_step: "hv_step (quiet UNIV) s (snd (presence_each e chs s))"
proof (induction chs arbitrary: s)
  case (Cons ch chs)
  have "hv_step (quiet UNIV) s (snd (normalize_one e ch s))"
    by (rule bus_hv_step[OF normalize_one_bus]) simp
  then have "hv_step (quiet UNIV) s (snd (presence_one e ch s))"
    by (auto simp: presence_one_def Let_def case_prod_beta intro: hv_step_after)
  with Cons show ?case by (auto simp: Let_def case_prod_beta intro: hv_step_trans)
qed simp

lemma check_handlers_quiet:
  "handler_step (quiet UNIV) command_check_channel_power"
  "handler_step (quiet UNIV) command_check_recovery_bad"
  "handler_step (quiet UNIV) command_hv_sync"
proof -
  show "handler_step (quiet UNIV) command_check_channel_power"
    using power_check_step
    by (auto simp: handler_step_def command_check_channel_power_def Let_def split: prod.splits)
       (metis snd_conv)
  show "handler_step (quiet UNIV) command_check_recovery_bad"
    using recover_each_step
    by (auto simp: handler_step_def command_check_recovery_bad_def recover_bad_channels_def Let_def
        split: prod.splits) (metis snd_conv)
  show "handler_step (quiet UNIV) command_hv_sync"
  proof (rule handler_stepI)
    fix e rq s r s'
    assume run: "command_hv_sync e rq s = Some (r, s')"
    show "hv_step (quiet UNIV) s s'"
    proof (cases "hv_channels_definition (channels_or_all rq) 7")
      case (Inr l)
      let ?s1 = "snd (recover_bad_channels e s)"
      let ?a = "filter (\<lambda>ch. ch \<notin> set (fixed_bad s)) l"
      let ?s2 = "snd (presence_each e ?a ?s1)"
      have "s' = snd (power_check e ?a ?s2)"
        using run by (auto simp: command_hv_sync_def Inr Let_def case_prod_beta)
      moreover have "hv_step (quiet UNIV) s ?s1"
        unfolding recover_bad_channels_def by (rule recover_each_step)
      ultimately show ?thesis
        using presence_each_step[of ?s1 e ?a] power_check_step[of ?s2 e ?a] by (meson hv_step_trans)
    qed (use run in \<open>simp add: command_hv_sync_def\<close>)
  qed
qed

lemma write_serials_step: "hv_step (quiet UNIV) s (snd (write_serials e l s))"
proof (induction e l s rule: write_serials.induct)
  case (2 e ch sn r s)
  obtain q s1 where q: "set_pmt_serial e ch sn s = (q, s1)" by (cases "set_pmt_serial e ch sn s")
  have "bus_only (quiet UNIV) (set_pmt_serial e ch sn)"
    unfolding set_pmt_serial_def setPMTSerialNumber_def
    by (auto intro!: bus_rules split: sum.split)
  then have s1: "hv_step (quiet UNIV) s s1" by (rule bus_hv_step[OF bus_onlyD]) (rule q)
  have "hv_step (quiet UNIV) s1 (removeFromMissingSerial ch s1)"
    by (auto simp: hv_step_def keeps removeFromMissingSerial_def)
  then have s2: "hv_step (quiet UNIV) s (removeFromMissingSerial ch s1)" using s1 by (meson hv_step_trans)
  show ?case
    using 2 q s1 s2 by (cases q) (auto simp: Let_def case_prod_beta intro: hv_step_trans)
qed simp

lemma getInfo_bus: "bus_only (quiet UNIV) (getInfo e ch)"
proof -
  have rd: "bus_only (quiet UNIV) (read_text e a n ch)" for a n
  proof -
    have "bus_only (quiet UNIV) (\<lambda>s. (unpack_text l, s))" for l by (simp add: bus_only_def)
    then show ?thesis unfolding read_text_def by (intro bus_rules) simp_all
  qed
  show ?thesis unfolding getInfo_def
    by (intro bus_rules rd) (auto split: list.split intro: bus_rules)
qed

lemma get_serial_map_step: "hv_step (quiet UNIV) s (snd (get_serial_map e chs d s))"
proof (induction chs arbitrary: d s)
  case (Cons ch chs)
  obtain q s1 where q: "getInfo e ch s = (q, s1)" by (cases "getInfo e ch s")
  have "hv_step (quiet UNIV) s s1" by (rule bus_hv_step[OF bus_onlyD[OF getInfo_bus q]])
  with Cons q show ?case by (auto intro: hv_step_trans split: sum.split prod.split)
qed simp

lemma user_bad_step:
  "command_user_bad move rq s = Some (r, s') \<Longrightarrow> (\<And>ch s. hv_step (quiet UNIV) s (move ch s)) \<Longrightarrow>
   hv_step (quiet UNIV) s s'"
  by (auto simp: command_user_bad_def Let_def intro: hv_step_fold split: sum.splits)

lemma other_handlers_quiet:
  "handler_step (quiet UNIV) command_feb_change_address"
  "handler_step (quiet UNIV) command_hv_set_user_bad"
  "handler_step (quiet UNIV) command_hv_unset_user_bad"
  "handler_step (quiet UNIV) command_set_pmt_serials"
  "handler_step (quiet UNIV) command_get_serial_map"
  "handler_step (quiet UNIV) command_hv_channel_lists"
proof -
  have "hv_step (quiet UNIV) s (removeFromFixedBad ch s)" for ch s
    by (auto simp: hv_step_def keeps removeFromFixedBad_def)
  then show "handler_step (quiet UNIV) command_hv_unset_user_bad"
    by (auto simp: handler_step_def command_hv_unset_user_bad_def elim: user_bad_step)
  show "handler_step (quiet UNIV) command_hv_set_user_bad"
    by (auto simp: handler_step_def command_hv_set_user_bad_def elim: user_bad_step)
  show "handler_step (quiet UNIV) command_feb_change_address"
    using change_feb_address_step
    by (auto simp: handler_step_def command_feb_change_address_def Let_def case_prod_beta split: option.splits)
  show "handler_step (quiet UNIV) command_set_pmt_serials"
    using write_serials_step
    by (auto simp: handler_step_def command_set_pmt_serials_def Let_def case_prod_beta)
  show "handler_step (quiet UNIV) command_get_serial_map"
    using get_serial_map_step
    by (auto simp: handler_step_def command_get_serial_map_def Let_def case_prod_beta split: sum.splits)
  show "handler_step (quiet UNIV) command_hv_channel_lists"
    by (auto simp: handler_step_def command_hv_channel_lists_def)
qed

lemma power_handlers_step:
  "handler_step UNIV command_hv_on" "handler_step UNIV command_hv_on_and_wait"
  "handler_step UNIV command_check_channel_acquisition"
proof -
  have on: "hv_only UNIV (hv_on e chs)" for e chs by (rule hv_only_subset[OF hv_on_step]) simp
  show "handler_step UNIV command_hv_on"
    unfolding command_hv_on_def by (intro handler_stepI, erule on_channels_step[rotated]) (rule on)
  show "handler_step UNIV command_hv_on_and_wait"
    unfolding command_hv_on_and_wait_def
    by (intro handler_stepI; auto split: option.splits elim!: respond_step intro: on_and_wait_step')
  show "handler_step UNIV command_check_channel_acquisition"
    unfolding command_check_channel_acquisition_def
    by (intro handler_stepI; auto elim!: respond_step intro: recover_ok_off_acquisition_step)
qed

lemmas quiet_handlers = action_handlers_quiet reading_handlers_quiet waiting_handlers_quiet
  safety_handler_quiet check_handlers_quiet other_handlers_quiet

lemma quiet_handler_any: "handler_step (quiet UNIV) f \<Longrightarrow> handler_step UNIV f"
  unfolding handler_step_def by (meson hv_step_mono subset_UNIV)

lemma all_handlers_step: "list_all (\<lambda>(c, f). handler_step UNIV f) HV_COMMAND_HANDLERS"
  by (simp add: HV_COMMAND_HANDLERS_def power_handlers_step quiet_handlers[THEN quiet_handler_any])

lemma allowed_handlers_quiet:
  "list_all (\<lambda>(c, f). c \<in> set MONITOR_ONLY_ALLOWED_COMMANDS \<longrightarrow> handler_step (quiet UNIV) f) HV_COMMAND_HANDLERS"
proof -
  have "\<not> (c \<in> set MONITOR_ONLY_ALLOWED_COMMANDS)"
    if "c \<in> {''hv_on'', ''hv_on_and_wait'', ''check_channel_acquisition''}" for c
    using that by (auto simp: MONITOR_ONLY_ALLOWED_COMMANDS_def)
  then show ?thesis by (simp add: HV_COMMAND_HANDLERS_def quiet_handlers)
qed

section \<open>Steps of the service\<close>

lemma handler_of:
  assumes "dict_get HV_COMMAND_HANDLERS c = Some f"
  shows "handler_step UNIV f" "c \<in> set MONITOR_ONLY_ALLOWED_COMMANDS \<Longrightarrow> handler_step (quiet UNIV) f"
  using map_of_SomeD[OF assms] all_handlers_step allowed_handlers_quiet by (auto simp: list_all_iff)

lemma execute_step:
  assumes "hv_execute_response e rq s = Some (rsp, s')"
  shows "hv_step UNIV (sv_hv s) (sv_hv s') \<and> hv_policy s' = hv_policy s \<and>
    (hv_policy s = HV_POLICY_MONITOR_ONLY \<longrightarrow> hv_step (quiet UNIV) (sv_hv s) (sv_hv s'))"
proof (cases "is_command_allowed (hv_policy s) (hq_command rq)")
  case True
  have listed: "hv_policy s = HV_POLICY_MONITOR_ONLY \<longrightarrow> hq_command rq \<in> set MONITOR_ONLY_ALLOWED_COMMANDS"
    using True by (auto simp: is_command_allowed_def HV_POLICY_MONITOR_ONLY_def HV_POLICY_FULL_CONTROL_def)
  show ?thesis
  proof (cases "dict_get HV_COMMAND_HANDLERS (hq_command rq)")
    case (Some f)
    obtain r h where h: "f e rq (sv_hv s) = Some (r, h)" "s' = s\<lparr>sv_hv := h\<rparr>"
      using assms True Some by (auto simp: hv_execute_response_def)
    then show ?thesis
      using handler_of[OF Some] listed unfolding handler_step_def by auto
  qed (use assms True in \<open>simp add: hv_execute_response_def\<close>)
qed (use assms in \<open>simp add: hv_execute_response_def\<close>)

lemma clear_pending_hv [simp]:
  "sv_hv (clear_pending c s) = sv_hv s" "hv_policy (clear_pending c s) = hv_policy s"
  "check_acquisition_channels_pending (clear_pending c s) = check_acquisition_channels_pending s"
  by (simp_all add: clear_pending_def)

lemma worker_hv:
  assumes "hv_worker_step e t s = Some s'"
  shows "hv_step UNIV (sv_hv s) (sv_hv s') \<and> hv_policy s' = hv_policy s \<and>
    (hv_policy s = HV_POLICY_MONITOR_ONLY \<longrightarrow> hv_step (quiet UNIV) (sv_hv s) (sv_hv s'))"
proof (cases "pq_get (hv_queue s)")
  case (Some x)
  obtain prio n rq q where x: "x = ((prio, n, rq), q)" by (cases x) auto
  let ?s1 = "s\<lparr>hv_queue := q\<rparr>"
  show ?thesis
  proof (cases "case hq_deadline rq of None \<Rightarrow> False | Some d \<Rightarrow> t > d")
    case True
    then have "s' = clear_pending (hq_command rq)
        (?s1\<lparr>hv_responses := hv_responses ?s1 @ [(n, hv_err rq NoData HvExpired)]\<rparr>)"
      using assms by (simp add: hv_worker_step_def Some x)
    then show ?thesis by simp
  next
    case False
    then obtain rsp s2 where "hv_execute_response e rq ?s1 = Some (rsp, s2)"
      "sv_hv s' = sv_hv s2" "hv_policy s' = hv_policy s2"
      using assms by (auto simp: hv_worker_step_def Some x)
    then show ?thesis using execute_step[of e rq ?s1 rsp s2] by simp
  qed
qed (use assms in \<open>simp add: hv_worker_step_def\<close>)

lemma turns_hv [simp]:
  "sv_hv (hv_enqueue p rq s) = sv_hv s" "hv_policy (hv_enqueue p rq s) = hv_policy s"
  "sv_hv (hv_submit_request rq p d t s) = sv_hv s" "hv_policy (hv_submit_request rq p d t s) = hv_policy s"
  "sv_hv (check_channels_turn t s) = sv_hv s" "hv_policy (check_channels_turn t s) = hv_policy s"
  "sv_hv (acquisition_turn i t s) = sv_hv s" "hv_policy (acquisition_turn i t s) = hv_policy s"
  by (simp_all add: hv_enqueue_def hv_submit_request_def check_channels_turn_def safety_turn_def
      power_turn_def recovery_turn_def acquisition_turn_def Let_def)

definition keeps_policy :: "hv_service_call \<Rightarrow> bool" where
  "keeps_policy c \<longleftrightarrow> (case c of HvPolicy p \<Rightarrow> False | _ \<Rightarrow> True)"

lemma monitor_only_run:
  assumes "hv_policy s = HV_POLICY_MONITOR_ONLY" and "list_all keeps_policy cs"
  shows "hv_step (quiet UNIV) (sv_hv s) (sv_hv (fold (hv_service_step e) cs s)) \<and>
    hv_policy (fold (hv_service_step e) cs s) = HV_POLICY_MONITOR_ONLY"
  using assms
proof (induction cs arbitrary: s)
  case (Cons c cs)
  have "hv_step (quiet UNIV) (sv_hv s) (sv_hv (hv_service_step e c s)) \<and>
      hv_policy (hv_service_step e c s) = HV_POLICY_MONITOR_ONLY"
    using Cons.prems worker_hv by (cases c) (auto simp: keeps_policy_def split: option.split)
  with Cons show ?case by (auto intro: hv_step_trans)
qed simp

lemma quiet_no_power: "addressed m \<subseteq> quiet UNIV \<Longrightarrow> WriteCoil 1 True ch \<notin> set m"
  by (force simp: addressed_def)

text \<open>
  Claim C20. While the policy is \<open>monitor_only\<close>, no sequence of requests, periodic checks and turns of the
  worker ever sends a power-on command to a module, whatever was already queued.
\<close>

theorem monitor_only_never_powers_on:
  assumes "hv_policy s = HV_POLICY_MONITOR_ONLY" and "list_all keeps_policy cs"
  shows "\<exists>m. calls (sv_hv (fold (hv_service_step e) cs s)) = calls (sv_hv s) @ m \<and>
    (\<forall>ch. WriteCoil 1 True ch \<notin> set m)"
  using monitor_only_run[OF assms] quiet_no_power unfolding hv_step_def by blast

definition demo_request :: "string \<Rightarrow> HVRequest" where
  "demo_request c = \<lparr>hq_id = ''r'', hq_command = c, hq_payload = empty_payload\<lparr>p_channels := Some (PStr ''all'')\<rparr>,
     hq_sender = None, hq_deadline = None\<rparr>"

theorem monitor_only_never_powers_on_witness:
  "\<exists>m. calls (sv_hv (fold (hv_service_step demo_env)
        [HvSubmit (demo_request ''hv_on'') 1 5000 0, HvSubmit (demo_request ''set_hv_sync'') 1 5000 0,
         HvWork 10, HvWork 20, HvCheck 30, HvWork 40] (init_hv_service demo_hv HV_POLICY_MONITOR_ONLY 0))) =
      calls (sv_hv (init_hv_service demo_hv HV_POLICY_MONITOR_ONLY 0)) @ m \<and>
    (\<forall>ch. WriteCoil 1 True ch \<notin> set m)"
  by (rule monitor_only_never_powers_on) (simp_all add: init_hv_service_def keeps_policy_def)

lemma service_lists: "hv_lists_ok (sv_hv s) \<Longrightarrow> hv_lists_ok (sv_hv (hv_service_step e c s))"
  using worker_hv[of e _ s] by (cases c) (auto simp: hv_step_def set_policy_def split: option.split)

interpretation hv_service_lists: kept_invariant "\<lambda>s. hv_lists_ok (sv_hv s)" "hv_service_step e"
  "\<lambda>s. hv_lists_ok (sv_hv s)" for e
  by unfold_locales (auto intro: service_lists)

text \<open>
  The flag of the acquisition check is never cleared: once one check has been queued, no later turn
  queues another, however much time has passed.
\<close>

lemma acquisition_check_never_repeats:
  assumes "check_acquisition_channels_pending s"
  shows "check_acquisition_channels_pending (hv_service_step e c s) \<and>
    hv_queue (acquisition_turn i t (hv_service_step e c s)) = hv_queue (hv_service_step e c s)"
proof -
  have "check_acquisition_channels_pending s'" if "hv_worker_step e t s = Some s'" for t s'
  proof -
    have ex: "check_acquisition_channels_pending s2 = check_acquisition_channels_pending s1"
      if "hv_execute_response e rq s1 = Some (rsp, s2)" for rq s1 rsp s2
      using that by (auto simp: hv_execute_response_def split: if_splits option.splits)
    show ?thesis
      using that assms ex
      by (auto simp: hv_worker_step_def Let_def split: option.splits prod.splits if_splits)
  qed
  then have "check_acquisition_channels_pending (hv_service_step e c s)"
    using assms
    by (cases c) (auto simp: hv_submit_request_def hv_enqueue_def check_channels_turn_def safety_turn_def
        power_turn_def recovery_turn_def acquisition_turn_def set_policy_def Let_def split: option.split)
  then show ?thesis by (auto simp: acquisition_turn_def)
qed

end
