(* ===== verification/AcqTrigger.thy ===== *)
theory AcqTrigger
  imports RunControlProps PyText
begin

text \<open>
  The trigger of an acquisition (\<open>server/services/acquisition_service.py\<close>): the configuration built
  from the command line (\<open>build_trigger_configuration\<close>), the registers of the run control board it
  stands for (\<open>_build_trigger_registers\<close>) and the message that carries them to the client. The
  namespace of \<open>argparse\<close> is a record of the attributes read here; a \<open>channels\<close> attribute that is not a
  text is \<open>None\<close>. The parsers give integers for the integer options.
\<close>

unbundle bit_operations_syntax

section \<open>Configuration\<close>

record trigger_args =
  trigger_mode :: string
  ar_window_ns :: int
  ar_delay_ns :: int
  trigger_input :: string
  ar_polarity :: string
  ar_save_auto :: bool
  ar_save_external :: bool
  ar_auto_logic :: string
  ar_multiplicity :: "int option"
  ar_channels :: "string option"

record TriggerConfiguration =
  tc_mode :: string
  tc_input_type :: string
  tc_polarity :: string
  tc_window_ns :: int
  tc_delay_ns :: int
  tc_auto_logic :: "string option"
  tc_multiplicity :: "int option"
  tc_auto_channels :: "int list option"
  tc_save_external :: bool
  tc_save_auto :: bool

text \<open>The class defaults (\<open>TriggerConfiguration()\<close>).\<close>

definition default_trigger :: TriggerConfiguration where
  "default_trigger = \<lparr>tc_mode = ''self'', tc_input_type = ''differential'', tc_polarity = ''default'',
     tc_window_ns = 400, tc_delay_ns = 800, tc_auto_logic = None, tc_multiplicity = None,
     tc_auto_channels = None, tc_save_external = False, tc_save_auto = False\<rparr>"

text \<open>The checks of window and delay, made when the options are read and again when the registers
  are built.\<close>

definition timing_valid :: "int \<Rightarrow> int \<Rightarrow> bool" where
  "timing_valid window_ns delay_ns \<longleftrightarrow>
    \<not> window_ns \<le> 0 \<and> \<not> delay_ns < 0 \<and> \<not> window_ns mod 5 \<noteq> 0 \<and> \<not> delay_ns mod 5 \<noteq> 0"

text \<open>The loop over the comma-separated items of the exact channel selection.\<close>

fun auto_channel_items :: "string list \<Rightarrow> int list \<Rightarrow> int list option" where
  "auto_channel_items [] acc = Some acc"
| "auto_channel_items (x # xs) acc =
    (if strip x = [] then auto_channel_items xs acc
     else case py_int (strip x) of
       None \<Rightarrow> None
     | Some channel \<Rightarrow>
         if channel < 0 \<or> channel \<ge> 7 then None
         else auto_channel_items xs (if channel \<in> set acc then acc else acc @ [channel]))"

definition exact_channels :: "string option \<Rightarrow> int list option" where
  "exact_channels raw =
    (case raw of
       None \<Rightarrow> None
     | Some txt \<Rightarrow>
         (case auto_channel_items (split_on CHR '','' txt) [] of
            None \<Rightarrow> None
          | Some chs \<Rightarrow> if sort chs = [] then None else Some (sort chs)))"

definition self_trigger :: TriggerConfiguration where
  "self_trigger = default_trigger\<lparr>tc_window_ns := 0, tc_delay_ns := 0\<rparr>"

definition external_trigger :: "trigger_args \<Rightarrow> TriggerConfiguration option" where
  "external_trigger a =
    (if trigger_input a \<notin> {''differential'', ''single-ended''} then None
     else if ar_polarity a \<notin> {''default'', ''inverted''} then None
     else Some (default_trigger\<lparr>tc_mode := ''external'', tc_input_type := trigger_input a,
       tc_polarity := ar_polarity a, tc_window_ns := ar_window_ns a, tc_delay_ns := ar_delay_ns a,
       tc_save_external := True, tc_save_auto := ar_save_auto a\<rparr>))"

text \<open>The part common to the two kinds of auto-trigger.\<close>

definition auto_base :: "trigger_args \<Rightarrow> TriggerConfiguration" where
  "auto_base a = default_trigger\<lparr>tc_mode := ''auto'', tc_window_ns := ar_window_ns a,
     tc_delay_ns := ar_delay_ns a, tc_save_external := ar_save_external a, tc_save_auto := True\<rparr>"

definition auto_trigger :: "trigger_args \<Rightarrow> TriggerConfiguration option" where
  "auto_trigger a =
    (if ar_auto_logic a \<notin> {''majority'', ''exact''} then None
     else if ar_auto_logic a = ''majority'' then
       (case ar_multiplicity a of
          None \<Rightarrow> None
        | Some m \<Rightarrow>
            if m < 1 \<or> m > 7 then None
            else Some ((auto_base a)\<lparr>tc_auto_logic := Some ''majority'', tc_multiplicity := Some m\<rparr>))
     else
       (case exact_channels (ar_channels a) of
          None \<Rightarrow> None
        | Some chs \<Rightarrow>
            Some ((auto_base a)\<lparr>tc_auto_logic := Some ''exact'', tc_auto_channels := Some chs\<rparr>)))"

definition build_trigger_configuration :: "trigger_args \<Rightarrow> TriggerConfiguration option" where
  "build_trigger_configuration a =
    (if trigger_mode a \<notin> {''self'', ''external'', ''auto''} then None
     else if trigger_mode a = ''self'' then Some self_trigger
     else if \<not> timing_valid (ar_window_ns a) (ar_delay_ns a) then None
     else if trigger_mode a = ''external'' then external_trigger a
     else auto_trigger a)"

section \<open>Registers\<close>

definition TRIGGER_REG15_MASK :: int where
  "TRIGGER_REG15_MASK = push_bit 1 1 OR push_bit 4 1 OR push_bit 7 1 OR push_bit 8 1"

definition AUTO_TRIGGER_REG31_DEFAULT :: int where
  "AUTO_TRIGGER_REG31_DEFAULT = 15"

record trigger_registers =
  reg15_mask :: int
  reg15_value :: int
  reg_values :: "(int, int) dict"

text \<open>The effective channels without repetitions, in order, unless one is not a channel.\<close>

definition normalized_channels :: "int list \<Rightarrow> int list option" where
  "normalized_channels chs =
    (if list_ex (\<lambda>ch. ch < 0 \<or> ch \<ge> 7) chs then None else Some (sort (fromkeys chs)))"

definition or_bit :: "bool \<Rightarrow> nat \<Rightarrow> int \<Rightarrow> int" where
  "or_bit c n v = (if c then v OR push_bit n 1 else v)"

definition reg15_of :: "TriggerConfiguration \<Rightarrow> int" where
  "reg15_of tc =
    or_bit (tc_mode tc = ''external'' \<and> tc_polarity tc = ''inverted'') 8
      (or_bit (tc_mode tc = ''external'' \<and> tc_input_type tc = ''single-ended'') 7
        (or_bit (tc_mode tc = ''auto'') 4 (or_bit (tc_mode tc \<noteq> ''self'') 1 0)))"

text \<open>Registers 16 and 18.\<close>

definition timing_registers :: "TriggerConfiguration \<Rightarrow> (int \<times> int) option" where
  "timing_registers tc =
    (if tc_mode tc = ''self'' then Some (0, 0)
     else if \<not> timing_valid (tc_window_ns tc) (tc_delay_ns tc) then None
     else Some (tc_window_ns tc div 5, tc_delay_ns tc div 5))"

definition majority_register :: "int option \<Rightarrow> int list \<Rightarrow> int option" where
  "majority_register multiplicity chs =
    (case multiplicity of
       None \<Rightarrow> None
     | Some m \<Rightarrow>
         if m < 1 \<or> m > 7 then None
         else if m > int (length chs) then None
         else Some (fold (\<lambda>b v. v OR push_bit b 1) [0..<nat m] 0))"

definition exact_register :: "int list option \<Rightarrow> int list \<Rightarrow> int option" where
  "exact_register auto_channels chs =
    (let auto = (case auto_channels of None \<Rightarrow> [] | Some cs \<Rightarrow> cs) in
     if auto = [] then None
     else if list_ex (\<lambda>ch. ch \<notin> set chs) auto then None
     else Some (fold (\<lambda>ch v. v OR push_bit (nat ch) 1) auto (push_bit 7 1)))"

definition reg31_of :: "TriggerConfiguration \<Rightarrow> int list \<Rightarrow> int option" where
  "reg31_of tc chs =
    (if tc_mode tc \<noteq> ''auto'' then Some AUTO_TRIGGER_REG31_DEFAULT
     else if tc_auto_logic tc = Some ''majority'' then majority_register (tc_multiplicity tc) chs
     else if tc_auto_logic tc = Some ''exact'' then exact_register (tc_auto_channels tc) chs
     else None)"

definition reg19_of :: "TriggerConfiguration \<Rightarrow> int list \<Rightarrow> int" where
  "reg19_of tc chs = or_bit (tc_save_auto tc) 8 (or_bit (tc_save_external tc) 7 (channel_mask chs))"

definition reg39_of :: "TriggerConfiguration \<Rightarrow> int list \<Rightarrow> int" where
  "reg39_of tc chs = or_bit (tc_mode tc \<noteq> ''self'') 8 (or_bit (tc_mode tc \<noteq> ''self'') 7 (channel_mask chs))"

definition build_trigger_registers ::
  "TriggerConfiguration option \<Rightarrow> int list \<Rightarrow> trigger_registers option" where
  "build_trigger_registers config effective_channels =
    (case config of
       None \<Rightarrow> None
     | Some tc \<Rightarrow>
         if effective_channels = [] then None
         else
           (case normalized_channels effective_channels of
              None \<Rightarrow> None
            | Some chs \<Rightarrow>
                (case timing_registers tc of
                   None \<Rightarrow> None
                 | Some (reg16, reg18) \<Rightarrow>
                     (case reg31_of tc chs of
                        None \<Rightarrow> None
                      | Some reg31 \<Rightarrow>
                          Some \<lparr>reg15_mask = TRIGGER_REG15_MASK, reg15_value = reg15_of tc,
                            reg_values = [(16, reg16), (18, reg18), (19, reg19_of tc chs), (31, reg31),
                              (39, reg39_of tc chs)]\<rparr>))))"

text \<open>
  What \<open>configure_acquisition_client\<close> sends: the mask of register 19 is kept on the server
  (\<open>_prepared_rc19\<close>) and the board gets a zero until the producer has started.
\<close>

definition intended_rc19 :: "trigger_registers \<Rightarrow> int option" where
  "intended_rc19 r = dict_get (reg_values r) 19"

definition held_registers :: "trigger_registers \<Rightarrow> trigger_registers" where
  "held_registers r = r\<lparr>reg_values := dict_set 19 0 (reg_values r)\<rparr>"

text \<open>The registers sent at the end of a run (\<open>configure_acquisition_end_client\<close>).\<close>

definition end_registers :: trigger_registers where
  "end_registers = \<lparr>reg15_mask = TRIGGER_REG15_MASK, reg15_value = 0, reg_values = [(16, 0), (18, 0)]\<rparr>"

text \<open>
  The dictionary as the client receives it: the keys of a JSON object are texts.
\<close>

definition acq_wire :: "trigger_registers \<Rightarrow> pyval" where
  "acq_wire r =
    PDict [(''reg15'', PDict [(''mask'', PInt (reg15_mask r)), (''value'', PInt (reg15_value r))]),
           (''registers'', PDict (map (\<lambda>(a, v). (str_int a, PInt v)) (reg_values r)))]"

end
