(* ===== verification/AcqTriggerProps.thy ===== *)
theory AcqTriggerProps
  imports AcqTrigger
begin

text \<open>
  The trigger registers the server builds: they select exactly the channels and sources asked for, the
  run control board accepts and applies them as they are, and the decoder of the monitoring reads the
  same auto-trigger back.
\<close>

unbundle bit_operations_syntax

section \<open>Bits\<close>

lemma bit_or_bit: "bit (or_bit c n v) k \<longleftrightarrow> bit v k \<or> c \<and> k = n"
  by (auto simp: or_bit_def bit_simps)

lemma bit_fold_bits:
  "bit (fold (\<lambda>b v. v OR push_bit b 1) bs acc) n \<longleftrightarrow> bit acc n \<or> n \<in> set bs" for acc :: int
  by (induction bs arbitrary: acc) (auto simp: bit_simps)

lemma channels_below_7: "list_ex (\<lambda>ch. ch < 0 \<or> ch \<ge> 7) chs \<longleftrightarrow> \<not> (\<forall>ch \<in> set chs. 0 \<le> ch \<and> ch < 7)"
  for chs :: "int list"
  by (auto simp: list_ex_iff) (metis not_less)+

lemma normalized_iff:
  "normalized_channels chs = Some ns \<longleftrightarrow> (\<forall>ch \<in> set chs. 0 \<le> ch \<and> ch < 7) \<and> ns = sort (fromkeys chs)"
  by (auto simp: normalized_channels_def channels_below_7)

lemma mask_of_channels:
  "\<forall>ch \<in> set chs. 0 \<le> ch \<Longrightarrow> bit (channel_mask chs) n \<longleftrightarrow> int n \<in> set chs"
  by (simp add: bit_channel_mask nat_image)

lemma below_2_power:
  fixes v :: int
  assumes "\<And>n. bit v n \<Longrightarrow> n < k"
  shows "0 \<le> v \<and> v < 2 ^ k"
proof -
  have "take_bit k v = v" using assms by (auto simp: bit_eq_iff bit_simps)
  then show ?thesis by (metis take_bit_int_less_exp take_bit_nonnegative)
qed

lemma positive_if_bit: "bit v n \<Longrightarrow> 0 \<le> v \<Longrightarrow> 0 < v" for v :: int
  by (cases "v = 0") auto

text \<open>The parts of an accepted configuration.\<close>

lemma built_registers:
  assumes "build_trigger_registers (Some tc) chs = Some r"
  obtains ns reg16 reg18 reg31 where "chs \<noteq> []" "\<forall>ch \<in> set chs. 0 \<le> ch \<and> ch < 7"
    "ns = sort (fromkeys chs)" "timing_registers tc = Some (reg16, reg18)" "reg31_of tc ns = Some reg31"
    "r = \<lparr>reg15_mask = TRIGGER_REG15_MASK, reg15_value = reg15_of tc,
          reg_values = [(16, reg16), (18, reg18), (19, reg19_of tc ns), (31, reg31), (39, reg39_of tc ns)]\<rparr>"
  using assms by (auto simp: build_trigger_registers_def normalized_iff split: if_splits option.splits)

lemma timing_range:
  "timing_registers tc = Some (a, b) \<Longrightarrow> 0 \<le> a \<and> 0 \<le> b \<and> a \<le> max 0 (tc_window_ns tc) div 5 \<and>
     b \<le> max 0 (tc_delay_ns tc) div 5"
  by (auto simp: timing_registers_def timing_valid_def pos_imp_zdiv_nonneg_iff split: if_splits)

lemma bit_reg31:
  assumes "reg31_of tc chs = Some v" and "\<forall>ch \<in> set chs. 0 \<le> ch \<and> ch < 7"
  shows "bit v n \<longleftrightarrow>
    (if tc_mode tc \<noteq> ''auto'' then n < 4
     else if tc_auto_logic tc = Some ''majority'' then n < nat (the (tc_multiplicity tc))
     else n = 7 \<or> int n \<in> set (the (tc_auto_channels tc)))"
proof -
  have 15: "(15 :: int) = mask 4" by (simp add: mask_eq_exp_minus_1)
  have n: "n \<in> nat ` set cs \<longleftrightarrow> int n \<in> set cs" if "set cs \<subseteq> set chs" for cs
    using assms(2) that by (intro nat_image) auto
  consider "tc_mode tc \<noteq> ''auto''" | "tc_mode tc = ''auto''" "tc_auto_logic tc = Some ''majority''"
    | "tc_mode tc = ''auto''" "tc_auto_logic tc \<noteq> Some ''majority''" by blast
  then show ?thesis
  proof cases
    case 1
    then show ?thesis using assms(1) by (auto simp: reg31_of_def AUTO_TRIGGER_REG31_DEFAULT_def 15 bit_mask_iff)
  next
    case 2
    then show ?thesis
      using assms(1) by (auto simp: reg31_of_def majority_register_def bit_fold_bits
          simp del: push_bit_of_1 split: if_splits option.splits)
  next
    case 3
    then obtain cs where cs: "tc_auto_channels tc = Some cs" "set cs \<subseteq> set chs"
      and v: "v = fold (\<lambda>ch v. v OR push_bit (nat ch) 1) cs (push_bit 7 1)"
      using assms(1) by (auto simp: reg31_of_def exact_register_def Let_def list_ex_iff split: if_splits option.splits)
    have 7: "bit (push_bit 7 (1 :: int)) n \<longleftrightarrow> n = 7" unfolding bit_push_bit_iff bit_1_iff by auto
    show ?thesis unfolding v bit_channel_mask_acc n[OF cs(2)] 7 using 3 cs(1) by simp
  qed
qed

section \<open>What is selected\<close>

lemma built_registers_bounds:
  assumes "build_trigger_registers (Some tc) chs = Some r"
  shows "\<exists>v19 v31. dict_get (reg_values r) 19 = Some v19 \<and> dict_get (reg_values r) 31 = Some v31 \<and>
    0 < v19 \<and> v19 \<le> 0x1FF \<and> (\<forall>n. bit v19 n \<longleftrightarrow>
      int n \<in> set chs \<or> n = 7 \<and> tc_save_external tc \<or> n = 8 \<and> tc_save_auto tc) \<and>
    0 < v31 \<and> v31 < 256 \<and> reg15_mask r = TRIGGER_REG15_ALLOWED_MASK \<and> reg15_value r AND NOT (reg15_mask r) = 0"
proof -
  from assms obtain ns reg16 reg18 reg31 where ne: "chs \<noteq> []" and range: "\<forall>ch \<in> set chs. 0 \<le> ch \<and> ch < 7"
    and ns: "ns = sort (fromkeys chs)" and v31: "reg31_of tc ns = Some reg31"
    and r: "r = \<lparr>reg15_mask = TRIGGER_REG15_MASK, reg15_value = reg15_of tc,
          reg_values = [(16, reg16), (18, reg18), (19, reg19_of tc ns), (31, reg31), (39, reg39_of tc ns)]\<rparr>"
    by (blast elim: built_registers)
  have bits: "bit (reg19_of tc ns) n \<longleftrightarrow>
      int n \<in> set chs \<or> n = 7 \<and> tc_save_external tc \<or> n = 8 \<and> tc_save_auto tc" for n
    using range ns by (auto simp: reg19_of_def bit_or_bit mask_of_channels)
  have "0 \<le> reg19_of tc ns \<and> reg19_of tc ns < 2 ^ 9"
    using range by (intro below_2_power) (auto simp: bits)
  moreover have "bit (reg19_of tc ns) (nat (hd chs))"
    using ne range by (simp add: bits)
  ultimately have r19: "0 < reg19_of tc ns" "reg19_of tc ns \<le> 0x1FF"
    by (auto dest: positive_if_bit)
  have range': "\<forall>ch \<in> set ns. 0 \<le> ch \<and> ch < 7" using range ns by simp
  note b31 = bit_reg31[OF v31 range']
  have "set (the (tc_auto_channels tc)) \<subseteq> set ns" if "tc_mode tc = ''auto''" "tc_auto_logic tc \<noteq> Some ''majority''"
    using v31 that by (auto simp: reg31_of_def exact_register_def Let_def list_ex_iff split: if_splits option.splits)
  then have exact: "int n \<in> set (the (tc_auto_channels tc)) \<Longrightarrow> tc_mode tc = ''auto'' \<Longrightarrow>
      tc_auto_logic tc \<noteq> Some ''majority'' \<Longrightarrow> n < 7" for n
    using range' by fastforce
  have majority: "tc_mode tc = ''auto'' \<Longrightarrow> tc_auto_logic tc = Some ''majority'' \<Longrightarrow>
      0 < nat (the (tc_multiplicity tc)) \<and> nat (the (tc_multiplicity tc)) \<le> 7"
    using v31 by (auto simp: reg31_of_def majority_register_def split: if_splits option.splits)
  have "0 \<le> reg31 \<and> reg31 < 2 ^ 8"
    using exact majority by (intro below_2_power) (force simp: b31 split: if_splits)
  moreover have "bit reg31 (if tc_mode tc = ''auto'' \<and> tc_auto_logic tc \<noteq> Some ''majority'' then 7 else 0)"
    using majority by (auto simp: b31)
  ultimately have "0 < reg31" "reg31 < 256" by (auto dest: positive_if_bit)
  moreover have "reg15_of tc AND NOT TRIGGER_REG15_MASK = 0"
    by (rule bit_eqI) (auto simp: reg15_of_def TRIGGER_REG15_MASK_def bit_or_bit bit_simps)
  ultimately show ?thesis
    using bits r19 by (simp add: r TRIGGER_REG15_MASK_def TRIGGER_REG15_ALLOWED_MASK_def)
qed


definition demo_majority :: TriggerConfiguration where
  "demo_majority = default_trigger\<lparr>tc_mode := ''auto'', tc_auto_logic := Some ''majority'',
     tc_multiplicity := Some 2, tc_save_auto := True\<rparr>"

definition demo_registers :: trigger_registers where
  "demo_registers = \<lparr>reg15_mask = 0x192, reg15_value = 0x12,
     reg_values = [(16, 80), (18, 160), (19, 0x10B), (31, 3), (39, 0x18B)]\<rparr>"

lemma demo_majority_built: "build_trigger_registers (Some demo_majority) [3, 0, 1, 3] = Some demo_registers"
  by code_simp


section \<open>The board takes the configuration\<close>

lemma register_key: "a \<in> set ACQ_CONFIG_REGISTERS \<Longrightarrow> auto_int (Inr (str_int a)) = Inr a"
proof -
  have "list_all (\<lambda>a. auto_int (Inr (str_int a)) = Inr a) ACQ_CONFIG_REGISTERS" by code_simp
  then show "a \<in> set ACQ_CONFIG_REGISTERS \<Longrightarrow> auto_int (Inr (str_int a)) = Inr a"
    by (simp add: list_all_iff)
qed

text \<open>A configuration the loops of the board take without a failure.\<close>

definition acceptable :: "trigger_registers \<Rightarrow> bool" where
  "acceptable r \<longleftrightarrow> distinct (dict_keys (reg_values r)) \<and>
    (\<forall>(a, v) \<in> set (reg_values r). a \<in> set ACQ_CONFIG_REGISTERS \<and> storable v) \<and>
    reg15_mask r = TRIGGER_REG15_ALLOWED_MASK \<and> storable (reg15_value r) \<and>
    reg15_value r AND NOT (reg15_mask r) = 0"

lemma normalize_wire:
  "\<forall>(a, v) \<in> set rv. a \<in> set ACQ_CONFIG_REGISTERS \<and> storable v \<Longrightarrow>
   normalize_registers (map (\<lambda>(a, v). (str_int a, PInt v)) rv) norm failed =
     (fold (\<lambda>(a, v). dict_set a v) rv norm, failed)"
proof (induction rv arbitrary: norm)
  case (Cons av rv)
  obtain a v where av: "av = (a, v)" by force
  have a: "a \<in> set ACQ_CONFIG_REGISTERS" "storable v" using Cons.prems by (auto simp: av)
  have "\<forall>(a, v) \<in> set rv. a \<in> set ACQ_CONFIG_REGISTERS \<and> storable v" using Cons.prems by simp
  from Cons.IH[OF this, of "dict_set a v norm"] a show ?case
    by (simp add: av register_key storable_32)
qed simp

lemma dict_get_fold_pairs:
  "distinct (dict_keys rv) \<Longrightarrow> dict_get (fold (\<lambda>(a, v). dict_set a v) rv d) k =
     (case dict_get rv k of None \<Rightarrow> dict_get d k | Some v \<Rightarrow> Some v)"
proof (induction rv arbitrary: d)
  case (Cons av rv)
  obtain a v where av: "av = (a, v)" by force
  have "dict_get rv a = None" using Cons.prems by (simp add: av map_of_eq_None_iff)
  with Cons show ?case by (auto simp: av dict_simps split: option.splits)
qed simp

lemma fold_write_one_failed:
  "norm_ok norm \<Longrightarrow> mapped b \<Longrightarrow> fold (write_one norm) order (res, b) = (res', b') \<Longrightarrow>
   failed_registers res' = failed_registers res"
proof (induction order arbitrary: res b)
  case (Cons a order)
  obtain res1 b1 where w: "write_one norm a (res, b) = (res1, b1)" by force
  have "failed_registers res1 = failed_registers res"
  proof (cases "dict_get norm a")
    case (Some v)
    obtain ok b2 where w2: "write_reg a v b = (ok, b2)" by force
    have "checkRegBoundary a" "storable v"
      using norm_okD[OF Cons.prems(1) Some] acq_registers_in_bounds by blast+
    then have "ok" using write_reg_cases[OF w2] Cons.prems(2) by simp
    then show ?thesis using w w2 Some by (auto simp: write_one_def)
  qed (use w in \<open>auto simp: write_one_def\<close>)
  moreover have "mapped b1" using write_one_cases(1)[OF Cons.prems(1) w] Cons.prems(2) by simp
  moreover have "fold (write_one norm) order (res1, b1) = (res', b')" using Cons.prems(3) w by simp
  ultimately show ?case using Cons.IH[OF Cons.prems(1)] by simp
qed simp

lemma configure_reg15_accepts:
  assumes "mapped b" "storable m" "storable v" "m AND NOT TRIGGER_REG15_ALLOWED_MASK = 0" "v AND NOT m = 0"
    and "configure_reg15 [(''mask'', PInt m), (''value'', PInt v)] (res, b) = (res', b')"
  shows "failed_registers res' = failed_registers res"
proof -
  obtain p where p: "read 15 b = Some p"
    using assms(1) by (simp add: read_def checkRegBoundary_def max_regs_def)
  obtain ok b1 where w: "write_reg 15 (merge_reg15 p m v) b = (ok, b1)" by force
  have "storable p" using read_range[OF p] by (simp add: storable_def)
  then have "ok" using write_reg_cases[OF w] assms(1) merge_storable[OF _ assms(3)]
    by (simp add: checkRegBoundary_def max_regs_def)
  then show ?thesis
    using assms p w by (auto simp: configure_reg15_def reg15_valid_def storable_32)
qed

lemma acceptable_is_applied:
  assumes r: "acceptable r" and b: "mapped b"
  shows "\<exists>res b' p. set_acq_registers (acq_wire r) b = (res, b') \<and> ar_success res \<and> read 15 b = Some p \<and>
    read 15 b' = Some (merge_reg15 p (reg15_mask r) (reg15_value r)) \<and>
    (\<forall>a. a \<noteq> 15 \<longrightarrow> read a b' = (case dict_get (reg_values r) a of None \<Rightarrow> read a b | Some v \<Rightarrow> Some v))"
proof -
  let ?norm = "fold (\<lambda>(a, v). dict_set a v) (reg_values r) []"
  let ?c = "[(''mask'', PInt (reg15_mask r)), (''value'', PInt (reg15_value r))]"
  let ?r0 = "\<lparr>ar_success = False, successful_registers = [], failed_registers = [], register_results = []\<rparr>"
  have n: "normalize_registers (map (\<lambda>(a, v). (str_int a, PInt v)) (reg_values r)) [] [] = (?norm, [])"
    using r by (intro normalize_wire) (simp add: acceptable_def)
  have get: "dict_get ?norm k = dict_get (reg_values r) k" for k
    using r by (simp add: acceptable_def dict_get_fold_pairs split: option.split)
  have nok: "norm_ok ?norm" using normalize_ok[OF norm_ok_Nil] n by (metis fst_conv)
  obtain res1 b1 where f: "fold (write_one ?norm) ACQ_REGISTER_WRITE_ORDER (?r0, b) = (res1, b1)" by force
  obtain res2 b2 where c: "configure_reg15 ?c (res1, b1) = (res2, b2)" by force
  note after = fold_write_one[OF nok f]
  have b1: "mapped b1" using after(1) b by simp
  have m15: "storable (reg15_mask r)" "reg15_mask r AND NOT TRIGGER_REG15_ALLOWED_MASK = 0"
    using r by (simp_all add: acceptable_def storable_def TRIGGER_REG15_ALLOWED_MASK_def)
  have v15: "storable (reg15_value r)" "reg15_value r AND NOT (reg15_mask r) = 0"
    using r unfolding acceptable_def by blast+
  have "failed_registers res1 = []" using fold_write_one_failed[OF nok b f] by simp
  with configure_reg15_accepts[OF b1 m15(1) v15(1) m15(2) v15(2) c] have "failed_registers res2 = []" by simp
  moreover have "set_acq_registers (acq_wire r) b = (res2\<lparr>ar_success := failed_registers res2 = []\<rparr>, b2)"
    using n f c by (simp add: set_acq_registers_def acq_wire_def apply_acq_registers_def)
  moreover obtain p where p: "read 15 b1 = Some p" and
    r2: "\<forall>c. read c b2 = (if c = 15 then Some (merge_reg15 p (reg15_mask r) (reg15_value r)) else read c b1)"
    using configure_reg15_cases(2)[OF c] \<open>failed_registers res2 = []\<close> by auto
  moreover have "read a b1 = (case dict_get (reg_values r) a of None \<Rightarrow> read a b | Some v \<Rightarrow> Some v)" for a
  proof -
    have "dict_get (reg_values r) a \<noteq> None \<Longrightarrow> a \<in> set ACQ_REGISTER_WRITE_ORDER"
      using r by (auto simp: acceptable_def ACQ_CONFIG_REGISTERS_def ACQ_REGISTER_WRITE_ORDER_def dest!: map_of_SomeD)
    then show ?thesis using after(3)[of a] b by (auto simp: get split: option.splits)
  qed
  moreover have "dict_get (reg_values r) 15 = None"
    using r by (auto simp: acceptable_def map_of_eq_None_iff ACQ_CONFIG_REGISTERS_def)
  ultimately show ?thesis by auto
qed

lemma same_mask: "TRIGGER_REG15_MASK = TRIGGER_REG15_ALLOWED_MASK"
  by (simp add: TRIGGER_REG15_MASK_def TRIGGER_REG15_ALLOWED_MASK_def)

lemma built_acceptable:
  assumes "build_trigger_registers (Some tc) chs = Some r"
    and "tc_window_ns tc \<le> 5 * MAX_REGISTER_VALUE" and "tc_delay_ns tc \<le> 5 * MAX_REGISTER_VALUE"
  shows "acceptable r"
proof -
  from assms(1) obtain ns reg16 reg18 reg31 where range: "\<forall>ch \<in> set chs. 0 \<le> ch \<and> ch < 7"
    and ns: "ns = sort (fromkeys chs)" and t: "timing_registers tc = Some (reg16, reg18)"
    and v31: "reg31_of tc ns = Some reg31"
    and r: "r = \<lparr>reg15_mask = TRIGGER_REG15_MASK, reg15_value = reg15_of tc,
          reg_values = [(16, reg16), (18, reg18), (19, reg19_of tc ns), (31, reg31), (39, reg39_of tc ns)]\<rparr>"
    by (blast elim: built_registers)
  from built_registers_bounds[OF assms(1)] have "storable (reg19_of tc ns)" "storable reg31"
    by (auto simp: r storable_def)
  moreover have "storable reg16" "storable reg18"
    using timing_range[OF t] assms(2,3) by (auto simp: storable_def MAX_REGISTER_VALUE_def)
  moreover have "bit (reg39_of tc ns) n \<Longrightarrow> n < 32" for n
    using range ns by (auto simp: reg39_of_def bit_or_bit mask_of_channels)
  then have "storable (reg39_of tc ns)" unfolding storable_def by (rule below_2_power)
  moreover have "bit (reg15_of tc) n \<Longrightarrow> n < 32" for n
    by (auto simp: reg15_of_def bit_or_bit)
  then have "storable (reg15_of tc)" unfolding storable_def by (rule below_2_power)
  moreover have "reg15_of tc AND NOT TRIGGER_REG15_MASK = 0"
    using built_registers_bounds[OF assms(1)] by (simp add: r same_mask)
  ultimately show ?thesis
    by (simp add: r acceptable_def ACQ_CONFIG_REGISTERS_def same_mask)
qed

lemma held_acceptable:
  assumes "acceptable r" shows "acceptable (held_registers r)"
proof -
  have "a \<in> set ACQ_CONFIG_REGISTERS \<and> storable v" if "(a, v) \<in> set (dict_set 19 0 (reg_values r))" for a v
    using in_dict_set[OF that] assms by (auto simp: acceptable_def ACQ_CONFIG_REGISTERS_def storable_def)
  with assms show ?thesis by (auto simp: acceptable_def held_registers_def distinct_update)
qed



section \<open>What the monitoring decodes\<close>

lemma low_bits: "(v :: int) AND RC_REG31_CHANNEL_MASK = take_bit 7 v"
  by (simp add: RC_REG31_CHANNEL_MASK_def take_bit_eq_mask mask_eq_exp_minus_1)

lemma mode_bit: "(v :: int) AND RC_REG31_MODE_BIT \<noteq> 0 \<longleftrightarrow> bit v 7"
  unfolding RC_REG31_MODE_BIT_def by (simp add: bit_iff_and_push_bit_not_eq_0)

lemma auto_channel_items_ok:
  "auto_channel_items xs acc = Some chs \<Longrightarrow> distinct acc \<Longrightarrow> \<forall>c \<in> set acc. 0 \<le> c \<and> c < 7 \<Longrightarrow>
   distinct chs \<and> (\<forall>c \<in> set chs. 0 \<le> c \<and> c < 7)"
proof (induction xs arbitrary: acc)
  case Nil
  then have "chs = acc" by (simp only: auto_channel_items.simps option.inject)
  with Nil show ?case by blast
next
  case (Cons x xs)
  show ?case
  proof (cases "strip x = []")
    case True
    with Cons.prems(1) have "auto_channel_items xs acc = Some chs" by simp
    from Cons.IH[OF this Cons.prems(2,3)] show ?thesis .
  next
    case False
    with Cons.prems(1) obtain c where c: "py_int (strip x) = Some c" "\<not> (c < 0 \<or> c \<ge> 7)"
      and rest: "auto_channel_items xs (if c \<in> set acc then acc else acc @ [c]) = Some chs"
      by (simp split: option.splits if_split_asm)
    show ?thesis by (rule Cons.IH[OF rest]) (use c Cons.prems in auto)
  qed
qed

lemma exact_channels_ok:
  assumes "exact_channels raw = Some chs"
  shows "filter (\<lambda>c. c \<in> set chs) [0..6] = chs"
proof -
  from assms obtain cs items where i: "auto_channel_items items [] = Some cs" and s: "chs = sort cs"
    unfolding exact_channels_def by (auto split: option.splits if_splits simp del: auto_channel_items.simps)
  have cs: "distinct cs" "\<forall>c \<in> set cs. 0 \<le> c \<and> c < 7" using auto_channel_items_ok[OF i] by simp_all
  show ?thesis
    by (rule sorted_distinct_set_unique) (use cs in \<open>auto simp: s sorted_wrt_filter\<close>)
qed

lemma count_below: "n \<le> k \<Longrightarrow> length (filter (\<lambda>i. i < n) [0..<k]) = n"
proof -
  assume "n \<le> k"
  then have "[0..<k] = [0..<n] @ [n..<k]" by (metis le0 upt_add_eq_append le_add_diff_inverse)
  then show ?thesis by (simp add: filter_id_conv)
qed

text \<open>
  The decoder of register 31 the client uses for its monitoring gives back the auto-trigger the
  server configured: the multiplicity of a majority trigger, the channels of an exact combination.
\<close>

theorem auto_trigger_is_decoded:
  assumes "build_trigger_configuration a = Some tc" and "trigger_mode a = ''auto''"
    and "build_trigger_registers (Some tc) chs = Some r"
  shows "decode_auto_trigger_config (dict_get (reg_values r) 31) =
    Some (if ar_auto_logic a = ''majority'' then Majority (nat (the (ar_multiplicity a)))
          else Exact (the (exact_channels (ar_channels a))))"
proof -
  obtain ns reg31 where range: "\<forall>ch \<in> set ns. 0 \<le> ch \<and> ch < 7" and v: "reg31_of tc ns = Some reg31"
    and get: "dict_get (reg_values r) 31 = Some reg31"
    using assms(3) by (elim built_registers) (rule that[of "sort (fromkeys chs)"], auto)
  note b = bit_reg31[OF v range]
  have tc: "tc_mode tc = ''auto''" and auto: "auto_trigger a = Some tc"
    using assms(1,2) by (auto simp: build_trigger_configuration_def auto_trigger_def auto_base_def split: if_splits option.splits)
  show ?thesis
  proof (cases "ar_auto_logic a = ''majority''")
    case True
    then obtain m where m: "ar_multiplicity a = Some m" "1 \<le> m" "m \<le> 7" "tc_auto_logic tc = Some ''majority''"
      "tc_multiplicity tc = Some m"
      using auto by (auto simp: auto_trigger_def split: if_splits option.splits)
    then have "filter (bit (take_bit 7 reg31)) [0..<7] = filter (\<lambda>i. i < nat m) [0..<7]"
      by (intro filter_cong) (auto simp: bit_take_bit_iff b tc)
    moreover have "length (filter (\<lambda>i. i < nat m) [0..<7]) = nat m" "\<not> 7 < nat m"
      using m by (auto intro: count_below)
    ultimately show ?thesis using m
      by (simp add: Let_def decode_auto_trigger_config_def get low_bits mode_bit b tc True)
  next
    case False
    then obtain cs where cs: "exact_channels (ar_channels a) = Some cs" "tc_auto_logic tc = Some ''exact''"
      "tc_auto_channels tc = Some cs"
      using auto by (auto simp: auto_trigger_def split: if_splits option.splits)
    have "filter (\<lambda>ch. take_bit 7 reg31 AND push_bit (nat ch) 1 \<noteq> 0) [0..6] = filter (\<lambda>c. c \<in> set cs) [0..6]"
      unfolding bit_iff_and_push_bit_not_eq_0[symmetric]
      by (intro filter_cong) (auto simp: bit_take_bit_iff b tc cs)
    with exact_channels_ok[OF cs(1)] cs show ?thesis
      by (simp add: decode_auto_trigger_config_def get low_bits mode_bit b tc False num_channels_def)
  qed
qed

definition demo_exact_args :: trigger_args where
  "demo_exact_args = \<lparr>trigger_mode = ''auto'', ar_window_ns = 400, ar_delay_ns = 800, trigger_input = [],
     ar_polarity = [], ar_save_auto = False, ar_save_external = False, ar_auto_logic = ''exact'',
     ar_multiplicity = None, ar_channels = Some ''4, 1''\<rparr>"

theorem auto_trigger_is_decoded_witness:
  "\<exists>r. build_trigger_registers (build_trigger_configuration demo_exact_args) [1, 4, 5] = Some r \<and>
     decode_auto_trigger_config (dict_get (reg_values r) 31) = Some (Exact [1, 4])"
proof -
  let ?tc = "(auto_base demo_exact_args)\<lparr>tc_auto_logic := Some ''exact'', tc_auto_channels := Some [1, 4]\<rparr>"
  have tc: "build_trigger_configuration demo_exact_args = Some ?tc" by code_simp
  have "build_trigger_registers (Some ?tc) [1, 4, 5] \<noteq> None" by code_simp
  then obtain r where r: "build_trigger_registers (Some ?tc) [1, 4, 5] = Some r" by auto
  have "trigger_mode demo_exact_args = ''auto''" "ar_auto_logic demo_exact_args \<noteq> ''majority''"
    "exact_channels (ar_channels demo_exact_args) = Some [1, 4]" by code_simp+
  with auto_trigger_is_decoded[OF tc _ r] tc r show ?thesis by simp
qed

end
