(* ===== verification/AcqWorld.thy ===== *)
theory AcqWorld
  imports Complex_Main ServerRuns AcqTrigger
begin

text \<open>
  What an acquisition on the server talks to: the clients through \<open>ClientCommandService\<close>
  (\<open>server/services/client_command_service.py\<close>), the receiver of the data, the clock, and the other
  threads. The answers are an environment that may depend on everything done so far; the other
  threads (loss of a client, stop command, any call on the server state) act while a call waits.
  Nothing else is assumed of them. This theory also has the state of \<open>AcquisitionService\<close> and the
  operations the other threads call: \<open>on_client_lost\<close>, \<open>request_stop\<close>, \<open>AcquisitionOrchestrator.stop\<close>
  and the loss of a client (\<open>server/services/client_liveness_service.py\<close>).
\<close>

section \<open>Calls and state\<close>

text \<open>
  The high voltage values of a channel: \<open>None\<close> leaves the quantity as the hardware has it. Thresholds
  may be fractional: they are rationals here, the rounding of floats is not modelled.
\<close>

record hv_values =
  hv_volt :: "int option"
  hv_thr :: "rat option"

text \<open>The values of a channel as a client reports them.\<close>

record hv_pair =
  pair_voltage :: int
  pair_threshold :: int

datatype client_cmd =
    RcWrite int int
  | RcRead int
  | RcConfigure trigger_registers
  | HvSync
  | HvOnAndWait "int list"
  | HvConfigure "(int, hv_values) dict" bool
  | HvSerials

text \<open>
  The calls that leave the server process or wait, in the order made, and two entries of the log:
  \<open>Unavailable\<close>, a command that was not sent because the client is not on the acquisition plane or the channels are refused, and
  \<open>Unresolved\<close>, an operation given up because the number of the client is not known. A call of the receiver carries
  the number of the client and, for the statements, the client it is made for; \<open>OpenFile\<close> also the
  value of register 19 in the header of the file.
\<close>

datatype acq_call =
    Sent client_id client_cmd
  | Unavailable client_id client_cmd
  | Unresolved client_id
  | OpenFile client_id string int
  | CloseFile client_id string
  | StartProducer client_id string
  | StopProducer client_id string
  | ResetProducer client_id string
  | ReadMetadata "client_id list"
  | WaitStop "int option"
  | SleepTenth
  | StartThread

text \<open>
  The state of \<open>AcquisitionService\<close>, the server state it shares with the other services, the dictionary \<open>hv_previous\<close> of the
  orchestrator (\<open>overridden\<close>: the values to put back after the run) and the calls made so far.
\<close>

record acq =
  sv :: server_state
  session_active :: bool
  session_complete :: bool
  last_finalize_success :: bool
  session_clients :: "client_id list"
  acquiring_clients :: "client_id list"
  lost_clients :: "(client_id, string) dict"
  stop_requested :: bool
  prepared_rc19 :: "(client_id, int) dict"
  overridden :: "(client_id, (int, hv_pair) dict) dict"
  trace :: "acq_call list"

definition init_acquisition_service :: "server_state \<Rightarrow> acq" where
  "init_acquisition_service s = \<lparr>sv = s, session_active = False, session_complete = True,
     last_finalize_success = True, session_clients = [], acquiring_clients = [], lost_clients = [],
     stop_requested = False, prepared_rc19 = [], overridden = [], trace = []\<rparr>"

definition update_sv :: "(server_state \<Rightarrow> server_state) \<Rightarrow> acq \<Rightarrow> acq" where
  "update_sv f s = s\<lparr>sv := f (sv s)\<rparr>"

section \<open>Other threads\<close>

text \<open>What a thread other than the one of the acquisition may do while a call waits.\<close>

datatype other =
    PlaneLost client_id string
  | StopCommand
  | ServerCall server_call

definition request_stop :: "acq \<Rightarrow> acq" where
  "request_stop s = s\<lparr>stop_requested := True\<rparr>"

text \<open>\<open>_all_acquiring_clients_lost_locked\<close>\<close>

definition all_acquiring_lost :: "acq \<Rightarrow> bool" where
  "all_acquiring_lost s \<longleftrightarrow>
    acquiring_clients s \<noteq> [] \<and> list_all (\<lambda>c. c \<in> set (dict_keys (lost_clients s))) (acquiring_clients s)"

definition on_client_lost :: "client_id \<Rightarrow> string \<Rightarrow> acq \<Rightarrow> acq" where
  "on_client_lost cid plane s =
    (if plane = ''monitoring'' then s
     else if cid \<notin> set (session_clients s) then s
     else if cid \<in> set (dict_keys (lost_clients s)) then s
     else
       let s1 = s\<lparr>lost_clients := dict_set cid (''client lost on the '' @ plane @ '' plane'') (lost_clients s)\<rparr>
       in if all_acquiring_lost s1 then request_stop s1 else s1)"

definition remove_from_every_plane :: "client_id \<Rightarrow> server_state \<Rightarrow> server_state" where
  "remove_from_every_plane cid s =
    (let s1 = (if is_client_on_plane cid ''monitoring'' s then remove_monitoring_client cid s else s);
         s2 = (if is_client_on_plane cid ''acquisition'' s1 then remove_acquisition_client cid s1 else s1)
     in remove_client cid (remove_operational_client cid s2))"

text \<open>What \<open>handle_client_lost\<close> does to the server state, for a client registered on the plane.\<close>

definition drop_client :: "client_id \<Rightarrow> string \<Rightarrow> int \<Rightarrow> server_state \<Rightarrow> server_state" where
  "drop_client cid plane now s =
    (if plane = ''control'' then remove_from_every_plane cid s
     else if plane = ''acquisition'' then
       remove_acquisition_client cid
         (snd (process_client_event cid CE_ACQUISITION_PLANE_LOST
            (''client '' @ cid @ '' lost on the acquisition plane'') ''client_liveness_service'' None no_metadata now s))
     else remove_monitoring_client cid s)"

definition plane_lost :: "client_id \<Rightarrow> string \<Rightarrow> int \<Rightarrow> acq \<Rightarrow> acq" where
  "plane_lost cid plane now s =
    (if plane \<notin> {''control'', ''acquisition'', ''monitoring''} then s
     else if \<not> is_client_on_plane cid plane (sv s) then s
     else on_client_lost cid plane (update_sv (drop_client cid plane now) s))"

text \<open>An event of the server, without the optional arguments.\<close>

definition server_event ::
  "ServerFSMEvent \<Rightarrow> string \<Rightarrow> string \<Rightarrow> metadata \<Rightarrow> int \<Rightarrow> acq \<Rightarrow> bool \<times> acq" where
  "server_event event reason source md now s =
    (let (accepted, s1) = process_event event reason source None None md None now (sv s)
     in (accepted, s\<lparr>sv := s1\<rparr>))"

text \<open>\<open>AcquisitionOrchestrator.stop\<close>\<close>

definition stop_command :: "int \<Rightarrow> acq \<Rightarrow> acq" where
  "stop_command now s =
    (if run_state (sv s) = S_FINALIZING then request_stop s
     else if run_state (sv s) = S_ACQUIRING then
       (let r = server_event STOP_REQUESTED ''Manual stop command'' ''acquisition_orchestrator'' no_metadata now s
        in if fst r then request_stop (snd r) else snd r)
     else s)"

fun other_step :: "int \<Rightarrow> other \<Rightarrow> acq \<Rightarrow> acq" where
  "other_step now (PlaneLost cid plane) s = plane_lost cid plane now s"
| "other_step now StopCommand s = stop_command now s"
| "other_step now (ServerCall c) s = update_sv (exec_call c) s"

section \<open>Environment\<close>

record rc_reply =
  rp_ok :: bool
  rp_value :: "int option"

text \<open>
  The \<open>result\<close> of a reply of the high voltage, as the handlers of the client build it: a key that is absent is an
  empty list; \<open>applied\<close> and \<open>previous\<close> have texts as keys, after the JSON transport.
\<close>

record hv_reply =
  hp_ok :: bool
  hp_error :: bool
  hp_requested :: "int list"
  hp_ok_channels :: "int list"
  hp_on :: "int list"
  hp_off :: "int list"
  hp_bad :: "int list"
  hp_fixed_bad :: "int list"
  hp_successful :: "int list"
  hp_up :: "int list"
  hp_failed :: "int list"
  hp_skipped :: "int list"
  hp_applied :: "(string, hv_pair) dict"
  hp_previous :: "(string, hv_pair) dict"
  hp_serials :: "(string, string) dict"

text \<open>
  The answers to the last call of a history: \<open>Inl\<close> if the call raises (also for an answer that does not have
  this shape), \<open>None\<close> if there is no reply in time. \<open>metadata_read\<close> gives the clients that have run metadata.
  \<open>mac_number\<close> is \<open>get_id_from_mac\<close>, which always gives a client the same number. \<open>calibration\<close> is what the calibration
  file of a detector holds, by analysis channel: the fit of the threshold, the photoelectron in ADC counts, the serials. \<open>float_text\<close> is
  \<open>float\<close> on a text, \<open>None\<close> where it raises.
\<close>

record calibration_data =
  cal_fit :: "(int, rat \<times> rat) dict option"
  cal_pe :: "(int, rat) dict option"
  cal_serials :: "(int, string) dict option"

record acq_env =
  rc_answer :: "acq_call list \<Rightarrow> py_exn + rc_reply option"
  hv_answer :: "acq_call list \<Rightarrow> py_exn + hv_reply option"
  receiver_answer :: "acq_call list \<Rightarrow> py_exn + bool"
  metadata_read :: "acq_call list \<Rightarrow> py_exn + client_id list"
  thread_started :: "acq_call list \<Rightarrow> py_exn + unit"
  mac_number :: "string \<Rightarrow> int option"
  calibration :: "acq_call list \<Rightarrow> string \<Rightarrow> string \<Rightarrow> py_exn + calibration_data"
  float_text :: "string \<Rightarrow> rat option"
  meanwhile :: "acq_call list \<Rightarrow> other list"
  clock :: "acq_call list \<Rightarrow> int"

section \<open>Actions\<close>

text \<open>\<open>Stuck\<close>: the thread waits for an event that nobody sets.\<close>

datatype 'a outcome = Returned 'a | Raised py_exn | Stuck

type_synonym 'a acq_act = "acq \<Rightarrow> 'a outcome \<times> acq"

definition give :: "'a \<Rightarrow> 'a acq_act" where
  "give x s = (Returned x, s)"

definition andthen :: "'a acq_act \<Rightarrow> ('a \<Rightarrow> 'b acq_act) \<Rightarrow> 'b acq_act" where
  "andthen f g s =
    (case f s of
       (Returned x, s1) \<Rightarrow> g x s1
     | (Raised e, s1) \<Rightarrow> (Raised e, s1)
     | (Stuck, s1) \<Rightarrow> (Stuck, s1))"

text \<open>\<open>try: f except Exception: g\<close>\<close>

definition catching :: "'a acq_act \<Rightarrow> (py_exn \<Rightarrow> 'a acq_act) \<Rightarrow> 'a acq_act" where
  "catching f g s = (case f s of (Raised e, s1) \<Rightarrow> g e s1 | r \<Rightarrow> r)"

definition throw :: "py_exn \<Rightarrow> 'a acq_act" where
  "throw e s = (Raised e, s)"

text \<open>A change of the state that cannot fail, and its result.\<close>

definition change :: "(acq \<Rightarrow> acq) \<Rightarrow> unit acq_act" where
  "change f s = (Returned (), f s)"

definition reading :: "(acq \<Rightarrow> 'a) \<Rightarrow> 'a acq_act" where
  "reading f s = (Returned (f s), s)"

text \<open>A loop over a list with an accumulator.\<close>

fun each :: "('c \<Rightarrow> 'a \<Rightarrow> 'a acq_act) \<Rightarrow> 'c list \<Rightarrow> 'a \<Rightarrow> 'a acq_act" where
  "each f [] x s = (Returned x, s)"
| "each f (c # cs) x s =
    (case f c x s of
       (Returned y, s1) \<Rightarrow> each f cs y s1
     | (Raised e, s1) \<Rightarrow> (Raised e, s1)
     | (Stuck, s1) \<Rightarrow> (Stuck, s1))"

fun outcome_of :: "py_exn + 'a \<Rightarrow> 'a outcome" where
  "outcome_of (Inl e) = Raised e"
| "outcome_of (Inr x) = Returned x"

definition record_call :: "acq_call \<Rightarrow> acq \<Rightarrow> acq" where
  "record_call c s = s\<lparr>trace := trace s @ [c]\<rparr>"

text \<open>The other threads, while the last call of the trace waits.\<close>

definition others_act :: "acq_env \<Rightarrow> acq \<Rightarrow> acq" where
  "others_act e s = fold (other_step (clock e (trace s))) (meanwhile e (trace s)) s"

definition call_out :: "acq_env \<Rightarrow> acq_call \<Rightarrow> (acq_call list \<Rightarrow> py_exn + 'a) \<Rightarrow> 'a acq_act" where
  "call_out e c answer s =
    (let s1 = record_call c s in (outcome_of (answer (trace s1)), others_act e s1))"

definition sleep_tenth :: "acq_env \<Rightarrow> unit acq_act" where
  "sleep_tenth e = call_out e SleepTenth (\<lambda>_. Inr ())"

section \<open>Commands to the clients\<close>

text \<open>
  \<open>_send_command_and_wait_reply\<close> on the acquisition plane, which the acquisition uses throughout: nothing is sent to
  a client that is not registered there.
\<close>

definition ask_client ::
  "acq_env \<Rightarrow> client_id \<Rightarrow> client_cmd \<Rightarrow> (acq_call list \<Rightarrow> py_exn + 'a option) \<Rightarrow> 'a option acq_act" where
  "ask_client e cid c answer s =
    (if \<not> is_client_on_plane cid ''acquisition'' (sv s) then (Returned None, record_call (Unavailable cid c) s)
     else call_out e (Sent cid c) answer s)"

definition read_rc_register :: "acq_env \<Rightarrow> client_id \<Rightarrow> int \<Rightarrow> int option acq_act" where
  "read_rc_register e cid address =
    andthen (ask_client e cid (RcRead address) (rc_answer e)) (\<lambda>reply. give
      (case reply of None \<Rightarrow> None | Some r \<Rightarrow> if \<not> rp_ok r then None else rp_value r))"

definition rc_command_ok :: "acq_env \<Rightarrow> client_id \<Rightarrow> client_cmd \<Rightarrow> bool acq_act" where
  "rc_command_ok e cid c =
    andthen (ask_client e cid c (rc_answer e)) (\<lambda>reply. give
      (case reply of None \<Rightarrow> False | Some r \<Rightarrow> rp_ok r))"

definition write_rc_register :: "acq_env \<Rightarrow> client_id \<Rightarrow> int \<Rightarrow> int \<Rightarrow> bool acq_act" where
  "write_rc_register e cid address value = rc_command_ok e cid (RcWrite address value)"

definition set_rc_acquisition_registers :: "acq_env \<Rightarrow> client_id \<Rightarrow> trigger_registers \<Rightarrow> bool acq_act" where
  "set_rc_acquisition_registers e cid regs = rc_command_ok e cid (RcConfigure regs)"

end
