(* ===== verification/AcqSession.thy ===== *)
theory AcqSession
  imports AcqWorld
begin

text \<open>
  One acquisition session (\<open>server/services/acquisition_service.py\<close>): the reset of a client, the start
  of the prepared clients, the wait, the finalization of the clients that are alive and the short one of the
  clients that were lost, the result of each client, and the closing of the session. The texts of the
  errors are kept; the arguments that only name the file (format, suffix, run folder) are left out.
\<close>

unbundle bit_operations_syntax

section \<open>Results\<close>

record AcquisitionClientResult =
  cl_opened :: bool
  cl_finalized :: bool
  cl_success :: bool
  cl_error :: "string option"

definition new_client_result :: AcquisitionClientResult where
  "new_client_result = \<lparr>cl_opened = False, cl_finalized = False, cl_success = False, cl_error = None\<rparr>"

type_synonym session_result = "(client_id, AcquisitionClientResult) dict"

definition successful_clients_of :: "session_result \<Rightarrow> client_id list" where
  "successful_clients_of res = keys_where cl_success res"

definition failed_clients_of :: "session_result \<Rightarrow> client_id list" where
  "failed_clients_of res = keys_where (\<lambda>r. \<not> cl_success r) res"

definition session_success :: "session_result \<Rightarrow> bool" where
  "session_success res \<longleftrightarrow> res \<noteq> [] \<and> failed_clients_of res = []"

section \<open>One client\<close>

definition resolve_numeric_id :: "acq_env \<Rightarrow> client_id \<Rightarrow> acq \<Rightarrow> string option" where
  "resolve_numeric_id e cid s =
    (case dict_get (clients (sv s)) cid of
       None \<Rightarrow> None
     | Some r \<Rightarrow>
         (case identity r of
            None \<Rightarrow> None
          | Some i \<Rightarrow>
              (case dict_get i ''mac_address'' of
                 None \<Rightarrow> None
               | Some mac \<Rightarrow> map_option str_int (mac_number e mac))))"

text \<open>\<open>_run_client_step\<close>: an exception counts as a failure of that client.\<close>

definition run_client_step :: "bool acq_act \<Rightarrow> bool acq_act" where
  "run_client_step action = catching action (\<lambda>_. give False)"

text \<open>What needs the number of the client, given up with an entry in the log if it is not known.\<close>

definition with_number :: "client_id \<Rightarrow> string option \<Rightarrow> (string \<Rightarrow> bool acq_act) \<Rightarrow> bool acq_act" where
  "with_number cid nid action =
    (case nid of
       None \<Rightarrow> andthen (change (record_call (Unresolved cid))) (\<lambda>_. give False)
     | Some n \<Rightarrow> action n)"

definition open_file_for_client :: "acq_env \<Rightarrow> client_id \<Rightarrow> int \<Rightarrow> bool acq_act" where
  "open_file_for_client e cid header_rc19 =
    andthen (reading (resolve_numeric_id e cid)) (\<lambda>nid.
      with_number cid nid (\<lambda>n. call_out e (OpenFile cid n header_rc19) (receiver_answer e)))"

definition close_file_for_client :: "acq_env \<Rightarrow> client_id \<Rightarrow> bool acq_act" where
  "close_file_for_client e cid =
    andthen (reading (resolve_numeric_id e cid)) (\<lambda>nid.
      with_number cid nid (\<lambda>n. call_out e (CloseFile cid n) (receiver_answer e)))"

text \<open>\<open>disable_rc_channels\<close>: every client is tried, also after a failure.\<close>

definition disable_rc_channels :: "acq_env \<Rightarrow> client_id list \<Rightarrow> bool acq_act" where
  "disable_rc_channels e cids =
    each (\<lambda>cid overall. andthen (write_rc_register e cid 19 0) (\<lambda>ok. give (overall \<and> ok))) cids True"

definition RC15_RESET_MASK :: int where "RC15_RESET_MASK = push_bit 3 1"

definition RC15_WRITABLE_MASK :: int where "RC15_WRITABLE_MASK = 0x1BF"

definition RC19_MASK :: int where "RC19_MASK = 0x1FF"

definition reset_base_value :: "int \<Rightarrow> int" where
  "reset_base_value previous =
    previous AND RC15_WRITABLE_MASK AND NOT (RC15_RESET_MASK OR push_bit 5 1)"

text \<open>The pulse of the hardware reset: the \<open>try\<close> block of \<open>flush_client\<close>, with its \<open>except\<close>.\<close>

definition reset_pulse :: "acq_env \<Rightarrow> client_id \<Rightarrow> int \<Rightarrow> bool acq_act" where
  "reset_pulse e cid base =
    catching
      (andthen (write_rc_register e cid 15 base) (\<lambda>ok.
         if \<not> ok then give False
         else andthen (sleep_tenth e) (\<lambda>_.
           andthen (write_rc_register e cid 15 (base OR RC15_RESET_MASK)) (\<lambda>ok.
             if \<not> ok then give False
             else andthen (sleep_tenth e) (\<lambda>_.
               andthen (read_rc_register e cid 15) (\<lambda>held. give
                 (case held of
                    None \<Rightarrow> False
                  | Some h \<Rightarrow> h AND RC15_WRITABLE_MASK = base OR RC15_RESET_MASK)))))))
      (\<lambda>_. give False)"

definition release_reset :: "acq_env \<Rightarrow> client_id \<Rightarrow> int \<Rightarrow> bool acq_act" where
  "release_reset e cid base = catching (write_rc_register e cid 15 base) (\<lambda>_. give False)"

text \<open>After the pulse and the release, the board must read back released before the second reset.\<close>

definition finish_flush :: "acq_env \<Rightarrow> client_id \<Rightarrow> string \<Rightarrow> int \<Rightarrow> bool acq_act" where
  "finish_flush e cid n base =
    andthen (sleep_tenth e) (\<lambda>_.
      andthen (read_rc_register e cid 15) (\<lambda>released.
        case released of
          None \<Rightarrow> give False
        | Some r \<Rightarrow>
            if r AND RC15_WRITABLE_MASK \<noteq> base then give False
            else call_out e (ResetProducer cid n) (receiver_answer e)))"

definition reset_hardware :: "acq_env \<Rightarrow> client_id \<Rightarrow> string \<Rightarrow> int \<Rightarrow> bool acq_act" where
  "reset_hardware e cid n base =
    andthen (reset_pulse e cid base) (\<lambda>hardware_ok.
      andthen (release_reset e cid base) (\<lambda>released_ok.
        if \<not> hardware_ok \<or> \<not> released_ok then give False else finish_flush e cid n base))"

definition flush_producer :: "acq_env \<Rightarrow> client_id \<Rightarrow> string \<Rightarrow> bool acq_act" where
  "flush_producer e cid n =
    andthen (call_out e (StopProducer cid n) (receiver_answer e)) (\<lambda>stopped.
      if \<not> stopped then give False
      else andthen (read_rc_register e cid 15) (\<lambda>previous.
        case previous of
          None \<Rightarrow> give False
        | Some p \<Rightarrow>
            if p AND RC15_RESET_MASK \<noteq> 0 then give False
            else andthen (call_out e (ResetProducer cid n) (receiver_answer e)) (\<lambda>reset.
              if \<not> reset then give False else reset_hardware e cid n (reset_base_value p))))"

definition flush_client :: "acq_env \<Rightarrow> client_id \<Rightarrow> bool acq_act" where
  "flush_client e cid =
    andthen (read_rc_register e cid 19) (\<lambda>rc19.
      case rc19 of
        None \<Rightarrow> give False
      | Some v \<Rightarrow>
          if v AND RC19_MASK \<noteq> 0 then give False
          else andthen (reading (resolve_numeric_id e cid)) (\<lambda>nid.
            with_number cid nid (flush_producer e cid)))"

definition configure_acquisition_client ::
  "acq_env \<Rightarrow> client_id \<Rightarrow> TriggerConfiguration option \<Rightarrow> int list \<Rightarrow> bool acq_act" where
  "configure_acquisition_client e cid trigger_config effective_channels =
    (case build_trigger_registers trigger_config effective_channels of
       None \<Rightarrow> give False
     | Some r \<Rightarrow>
         andthen (change (\<lambda>s. s\<lparr>prepared_rc19 := dict_pop cid (prepared_rc19 s)\<rparr>)) (\<lambda>_.
           andthen (disable_rc_channels e [cid]) (\<lambda>disabled.
             if \<not> disabled then give False
             else andthen (set_rc_acquisition_registers e cid (held_registers r)) (\<lambda>success.
               if \<not> success then give False
               else andthen (change (\<lambda>s. s\<lparr>prepared_rc19 :=
                    dict_set cid (the (intended_rc19 r)) (prepared_rc19 s)\<rparr>)) (\<lambda>_. give True)))))"

definition configure_acquisition_end_client :: "acq_env \<Rightarrow> client_id \<Rightarrow> bool acq_act" where
  "configure_acquisition_end_client e cid = set_rc_acquisition_registers e cid end_registers"

text \<open>\<open>_close_lost_client\<close>: what the server can do without the client.\<close>

definition close_lost_client :: "acq_env \<Rightarrow> client_id \<Rightarrow> string option \<Rightarrow> bool acq_act" where
  "close_lost_client e cid numeric_id =
    with_number cid numeric_id (\<lambda>n.
      andthen (run_client_step (call_out e (StopProducer cid n) (receiver_answer e))) (\<lambda>_.
        run_client_step (call_out e (CloseFile cid n) (receiver_answer e))))"

section \<open>Start of the prepared clients\<close>

record start_progress =
  sp_opened :: "client_id list"
  sp_acquiring :: "client_id list"
  sp_errors :: "(client_id, string) dict"
  sp_masks :: "(client_id, int) dict"

definition start_error :: "client_id \<Rightarrow> string \<Rightarrow> start_progress \<Rightarrow> start_progress" where
  "start_error cid txt p = p\<lparr>sp_errors := dict_set cid txt (sp_errors p)\<rparr>"

text \<open>The first loop: one prepared client.\<close>

definition check_prepared ::
  "acq_env \<Rightarrow> client_id list \<Rightarrow> client_id \<Rightarrow> start_progress \<Rightarrow> start_progress acq_act" where
  "check_prepared e with_metadata cid p =
    andthen (reading (\<lambda>s. dict_get (prepared_rc19 s) cid)) (\<lambda>prepared.
      case prepared of
        None \<Rightarrow> give (start_error cid ''missing or invalid prepared RC19 mask'' p)
      | Some msk \<Rightarrow>
          if \<not> (0 < msk \<and> msk \<le> 0x1FF) then give (start_error cid ''missing or invalid prepared RC19 mask'' p)
          else andthen (read_rc_register e cid 19) (\<lambda>current.
            case current of
              None \<Rightarrow> give (start_error cid ''RC19 must be disabled before OPEN_READY'' p)
            | Some c \<Rightarrow>
                if c AND RC19_MASK \<noteq> 0 then give (start_error cid ''RC19 must be disabled before OPEN_READY'' p)
                else if cid \<notin> set with_metadata then give (start_error cid ''missing run metadata'' p)
                else andthen (run_client_step (flush_client e cid)) (\<lambda>flushed.
                  if \<not> flushed then give (start_error cid ''pre-acquisition reset failed'' p)
                  else give (p\<lparr>sp_masks := dict_set cid msk (sp_masks p)\<rparr>))))"

text \<open>The second loop: after the file of the client is open.\<close>

definition start_opened ::
  "acq_env \<Rightarrow> client_id \<Rightarrow> int \<Rightarrow> start_progress \<Rightarrow> start_progress acq_act" where
  "start_opened e cid msk p =
    andthen (reading (\<lambda>s. (stop_requested s, resolve_numeric_id e cid s))) (\<lambda>(stopped, nid).
      if stopped then give (start_error cid ''stopped before producer START'' p)
      else andthen (with_number cid nid (\<lambda>n. call_out e (StartProducer cid n) (receiver_answer e))) (\<lambda>started.
        if \<not> started then give (start_error cid ''producer START failed or not confirmed'' p)
        else andthen (reading stop_requested) (\<lambda>stopped.
          if stopped then give (start_error cid ''stopped before RC19 enable'' p)
          else andthen (write_rc_register e cid 19 msk) (\<lambda>enabled.
            if \<not> enabled then give (start_error cid ''RC19 enable failed after producer START'' p)
            else give (p\<lparr>sp_acquiring := sp_acquiring p @ [cid]\<rparr>)))))"

definition start_client ::
  "acq_env \<Rightarrow> client_id \<times> int \<Rightarrow> start_progress \<Rightarrow> start_progress acq_act" where
  "start_client e = (\<lambda>(cid, msk) p.
    andthen (reading stop_requested) (\<lambda>stopped.
      if stopped then give (start_error cid ''stopped before OPEN_READY'' p)
      else andthen (open_file_for_client e cid msk) (\<lambda>opened.
        if \<not> opened then
          andthen (close_file_for_client e cid) (\<lambda>_.
            give (start_error cid ''OPEN_READY failed or not confirmed'' p))
        else start_opened e cid msk (p\<lparr>sp_opened := sp_opened p @ [cid]\<rparr>))))"

definition open_and_start_prepared_clients ::
  "acq_env \<Rightarrow> client_id list \<Rightarrow> client_id list \<Rightarrow> start_progress acq_act" where
  "open_and_start_prepared_clients e cids with_metadata =
    andthen (each (check_prepared e with_metadata) cids
        \<lparr>sp_opened = [], sp_acquiring = [], sp_errors = [], sp_masks = []\<rparr>) (\<lambda>p.
      each (start_client e) (sp_masks p) p)"

section \<open>Finalization\<close>

definition fail_if :: "client_id \<Rightarrow> bool \<Rightarrow> (client_id, bool) dict \<Rightarrow> (client_id, bool) dict" where
  "fail_if cid ok results = (if ok then results else dict_set cid False results)"

text \<open>One step of the finalization on every client.\<close>

definition finalize_each ::
  "(client_id \<Rightarrow> bool acq_act) \<Rightarrow> client_id list \<Rightarrow> (client_id, bool) dict \<Rightarrow> (client_id, bool) dict acq_act" where
  "finalize_each step =
    each (\<lambda>cid results. andthen (run_client_step (step cid)) (\<lambda>ok. give (fail_if cid ok results)))"

definition run_hardware_stop_and_flush ::
  "acq_env \<Rightarrow> client_id list \<Rightarrow> bool \<Rightarrow> (client_id, bool) dict acq_act" where
  "run_hardware_stop_and_flush e cids reset_trigger_config =
    (if cids = [] then give []
     else
       andthen (finalize_each (\<lambda>cid. disable_rc_channels e [cid]) cids
           (fold (\<lambda>cid. dict_set cid True) cids [])) (\<lambda>r1.
         andthen (finalize_each (flush_client e) cids r1) (\<lambda>r2.
           andthen (if reset_trigger_config
                    then finalize_each (configure_acquisition_end_client e) cids r2
                    else give r2) (\<lambda>r3.
             finalize_each (close_file_for_client e) cids r3))))"

section \<open>The session\<close>

definition begin_session :: "acq \<Rightarrow> acq" where
  "begin_session s = s\<lparr>session_active := True, session_complete := False, stop_requested := False\<rparr>"

text \<open>The wait: for the duration if there is one, otherwise until a stop is requested.\<close>

definition wait_stop :: "acq_env \<Rightarrow> int option \<Rightarrow> bool acq_act" where
  "wait_stop e timeout =
    andthen (call_out e (WaitStop timeout) (\<lambda>_. Inr ())) (\<lambda>_ s.
      if stop_requested s then (Returned True, s)
      else if timeout = None then (Stuck, s)
      else (Returned False, s))"

definition wait_acquisition :: "acq_env \<Rightarrow> int option \<Rightarrow> unit acq_act \<Rightarrow> unit acq_act" where
  "wait_acquisition e duration on_duration_elapsed =
    (case duration of
       None \<Rightarrow> andthen (wait_stop e None) (\<lambda>_. give ())
     | Some d \<Rightarrow>
         if d > 0 then
           andthen (wait_stop e (Some d)) (\<lambda>stopped_early.
             if stopped_early then give ()
             else catching on_duration_elapsed (\<lambda>_. give ()))
         else andthen (wait_stop e None) (\<lambda>_. give ()))"

definition with_start_errors ::
  "start_progress \<Rightarrow> session_result \<Rightarrow> session_result" where
  "with_start_errors p res =
    dict_map (\<lambda>cid r. r\<lparr>cl_opened := cid \<in> set (sp_opened p), cl_error := dict_get (sp_errors p) cid\<rparr>) res"

definition note_acquiring :: "client_id list \<Rightarrow> acq \<Rightarrow> acq" where
  "note_acquiring cids s =
    (let s1 = s\<lparr>acquiring_clients := cids\<rparr> in
     if all_acquiring_lost s1 then request_stop s1 else s1)"

text \<open>
  The \<open>try\<close> block: the progress of the start, and the clients lost when the wait ends (\<open>None\<close>: no
  file could be opened, the session returns at once).
\<close>

definition session_body ::
  "acq_env \<Rightarrow> client_id list \<Rightarrow> int option \<Rightarrow> unit acq_act
     \<Rightarrow> (start_progress \<times> (client_id, string) dict option) acq_act" where
  "session_body e cids duration on_duration_elapsed =
    andthen (call_out e (ReadMetadata cids) (metadata_read e)) (\<lambda>with_metadata.
      andthen (open_and_start_prepared_clients e cids with_metadata) (\<lambda>p.
        if sp_opened p = [] then give (p, None)
        else
          andthen (change (note_acquiring (sp_acquiring p))) (\<lambda>_.
            andthen (if sp_acquiring p \<noteq> [] then wait_acquisition e duration on_duration_elapsed else give ()) (\<lambda>_.
              andthen (reading lost_clients) (\<lambda>lost. give (p, Some lost))))))"

definition clear_session_clients :: "acq \<Rightarrow> acq" where
  "clear_session_clients s = s\<lparr>session_clients := [], acquiring_clients := [], lost_clients := []\<rparr>"

text \<open>The \<open>except\<close> and \<open>finally\<close> around it: everything requested is finalized and the error goes on.\<close>

definition guarded_session ::
  "acq_env \<Rightarrow> client_id list \<Rightarrow> int option \<Rightarrow> unit acq_act \<Rightarrow> bool
     \<Rightarrow> (start_progress \<times> (client_id, string) dict option) acq_act" where
  "guarded_session e cids duration on_duration_elapsed reset_trigger_config s =
    (case session_body e cids duration on_duration_elapsed s of
       (Returned r, s1) \<Rightarrow> (Returned r, clear_session_clients s1)
     | (Raised x, s1) \<Rightarrow>
         (case run_hardware_stop_and_flush e cids reset_trigger_config s1 of
            (Stuck, s2) \<Rightarrow> (Stuck, s2)
          | (_, s2) \<Rightarrow> (Raised x, clear_session_clients s2))
     | (Stuck, s1) \<Rightarrow> (Stuck, s1))"

text \<open>The result of an opened client.\<close>

definition final_result ::
  "(client_id, string) dict \<Rightarrow> (client_id, bool) dict \<Rightarrow> client_id \<Rightarrow> AcquisitionClientResult \<Rightarrow> AcquisitionClientResult" where
  "final_result lost finalize_results cid r =
    (let finalized = (dict_get finalize_results cid = Some True);
         r1 = r\<lparr>cl_finalized := finalized\<rparr> in
     case dict_get lost cid of
       Some why \<Rightarrow> r1\<lparr>cl_success := False,
         cl_error := Some (''client lost during the acquisition ('' @ why @ '')'')\<rparr>
     | None \<Rightarrow>
         let r2 = r1\<lparr>cl_success := (finalized \<and> cl_error r1 = None)\<rparr> in
         if \<not> finalized then r2\<lparr>cl_error := Some ''acquisition finalization failed''\<rparr> else r2)"

definition finish_session ::
  "acq_env \<Rightarrow> (client_id \<Rightarrow> string option) \<Rightarrow> bool \<Rightarrow> start_progress \<Rightarrow> (client_id, string) dict
     \<Rightarrow> session_result \<Rightarrow> session_result acq_act" where
  "finish_session e numeric_ids reset_trigger_config p lost res =
    (let lost_opened = filter (\<lambda>c. c \<in> set (dict_keys lost)) (sp_opened p);
         alive = filter (\<lambda>c. c \<notin> set (dict_keys lost)) (sp_opened p) in
     andthen (run_hardware_stop_and_flush e alive reset_trigger_config) (\<lambda>r1.
       andthen (each (\<lambda>cid r. andthen (close_lost_client e cid (numeric_ids cid)) (\<lambda>ok. give (dict_set cid ok r)))
           lost_opened r1) (\<lambda>r2.
         give (dict_map (\<lambda>cid r. if cid \<in> set (sp_opened p) then final_result lost r2 cid r else r) res))))"

definition run_acquisition_session ::
  "acq_env \<Rightarrow> client_id list \<Rightarrow> int option \<Rightarrow> unit acq_act \<Rightarrow> bool \<Rightarrow> session_result acq_act" where
  "run_acquisition_session e cids duration on_duration_elapsed reset_trigger_config =
    (let res = fold (\<lambda>cid. dict_set cid new_client_result) cids [] in
     if cids = [] then give res
     else
       andthen (reading (\<lambda>s cid. resolve_numeric_id e cid s)) (\<lambda>numeric_ids.
         andthen (change (\<lambda>s. s\<lparr>session_clients := fromkeys cids\<rparr>)) (\<lambda>_.
           andthen (guarded_session e cids duration on_duration_elapsed reset_trigger_config) (\<lambda>(p, lost).
             case lost of
               None \<Rightarrow> give (with_start_errors p res)
             | Some l \<Rightarrow> finish_session e numeric_ids reset_trigger_config p l (with_start_errors p res)))))"

definition close_session :: "acq_env \<Rightarrow> bool \<Rightarrow> string \<Rightarrow> acq \<Rightarrow> acq" where
  "close_session e success reason s =
    (let now = clock e (trace s);
         s1 = (if run_state (sv s) = S_ACQUIRING
               then snd (server_event STOP_REQUESTED (reason @ '' (stop requested)'')
                      ''acquisition_service.close_session'' no_metadata now s) else s);
         s2 = (if run_state (sv s1) = S_FINALIZING
               then (if success
                     then snd (server_event FINALIZATION_SUCCEEDED reason
                            ''acquisition_service.close_session'' no_metadata now s1)
                     else snd (server_event FINALIZATION_FAILED (reason @ '' (finalization error)'')
                            ''acquisition_service.close_session'' no_metadata now s1))
               else s1)
     in s2\<lparr>session_active := False, last_finalize_success := success, session_complete := True\<rparr>)"

end
