(* ===== verification/AcqLogic.thy ===== *)
theory AcqLogic
  imports AcqSession
begin

text \<open>
  A Hoare logic for the actions of the acquisition: a precondition, a postcondition for a returned
  value, one for an exception and one for a thread that waits for ever. The rules are collected in
  \<open>acq_rules\<close>; \<open>call_rule\<close> treats a call by what it adds to the trace, which the other threads leave alone.
\<close>

named_theorems acq_rules \<open>Hoare rules of the acquisition\<close>

definition triple ::
  "(acq \<Rightarrow> bool) \<Rightarrow> 'a acq_act \<Rightarrow> ('a \<Rightarrow> acq \<Rightarrow> bool) \<Rightarrow> (acq \<Rightarrow> bool) \<Rightarrow> (acq \<Rightarrow> bool) \<Rightarrow> bool" where
  "triple P f Q E W \<longleftrightarrow> (\<forall>s. P s \<longrightarrow>
    (case f s of (Returned x, s1) \<Rightarrow> Q x s1 | (Raised e, s1) \<Rightarrow> E s1 | (Stuck, s1) \<Rightarrow> W s1))"

abbreviation never :: "acq \<Rightarrow> bool" where
  "never \<equiv> \<lambda>_. False"

abbreviation anything :: "acq \<Rightarrow> bool" where
  "anything \<equiv> \<lambda>_. True"

lemma tripleI:
  "(\<And>s x s1. P s \<Longrightarrow> f s = (Returned x, s1) \<Longrightarrow> Q x s1) \<Longrightarrow>
   (\<And>s e s1. P s \<Longrightarrow> f s = (Raised e, s1) \<Longrightarrow> E s1) \<Longrightarrow>
   (\<And>s s1. P s \<Longrightarrow> f s = (Stuck, s1) \<Longrightarrow> W s1) \<Longrightarrow> triple P f Q E W"
  by (auto simp: triple_def split: prod.splits outcome.splits)

lemma tripleD:
  assumes "triple P f Q E W" and "P s"
  shows "f s = (Returned x, s1) \<Longrightarrow> Q x s1" and "f s = (Raised e, s1) \<Longrightarrow> E s1" and "f s = (Stuck, s1) \<Longrightarrow> W s1"
  using assms by (auto simp: triple_def dest!: spec[of _ s])

lemma triple_conseq:
  "triple P f Q E W \<Longrightarrow> (\<And>s. P' s \<Longrightarrow> P s) \<Longrightarrow> (\<And>x s. Q x s \<Longrightarrow> Q' x s) \<Longrightarrow> (\<And>s. E s \<Longrightarrow> E' s) \<Longrightarrow>
   (\<And>s. W s \<Longrightarrow> W' s) \<Longrightarrow> triple P' f Q' E' W'"
  by (fastforce simp: triple_def split: prod.splits outcome.splits)

lemma triple_pre: "triple P f Q E W \<Longrightarrow> (\<And>s. P' s \<Longrightarrow> P s) \<Longrightarrow> triple P' f Q E W"
  by (rule triple_conseq)

lemma triple_post:
  "triple P f Q E W \<Longrightarrow> (\<And>x s. Q x s \<Longrightarrow> Q' x s) \<Longrightarrow> triple P f Q' E W"
  by (rule triple_conseq)

lemma triple_conj:
  "triple P f Q E W \<Longrightarrow> triple P' f Q' E' W' \<Longrightarrow>
   triple (\<lambda>s. P s \<and> P' s) f (\<lambda>x s. Q x s \<and> Q' x s) (\<lambda>s. E s \<and> E' s) (\<lambda>s. W s \<and> W' s)"
  by (fastforce simp: triple_def split: prod.splits outcome.splits)

lemma triple_context: "(C \<Longrightarrow> triple P f Q E W) \<Longrightarrow> triple (\<lambda>s. C \<and> P s) f Q E W"
  by (auto simp: triple_def)

lemma triple_exists: "(\<And>y. triple (P y) f Q E W) \<Longrightarrow> triple (\<lambda>s. \<exists>y. P y s) f Q E W"
  by (fastforce simp: triple_def split: prod.splits outcome.splits)

lemma triple_give [acq_rules]: "(\<And>s. P s \<Longrightarrow> Q x s) \<Longrightarrow> triple P (give x) Q E W"
  by (auto simp: triple_def give_def)

lemma triple_change [acq_rules]: "(\<And>s. P s \<Longrightarrow> Q () (f s)) \<Longrightarrow> triple P (change f) Q E W"
  by (auto simp: triple_def change_def)

lemma triple_andthen:
  "triple P f R E W \<Longrightarrow> (\<And>x. triple (R x) (g x) Q E W) \<Longrightarrow> triple P (andthen f g) Q E W"
  by (fastforce simp: triple_def andthen_def split: prod.splits outcome.splits)

lemma triple_reading: "triple P (reading f) (\<lambda>x s. P s \<and> x = f s) E W"
  by (auto simp: triple_def reading_def)

text \<open>Reading a component of the state: the rest runs with its value known.\<close>

lemma triple_read [acq_rules]:
  "(\<And>x. triple (\<lambda>s. P s \<and> x = f s) (g x) Q E W) \<Longrightarrow> triple P (andthen (reading f) g) Q E W"
  by (rule triple_andthen[OF triple_reading])

lemma triple_read_any:
  "(\<And>x. triple P (g x) Q E W) \<Longrightarrow> triple P (andthen (reading f) g) Q E W"
  by (rule triple_read) (auto intro: triple_pre[of P])

lemma triple_catching:
  "triple P f Q E' W \<Longrightarrow> (\<And>x. triple E' (h x) Q E W) \<Longrightarrow> triple P (catching f h) Q E W"
  by (fastforce simp: triple_def catching_def split: prod.splits outcome.splits)

lemma triple_if [acq_rules]:
  "(b \<Longrightarrow> triple P f Q E W) \<Longrightarrow> (\<not> b \<Longrightarrow> triple P g Q E W) \<Longrightarrow> triple P (if b then f else g) Q E W"
  by simp

lemma triple_option [acq_rules]:
  "(x = None \<Longrightarrow> triple P f Q E W) \<Longrightarrow> (\<And>y. x = Some y \<Longrightarrow> triple P (g y) Q E W) \<Longrightarrow>
   triple P (case x of None \<Rightarrow> f | Some y \<Rightarrow> g y) Q E W"
  by (cases x) simp_all

lemma triple_prod [acq_rules]:
  "(\<And>a b. x = (a, b) \<Longrightarrow> triple P (g a b) Q E W) \<Longrightarrow> triple P (case x of (a, b) \<Rightarrow> g a b) Q E W"
  by (cases x) simp

text \<open>The invariant of a loop may speak of the elements done so far.\<close>

lemma triple_each_split:
  "(\<And>done c rest x. cs = done @ c # rest \<Longrightarrow> triple (I (pre @ done) x) (f c x) (I (pre @ done @ [c])) E W) \<Longrightarrow>
   triple (I pre x) (each f cs x) (I (pre @ cs)) E W"
proof (induction cs arbitrary: pre x)
  case (Cons c cs)
  have 1: "triple (I pre x) (f c x) (I (pre @ [c])) E W" using Cons.prems[of "[]"] by simp
  have 2: "triple (I (pre @ [c]) y) (each f cs y) (I ((pre @ [c]) @ cs)) E W" for y
    by (rule Cons.IH) (use Cons.prems[of "c # _"] in simp)
  show ?case
  proof (rule tripleI)
    fix s y s1 assume P: "I pre x s" and "each f (c # cs) x s = (Returned y, s1)"
    then obtain z s2 where "f c x s = (Returned z, s2)" "each f cs z s2 = (Returned y, s1)"
      by (auto split: prod.splits outcome.splits)
    then show "I (pre @ c # cs) y s1" using tripleD[OF 1 P] tripleD[OF 2] by fastforce
  next
    fix s e s1 assume P: "I pre x s" and "each f (c # cs) x s = (Raised e, s1)"
    then show "E s1" using tripleD[OF 1 P] tripleD[OF 2] by (fastforce split: prod.splits outcome.splits)
  next
    fix s s1 assume P: "I pre x s" and "each f (c # cs) x s = (Stuck, s1)"
    then show "W s1" using tripleD[OF 1 P] tripleD[OF 2] by (fastforce split: prod.splits outcome.splits)
  qed
qed (simp add: triple_def)

lemma triple_each_done:
  "(\<And>done c x. c \<in> set cs \<Longrightarrow> triple (I done x) (f c x) (I (done @ [c])) E W) \<Longrightarrow>
   triple (I pre x) (each f cs x) (I (pre @ cs)) E W"
  by (rule triple_each_split) (metis append_assoc in_set_conv_decomp)

lemma triple_each:
  "(\<And>c x. c \<in> set cs \<Longrightarrow> triple (I x) (f c x) I E W) \<Longrightarrow> triple (I x) (each f cs x) I E W"
  by (rule triple_each_done[where I = "\<lambda>_. I"])

lemma triple_each_one: "triple P (f c x) Q E W \<Longrightarrow> triple P (each f [c] x) Q E W"
  by (fastforce simp: triple_def split: prod.splits outcome.splits)

section \<open>Invariants\<close>

text \<open>An action that keeps an invariant, however it ends, and does not wait for ever.\<close>

named_theorems keeps_rules \<open>actions that keep an invariant\<close>

definition keeps :: "(acq \<Rightarrow> bool) \<Rightarrow> 'a acq_act \<Rightarrow> bool" where
  "keeps I f \<longleftrightarrow> triple I f (\<lambda>_. I) I never"

lemma keepsD: "keeps I f \<Longrightarrow> triple I f (\<lambda>_. I) I never"
  by (simp add: keeps_def)

lemma keeps_snd: "keeps I f \<Longrightarrow> I s \<Longrightarrow> I (snd (f s)) \<and> fst (f s) \<noteq> Stuck"
  unfolding keeps_def by (cases "f s"; cases "fst (f s)") (auto dest: tripleD)

lemma keeps_basic [keeps_rules]:
  "keeps I (give x)" "keeps I (reading r)" "keeps I (throw ex)"
  by (auto simp: keeps_def triple_def give_def reading_def throw_def)

lemma keeps_change: "(\<And>s. I s \<Longrightarrow> I (f s)) \<Longrightarrow> keeps I (change f)"
  by (auto simp: keeps_def intro: acq_rules)

lemma keeps_andthen [keeps_rules]:
  "keeps I f \<Longrightarrow> (\<And>x. keeps I (g x)) \<Longrightarrow> keeps I (andthen f g)"
  unfolding keeps_def by (rule triple_andthen)

lemma keeps_catching [keeps_rules]:
  "keeps I f \<Longrightarrow> (\<And>x. keeps I (h x)) \<Longrightarrow> keeps I (catching f h)"
  unfolding keeps_def by (rule triple_catching)

lemma keeps_if [keeps_rules]:
  "(b \<Longrightarrow> keeps I f) \<Longrightarrow> (\<not> b \<Longrightarrow> keeps I g) \<Longrightarrow> keeps I (if b then f else g)"
  by simp

lemma keeps_option [keeps_rules]:
  "(x = None \<Longrightarrow> keeps I f) \<Longrightarrow> (\<And>y. x = Some y \<Longrightarrow> keeps I (g y)) \<Longrightarrow>
   keeps I (case x of None \<Rightarrow> f | Some y \<Rightarrow> g y)"
  by (cases x) simp_all

lemma keeps_sum [keeps_rules]:
  "(\<And>y. x = Inl y \<Longrightarrow> keeps I (f y)) \<Longrightarrow> (\<And>y. x = Inr y \<Longrightarrow> keeps I (g y)) \<Longrightarrow>
   keeps I (case x of Inl y \<Rightarrow> f y | Inr y \<Rightarrow> g y)"
  by (cases x) simp_all

lemma keeps_prod [keeps_rules]:
  "(\<And>x y. p = (x, y) \<Longrightarrow> keeps I (g x y)) \<Longrightarrow> keeps I (case p of (x, y) \<Rightarrow> g x y)"
  by (cases p) simp

lemma keeps_each [keeps_rules]:
  "(\<And>c x. c \<in> set cs \<Longrightarrow> keeps I (f c x)) \<Longrightarrow> keeps I (each f cs x)"
  unfolding keeps_def by (rule triple_each)

lemma keeps_conj: "keeps I f \<Longrightarrow> keeps J f \<Longrightarrow> keeps (\<lambda>s. I s \<and> J s) f"
  unfolding keeps_def by (drule (1) triple_conj, erule triple_conseq) auto

lemma keeps_run_client_step [keeps_rules]: "keeps I f \<Longrightarrow> keeps I (run_client_step f)"
  unfolding run_client_step_def by (intro keeps_rules)

section \<open>Returned values\<close>

text \<open>What a returned value satisfies, whatever the state.\<close>

named_theorems returns_rules \<open>returned values\<close>

definition returns :: "'a acq_act \<Rightarrow> ('a \<Rightarrow> bool) \<Rightarrow> bool" where
  "returns f Q \<longleftrightarrow> (\<forall>s x s1. f s = (Returned x, s1) \<longrightarrow> Q x)"

lemma returns_give [returns_rules]: "Q x \<Longrightarrow> returns (give x) Q"
  by (simp add: returns_def give_def)

lemma returns_andthen [returns_rules]: "(\<And>x. returns (g x) Q) \<Longrightarrow> returns (andthen f g) Q"
  by (fastforce simp: returns_def andthen_def split: prod.splits outcome.splits)

lemma returns_if [returns_rules]: "(b \<Longrightarrow> returns f Q) \<Longrightarrow> (\<not> b \<Longrightarrow> returns g Q) \<Longrightarrow> returns (if b then f else g) Q"
  by simp

lemma returns_option [returns_rules]:
  "(x = None \<Longrightarrow> returns f Q) \<Longrightarrow> (\<And>y. x = Some y \<Longrightarrow> returns (g y) Q) \<Longrightarrow>
   returns (case x of None \<Rightarrow> f | Some y \<Rightarrow> g y) Q"
  by (cases x) simp_all

lemma returns_prod [returns_rules]: "(\<And>x y. p = (x, y) \<Longrightarrow> returns (g x y) Q) \<Longrightarrow> returns (case p of (x, y) \<Rightarrow> g x y) Q"
  by (cases p) simp

lemma triple_returns:
  "triple P f Q E W \<Longrightarrow> returns f Q' \<Longrightarrow> triple P f (\<lambda>x s. Q x s \<and> Q' x) E W"
  by (fastforce simp: triple_def returns_def split: prod.splits outcome.splits)

section \<open>Calls\<close>

text \<open>The other threads do not touch the trace nor the prepared masks.\<close>

lemma server_event_frame [simp]:
  "trace (snd (server_event ev r src md now s)) = trace s"
  "prepared_rc19 (snd (server_event ev r src md now s)) = prepared_rc19 s"
  "overridden (snd (server_event ev r src md now s)) = overridden s"
  "session_clients (snd (server_event ev r src md now s)) = session_clients s"
  "acquiring_clients (snd (server_event ev r src md now s)) = acquiring_clients s"
  "lost_clients (snd (server_event ev r src md now s)) = lost_clients s"
  "stop_requested (snd (server_event ev r src md now s)) = stop_requested s"
  by (simp_all add: server_event_def split: prod.splits)

lemma on_client_lost_frame [simp]:
  "trace (on_client_lost c p s) = trace s" "prepared_rc19 (on_client_lost c p s) = prepared_rc19 s"
  "overridden (on_client_lost c p s) = overridden s"
  "session_clients (on_client_lost c p s) = session_clients s"
  "acquiring_clients (on_client_lost c p s) = acquiring_clients s"
  "sv (on_client_lost c p s) = sv s"
  by (simp_all add: on_client_lost_def request_stop_def Let_def)

lemma stop_command_frame [simp]:
  "trace (stop_command now s) = trace s" "prepared_rc19 (stop_command now s) = prepared_rc19 s"
  "overridden (stop_command now s) = overridden s"
  "session_clients (stop_command now s) = session_clients s"
  "acquiring_clients (stop_command now s) = acquiring_clients s"
  "lost_clients (stop_command now s) = lost_clients s"
  by (simp_all add: stop_command_def request_stop_def Let_def)

lemma other_step_frame [simp]:
  "trace (other_step now o' s) = trace s" "prepared_rc19 (other_step now o' s) = prepared_rc19 s"
  "overridden (other_step now o' s) = overridden s"
  "session_clients (other_step now o' s) = session_clients s"
  "acquiring_clients (other_step now o' s) = acquiring_clients s"
  by (cases o'; simp add: plane_lost_def update_sv_def)+

lemma fold_other_frame [simp]:
  "trace (fold (other_step now) os s) = trace s" "prepared_rc19 (fold (other_step now) os s) = prepared_rc19 s"
  "overridden (fold (other_step now) os s) = overridden s"
  "session_clients (fold (other_step now) os s) = session_clients s"
  "acquiring_clients (fold (other_step now) os s) = acquiring_clients s"
  by (induction os arbitrary: s) simp_all

lemma others_frame [simp]:
  "trace (others_act e s) = trace s" "prepared_rc19 (others_act e s) = prepared_rc19 s"
  "overridden (others_act e s) = overridden s"
  "session_clients (others_act e s) = session_clients s"
  "acquiring_clients (others_act e s) = acquiring_clients s"
  by (simp_all add: others_act_def)

lemma record_call_frame [simp]:
  "trace (record_call c s) = trace s @ [c]" "prepared_rc19 (record_call c s) = prepared_rc19 s"
  "overridden (record_call c s) = overridden s"
  "session_clients (record_call c s) = session_clients s" "sv (record_call c s) = sv s"
  "acquiring_clients (record_call c s) = acquiring_clients s" "lost_clients (record_call c s) = lost_clients s"
  "stop_requested (record_call c s) = stop_requested s"
  by (simp_all add: record_call_def)

text \<open>A property of the trace.\<close>

abbreviation on_trace :: "(acq_call list \<Rightarrow> bool) \<Rightarrow> acq \<Rightarrow> bool" where
  "on_trace T \<equiv> \<lambda>s. T (trace s)"

lemma call_rule:
  "(\<And>t x. T t \<Longrightarrow> ans (t @ [c]) = Inr x \<Longrightarrow> U x (t @ [c])) \<Longrightarrow>
   (\<And>t x. T t \<Longrightarrow> ans (t @ [c]) = Inl x \<Longrightarrow> V (t @ [c])) \<Longrightarrow>
   triple (on_trace T) (call_out e c ans) (\<lambda>x. on_trace (U x)) (on_trace V) W"
  by (rule tripleI; auto simp: call_out_def Let_def elim!: outcome_of.elims; metis outcome.distinct outcome_of.simps)

lemma keeps_call:
  "(\<And>t. T t \<Longrightarrow> T (t @ [c])) \<Longrightarrow> keeps (on_trace T) (call_out e c ans)"
  unfolding keeps_def by (rule call_rule)

lemma keeps_with_number [keeps_rules]:
  "(\<And>t. T t \<Longrightarrow> T (t @ [Unresolved cid])) \<Longrightarrow> (\<And>n. keeps (on_trace T) (action n)) \<Longrightarrow>
   keeps (on_trace T) (with_number cid nid action)"
  unfolding with_number_def by (intro keeps_rules keeps_change) simp

lemma keeps_ask:
  "(\<And>t. T t \<Longrightarrow> T (t @ [Sent cid c])) \<Longrightarrow> (\<And>t. T t \<Longrightarrow> T (t @ [Unavailable cid c])) \<Longrightarrow>
   keeps (on_trace T) (ask_client e cid c ans)"
  using keeps_call[of T "Sent cid c" e ans]
  by (auto simp: keeps_def triple_def ask_client_def split: if_splits)

lemma keeps_rc_command:
  "(\<And>t. T t \<Longrightarrow> T (t @ [Sent cid c])) \<Longrightarrow> (\<And>t. T t \<Longrightarrow> T (t @ [Unavailable cid c])) \<Longrightarrow>
   keeps (on_trace T) (rc_command_ok e cid c)"
  unfolding rc_command_ok_def by (intro keeps_rules keeps_ask)

lemma keeps_read:
  "(\<And>t. T t \<Longrightarrow> T (t @ [Sent cid (RcRead a)])) \<Longrightarrow> (\<And>t. T t \<Longrightarrow> T (t @ [Unavailable cid (RcRead a)])) \<Longrightarrow>
   keeps (on_trace T) (read_rc_register e cid a)"
  unfolding read_rc_register_def by (intro keeps_rules keeps_ask)

end
