(* ===== verification/AcqLedger.thy ===== *)
theory AcqLedger
  imports AcqLogic
begin

text \<open>
  What an acquisition owes: the clients whose file is open, whose board may be sending data, whose board may be
  held in reset, read off the trace; and what each operation of the session adds to them or settles. An attempt settles a debt,
  whether it is confirmed or not, and so does the entry of the log when the client is gone or its
  number is not known: there is nothing more the server does then.
\<close>

unbundle bit_operations_syntax

section \<open>Ledgers\<close>

fun owe_file :: "acq_call \<Rightarrow> client_id set \<Rightarrow> client_id set" where
  "owe_file (OpenFile c n v) F = insert c F"
| "owe_file (CloseFile c n) F = F - {c}"
| "owe_file (Unresolved c) F = F - {c}"
| "owe_file _ F = F"

fun owe_data :: "acq_call \<Rightarrow> client_id set \<Rightarrow> client_id set" where
  "owe_data (Sent c (RcWrite a v)) D = (if a \<noteq> 19 then D else if v = 0 then D - {c} else insert c D)"
| "owe_data (Sent c (RcConfigure r)) D = (if dict_get (reg_values r) 19 \<in> {None, Some 0} then D else insert c D)"
| "owe_data (Unavailable c (RcWrite a v)) D = (if a = 19 \<and> v = 0 then D - {c} else D)"
| "owe_data (StopProducer c n) D = D - {c}"
| "owe_data (Unresolved c) D = D - {c}"
| "owe_data _ D = D"

fun owe_reset :: "acq_call \<Rightarrow> client_id set \<Rightarrow> client_id set" where
  "owe_reset (Sent c (RcWrite a v)) R =
    (if a \<noteq> 15 then R else if v AND RC15_RESET_MASK = 0 then R - {c} else insert c R)"
| "owe_reset (Unavailable c (RcWrite a v)) R = (if a = 15 \<and> v AND RC15_RESET_MASK = 0 then R - {c} else R)"
| "owe_reset _ R = R"

definition open_files :: "acq_call list \<Rightarrow> client_id set" where "open_files t = fold owe_file t {}"

definition sending :: "acq_call list \<Rightarrow> client_id set" where "sending t = fold owe_data t {}"

definition held_in_reset :: "acq_call list \<Rightarrow> client_id set" where "held_in_reset t = fold owe_reset t {}"

lemma ledger_snoc:
  "open_files (t @ [c]) = owe_file c (open_files t)" "sending (t @ [c]) = owe_data c (sending t)"
  "held_in_reset (t @ [c]) = owe_reset c (held_in_reset t)"
  by (simp_all add: open_files_def sending_def held_in_reset_def)

lemma owe_file_mono: "X \<subseteq> Y \<Longrightarrow> owe_file c X \<subseteq> owe_file c Y"
  by (cases c) auto

lemma owe_data_mono: "X \<subseteq> Y \<Longrightarrow> owe_data c X \<subseteq> owe_data c Y"
  by (induction c X rule: owe_data.induct) (simp_all, auto)

lemma owe_reset_mono: "X \<subseteq> Y \<Longrightarrow> owe_reset c X \<subseteq> owe_reset c Y"
  by (induction c X rule: owe_reset.induct) (simp_all, auto)

lemmas owe_mono = owe_file_mono owe_data_mono owe_reset_mono

definition owing :: "client_id set \<Rightarrow> client_id set \<Rightarrow> client_id set \<Rightarrow> acq_call list \<Rightarrow> bool" where
  "owing F D R t \<longleftrightarrow> open_files t \<subseteq> F \<and> sending t \<subseteq> D \<and> held_in_reset t \<subseteq> R"

lemma owing_mono: "owing F D R t \<Longrightarrow> F \<subseteq> F' \<Longrightarrow> D \<subseteq> D' \<Longrightarrow> R \<subseteq> R' \<Longrightarrow> owing F' D' R' t"
  by (auto simp: owing_def)

lemma owing_snoc:
  "owing F D R t \<Longrightarrow> owe_file c F \<subseteq> F' \<Longrightarrow> owe_data c D \<subseteq> D' \<Longrightarrow> owe_reset c R \<subseteq> R' \<Longrightarrow>
   owing F' D' R' (t @ [c])"
  unfolding owing_def ledger_snoc by (meson owe_mono subset_trans)

abbreviation owes :: "client_id set \<Rightarrow> client_id set \<Rightarrow> client_id set \<Rightarrow> acq \<Rightarrow> bool" where
  "owes F D R \<equiv> on_trace (owing F D R)"

section \<open>Calls\<close>

lemma call_owes:
  "owe_file c F \<subseteq> F' \<Longrightarrow> owe_data c D \<subseteq> D' \<Longrightarrow> owe_reset c R \<subseteq> R' \<Longrightarrow>
   triple (owes F D R) (call_out e c ans) (\<lambda>_. owes F' D' R') (owes F' D' R') W"
  by (rule call_rule[where T = "owing F D R" and U = "\<lambda>_. owing F' D' R'" and V = "owing F' D' R'"])
     (rule owing_snoc[of F D R]; assumption)+

text \<open>A call that adds nothing to the bounds.\<close>

definition adds_nothing :: "client_id set \<Rightarrow> client_id set \<Rightarrow> client_id set \<Rightarrow> acq_call \<Rightarrow> bool" where
  "adds_nothing F D R c \<longleftrightarrow> owe_file c F \<subseteq> F \<and> owe_data c D \<subseteq> D \<and> owe_reset c R \<subseteq> R"

lemma owing_adds_nothing: "adds_nothing F D R c \<Longrightarrow> owing F D R t \<Longrightarrow> owing F D R (t @ [c])"
  by (auto simp: adds_nothing_def intro: owing_snoc[of F D R])

lemma call_keeps: "adds_nothing F D R c \<Longrightarrow> keeps (owes F D R) (call_out e c ans)"
  by (rule keeps_call) (rule owing_adds_nothing)

lemma command_keeps:
  "adds_nothing F D R (Sent cid c) \<Longrightarrow> adds_nothing F D R (Unavailable cid c) \<Longrightarrow>
   keeps (owes F D R) (rc_command_ok e cid c)"
  by (rule keeps_rc_command) (rule owing_adds_nothing; assumption)+

lemma neutral_keeps [keeps_rules]:
  "keeps (owes F D R) (sleep_tenth e)"
  "keeps (owes F D R) (call_out e (ResetProducer cid n) ans)"
  "keeps (owes F D R) (call_out e (StartProducer cid n) ans)"
  "keeps (owes F D R) (call_out e (StopProducer cid n) ans)"
  "keeps (owes F D R) (call_out e (CloseFile cid n) ans)"
  "keeps (owes F D R) (call_out e (ReadMetadata cs) ans')"
  "keeps (owes F D R) (call_out e (WaitStop tm) ans'')"
  unfolding sleep_tenth_def by (rule call_keeps; auto simp: adds_nothing_def)+

lemma read_keeps [keeps_rules]: "keeps (owes F D R) (read_rc_register e cid a)"
  by (rule keeps_read) (rule owing_adds_nothing; auto simp: adds_nothing_def)+

lemma number_keeps [keeps_rules]:
  "(\<And>n. keeps (owes F D R) (action n)) \<Longrightarrow> keeps (owes F D R) (with_number cid nid action)"
  by (rule keeps_with_number) (auto simp: adds_nothing_def intro: owing_adds_nothing)

text \<open>A write that settles a debt, whether or not the client can be reached.\<close>

lemma command_settles:
  assumes "owe_file (Sent cid c) F \<subseteq> F'" "owe_data (Sent cid c) D \<subseteq> D'" "owe_reset (Sent cid c) R \<subseteq> R'"
    and "owe_file (Unavailable cid c) F \<subseteq> F'" "owe_data (Unavailable cid c) D \<subseteq> D'"
      "owe_reset (Unavailable cid c) R \<subseteq> R'"
  shows "triple (owes F D R) (rc_command_ok e cid c) (\<lambda>_. owes F' D' R') (owes F' D' R') never"
proof -
  have 1: "triple (owes F D R) (call_out e (Sent cid c) ans) (\<lambda>_. owes F' D' R') (owes F' D' R') never"
    for ans :: "acq_call list \<Rightarrow> py_exn + rc_reply option"
    by (rule call_owes) (rule assms)+
  have 2: "owes F D R s \<Longrightarrow> owing F' D' R' (trace s @ [Unavailable cid c])" for s
    by (rule owing_snoc[of F D R]) (use assms in simp_all)
  have "triple (owes F D R) (ask_client e cid c (rc_answer e)) (\<lambda>_. owes F' D' R') (owes F' D' R') never"
    using 1[of "rc_answer e"] 2 by (auto simp: triple_def ask_client_def split: if_splits)
  then show ?thesis
    unfolding rc_command_ok_def by (rule triple_andthen) (rule triple_give)
qed

lemma disable_settles:
  "triple (owes F D R) (write_rc_register e cid 19 0) (\<lambda>_. owes F (D - {cid}) R) (owes F (D - {cid}) R) never"
  unfolding write_rc_register_def by (rule command_settles) simp_all

lemma release_settles:
  "v AND RC15_RESET_MASK = 0 \<Longrightarrow>
   triple (owes F D R) (write_rc_register e cid 15 v) (\<lambda>_. owes F D (R - {cid})) (owes F D (R - {cid})) never"
  unfolding write_rc_register_def by (rule command_settles) auto

lemma write15_keeps: "keeps (owes F D (insert cid R)) (write_rc_register e cid 15 v)"
  unfolding write_rc_register_def by (rule command_keeps) (auto simp: adds_nothing_def)

lemma enable_keeps: "keeps (owes F (insert cid D) R) (write_rc_register e cid 19 v)"
  unfolding write_rc_register_def by (rule command_keeps) (auto simp: adds_nothing_def)

lemma run_client_step_triple:
  "triple P f (\<lambda>_. Q) Q W \<Longrightarrow> triple P (run_client_step f) (\<lambda>_. Q) never W"
  unfolding run_client_step_def by (rule triple_catching) (auto intro: triple_give)

section \<open>The reset of a client\<close>

lemma base_released: "reset_base_value p AND RC15_RESET_MASK = 0"
proof -
  have "(x AND w AND NOT (m OR k)) AND m = 0" for x w m k :: int
    by (rule bit_eqI) (auto simp: bit_simps)
  then show ?thesis unfolding reset_base_value_def .
qed

lemma reset_pulse_holds:
  "triple (owes F D R) (reset_pulse e cid b) (\<lambda>_. owes F D (insert cid R)) never never"
proof -
  have "triple (owes F D (insert cid R)) (reset_pulse e cid b) (\<lambda>_. owes F D (insert cid R)) never never"
    unfolding reset_pulse_def
    by (rule triple_catching[OF keepsD]) (intro keeps_rules write15_keeps, rule triple_give)
  then show ?thesis by (rule triple_pre) (auto intro: owing_mono)
qed

lemma release_reset_settles:
  "b AND RC15_RESET_MASK = 0 \<Longrightarrow>
   triple (owes F D (insert cid R)) (release_reset e cid b) (\<lambda>_. owes F D R) never never"
  unfolding release_reset_def
  by (rule triple_catching[OF triple_conseq[OF release_settles], where E' = "owes F D R"])
     (auto intro: owing_mono triple_give)

lemma reset_hardware_keeps [keeps_rules]:
  "keeps (owes F D R) (reset_hardware e cid n (reset_base_value p))"
proof -
  have 1: "keeps (owes F D R) (finish_flush e cid n (reset_base_value p))"
    unfolding finish_flush_def by (intro keeps_rules)
  have 2: "triple (owes F D (insert cid R)) (andthen (release_reset e cid (reset_base_value p)) (\<lambda>ok.
      if \<not> hw \<or> \<not> ok then give False else finish_flush e cid n (reset_base_value p))) (\<lambda>_. owes F D R) (owes F D R) never" for hw
    by (rule triple_andthen[where R = "\<lambda>_. owes F D R"], rule triple_conseq[OF release_reset_settles[OF base_released]])
       (assumption | rule keepsD keeps_rules 1 | simp)+
  show ?thesis
    unfolding keeps_def reset_hardware_def
    by (rule triple_andthen[where R = "\<lambda>_. owes F D (insert cid R)"], rule triple_conseq[OF reset_pulse_holds])
       (rule 2 | assumption | blast)+
qed

lemma flush_client_keeps [keeps_rules]: "keeps (owes F D R) (flush_client e cid)"
  unfolding flush_client_def flush_producer_def by (intro keeps_rules)

end
