(* ===== verification/AcqExample.thy ===== *)
theory AcqExample
  imports AcqSession
begin

text \<open>
  A concrete environment and server for the instances of the statements on acquisitions: two boards that hold what
  is written to their registers, a receiver that confirms everything and other threads that do
  nothing, or lose one of the clients while the acquisition waits.
\<close>

fun register_write :: "client_id \<Rightarrow> int \<Rightarrow> acq_call \<Rightarrow> int \<Rightarrow> int" where
  "register_write cid addr (Sent c (RcWrite a v)) x = (if c = cid \<and> a = addr then v else x)"
| "register_write cid addr _ x = x"

definition board_register :: "client_id \<Rightarrow> int \<Rightarrow> acq_call list \<Rightarrow> int" where
  "board_register cid addr t = fold (register_write cid addr) t 0"

fun board_answer :: "acq_call list \<Rightarrow> acq_call \<Rightarrow> rc_reply" where
  "board_answer t (Sent c (RcRead a)) = \<lparr>rp_ok = True, rp_value = Some (board_register c a t)\<rparr>"
| "board_answer t _ = \<lparr>rp_ok = True, rp_value = None\<rparr>"

fun asked_clients :: "acq_call \<Rightarrow> client_id list" where
  "asked_clients (ReadMetadata cs) = cs"
| "asked_clients _ = []"

fun during_wait :: "other list \<Rightarrow> acq_call \<Rightarrow> other list" where
  "during_wait os (WaitStop _) = os"
| "during_wait os _ = []"

definition example_env :: "other list \<Rightarrow> acq_env" where
  "example_env os = \<lparr>rc_answer = (\<lambda>t. Inr (Some (board_answer t (last t)))),
     hv_answer = (\<lambda>_. Inr None), receiver_answer = (\<lambda>_. Inr True),
     metadata_read = (\<lambda>t. Inr (asked_clients (last t))), thread_started = (\<lambda>_. Inr ()), mac_number = (\<lambda>_. Some 7),
     calibration = (\<lambda>_ _ _. Inl ValueError), float_text = (\<lambda>_. None),
     meanwhile = (\<lambda>t. during_wait os (last t)), clock = (\<lambda>_. 0)\<rparr>"

definition example_client :: client_record where
  "example_client = (new_client_record 0)\<lparr>identity := Some [(''mac_address'', ''aa'')],
     on_control_plane := True, on_acquisition_plane := True, operational := True\<rparr>"

definition example_server :: "client_id list \<Rightarrow> server_state" where
  "example_server cids = (init_server_state ''multipmt'')
     \<lparr>clients := map (\<lambda>c. (c, example_client)) cids, run_state := S_ACQUIRING\<rparr>"

definition example_acq :: acq where
  "example_acq = (init_acquisition_service (example_server [''a'', ''b'']))
     \<lparr>prepared_rc19 := [(''a'', 3), (''b'', 5)]\<rparr>"

definition do_nothing :: "unit acq_act" where "do_nothing = give ()"

end
