(* ===== verification/AcqSessionProps.thy ===== *)
theory AcqSessionProps
  imports AcqLedger AcqExample
begin

text \<open>
  The sessions of an acquisition: whatever the clients and the receiver answer, whatever is raised and
  whoever is lost meanwhile, a session that ends leaves no file open, no board sending and no board in
  reset that was not so before.
\<close>

section \<open>Finalization\<close>

lemma finalize_keeps:
  assumes "\<And>cid. keeps (owes F D R) (step cid)"
  shows "triple (owes F D R) (finalize_each step cids r) (\<lambda>_. owes F D R) never never"
  unfolding finalize_each_def
  by (rule triple_each[where I = "\<lambda>_. owes F D R"])
     (rule triple_andthen[OF run_client_step_triple[OF keepsD[OF assms]]], rule triple_give)

lemma finalize_settles:
  assumes "\<And>cid F D. triple (owes F D R) (step cid) (\<lambda>_. owes (F - f cid) (D - d cid) R) (owes (F - f cid) (D - d cid) R) never"
  shows "triple (owes F D R) (finalize_each step cids r)
    (\<lambda>_. owes (F - \<Union> (f ` set cids)) (D - \<Union> (d ` set cids)) R) never never"
proof -
  let ?I = "\<lambda>pre (_ :: (client_id, bool) dict). owes (F - \<Union> (f ` set pre)) (D - \<Union> (d ` set pre)) R"
  have "triple (?I [] r) (finalize_each step cids r) (?I ([] @ cids)) never never"
    unfolding finalize_each_def
  proof (rule triple_each_done[where I = ?I])
    fix pre c and x :: "(client_id, bool) dict"
    have "triple (?I pre x) (run_client_step (step c)) (\<lambda>_. ?I (pre @ [c]) x) never never"
      by (rule run_client_step_triple, rule triple_conseq[OF assms]) (auto elim: owing_mono)
    then show "triple (?I pre x) (andthen (run_client_step (step c)) (\<lambda>ok. give (fail_if c ok x))) (?I (pre @ [c])) never never"
      by (rule triple_andthen) (rule triple_give)
  qed
  then show ?thesis by simp
qed

lemma disable_one_settles:
  "triple (owes F D R) (disable_rc_channels e [cid]) (\<lambda>_. owes F (D - {cid}) R) (owes F (D - {cid}) R) never"
  unfolding disable_rc_channels_def
  by (rule triple_each_one, rule triple_andthen[OF disable_settles], rule triple_give)

lemma close_file_settles:
  "triple (owes F D R) (close_file_for_client e cid) (\<lambda>_. owes (F - {cid}) D R) (owes (F - {cid}) D R) never"
proof -
  have "triple (owes F D R) (with_number cid nid (\<lambda>n. call_out e (CloseFile cid n) (receiver_answer e)))
      (\<lambda>_. owes (F - {cid}) D R) (owes (F - {cid}) D R) never" for nid
    unfolding with_number_def
    by (intro acq_rules triple_andthen[where R = "\<lambda>_. owes (F - {cid}) D R"] call_owes)
       (simp_all add: owing_snoc[of F D R])
  then show ?thesis unfolding close_file_for_client_def by (rule triple_read_any)
qed

lemma end_client_keeps: "keeps (owes F D R) (configure_acquisition_end_client e cid)"
  unfolding configure_acquisition_end_client_def set_rc_acquisition_registers_def
  by (rule command_keeps) (simp_all add: adds_nothing_def end_registers_def)

lemma run_hardware_settles:
  "triple (owes F D R) (run_hardware_stop_and_flush e cids rst) (\<lambda>_. owes (F - set cids) (D - set cids) R) never never"
  unfolding run_hardware_stop_and_flush_def
proof (rule triple_if)
  let ?D = "D - set cids"
  have 1: "triple (owes F D R) (finalize_each (\<lambda>cid. disable_rc_channels e [cid]) cids r) (\<lambda>_. owes F ?D R) never never" for r
    using finalize_settles[of R "\<lambda>cid. disable_rc_channels e [cid]" "\<lambda>_. {}" "\<lambda>c. {c}" F D cids r] disable_one_settles by simp
  have 2: "triple (owes F ?D R) (finalize_each (flush_client e) cids r) (\<lambda>_. owes F ?D R) never never" for r
    by (rule finalize_keeps) (rule flush_client_keeps)
  have 3: "triple (owes F ?D R) (if rst then finalize_each (configure_acquisition_end_client e) cids r else give r)
      (\<lambda>_. owes F ?D R) never never" for r
    by (intro triple_if finalize_keeps end_client_keeps triple_give)
  have 4: "triple (owes F ?D R) (finalize_each (close_file_for_client e) cids r) (\<lambda>_. owes (F - set cids) ?D R) never never" for r
    using finalize_settles[of R "close_file_for_client e" "\<lambda>c. {c}" "\<lambda>_. {}" F ?D cids r] close_file_settles by simp
  show "triple (owes F D R) (andthen (finalize_each (\<lambda>cid. disable_rc_channels e [cid]) cids
           (fold (\<lambda>cid. dict_set cid True) cids [])) (\<lambda>r1.
         andthen (finalize_each (flush_client e) cids r1) (\<lambda>r2.
           andthen (if rst then finalize_each (configure_acquisition_end_client e) cids r2 else give r2) (\<lambda>r3.
             finalize_each (close_file_for_client e) cids r3)))) (\<lambda>_. owes (F - set cids) ?D R) never never"
    by (rule triple_andthen[OF 1], rule triple_andthen[OF 2], rule triple_andthen[OF 3], rule 4)
qed (auto intro: triple_give)

lemma close_lost_settles:
  "triple (owes F D R) (close_lost_client e cid nid) (\<lambda>_. owes (F - {cid}) (D - {cid}) R) never never"
proof -
  have 1: "triple (owes F D R) (run_client_step (call_out e (StopProducer cid n) (receiver_answer e)))
      (\<lambda>_. owes F (D - {cid}) R) never never" for n
    by (rule run_client_step_triple, rule call_owes) simp_all
  have 2: "triple (owes F (D - {cid}) R) (run_client_step (call_out e (CloseFile cid n) (receiver_answer e)))
      (\<lambda>_. owes (F - {cid}) (D - {cid}) R) never never" for n
    by (rule run_client_step_triple, rule call_owes) simp_all
  have 3: "triple (owes F D R) (change (record_call (Unresolved cid))) (\<lambda>_. owes (F - {cid}) (D - {cid}) R) never never"
    by (rule triple_change) (simp add: owing_snoc[of F D R])
  show ?thesis
    unfolding close_lost_client_def with_number_def
    by (intro triple_option triple_andthen[OF 3] triple_andthen[OF 1] 2) (rule triple_give)
qed

section \<open>Start\<close>

lemma check_prepared_keeps: "keeps (owes F D R) (check_prepared e md cid p)"
  unfolding check_prepared_def by (intro keeps_rules)

lemma check_prepared_returns:
  "returns (check_prepared e md cid p) (\<lambda>q. sp_opened q = sp_opened p \<and> sp_acquiring q = sp_acquiring p \<and>
     set (dict_keys (sp_masks q)) \<subseteq> insert cid (set (dict_keys (sp_masks p))))"
  unfolding check_prepared_def
  by (intro returns_rules) (auto simp: start_error_def dom_update)

lemma open_file_owes:
  "triple (owes F D R) (open_file_for_client e cid v) (\<lambda>_. owes (insert cid F) D R) (owes (insert cid F) D R) never"
proof -
  have "triple (owes F D R) (with_number cid nid (\<lambda>n. call_out e (OpenFile cid n v) (receiver_answer e)))
      (\<lambda>_. owes (insert cid F) D R) (owes (insert cid F) D R) never" for nid
    unfolding with_number_def
    by (intro acq_rules triple_andthen[where R = "\<lambda>_. owes (insert cid F) D R"] call_owes)
       (auto intro!: owing_snoc[of F D R])
  then show ?thesis unfolding open_file_for_client_def by (rule triple_read_any)
qed

lemma start_opened_keeps: "keeps (owes F (insert cid D) R) (start_opened e cid msk p)"
  unfolding start_opened_def by (intro keeps_rules enable_keeps)

lemma start_opened_returns: "returns (start_opened e cid msk p) (\<lambda>q. sp_opened q = sp_opened p)"
  unfolding start_opened_def by (intro returns_rules) (simp_all add: start_error_def)

text \<open>The loop over the prepared clients, all of \<open>C\<close>.\<close>

definition starting ::
  "client_id set \<Rightarrow> client_id set \<Rightarrow> client_id set \<Rightarrow> client_id set \<Rightarrow> start_progress \<Rightarrow> acq \<Rightarrow> bool" where
  "starting C F D R p s \<longleftrightarrow> set (sp_opened p) \<subseteq> C \<and> owes (F \<union> set (sp_opened p)) (D \<union> set (sp_opened p)) R s"

lemma start_client_owes:
  assumes "cid \<in> C"
  shows "triple (starting C F D R p) (start_client e (cid, msk) p) (starting C F D R) (owes (F \<union> C) (D \<union> C) R) never"
proof -
  let ?O = "set (sp_opened p)"
  let ?q = "p\<lparr>sp_opened := sp_opened p @ [cid]\<rparr>"
  have 1: "triple (starting C F D R p) (open_file_for_client e cid msk)
      (\<lambda>_ s. ?O \<subseteq> C \<and> owes (insert cid (F \<union> ?O)) (D \<union> ?O) R s) (owes (F \<union> C) (D \<union> C) R) never"
    unfolding starting_def
    by (rule triple_context, rule triple_conseq[OF open_file_owes]) (use assms in \<open>auto elim!: owing_mono\<close>)
  have 2: "triple (\<lambda>s. ?O \<subseteq> C \<and> owes (insert cid (F \<union> ?O)) (D \<union> ?O) R s) (close_file_for_client e cid)
      (\<lambda>_. starting C F D R (start_error cid why p)) (owes (F \<union> C) (D \<union> C) R) never" for why
    by (rule triple_context, rule triple_conseq[OF close_file_settles])
       (auto simp: starting_def start_error_def elim!: owing_mono)
  have 3: "triple (\<lambda>s. ?O \<subseteq> C \<and> owes (insert cid (F \<union> ?O)) (D \<union> ?O) R s) (start_opened e cid msk ?q)
      (starting C F D R) (owes (F \<union> C) (D \<union> C) R) never"
  proof (rule triple_context)
    have "triple (owes (insert cid (F \<union> ?O)) (insert cid (D \<union> ?O)) R) (start_opened e cid msk ?q)
        (\<lambda>q s. owes (insert cid (F \<union> ?O)) (insert cid (D \<union> ?O)) R s \<and> sp_opened q = sp_opened ?q)
        (owes (insert cid (F \<union> ?O)) (insert cid (D \<union> ?O)) R) never"
      by (rule triple_returns[OF keepsD[OF start_opened_keeps] start_opened_returns])
    moreover assume "?O \<subseteq> C"
    ultimately show "triple (owes (insert cid (F \<union> ?O)) (D \<union> ?O) R) (start_opened e cid msk ?q)
        (starting C F D R) (owes (F \<union> C) (D \<union> C) R) never"
      by (elim triple_conseq) (use assms in \<open>auto simp: starting_def elim!: owing_mono\<close>)
  qed
  show ?thesis
    unfolding start_client_def split
    by (intro triple_read triple_if triple_andthen[OF 1] triple_andthen[OF 2] 3 triple_give
         triple_andthen[OF triple_pre[OF 1]]) (auto simp: starting_def start_error_def)
qed

lemma start_owes:
  "triple (owes F D R) (open_and_start_prepared_clients e cids md) (starting (set cids) F D R)
     (owes (F \<union> set cids) (D \<union> set cids) R) never"
proof -
  let ?C = "set cids"
  let ?I = "\<lambda>(p :: start_progress) s. sp_opened p = [] \<and> set (dict_keys (sp_masks p)) \<subseteq> ?C \<and> owes F D R s"
  have 1: "triple (?I p) (each (check_prepared e md) cids p) ?I (owes (F \<union> ?C) (D \<union> ?C) R) never" for p
  proof (rule triple_each, intro triple_context)
    fix c and x :: start_progress assume x: "c \<in> ?C" "sp_opened x = []" "set (dict_keys (sp_masks x)) \<subseteq> ?C"
    have "triple (owes F D R) (check_prepared e md c x) (\<lambda>q s. owes F D R s \<and> sp_opened q = sp_opened x \<and>
        sp_acquiring q = sp_acquiring x \<and> set (dict_keys (sp_masks q)) \<subseteq> insert c (set (dict_keys (sp_masks x))))
        (owes F D R) never"
      by (rule triple_returns[OF keepsD[OF check_prepared_keeps] check_prepared_returns])
    then show "triple (owes F D R) (check_prepared e md c x) ?I (owes (F \<union> ?C) (D \<union> ?C) R) never"
    proof (rule triple_conseq)
      fix q s assume q: "owes F D R s \<and> sp_opened q = sp_opened x \<and> sp_acquiring q = sp_acquiring x \<and>
          set (dict_keys (sp_masks q)) \<subseteq> insert c (set (dict_keys (sp_masks x)))"
      have "insert c (set (dict_keys (sp_masks x))) \<subseteq> ?C" using x(1,3) by simp
      with q have "set (dict_keys (sp_masks q)) \<subseteq> ?C" by (meson subset_trans)
      with q x(2) show "sp_opened q = [] \<and> set (dict_keys (sp_masks q)) \<subseteq> ?C \<and> owes F D R s" by simp
    next
      fix s show "owes F D R s \<Longrightarrow> owes (F \<union> ?C) (D \<union> ?C) R s" by (erule owing_mono) auto
    qed
  qed
  have 2: "triple (?I p) (each (start_client e) (sp_masks p) p) (starting ?C F D R) (owes (F \<union> ?C) (D \<union> ?C) R) never" for p
  proof (intro triple_context)
    assume o: "sp_opened p = []" and m: "set (dict_keys (sp_masks p)) \<subseteq> ?C"
    have "triple (starting ?C F D R p) (each (start_client e) (sp_masks p) p) (starting ?C F D R) (owes (F \<union> ?C) (D \<union> ?C) R) never"
    proof (rule triple_each)
      fix c x assume c: "c \<in> set (sp_masks p)"
      have "fst c \<in> ?C" using m c by force
      then show "triple (starting ?C F D R x) (start_client e c x) (starting ?C F D R) (owes (F \<union> ?C) (D \<union> ?C) R) never"
        by (cases c) (simp add: start_client_owes)
    qed
    then show "triple (owes F D R) (each (start_client e) (sp_masks p) p) (starting ?C F D R) (owes (F \<union> ?C) (D \<union> ?C) R) never"
      by (rule triple_pre) (simp add: starting_def o)
  qed
  show ?thesis unfolding open_and_start_prepared_clients_def
    by (rule triple_andthen[OF triple_pre[OF 1] 2]) simp
qed

section \<open>The session\<close>

text \<open>A callback that makes no call and does not wait, as \<open>_on_duration_elapsed\<close>.\<close>

definition silent :: "unit acq_act \<Rightarrow> bool" where
  "silent f \<longleftrightarrow> (\<forall>s. trace (snd (f s)) = trace s \<and> fst (f s) \<noteq> Stuck)"

lemma silent_keeps: "silent f \<Longrightarrow> keeps (on_trace T) f"
proof -
  assume f: "silent f"
  have "trace s1 = trace s \<and> r \<noteq> Stuck" if "f s = (r, s1)" for s r s1
    using f that unfolding silent_def by (metis fst_conv snd_conv)
  then show ?thesis unfolding keeps_def by (intro tripleI) fastforce+
qed

lemma wait_stop_keeps: "triple (owes F D R) (wait_stop e tm) (\<lambda>_. owes F D R) (owes F D R) (\<lambda>_. True)"
  unfolding wait_stop_def
proof (rule triple_andthen)
  show "triple (owes F D R) (call_out e (WaitStop tm) (\<lambda>_. Inr ())) (\<lambda>_. owes F D R) (owes F D R) (\<lambda>_. True)"
    by (rule triple_conseq[OF keepsD[OF neutral_keeps(7)[of F D R]]]) auto
qed (auto simp: triple_def)

lemma wait_acquisition_keeps:
  assumes "silent od"
  shows "triple (owes F D R) (wait_acquisition e duration od) (\<lambda>_. owes F D R) (owes F D R) (\<lambda>_. True)"
proof -
  have 1: "triple (owes F D R) (catching od (\<lambda>_. give ())) (\<lambda>_. owes F D R) (owes F D R) (\<lambda>_. True)"
    using keepsD[OF keeps_catching[OF silent_keeps[OF assms] keeps_basic(1)]] by (rule triple_conseq) auto
  show ?thesis
    unfolding wait_acquisition_def
    by (intro triple_option triple_if triple_andthen[OF wait_stop_keeps] 1) (rule triple_give; assumption)+
qed

lemma session_body_owes:
  assumes "silent od"
  shows "triple (owes F D R) (session_body e cids duration od)
    (\<lambda>(p, l) s. starting (set cids) F D R p s \<and> (l = None \<longrightarrow> sp_opened p = []))
    (owes (F \<union> set cids) (D \<union> set cids) R) (\<lambda>_. True)"
proof -
  let ?C = "set cids"
  let ?S = "\<lambda>p s. starting ?C F D R p s"
  let ?E = "owes (F \<union> ?C) (D \<union> ?C) R"
  have 1: "triple (owes F D R) (call_out e (ReadMetadata cids) (metadata_read e)) (\<lambda>_. owes F D R) ?E (\<lambda>_. True)"
    by (rule triple_conseq[OF keepsD[OF neutral_keeps(6)[of F D R]]]) (auto elim: owing_mono)
  have 2: "triple (owes F D R) (open_and_start_prepared_clients e cids md) ?S ?E (\<lambda>_. True)" for md
    by (rule triple_conseq[OF start_owes[of F D R]]) auto
  have 3: "triple (?S p) (change (note_acquiring cs)) (\<lambda>_. ?S p) ?E (\<lambda>_. True)" for p cs
    by (rule triple_change) (simp add: starting_def note_acquiring_def request_stop_def Let_def)
  have 4: "triple (?S p) (if sp_acquiring p \<noteq> [] then wait_acquisition e duration od else give ()) (\<lambda>_. ?S p) ?E (\<lambda>_. True)" for p
  proof -
    have "triple (?S p) (wait_acquisition e duration od) (\<lambda>_. ?S p) ?E (\<lambda>_. True)"
      unfolding starting_def
      by (rule triple_context,
          rule triple_conseq[OF wait_acquisition_keeps[OF assms, of "F \<union> set (sp_opened p)" "D \<union> set (sp_opened p)" R]])
         (auto elim: owing_mono)
    then show ?thesis by (intro triple_if triple_give)
  qed
  show ?thesis
    unfolding session_body_def
    by (rule triple_andthen[OF 1], rule triple_andthen[OF 2])
       (intro triple_if triple_andthen[OF 3] triple_andthen[OF 4] triple_read_any triple_give; simp)
qed

lemma guarded_session_owes:
  assumes "silent od"
  shows "triple (owes F D R) (guarded_session e cids duration od rst)
    (\<lambda>(p, l) s. starting (set cids) F D R p s \<and> (l = None \<longrightarrow> sp_opened p = [])) (owes F D R) (\<lambda>_. True)"
proof -
  let ?C = "set cids"
  note body = session_body_owes[OF assms, of F D R e cids duration]
  {
    fix s x s1 assume s: "owes F D R s" and g: "guarded_session e cids duration od rst s = (Returned x, s1)"
    then obtain s2 where "session_body e cids duration od s = (Returned x, s2)" "s1 = clear_session_clients s2"
      by (auto simp: guarded_session_def split: prod.splits outcome.splits)
    with tripleD(1)[OF body s] have "case x of (p, l) \<Rightarrow> starting ?C F D R p s1 \<and> (l = None \<longrightarrow> sp_opened p = [])"
      by (auto simp: clear_session_clients_def starting_def split: prod.splits)
  } note returned = this
  {
    fix s x s1 assume s: "owes F D R s" and g: "guarded_session e cids duration od rst s = (Raised x, s1)"
    then obtain s2 y s3 where b: "session_body e cids duration od s = (Raised x, s2)"
      and h: "run_hardware_stop_and_flush e cids rst s2 = (y, s3)" "y \<noteq> Stuck" and s1: "s1 = clear_session_clients s3"
      by (auto simp: guarded_session_def split: prod.splits outcome.splits)
    have "owes (F \<union> ?C) (D \<union> ?C) R s2" using tripleD(2)[OF body s b] .
    with h have "owes (F \<union> ?C - ?C) (D \<union> ?C - ?C) R s3"
      using tripleD[OF run_hardware_settles, of "F \<union> ?C" "D \<union> ?C" R s2 e cids rst] by (cases y) auto
    then have "owes F D R s1" by (auto simp: s1 clear_session_clients_def elim: owing_mono)
  } note raised = this
  show ?thesis by (rule tripleI) (use returned raised in blast)+
qed

lemma finish_session_owes:
  "triple (starting C F D R p) (finish_session e nids rst p lost res) (\<lambda>_. owes F D R) never never"
proof -
  let ?O = "set (sp_opened p)"
  let ?lost = "filter (\<lambda>c. c \<in> set (dict_keys lost)) (sp_opened p)"
  let ?alive = "filter (\<lambda>c. c \<notin> set (dict_keys lost)) (sp_opened p)"
  let ?I = "\<lambda>pre (_ :: (client_id, bool) dict). owes (F \<union> (set ?lost - set pre)) (D \<union> (set ?lost - set pre)) R"
  have 1: "triple (starting C F D R p) (run_hardware_stop_and_flush e ?alive rst) (?I []) never never"
    unfolding starting_def
    by (rule triple_context, rule triple_conseq[OF run_hardware_settles]) (auto elim: owing_mono)
  have 2: "triple (?I [] r) (each (\<lambda>cid r. andthen (close_lost_client e cid (nids cid)) (\<lambda>ok. give (dict_set cid ok r)))
      ?lost r) (?I ([] @ ?lost)) never never" for r
    by (rule triple_each_done[where I = ?I], rule triple_andthen, rule close_lost_settles, rule triple_give)
       (auto elim: owing_mono)
  show ?thesis
    unfolding finish_session_def Let_def
    by (rule triple_andthen[OF 1], rule triple_andthen[OF 2], rule triple_give) simp
qed


lemma do_nothing_silent: "silent do_nothing"
  by (simp add: silent_def do_nothing_def give_def)

lemma example_trace: "trace example_acq = []"
  by (simp add: example_acq_def init_acquisition_service_def)


end
