(* ===== verification/AcqTrace.thy ===== *)
theory AcqTrace
  imports AcqSessionProps
begin

text \<open>
  Statements on the trace of a session: what a call that is accepted leaves in the trace, the locale of the
  properties of traces that the harmless calls keep, and the reduction of a session to the two
  operations that make other calls, the start and the reset of one client.
\<close>

unbundle bit_operations_syntax

section \<open>Answers\<close>

text \<open>The last call of a trace was answered with success: a value read, a command executed, a confirmation of the receiver.\<close>

definition says :: "acq_env \<Rightarrow> acq_call list \<Rightarrow> int \<Rightarrow> bool" where
  "says e t v \<longleftrightarrow> (\<exists>r. rc_answer e t = Inr (Some r) \<and> rp_ok r \<and> rp_value r = Some v)"

definition executed :: "acq_env \<Rightarrow> acq_call list \<Rightarrow> bool" where
  "executed e t \<longleftrightarrow> (\<exists>r. rc_answer e t = Inr (Some r) \<and> rp_ok r)"

definition confirmed :: "acq_env \<Rightarrow> acq_call list \<Rightarrow> bool" where
  "confirmed e t \<longleftrightarrow> receiver_answer e t = Inr True"

lemma ask_rule:
  assumes "\<And>t. T t \<Longrightarrow> U None (t @ [Unavailable cid c])"
    and "\<And>t x. T t \<Longrightarrow> ans (t @ [Sent cid c]) = Inr x \<Longrightarrow> U x (t @ [Sent cid c])"
    and "\<And>t. T t \<Longrightarrow> V (t @ [Sent cid c])"
  shows "triple (on_trace T) (ask_client e cid c ans) (\<lambda>x. on_trace (U x)) (on_trace V) never"
proof -
  have 1: "triple (on_trace T) (call_out e (Sent cid c) ans) (\<lambda>x. on_trace (U x)) (on_trace V) never"
    by (rule call_rule) (use assms in auto)
  show ?thesis
    using 1 assms(1) by (auto simp: triple_def ask_client_def split: if_splits)
qed

lemma read_rule:
  assumes "\<And>t. T t \<Longrightarrow> U None (t @ [Unavailable cid (RcRead a)])"
    and "\<And>t v. T t \<Longrightarrow> (\<And>x. v = Some x \<Longrightarrow> says e (t @ [Sent cid (RcRead a)]) x) \<Longrightarrow> U v (t @ [Sent cid (RcRead a)])"
    and "\<And>t. T t \<Longrightarrow> V (t @ [Sent cid (RcRead a)])"
  shows "triple (on_trace T) (read_rc_register e cid a) (\<lambda>v. on_trace (U v)) (on_trace V) never"
  unfolding read_rc_register_def
  by (rule triple_andthen[OF ask_rule[where U = "\<lambda>x. U (case x of None \<Rightarrow> None | Some r \<Rightarrow> if \<not> rp_ok r then None else rp_value r)"]])
     (use assms in \<open>auto simp: says_def split: option.splits intro!: triple_give\<close>)

lemma command_rule:
  assumes "\<And>t. T t \<Longrightarrow> U False (t @ [Unavailable cid c])"
    and "\<And>t ok. T t \<Longrightarrow> (ok \<Longrightarrow> executed e (t @ [Sent cid c])) \<Longrightarrow> U ok (t @ [Sent cid c])"
    and "\<And>t. T t \<Longrightarrow> V (t @ [Sent cid c])"
  shows "triple (on_trace T) (rc_command_ok e cid c) (\<lambda>ok. on_trace (U ok)) (on_trace V) never"
  unfolding rc_command_ok_def
  by (rule triple_andthen[OF ask_rule[where U = "\<lambda>x. U (case x of None \<Rightarrow> False | Some r \<Rightarrow> rp_ok r)"]])
     (use assms in \<open>auto simp: executed_def split: option.splits intro!: triple_give\<close>)

lemma write_rule:
  assumes "\<And>t. T t \<Longrightarrow> U False (t @ [Unavailable cid (RcWrite a v)])"
    and "\<And>t ok. T t \<Longrightarrow> (ok \<Longrightarrow> executed e (t @ [Sent cid (RcWrite a v)])) \<Longrightarrow> U ok (t @ [Sent cid (RcWrite a v)])"
    and "\<And>t. T t \<Longrightarrow> V (t @ [Sent cid (RcWrite a v)])"
  shows "triple (on_trace T) (write_rc_register e cid a v) (\<lambda>ok. on_trace (U ok)) (on_trace V) never"
  unfolding write_rc_register_def by (rule command_rule) (use assms in auto)

lemma receiver_rule:
  assumes "\<And>t ok. T t \<Longrightarrow> (ok \<Longrightarrow> confirmed e (t @ [c])) \<Longrightarrow> U ok (t @ [c])" and "\<And>t. T t \<Longrightarrow> V (t @ [c])"
  shows "triple (on_trace T) (call_out e c (receiver_answer e)) (\<lambda>ok. on_trace (U ok)) (on_trace V) never"
  by (rule call_rule) (use assms in \<open>auto simp: confirmed_def\<close>)

lemma number_rule:
  assumes "\<And>t. T t \<Longrightarrow> U False (t @ [Unresolved cid])"
    and "\<And>n. triple (on_trace T) (action n) (\<lambda>ok. on_trace (U ok)) E never"
  shows "triple (on_trace T) (with_number cid nid action) (\<lambda>ok. on_trace (U ok)) E never"
  unfolding with_number_def
  by (rule triple_option, rule triple_andthen[where R = "\<lambda>_. on_trace (U False)"])
     (use assms in \<open>auto intro: triple_change triple_give\<close>)

section \<open>Properties of traces\<close>

text \<open>The calls that neither enable the data of a board nor assert its reset nor set its voltages and thresholds.\<close>

fun harmless :: "acq_call \<Rightarrow> bool" where
  "harmless (Sent c (RcWrite a v)) \<longleftrightarrow> (a = 19 \<and> v = 0) \<or> (a = 15 \<and> v AND RC15_RESET_MASK = 0)"
| "harmless (Sent c (RcConfigure r)) \<longleftrightarrow> dict_get (reg_values r) 19 \<in> {None, Some 0}"
| "harmless (Sent c (HvConfigure acq w)) \<longleftrightarrow> False"
| "harmless (Unavailable c (HvConfigure acq w)) \<longleftrightarrow> False"
| "harmless _ \<longleftrightarrow> True"

lemma harmless_unavailable: "harmless (Sent cid c) \<Longrightarrow> harmless (Unavailable cid c)"
  by (cases c) auto

text \<open>The masks of the prepared clients are checked before anything is opened.\<close>

definition masks_valid :: "start_progress \<Rightarrow> bool" where
  "masks_valid p \<longleftrightarrow> (\<forall>(cid, msk) \<in> set (sp_masks p). 0 < msk \<and> msk \<le> 0x1FF)"

lemma check_prepared_masks:
  "returns (check_prepared e md cid p) (\<lambda>q. masks_valid p \<longrightarrow> masks_valid q)"
  unfolding check_prepared_def masks_valid_def
  by (intro returns_rules) (auto simp: start_error_def dest!: in_dict_set)

locale trace_law =
  fixes T :: "acq_call list \<Rightarrow> bool"
  assumes step: "\<And>t c. T t \<Longrightarrow> harmless c \<Longrightarrow> T (t @ [c])"
begin

lemma call_kept: "harmless c \<Longrightarrow> keeps (on_trace T) (call_out e c ans)"
  by (rule keeps_call) (rule step)

lemma read_kept: "keeps (on_trace T) (read_rc_register e cid a)"
  by (rule keeps_read) (rule step; simp)+

lemma command_kept: "harmless (Sent cid c) \<Longrightarrow> keeps (on_trace T) (rc_command_ok e cid c)"
  by (rule keeps_rc_command) (rule step; simp add: harmless_unavailable)+

lemma write_kept: "harmless (Sent cid (RcWrite a v)) \<Longrightarrow> keeps (on_trace T) (write_rc_register e cid a v)"
  unfolding write_rc_register_def by (rule command_kept)

lemma sleep_kept: "keeps (on_trace T) (sleep_tenth e)"
  unfolding sleep_tenth_def by (rule call_kept) simp

lemma number_kept: "(\<And>n. keeps (on_trace T) (action n)) \<Longrightarrow> keeps (on_trace T) (with_number cid nid action)"
  by (rule keeps_with_number) (simp_all add: step)

lemma close_kept: "keeps (on_trace T) (close_file_for_client e cid)"
  unfolding close_file_for_client_def by (intro keeps_rules number_kept call_kept) simp

lemma disable_kept: "keeps (on_trace T) (disable_rc_channels e cids)"
  unfolding disable_rc_channels_def by (intro keeps_rules write_kept) simp

lemma end_client_kept: "keeps (on_trace T) (configure_acquisition_end_client e cid)"
  unfolding configure_acquisition_end_client_def set_rc_acquisition_registers_def
  by (rule command_kept) (simp add: end_registers_def)

lemma close_lost_kept: "keeps (on_trace T) (close_lost_client e cid nid)"
  unfolding close_lost_client_def by (intro keeps_rules number_kept call_kept) simp_all

lemma finish_flush_kept: "keeps (on_trace T) (finish_flush e cid n b)"
  unfolding finish_flush_def by (intro keeps_rules sleep_kept read_kept call_kept) simp

lemma release_kept: "b AND RC15_RESET_MASK = 0 \<Longrightarrow> keeps (on_trace T) (release_reset e cid b)"
  unfolding release_reset_def by (intro keeps_rules write_kept) simp

text \<open>The reset of a client, if its pulse keeps the property.\<close>

lemma flush_kept:
  assumes "\<And>n b. b AND RC15_RESET_MASK = 0 \<Longrightarrow> keeps (on_trace T) (reset_pulse e cid b)"
  shows "keeps (on_trace T) (flush_client e cid)"
  unfolding flush_client_def flush_producer_def reset_hardware_def
  by (intro keeps_rules read_kept number_kept call_kept assms release_kept finish_flush_kept) (simp_all add: base_released)

text \<open>A session, if the reset and the start of one client keep the property.\<close>

lemma run_hardware_kept:
  assumes "\<And>cid. keeps (on_trace T) (flush_client e cid)"
  shows "keeps (on_trace T) (run_hardware_stop_and_flush e cids rst)"
  unfolding run_hardware_stop_and_flush_def finalize_each_def
  by (intro keeps_rules disable_kept assms end_client_kept close_kept)

lemma start_kept:
  assumes "\<And>cid. keeps (on_trace T) (flush_client e cid)"
    and "\<And>cid msk p. 0 < msk \<Longrightarrow> msk \<le> 0x1FF \<Longrightarrow> keeps (on_trace T) (start_client e (cid, msk) p)"
  shows "keeps (on_trace T) (open_and_start_prepared_clients e cids md)"
proof -
  let ?I = "\<lambda>p s. on_trace T s \<and> masks_valid p"
  have 1: "triple (?I p) (each (check_prepared e md) cids p) ?I (on_trace T) never" for p
  proof (rule triple_each)
    fix c p
    have "triple (on_trace T) (check_prepared e md c p) (\<lambda>q s. on_trace T s \<and> (masks_valid p \<longrightarrow> masks_valid q)) (on_trace T) never"
      by (rule triple_returns[OF keepsD], unfold check_prepared_def)
         (intro keeps_rules read_kept assms, rule check_prepared_masks[unfolded check_prepared_def])
    then show "triple (?I p) (check_prepared e md c p) ?I (on_trace T) never"
      by (auto simp: triple_def split: prod.splits outcome.splits)
  qed
  have 2: "triple (?I p) (each (start_client e) (sp_masks p) p) (\<lambda>_. on_trace T) (on_trace T) never" for p
  proof (rule tripleI[OF _ _ _])
    have "masks_valid p \<Longrightarrow> keeps (on_trace T) (each (start_client e) (sp_masks p) p)"
      by (rule keeps_each) (auto simp: masks_valid_def intro: assms(2))
    note tripleD[OF keepsD[OF this]]
    then show "?I p s \<Longrightarrow> each (start_client e) (sp_masks p) p s = (Returned x, s1) \<Longrightarrow> on_trace T s1"
      and "?I p s \<Longrightarrow> each (start_client e) (sp_masks p) p s = (Raised y, s1) \<Longrightarrow> on_trace T s1"
      and "?I p s \<Longrightarrow> each (start_client e) (sp_masks p) p s = (Stuck, s1) \<Longrightarrow> False" for s x y s1
      by blast+
  qed
  show ?thesis
    unfolding open_and_start_prepared_clients_def keeps_def
    by (rule triple_andthen[OF triple_pre[OF 1] 2]) (simp add: masks_valid_def)
qed

text \<open>An action that may wait for ever keeps the property as well.\<close>

lemma kept_any: "keeps (on_trace T) f \<Longrightarrow> triple (on_trace T) f (\<lambda>_. on_trace T) (on_trace T) (on_trace T)"
  by (rule triple_conseq[OF keepsD]) auto

lemma wait_kept:
  assumes "silent od"
  shows "triple (on_trace T) (wait_acquisition e duration od) (\<lambda>_. on_trace T) (on_trace T) (on_trace T)"
proof -
  have 1: "triple (on_trace T) (wait_stop e tm) (\<lambda>_. on_trace T) (on_trace T) (on_trace T)" for tm
    unfolding wait_stop_def
    by (rule triple_andthen[OF kept_any[OF call_kept]]) (auto simp: triple_def)
  have 2: "triple (on_trace T) (catching od (\<lambda>_. give ())) (\<lambda>_. on_trace T) (on_trace T) (on_trace T)"
    by (intro kept_any keeps_catching silent_keeps assms keeps_basic)
  show ?thesis
    unfolding wait_acquisition_def
    by (intro triple_option triple_if triple_andthen[OF 1] 2) (rule triple_give; assumption)+
qed

lemma body_kept:
  assumes "\<And>cid. keeps (on_trace T) (flush_client e cid)" and "\<And>cid msk p. 0 < msk \<Longrightarrow> msk \<le> 0x1FF \<Longrightarrow> keeps (on_trace T) (start_client e (cid, msk) p)"
    and "silent od"
  shows "triple (on_trace T) (session_body e cids duration od) (\<lambda>_. on_trace T) (on_trace T) (on_trace T)"
  unfolding session_body_def
proof (rule triple_andthen[OF kept_any[OF call_kept]], simp, rule triple_andthen[OF kept_any[OF start_kept[OF assms(1,2)]]])
  fix p :: start_progress
  have 1: "triple (on_trace T) (change (note_acquiring cs)) (\<lambda>_. on_trace T) (on_trace T) (on_trace T)" for cs
    by (rule triple_change) (simp add: note_acquiring_def request_stop_def Let_def)
  show "triple (on_trace T) (if sp_opened p = [] then give (p, None)
      else andthen (change (note_acquiring (sp_acquiring p))) (\<lambda>_.
        andthen (if sp_acquiring p \<noteq> [] then wait_acquisition e duration od else give ()) (\<lambda>_.
          andthen (reading lost_clients) (\<lambda>lost. give (p, Some lost))))) (\<lambda>_. on_trace T) (on_trace T) (on_trace T)"
    by (intro triple_if triple_andthen[OF 1] triple_andthen[where R = "\<lambda>_. on_trace T"] wait_kept assms(3) kept_any keeps_rules)
qed

lemma guarded_kept:
  assumes "\<And>cid. keeps (on_trace T) (flush_client e cid)" and "\<And>cid msk p. 0 < msk \<Longrightarrow> msk \<le> 0x1FF \<Longrightarrow> keeps (on_trace T) (start_client e (cid, msk) p)"
    and "silent od"
  shows "triple (on_trace T) (guarded_session e cids duration od rst) (\<lambda>_. on_trace T) (on_trace T) (on_trace T)"
proof -
  note body = body_kept[OF assms, of cids duration]
  have fin: "on_trace T s \<Longrightarrow> on_trace T (snd (run_hardware_stop_and_flush e cids rst s))" for s
    using keeps_snd[OF run_hardware_kept[OF assms(1)]] by blast
  have "on_trace T (snd (guarded_session e cids duration od rst s))" if T: "on_trace T s" for s
  proof (cases "session_body e cids duration od s")
    case (Pair r s1)
    have "on_trace T s1" using tripleD[OF body T] Pair by (cases r) auto
    then show ?thesis
      using Pair fin[of s1] unfolding guarded_session_def
      by (auto simp: clear_session_clients_def split: outcome.splits prod.splits)
  qed
  then show ?thesis by (fastforce simp: triple_def split: prod.splits outcome.splits)
qed

lemma session_kept:
  assumes "\<And>cid. keeps (on_trace T) (flush_client e cid)" and "\<And>cid msk p. 0 < msk \<Longrightarrow> msk \<le> 0x1FF \<Longrightarrow> keeps (on_trace T) (start_client e (cid, msk) p)"
    and "silent od"
  shows "triple (on_trace T) (run_acquisition_session e cids duration od rst) (\<lambda>_. on_trace T) (on_trace T) (on_trace T)"
proof -
  have 1: "triple (on_trace T) (finish_session e nids rst p lost res) (\<lambda>_. on_trace T) (on_trace T) (on_trace T)" for nids p lost res
    unfolding finish_session_def Let_def by (intro kept_any keeps_rules run_hardware_kept assms(1) close_lost_kept)
  have 2: "triple (on_trace T) (case pl of (p, lost) \<Rightarrow> case lost of None \<Rightarrow> give (with_start_errors p res)
      | Some l \<Rightarrow> finish_session e nids rst p l (with_start_errors p res)) (\<lambda>_. on_trace T) (on_trace T) (on_trace T)" for pl nids res
    by (cases pl) (auto split: option.splits intro: 1 triple_give)
  show ?thesis
    unfolding run_acquisition_session_def Let_def
    by (intro triple_if triple_give triple_read_any triple_andthen[OF triple_change[where Q = "\<lambda>_. on_trace T"]]
          triple_andthen[OF guarded_kept[OF assms]] 2) simp_all
qed

end

end
