(* ===== verification/AcqOrder.thy ===== *)
theory AcqOrder
  imports AcqTrace
begin

text \<open>
  The order of the calls of a session: the data of a board are enabled only after its file is open and
  its producer started, and its reset is asserted only when its data are disabled and its producer stopped.
\<close>

unbundle bit_operations_syntax

section \<open>Conditions on the calls of a session\<close>

text \<open>Every call after \<open>base\<close> satisfies the condition, given what was called before it.\<close>

definition follows :: "(acq_call list \<Rightarrow> acq_call \<Rightarrow> bool) \<Rightarrow> acq_call list \<Rightarrow> acq_call list \<Rightarrow> bool" where
  "follows ok base t \<longleftrightarrow>
    (\<exists>new. t = base @ new \<and> (\<forall>pre c post. new = pre @ c # post \<longrightarrow> ok (base @ pre) c))"

lemma follows_refl: "follows ok t t"
  by (simp add: follows_def)

lemma follows_snoc: "follows ok base t \<Longrightarrow> ok t c \<Longrightarrow> follows ok base (t @ [c])"
  unfolding follows_def
proof (elim exE conjE, intro exI conjI allI impI)
  fix new pre d post
  assume new: "\<forall>pre c post. new = pre @ c # post \<longrightarrow> ok (base @ pre) c" and t: "t = base @ new" and c: "ok t c"
  show "t @ [c] = base @ (new @ [c])" by (simp add: t)
  assume "new @ [c] = pre @ d # post"
  then show "ok (base @ pre) d" using new t c by (cases post rule: rev_cases) auto
qed

definition opened_at :: "acq_env \<Rightarrow> client_id \<Rightarrow> int \<Rightarrow> acq_call list \<Rightarrow> bool" where
  "opened_at e cid v t \<longleftrightarrow> (\<exists>u n. t = u @ [OpenFile cid n v] \<and> confirmed e t)"

definition started_at :: "acq_env \<Rightarrow> client_id \<Rightarrow> int \<Rightarrow> acq_call list \<Rightarrow> bool" where
  "started_at e cid v t \<longleftrightarrow> (\<exists>u n. t = u @ [StartProducer cid n] \<and> confirmed e t \<and> opened_at e cid v u)"

text \<open>
  A mask of register 19 that enables data is nine bits wide and is sent right after the producer confirmed its start
  and, before it, the receiver that the file with this mask in its header is open.
\<close>

fun enables_ok :: "acq_env \<Rightarrow> acq_call list \<Rightarrow> acq_call \<Rightarrow> bool" where
  "enables_ok e t (Sent cid (RcWrite a v)) = (a = 19 \<and> v \<noteq> 0 \<longrightarrow> 0 < v \<and> v \<le> 0x1FF \<and> started_at e cid v t)"
| "enables_ok e t (Sent cid (RcConfigure r)) = (dict_get (reg_values r) 19 \<in> {None, Some 0})"
| "enables_ok _ _ _ = True"

definition disabled_at :: "acq_env \<Rightarrow> client_id \<Rightarrow> acq_call list \<Rightarrow> bool" where
  "disabled_at e cid t \<longleftrightarrow> (\<exists>u x. t = u @ [Sent cid (RcRead 19)] \<and> says e t x \<and> x AND RC19_MASK = 0)"

definition quiet_at :: "acq_env \<Rightarrow> client_id \<Rightarrow> acq_call list \<Rightarrow> bool" where
  "quiet_at e cid t \<longleftrightarrow> (\<exists>u n. t = u @ [StopProducer cid n] \<and> confirmed e t \<and> disabled_at e cid u)"

definition released_at :: "acq_env \<Rightarrow> client_id \<Rightarrow> acq_call list \<Rightarrow> bool" where
  "released_at e cid t \<longleftrightarrow>
    (\<exists>u x. t = u @ [Sent cid (RcRead 15)] \<and> says e t x \<and> x AND RC15_RESET_MASK = 0 \<and> quiet_at e cid u)"

definition cleared_at :: "acq_env \<Rightarrow> client_id \<Rightarrow> acq_call list \<Rightarrow> bool" where
  "cleared_at e cid t \<longleftrightarrow> (\<exists>u n. t = u @ [ResetProducer cid n] \<and> confirmed e t \<and> released_at e cid u)"

definition based_at :: "acq_env \<Rightarrow> client_id \<Rightarrow> int \<Rightarrow> acq_call list \<Rightarrow> bool" where
  "based_at e cid b t \<longleftrightarrow> (\<exists>u. t = u @ [Sent cid (RcWrite 15 b)] \<and> executed e t \<and> cleared_at e cid u)"

text \<open>
  The reset bit of register 15 is set only over a value written just before, after the producer stopped and was reset,
  on a board that was read as disabled and not in reset.
\<close>

fun resets_ok :: "acq_env \<Rightarrow> acq_call list \<Rightarrow> acq_call \<Rightarrow> bool" where
  "resets_ok e t (Sent cid (RcWrite a v)) =
    (a = 15 \<and> v AND RC15_RESET_MASK \<noteq> 0 \<longrightarrow>
       (\<exists>u b. t = u @ [SleepTenth] \<and> based_at e cid b u \<and> b AND RC15_RESET_MASK = 0 \<and> v = b OR RC15_RESET_MASK))"
| "resets_ok _ _ _ = True"

lemma harmless_ok: "harmless c \<Longrightarrow> enables_ok e t c" "harmless c \<Longrightarrow> resets_ok e t c"
  by (induction c rule: harmless.induct) auto

interpretation enabling: trace_law "follows (enables_ok e) base" for e base
  by unfold_locales (rule follows_snoc[OF _ harmless_ok(1)])

interpretation resetting: trace_law "follows (resets_ok e) base" for e base
  by unfold_locales (rule follows_snoc[OF _ harmless_ok(2)])

section \<open>Enabling the data\<close>

lemma write15_enabling: "keeps (on_trace (follows (enables_ok e) base)) (write_rc_register e cid 15 v)"
  unfolding write_rc_register_def by (rule keeps_rc_command) (rule follows_snoc; simp)+

lemma flush_enabling: "keeps (on_trace (follows (enables_ok e) base)) (flush_client e cid)"
  by (rule enabling.flush_kept, unfold reset_pulse_def)
     (intro keeps_rules write15_enabling enabling.sleep_kept enabling.read_kept)

lemma open_enabling:
  "triple (on_trace (follows (enables_ok e) base)) (open_file_for_client e cid v)
     (\<lambda>ok. on_trace (\<lambda>t. follows (enables_ok e) base t \<and> (ok \<longrightarrow> opened_at e cid v t)))
     (on_trace (follows (enables_ok e) base)) never"
  unfolding open_file_for_client_def
  by (intro triple_read_any number_rule receiver_rule) (auto simp: opened_at_def intro!: follows_snoc)

lemma start_opened_enabling:
  assumes "0 < v" "v \<le> 0x1FF"
  shows "triple (on_trace (\<lambda>t. follows (enables_ok e) base t \<and> opened_at e cid v t)) (start_opened e cid v p)
    (\<lambda>_. on_trace (follows (enables_ok e) base)) (on_trace (follows (enables_ok e) base)) never"
proof -
  let ?T = "follows (enables_ok e) base"
  have 1: "triple (on_trace (\<lambda>t. ?T t \<and> opened_at e cid v t))
      (with_number cid nid (\<lambda>n. call_out e (StartProducer cid n) (receiver_answer e)))
      (\<lambda>ok. on_trace (\<lambda>t. ?T t \<and> (ok \<longrightarrow> started_at e cid v t))) (on_trace ?T) never" for nid
    by (intro number_rule receiver_rule) (auto simp: started_at_def intro!: follows_snoc)
  have 2: "triple (on_trace (\<lambda>t. ?T t \<and> started_at e cid v t)) (write_rc_register e cid 19 v) (\<lambda>_. on_trace ?T) (on_trace ?T) never"
    by (rule write_rule) (use assms in \<open>auto intro!: follows_snoc\<close>)
  show ?thesis
    unfolding start_opened_def
    by (rule triple_read_any, clarsimp split del: if_split, intro triple_if triple_give triple_andthen[OF 1])
       (auto intro!: triple_read_any triple_if triple_give triple_andthen[OF 2[THEN triple_pre]] split del: if_split)
qed

lemma start_client_enabling:
  assumes "0 < v" "v \<le> 0x1FF"
  shows "keeps (on_trace (follows (enables_ok e) base)) (start_client e (cid, v) p)"
proof -
  let ?T = "follows (enables_ok e) base"
  have close: "triple (on_trace (\<lambda>t. ?T t \<and> X t)) (close_file_for_client e cid) (\<lambda>_. on_trace ?T) (on_trace ?T) never" for X
    by (rule triple_pre[OF keepsD[OF enabling.close_kept]]) simp
  show ?thesis
    unfolding keeps_def start_client_def split
    by (intro triple_read_any triple_if triple_give triple_andthen[OF open_enabling] triple_andthen[OF close]
          triple_pre[OF start_opened_enabling[OF assms]]) simp_all
qed

section \<open>Asserting the reset\<close>

lemma pulse_resetting:
  assumes "b AND RC15_RESET_MASK = 0"
  shows "triple (on_trace (\<lambda>t. follows (resets_ok e) base t \<and> cleared_at e cid t)) (reset_pulse e cid b)
    (\<lambda>_. on_trace (follows (resets_ok e) base)) (on_trace (follows (resets_ok e) base)) never"
proof -
  let ?T = "follows (resets_ok e) base"
  let ?B = "\<lambda>t. ?T t \<and> (\<exists>u. t = u @ [SleepTenth] \<and> based_at e cid b u)"
  have 1: "triple (on_trace (\<lambda>t. ?T t \<and> cleared_at e cid t)) (write_rc_register e cid 15 b)
      (\<lambda>ok. on_trace (\<lambda>t. ?T t \<and> (ok \<longrightarrow> based_at e cid b t))) (on_trace ?T) never"
    by (rule write_rule) (use assms in \<open>auto simp: based_at_def intro!: follows_snoc\<close>)
  have 2: "triple (on_trace (\<lambda>t. ?T t \<and> based_at e cid b t)) (sleep_tenth e) (\<lambda>_. on_trace ?B) (on_trace ?T) never"
    unfolding sleep_tenth_def by (rule call_rule) (auto intro!: follows_snoc)
  have 3: "triple (on_trace ?B) (write_rc_register e cid 15 (b OR RC15_RESET_MASK)) (\<lambda>_. on_trace ?T) (on_trace ?T) never"
    by (rule write_rule) (use assms in \<open>auto intro!: follows_snoc\<close>)
  have 4: "triple (on_trace ?T) (andthen (sleep_tenth e) (\<lambda>_. andthen (read_rc_register e cid 15) (\<lambda>held. give (g held))))
      (\<lambda>_. on_trace ?T) (on_trace ?T) never" for g :: "int option \<Rightarrow> bool"
    by (intro keepsD keeps_rules resetting.sleep_kept resetting.read_kept)
  show ?thesis
    unfolding reset_pulse_def
    by (rule triple_catching[where E' = "on_trace ?T"])
       (intro triple_if triple_give triple_andthen[OF 1] triple_andthen[OF triple_pre[OF 2]] triple_andthen[OF 3] 4; simp)+
qed

lemma reset_hardware_resetting:
  "triple (on_trace (\<lambda>t. follows (resets_ok e) base t \<and> cleared_at e cid t)) (reset_hardware e cid n (reset_base_value v))
    (\<lambda>_. on_trace (follows (resets_ok e) base)) (on_trace (follows (resets_ok e) base)) never"
  unfolding reset_hardware_def
  by (intro triple_andthen[OF pulse_resetting[OF base_released]] keepsD keeps_rules
        resetting.release_kept[OF base_released] resetting.finish_flush_kept)

lemma flush_producer_resetting:
  "triple (on_trace (\<lambda>t. follows (resets_ok e) base t \<and> disabled_at e cid t)) (flush_producer e cid n)
    (\<lambda>_. on_trace (follows (resets_ok e) base)) (on_trace (follows (resets_ok e) base)) never"
proof -
  let ?T = "follows (resets_ok e) base"
  have 1: "triple (on_trace (\<lambda>t. ?T t \<and> disabled_at e cid t)) (call_out e (StopProducer cid n) (receiver_answer e))
      (\<lambda>ok. on_trace (\<lambda>t. ?T t \<and> (ok \<longrightarrow> quiet_at e cid t))) (on_trace ?T) never"
    by (rule receiver_rule) (auto simp: quiet_at_def intro!: follows_snoc)
  have 2: "triple (on_trace (\<lambda>t. ?T t \<and> quiet_at e cid t)) (read_rc_register e cid 15)
      (\<lambda>v. on_trace (\<lambda>t. ?T t \<and> (\<forall>x. v = Some x \<and> x AND RC15_RESET_MASK = 0 \<longrightarrow> released_at e cid t))) (on_trace ?T) never"
    by (rule read_rule) (auto simp: released_at_def intro!: follows_snoc)
  have 3: "triple (on_trace (\<lambda>t. ?T t \<and> released_at e cid t)) (call_out e (ResetProducer cid n) (receiver_answer e))
      (\<lambda>ok. on_trace (\<lambda>t. ?T t \<and> (ok \<longrightarrow> cleared_at e cid t))) (on_trace ?T) never"
    by (rule receiver_rule) (auto simp: cleared_at_def intro!: follows_snoc)
  show ?thesis
    unfolding flush_producer_def
    by (intro triple_andthen[OF 1] triple_if triple_give triple_andthen[OF triple_pre[OF 2]] triple_option
          triple_andthen[OF triple_pre[OF 3]] triple_pre[OF reset_hardware_resetting]; simp)
qed

lemma flush_resetting: "keeps (on_trace (follows (resets_ok e) base)) (flush_client e cid)"
proof -
  let ?T = "follows (resets_ok e) base"
  have 1: "triple (on_trace ?T) (read_rc_register e cid 19)
      (\<lambda>v. on_trace (\<lambda>t. ?T t \<and> (\<forall>x. v = Some x \<and> x AND RC19_MASK = 0 \<longrightarrow> disabled_at e cid t))) (on_trace ?T) never"
    by (rule read_rule) (auto simp: disabled_at_def intro!: follows_snoc)
  have 2: "triple (on_trace (\<lambda>t. ?T t \<and> disabled_at e cid t)) (with_number cid nid (flush_producer e cid))
      (\<lambda>_. on_trace ?T) (on_trace ?T) never" for nid
    by (rule number_rule) (auto intro!: follows_snoc flush_producer_resetting)
  show ?thesis
    unfolding keeps_def flush_client_def
    by (intro triple_andthen[OF 1] triple_option triple_if triple_give triple_read_any triple_pre[OF 2]; simp)
qed

lemma start_client_resetting: "keeps (on_trace (follows (resets_ok e) base)) (start_client e (cid, v) p)"
proof -
  let ?T = "follows (resets_ok e) base"
  have w: "keeps (on_trace ?T) (write_rc_register e cid 19 v)"
    unfolding write_rc_register_def by (rule keeps_rc_command) (rule follows_snoc; simp)+
  show ?thesis
    unfolding start_client_def split start_opened_def open_file_for_client_def
    by (intro keeps_rules resetting.number_kept resetting.call_kept resetting.close_kept w) simp_all
qed

section \<open>Statements\<close>

lemma kept_by_run:
  "triple (on_trace T) f (\<lambda>_. on_trace T) (on_trace T) (on_trace T) \<Longrightarrow> T (trace s) \<Longrightarrow> T (trace (snd (f s)))"
  by (cases "f s"; cases "fst (f s)") (auto dest: tripleD)

text \<open>
  Claim C27. In every session, whatever the clients, the receiver and the other threads do, a mask that enables the data of
  a board is a mask of nine bits, not zero, and is sent immediately after the producer of the board confirmed its start, which itself
  comes immediately after the confirmation that the file, with this mask in its header, is open; and no
  configuration of the board that enables data is ever sent.
\<close>

theorem data_enabled_only_after_open_and_start:
  assumes "silent on_duration_elapsed"
  shows "follows (enables_ok e) (trace s)
    (trace (snd (run_acquisition_session e cids duration on_duration_elapsed rst s)))"
  by (rule kept_by_run[OF enabling.session_kept[OF flush_enabling start_client_enabling assms] follows_refl])

text \<open>
  Claim C28. In every session the hardware reset of a board is asserted only in this order: register 19 read back without
  enabled channels, stop of the producer confirmed, register 15 read back out of reset, producer reset confirmed,
  register 15 written without the reset bit and accepted; then, after a pause, the same value with the reset bit.
\<close>

theorem reset_only_on_a_quiet_board:
  assumes "silent on_duration_elapsed"
  shows "follows (resets_ok e) (trace s)
    (trace (snd (run_acquisition_session e cids duration on_duration_elapsed rst s)))"
  by (rule kept_by_run[OF resetting.session_kept[OF flush_resetting start_client_resetting assms] follows_refl])

text \<open>The calls of a session on one client, with the two conditions at the calls they constrain.\<close>

theorem data_enabled_only_after_open_and_start_witness:
  "let t = trace (snd (run_acquisition_session (example_env []) [''a''] (Some 5) do_nothing True example_acq))
   in follows (enables_ok (example_env [])) [] t \<and> Sent ''a'' (RcWrite 19 3) \<in> set t"
proof -
  have "Sent ''a'' (RcWrite 19 3) \<in>
      set (trace (snd (run_acquisition_session (example_env []) [''a''] (Some 5) do_nothing True example_acq)))"
    by code_simp
  with data_enabled_only_after_open_and_start[OF do_nothing_silent, of "example_env []" example_acq "[''a'']" "Some 5" True]
  show ?thesis unfolding Let_def example_trace by blast
qed

theorem reset_only_on_a_quiet_board_witness:
  "let t = trace (snd (run_acquisition_session (example_env []) [''a''] (Some 5) do_nothing True example_acq))
   in follows (resets_ok (example_env [])) [] t \<and> Sent ''a'' (RcWrite 15 8) \<in> set t"
proof -
  have "Sent ''a'' (RcWrite 15 8) \<in>
      set (trace (snd (run_acquisition_session (example_env []) [''a''] (Some 5) do_nothing True example_acq)))"
    by code_simp
  with reset_only_on_a_quiet_board[OF do_nothing_silent, of "example_env []" example_acq "[''a'']" "Some 5" True]
  show ?thesis unfolding Let_def example_trace by blast
qed

end
