(* ===== verification/AcqSuccess.thy ===== *)
theory AcqSuccess
  imports AcqOrder
begin

text \<open>
  The result of a session: a client is reported as successful only if every step of its start
  and of its finalization was accepted, in order.
\<close>

unbundle bit_operations_syntax

section \<open>Milestones\<close>

datatype milestone =
    FileOpened | ProducerStarted | DataEnabled | DataDisabled | ProducerStopped
  | ResetAsserted | ResetReleased | ProducerCleared | TriggerCleared | FileClosed

text \<open>The call that brings client \<open>cid\<close>, prepared with mask \<open>m\<close>, to a milestone.\<close>

fun brings :: "client_id \<Rightarrow> int \<Rightarrow> milestone \<Rightarrow> acq_call \<Rightarrow> bool" where
  "brings cid m FileOpened c \<longleftrightarrow> (\<exists>n. c = OpenFile cid n m)"
| "brings cid m ProducerStarted c \<longleftrightarrow> (\<exists>n. c = StartProducer cid n)"
| "brings cid m DataEnabled c \<longleftrightarrow> c = Sent cid (RcWrite 19 m)"
| "brings cid m DataDisabled c \<longleftrightarrow> c = Sent cid (RcWrite 19 0)"
| "brings cid m ProducerStopped c \<longleftrightarrow> (\<exists>n. c = StopProducer cid n)"
| "brings cid m ResetAsserted c \<longleftrightarrow> (\<exists>v. c = Sent cid (RcWrite 15 v) \<and> v AND RC15_RESET_MASK \<noteq> 0)"
| "brings cid m ResetReleased c \<longleftrightarrow> (\<exists>v. c = Sent cid (RcWrite 15 v) \<and> v AND RC15_RESET_MASK = 0)"
| "brings cid m ProducerCleared c \<longleftrightarrow> (\<exists>n. c = ResetProducer cid n)"
| "brings cid m TriggerCleared c \<longleftrightarrow> c = Sent cid (RcConfigure end_registers)"
| "brings cid m FileClosed c \<longleftrightarrow> (\<exists>n. c = CloseFile cid n)"

text \<open>The last call of the trace was accepted by the board or confirmed by the receiver.\<close>

fun accepted :: "acq_env \<Rightarrow> acq_call list \<Rightarrow> acq_call \<Rightarrow> bool" where
  "accepted e t (Sent c k) \<longleftrightarrow> executed e t"
| "accepted e t _ \<longleftrightarrow> confirmed e t"

text \<open>The milestones, the last first, were reached in order after \<open>base\<close>.\<close>

fun achieved :: "acq_env \<Rightarrow> acq_call list \<Rightarrow> client_id \<Rightarrow> int \<Rightarrow> milestone list \<Rightarrow> acq_call list \<Rightarrow> bool" where
  "achieved e base cid m [] t \<longleftrightarrow> (\<exists>u. t = base @ u)"
| "achieved e base cid m (g # gs) t \<longleftrightarrow>
    (\<exists>u c v. t = u @ c # v \<and> brings cid m g c \<and> accepted e (u @ [c]) c \<and> achieved e base cid m gs u)"

definition stable :: "(acq_call list \<Rightarrow> bool) \<Rightarrow> bool" where
  "stable T \<longleftrightarrow> (\<forall>t c. T t \<longrightarrow> T (t @ [c]))"

lemma stable_law: "stable T \<Longrightarrow> trace_law T"
  by (simp add: stable_def trace_law_def)

lemma stableD: "stable T \<Longrightarrow> T t \<Longrightarrow> T (t @ [c])"
  by (simp add: stable_def)

lemma stable_append: "stable T \<Longrightarrow> T t \<Longrightarrow> T (t @ u)"
  by (induction u rule: rev_induct) (simp_all flip: append_assoc add: stableD)

lemma stable_achieved: "stable (achieved e base cid m gs)"
  unfolding stable_def
proof (intro allI impI)
  show "achieved e base cid m gs t \<Longrightarrow> achieved e base cid m gs (t @ [c])" for t c
    by (cases gs) (force simp: append_eq_append_conv2)+
qed

lemma achieved_last: "achieved e base cid m gs t \<Longrightarrow> brings cid m g c \<Longrightarrow> accepted e (t @ [c]) c \<Longrightarrow>
    achieved e base cid m (g # gs) (t @ [c])"
  by force

lemma achieved_less: "achieved e base cid m (g # gs) t \<Longrightarrow> achieved e base cid m gs t"
  by (auto intro: stable_append[OF stable_achieved])

declare achieved.simps [simp del]

text \<open>The milestones reached with some valid mask.\<close>

definition reached :: "acq_env \<Rightarrow> acq_call list \<Rightarrow> milestone list \<Rightarrow> client_id \<Rightarrow> acq_call list \<Rightarrow> bool" where
  "reached e base gs cid t \<longleftrightarrow> (\<exists>m. 0 < m \<and> m \<le> 0x1FF \<and> achieved e base cid m gs t)"

lemma stable_reached: "stable (reached e base gs cid)"
  using stable_achieved unfolding stable_def reached_def by blast

lemma reached_last:
  "reached e base gs cid t \<Longrightarrow> (\<And>m. brings cid m g c) \<Longrightarrow> accepted e (t @ [c]) c \<Longrightarrow> reached e base (g # gs) cid (t @ [c])"
  unfolding reached_def using achieved_last by blast

lemma reached_less: "reached e base (g # gs) cid t \<Longrightarrow> reached e base gs cid t"
  unfolding reached_def using achieved_less by blast

section \<open>Steps\<close>

text \<open>A step that, if it succeeds, leaves \<open>Q\<close>.\<close>

abbreviation attempt :: "(acq_call list \<Rightarrow> bool) \<Rightarrow> bool acq_act \<Rightarrow> (acq_call list \<Rightarrow> bool) \<Rightarrow> bool" where
  "attempt P f Q \<equiv> triple (on_trace P) f (\<lambda>ok. on_trace (\<lambda>t. ok \<longrightarrow> Q t)) (on_trace (\<lambda>_. True)) never"

lemma stable_keeps: "keeps (on_trace T) f \<Longrightarrow> triple (on_trace T) f (\<lambda>_. on_trace T) (on_trace (\<lambda>_. True)) never"
  by (rule triple_conseq[OF keepsD]) auto

lemma stable_read:
  "stable T \<Longrightarrow> triple (on_trace T) (read_rc_register e cid a) (\<lambda>_. on_trace T) (on_trace (\<lambda>_. True)) never"
  by (rule stable_keeps[OF trace_law.read_kept[OF stable_law]])

lemma stable_sleep: "stable T \<Longrightarrow> triple (on_trace T) (sleep_tenth e) (\<lambda>_. on_trace T) (on_trace (\<lambda>_. True)) never"
  by (rule stable_keeps[OF trace_law.sleep_kept[OF stable_law]])

lemma attempt_refused: "attempt P (give False) Q"
  by (rule triple_give) simp

lemma attempt_write:
  "(\<And>m. brings cid m g (Sent cid (RcWrite a v))) \<Longrightarrow>
   attempt (reached e base gs cid) (write_rc_register e cid a v) (reached e base (g # gs) cid)"
  by (rule write_rule) (auto intro: reached_last)

lemma attempt_receiver:
  "(\<And>m. brings cid m g c) \<Longrightarrow> (\<And>d k. c \<noteq> Sent d k) \<Longrightarrow>
   attempt (reached e base gs cid) (call_out e c (receiver_answer e)) (reached e base (g # gs) cid)"
  by (rule receiver_rule) (cases c; auto intro: reached_last)+

lemma attempt_number:
  "(\<And>n. attempt P (action n) Q) \<Longrightarrow> attempt P (with_number cid nid action) Q"
  by (rule number_rule) auto

lemma attempt_disable:
  "attempt (reached e base gs cid) (disable_rc_channels e [cid]) (reached e base (DataDisabled # gs) cid)"
  unfolding disable_rc_channels_def
  by (rule triple_each_one, rule triple_andthen[OF attempt_write[where g = DataDisabled]]) (auto intro: triple_give)

lemma attempt_close:
  "attempt (reached e base gs cid) (close_file_for_client e cid) (reached e base (FileClosed # gs) cid)"
  unfolding close_file_for_client_def by (intro triple_read_any attempt_number attempt_receiver) simp_all

lemma attempt_end:
  "attempt (reached e base gs cid) (configure_acquisition_end_client e cid) (reached e base (TriggerCleared # gs) cid)"
  unfolding configure_acquisition_end_client_def set_rc_acquisition_registers_def
  by (rule command_rule) (auto intro: reached_last)

text \<open>What a reset goes through, the last first.\<close>

definition reset_milestones :: "milestone list" where
  "reset_milestones = [ProducerCleared, ResetReleased, ResetAsserted, ProducerCleared, ProducerStopped]"

lemma base_asserted: "(b OR RC15_RESET_MASK) AND RC15_RESET_MASK \<noteq> 0"
proof -
  have "(b OR RC15_RESET_MASK) AND RC15_RESET_MASK = RC15_RESET_MASK" by (simp add: bit_eq_iff bit_simps) blast
  then show ?thesis by (simp add: RC15_RESET_MASK_def)
qed

lemma attempt_pulse:
  "attempt (reached e base gs cid) (reset_pulse e cid b) (reached e base (ResetAsserted # gs) cid)"
proof -
  note st = stable_reached
  let ?A = "reached e base gs cid" and ?B = "reached e base (ResetAsserted # gs) cid"
  have w: "attempt ?A (write_rc_register e cid a v) ?A" for a v
    by (rule write_rule) (auto intro: stableD[OF st])
  have 1: "attempt ?B (andthen (sleep_tenth e) (\<lambda>_. andthen (read_rc_register e cid 15) (\<lambda>h. give (f h)))) ?B" for f
    by (rule triple_andthen[OF stable_sleep[OF st]], rule triple_andthen[OF stable_read[OF st]], rule triple_give) simp
  have 2: "attempt ?A (andthen (write_rc_register e cid 15 (b OR RC15_RESET_MASK)) (\<lambda>ok. if \<not> ok then give False
      else andthen (sleep_tenth e) (\<lambda>_. andthen (read_rc_register e cid 15) (\<lambda>h. give (f h))))) ?B" for f
    by (rule triple_andthen[OF attempt_write[where g = ResetAsserted]], simp add: base_asserted, rule triple_if, rule attempt_refused)
       (rule triple_pre[OF 1], simp)
  have 3: "attempt ?A (andthen (write_rc_register e cid 15 b) (\<lambda>ok. if \<not> ok then give False
      else andthen (sleep_tenth e) (\<lambda>_. andthen (write_rc_register e cid 15 (b OR RC15_RESET_MASK)) (\<lambda>ok. if \<not> ok then give False
        else andthen (sleep_tenth e) (\<lambda>_. andthen (read_rc_register e cid 15) (\<lambda>h. give (f h))))))) ?B" for f
    by (rule triple_andthen[OF w], rule triple_if, rule attempt_refused,
        rule triple_andthen[OF triple_pre[OF stable_sleep[OF st[of e base gs cid]]]], simp, rule 2)
  show ?thesis
    unfolding reset_pulse_def by (rule triple_catching[OF 3]) (rule triple_give, simp)
qed

lemma attempt_reset:
  "attempt (reached e base gs cid) (reset_hardware e cid n (reset_base_value v))
     (reached e base (ProducerCleared # ResetReleased # ResetAsserted # gs) cid)"
proof -
  let ?b = "reset_base_value v"
  note st = stable_reached
  have 1: "triple (on_trace (\<lambda>t. hw \<longrightarrow> reached e base (ResetAsserted # gs) cid t)) (release_reset e cid ?b)
      (\<lambda>ok. on_trace (\<lambda>t. ok \<and> hw \<longrightarrow> reached e base (ResetReleased # ResetAsserted # gs) cid t)) (on_trace (\<lambda>_. True)) never" for hw
    unfolding release_reset_def
    by (rule triple_catching[where E' = "on_trace (\<lambda>_. True)"], rule write_rule)
       (auto intro: reached_last triple_give simp: base_released)
  have 2: "attempt (reached e base (ResetReleased # ResetAsserted # gs) cid) (finish_flush e cid n ?b)
      (reached e base (ProducerCleared # ResetReleased # ResetAsserted # gs) cid)"
    unfolding finish_flush_def
    by (intro triple_andthen[OF stable_sleep[OF st]] triple_andthen[OF stable_read[OF st]] triple_option triple_if
          attempt_refused attempt_receiver) simp_all
  show ?thesis
    unfolding reset_hardware_def
    by (intro triple_andthen[OF attempt_pulse] triple_andthen[OF 1] triple_if attempt_refused triple_pre[OF 2]) simp
qed

lemma attempt_flush:
  "attempt (reached e base gs cid) (flush_client e cid) (reached e base (reset_milestones @ gs) cid)"
proof -
  note st = stable_reached
  have 1: "attempt (reached e base gs cid) (flush_producer e cid n) (reached e base (reset_milestones @ gs) cid)" for n
    unfolding flush_producer_def reset_milestones_def append.simps
    by (rule triple_andthen[OF attempt_receiver[where g = ProducerStopped]], simp, simp, rule triple_if, rule attempt_refused,
        rule triple_andthen[OF triple_pre[OF stable_read[OF st[of e base "ProducerStopped # gs" cid]]]], simp,
        rule triple_option, rule attempt_refused, rule triple_if, rule attempt_refused,
        rule triple_andthen[OF attempt_receiver[where g = ProducerCleared]], simp, simp, rule triple_if, rule attempt_refused,
        rule triple_pre[OF attempt_reset]) simp
  show ?thesis
    unfolding flush_client_def
    by (intro triple_andthen[OF stable_read[OF st]] triple_option triple_if attempt_refused triple_read_any attempt_number 1)
qed

section \<open>Passes over the clients\<close>

text \<open>The clients of \<open>C\<close> whose result is still \<open>True\<close> have reached the milestones.\<close>

definition passed ::
  "acq_env \<Rightarrow> acq_call list \<Rightarrow> client_id set \<Rightarrow> milestone list \<Rightarrow> (client_id, bool) dict \<Rightarrow> acq_call list \<Rightarrow> bool" where
  "passed e base C gs r t \<longleftrightarrow> (\<forall>c\<in>C. dict_get r c = Some True \<longrightarrow> reached e base gs c t)"

lemma stable_passed: "stable (passed e base C gs r)"
  using stable_reached unfolding passed_def stable_def by blast

lemma stable_conj: "stable P \<Longrightarrow> stable Q \<Longrightarrow> stable (\<lambda>t. P t \<and> Q t)"
  by (simp add: stable_def)

lemma keeps_step:
  assumes "attempt (\<lambda>t. T t \<and> Q t) f (\<lambda>t. R t)" and "\<And>T. stable T \<Longrightarrow> keeps (on_trace T) f" and "stable T"
  shows "triple (on_trace (\<lambda>t. T t \<and> Q t)) (run_client_step f) (\<lambda>ok. on_trace (\<lambda>t. T t \<and> (ok \<longrightarrow> R t))) never never"
proof -
  have "triple (on_trace T) f (\<lambda>_. on_trace T) (on_trace T) never" by (rule keepsD[OF assms(2)[OF assms(3)]])
  from triple_conj[OF this assms(1)] show ?thesis
    unfolding run_client_step_def
    by (intro triple_catching[where E' = "on_trace T"]) (auto elim: triple_conseq intro: triple_give)
qed

lemma stage:
  assumes step: "\<And>c. attempt (reached e base gs c) (step c) (reached e base gs' c)"
    and keep: "\<And>c T. stable T \<Longrightarrow> keeps (on_trace T) (step c)" and C: "C \<subseteq> set cids"
  shows "triple (on_trace (passed e base C gs r)) (finalize_each step cids r)
    (\<lambda>r'. on_trace (passed e base C gs' r')) never never"
proof -
  let ?I = "\<lambda>pre r t. passed e base C gs r t \<and> passed e base (C \<inter> set pre) gs' r t"
  have st: "stable (?I pre r)" for pre r by (intro stable_conj stable_passed)
  have 1: "triple (on_trace (?I pre r)) (andthen (run_client_step (step c)) (\<lambda>ok. give (fail_if c ok r)))
      (\<lambda>r'. on_trace (?I (pre @ [c]) r')) never never" for pre c r
  proof -
    let ?ok = "c \<in> C \<and> dict_get r c = Some True"
    have "attempt (\<lambda>t. ?I pre r t \<and> (?ok \<longrightarrow> reached e base gs c t)) (step c) (\<lambda>t. ?ok \<longrightarrow> reached e base gs' c t)"
    proof (cases ?ok)
      case True
      then show ?thesis by (auto intro: triple_pre[OF step])
    next
      case False
      have "keeps (on_trace (\<lambda>_. True)) (step c)" by (rule keep) (simp add: stable_def)
      from triple_pre[OF keepsD[OF this]] show ?thesis using False by (auto elim!: triple_conseq)
    qed
    from keeps_step[OF this keep st] have
      "triple (on_trace (?I pre r)) (run_client_step (step c))
        (\<lambda>ok. on_trace (\<lambda>t. ?I pre r t \<and> (ok \<longrightarrow> ?ok \<longrightarrow> reached e base gs' c t))) never never"
      by (rule triple_conseq) (auto simp: passed_def)
    then show ?thesis
      by (rule triple_andthen, intro triple_give) (auto simp: passed_def fail_if_def dict_simps split: if_splits)
  qed
  have "triple (on_trace (?I [] r)) (finalize_each step cids r) (\<lambda>r'. on_trace (?I ([] @ cids) r')) never never"
    unfolding finalize_each_def by (rule triple_each_done[where I = "\<lambda>pre r. on_trace (?I pre r)"]) (rule 1)
  then show ?thesis by (rule triple_conseq) (use C in \<open>auto simp: passed_def\<close>)
qed

lemma stable_disable: "stable T \<Longrightarrow> keeps (on_trace T) (disable_rc_channels e cs)"
  by (rule trace_law.disable_kept[OF stable_law])

lemma stable_flush: "stable T \<Longrightarrow> keeps (on_trace T) (flush_client e c)"
proof (rule trace_law.flush_kept[OF stable_law], assumption)
  fix b assume T: "stable T"
  have w: "keeps (on_trace T) (write_rc_register e c a v)" for a v
    unfolding write_rc_register_def by (rule keeps_rc_command) (rule stableD[OF T], assumption)+
  show "keeps (on_trace T) (reset_pulse e c b)"
    unfolding reset_pulse_def
    by (intro keeps_rules w trace_law.sleep_kept[OF stable_law[OF T]] trace_law.read_kept[OF stable_law[OF T]])
qed

lemma stable_end: "stable T \<Longrightarrow> keeps (on_trace T) (configure_acquisition_end_client e c)"
  by (rule trace_law.end_client_kept[OF stable_law])

lemma stable_close: "stable T \<Longrightarrow> keeps (on_trace T) (close_file_for_client e c)"
  by (rule trace_law.close_kept[OF stable_law])

text \<open>The milestones of the finalization after those of the start, the last first.\<close>

definition final_milestones :: "bool \<Rightarrow> milestone list" where
  "final_milestones rst = FileClosed # (if rst then [TriggerCleared] else []) @ reset_milestones @ [DataDisabled]"

lemma initial_results: "dict_get (fold (\<lambda>cid. dict_set cid x) cids d) c = (if c \<in> set cids then Some x else dict_get d c)"
  by (induction cids arbitrary: d) (auto simp: dict_simps)

lemma run_hardware_passes:
  assumes C: "C \<subseteq> set cids"
  shows "triple (on_trace (\<lambda>t. \<forall>c\<in>C. reached e base gs c t)) (run_hardware_stop_and_flush e cids rst)
    (\<lambda>r. on_trace (passed e base C (final_milestones rst @ gs) r)) never never"
proof (cases "cids = []")
  case True
  then show ?thesis unfolding run_hardware_stop_and_flush_def using C by (auto simp: passed_def intro: triple_give)
next
  case False
  let ?P = "\<lambda>gs r. on_trace (passed e base C gs r)"
  let ?r0 = "fold (\<lambda>cid. dict_set cid True) cids []"
  have 1: "triple (?P gs ?r0) (finalize_each (\<lambda>cid. disable_rc_channels e [cid]) cids ?r0) (?P (DataDisabled # gs)) never never"
    by (rule stage[OF attempt_disable stable_disable C])
  have 2: "triple (?P (DataDisabled # gs) r) (finalize_each (flush_client e) cids r)
      (?P (reset_milestones @ DataDisabled # gs)) never never" for r
    by (rule stage[OF attempt_flush stable_flush C])
  have 3: "triple (?P gs r) (if rst then finalize_each (configure_acquisition_end_client e) cids r else give r)
      (?P ((if rst then [TriggerCleared] else []) @ gs)) never never" for r gs
  proof (cases rst)
    case True
    then show ?thesis unfolding if_P[OF True] append.simps by (intro stage attempt_end stable_end C)
  qed (auto intro: triple_give)
  have 4: "triple (?P gs r) (finalize_each (close_file_for_client e) cids r) (?P (FileClosed # gs)) never never" for r gs
    by (rule stage[OF attempt_close stable_close C])
  have "triple (?P gs ?r0) (run_hardware_stop_and_flush e cids rst)
      (?P (FileClosed # (if rst then [TriggerCleared] else []) @ reset_milestones @ DataDisabled # gs)) never never"
    unfolding run_hardware_stop_and_flush_def using False
    by (simp only: if_False) (rule triple_andthen[OF 1], rule triple_andthen[OF 2], rule triple_andthen[OF 3], rule 4)
  then show ?thesis
    by (rule triple_conseq) (auto simp: passed_def initial_results final_milestones_def)
qed

section \<open>Start\<close>

definition start_milestones :: "milestone list" where
  "start_milestones = [DataEnabled, ProducerStarted, FileOpened]"

text \<open>The clients opened without an error went through the whole start.\<close>

definition all_started :: "acq_env \<Rightarrow> acq_call list \<Rightarrow> start_progress \<Rightarrow> acq_call list \<Rightarrow> bool" where
  "all_started e base p t \<longleftrightarrow> (\<exists>u. t = base @ u) \<and>
    (\<forall>c\<in>set (sp_opened p). dict_get (sp_errors p) c = None \<longrightarrow> reached e base start_milestones c t)"

lemma stable_all_started: "stable (all_started e base p)"
  using stable_reached unfolding all_started_def stable_def by fastforce

lemma all_started_begun: "all_started e base p t \<Longrightarrow> achieved e base cid m [] t"
  by (simp add: all_started_def achieved.simps)

lemma all_started_error:
  "all_started e base p t \<Longrightarrow> all_started e base (start_error cid why p) t"
  "all_started e base p t \<Longrightarrow> all_started e base (start_error cid why (p\<lparr>sp_opened := sp_opened p @ [cid]\<rparr>)) t"
  by (auto simp: all_started_def start_error_def dict_simps split: if_splits)

lemma start_opened_achieves:
  assumes "0 < m" "m \<le> 0x1FF"
  shows "triple (on_trace (\<lambda>t. all_started e base p t \<and> achieved e base cid m [FileOpened] t))
    (start_opened e cid m (p\<lparr>sp_opened := sp_opened p @ [cid]\<rparr>)) (\<lambda>q. on_trace (all_started e base q)) (on_trace (\<lambda>_. True)) never"
proof -
  let ?T = "all_started e base p" and ?A = "achieved e base cid m"
  have keep: "?T t \<Longrightarrow> ?T (t @ [c])" "?A gs t \<Longrightarrow> ?A gs (t @ [c])" for t c gs
    using stableD[OF stable_all_started] stableD[OF stable_achieved] by blast+
  have 1: "triple (on_trace (\<lambda>t. ?T t \<and> ?A [FileOpened] t))
      (with_number cid nid (\<lambda>n. call_out e (StartProducer cid n) (receiver_answer e)))
      (\<lambda>ok. on_trace (\<lambda>t. ?T t \<and> (ok \<longrightarrow> ?A [ProducerStarted, FileOpened] t))) (on_trace (\<lambda>_. True)) never" for nid
    by (intro number_rule receiver_rule) (auto intro: keep intro!: achieved_last)
  have 2: "triple (on_trace (\<lambda>t. ?T t \<and> ?A [ProducerStarted, FileOpened] t)) (write_rc_register e cid 19 m)
      (\<lambda>ok. on_trace (\<lambda>t. ?T t \<and> (ok \<longrightarrow> ?A start_milestones t))) (on_trace (\<lambda>_. True)) never"
    unfolding start_milestones_def
    by (rule write_rule) (auto intro: keep intro!: achieved_last)
  have 3: "all_started e base (p\<lparr>sp_opened := sp_opened p @ [cid], sp_acquiring := a\<rparr>) t" if "?T t" "?A start_milestones t" for t a
    using that assms by (auto simp: all_started_def reached_def)
  show ?thesis
    unfolding start_opened_def
    by (rule triple_read_any, rule triple_prod)
       (intro triple_if triple_give triple_andthen[OF 1] triple_read_any triple_andthen[OF triple_pre[OF 2]];
        simp add: all_started_error 3)
qed

lemma start_client_achieves:
  assumes "0 < m" "m \<le> 0x1FF"
  shows "triple (on_trace (all_started e base p)) (start_client e (cid, m) p) (\<lambda>q. on_trace (all_started e base q))
    (on_trace (\<lambda>_. True)) never"
proof -
  let ?T = "all_started e base p"
  have 1: "triple (on_trace ?T) (open_file_for_client e cid m)
      (\<lambda>ok. on_trace (\<lambda>t. ?T t \<and> (ok \<longrightarrow> achieved e base cid m [FileOpened] t))) (on_trace (\<lambda>_. True)) never"
    unfolding open_file_for_client_def
    by (intro triple_read_any number_rule receiver_rule)
       (auto intro: stableD[OF stable_all_started] all_started_begun intro!: achieved_last)
  have 2: "triple (on_trace ?T) (close_file_for_client e cid) (\<lambda>_. on_trace ?T) (on_trace (\<lambda>_. True)) never"
    by (rule stable_keeps[OF stable_close[OF stable_all_started]])
  show ?thesis
    unfolding start_client_def split
    by (intro triple_read_any triple_if triple_give triple_andthen[OF 1] triple_andthen[OF triple_pre[OF 2]]
          triple_pre[OF start_opened_achieves[OF assms]]; simp add: all_started_error)
qed

lemma stable_check: "stable T \<Longrightarrow> keeps (on_trace T) (check_prepared e md c p)"
  unfolding check_prepared_def
  by (intro keeps_rules stable_flush) (auto intro: trace_law.read_kept[OF stable_law])

lemma start_achieves:
  "triple (on_trace (\<lambda>t. \<exists>u. t = base @ u)) (open_and_start_prepared_clients e cids md)
    (\<lambda>p. on_trace (all_started e base p)) (on_trace (\<lambda>_. True)) never"
proof -
  let ?B = "\<lambda>t. \<exists>u. t = base @ u"
  let ?I = "\<lambda>p s. sp_opened p = [] \<and> masks_valid p \<and> on_trace ?B s"
  have B: "stable ?B" by (auto simp: stable_def)
  have 1: "triple (?I p) (each (check_prepared e md) cids p) ?I (on_trace (\<lambda>_. True)) never" for p
  proof (rule triple_each, intro triple_context)
    fix c p assume p: "sp_opened p = []" "masks_valid p"
    have "triple (on_trace ?B) (check_prepared e md c p) (\<lambda>q s. (on_trace ?B s \<and> (masks_valid p \<longrightarrow> masks_valid q)) \<and>
        sp_opened q = sp_opened p \<and> sp_acquiring q = sp_acquiring p \<and>
        set (dict_keys (sp_masks q)) \<subseteq> insert c (set (dict_keys (sp_masks p)))) (on_trace (\<lambda>_. True)) never"
      by (intro triple_returns check_prepared_returns check_prepared_masks stable_keeps stable_check B)
    then show "triple (on_trace ?B) (check_prepared e md c p) ?I (on_trace (\<lambda>_. True)) never"
      by (rule triple_post) (simp add: p)
  qed
  have 2: "triple (?I p) (each (start_client e) (sp_masks p) p) (\<lambda>q. on_trace (all_started e base q)) (on_trace (\<lambda>_. True)) never" for p
  proof (intro triple_context)
    assume p: "sp_opened p = []" "masks_valid p"
    have "triple (on_trace (all_started e base p)) (each (start_client e) (sp_masks p) p)
        (\<lambda>q. on_trace (all_started e base q)) (on_trace (\<lambda>_. True)) never"
      by (rule triple_each) (use p(2) in \<open>auto simp: masks_valid_def intro!: start_client_achieves\<close>)
    then show "triple (on_trace ?B) (each (start_client e) (sp_masks p) p) (\<lambda>q. on_trace (all_started e base q)) (on_trace (\<lambda>_. True)) never"
      by (rule triple_pre) (simp add: all_started_def p)
  qed
  show ?thesis
    unfolding open_and_start_prepared_clients_def
    by (rule triple_andthen[OF triple_pre[OF 1] 2]) (simp add: masks_valid_def)
qed

section \<open>The session\<close>

lemma weaken_stuck: "triple P f Q (on_trace (\<lambda>_. True)) W \<Longrightarrow> triple P f Q anything anything"
  by (erule triple_conseq) simp_all

lemma body_achieves:
  assumes "silent od"
  shows "triple (on_trace (\<lambda>t. \<exists>u. t = base @ u)) (session_body e cids duration od)
    (\<lambda>(p, l). on_trace (all_started e base p)) anything anything"
  unfolding session_body_def
proof (rule triple_andthen[where R = "\<lambda>_. on_trace (\<lambda>t. \<exists>u. t = base @ u)"])
  show "triple (on_trace (\<lambda>t. \<exists>u. t = base @ u)) (call_out e (ReadMetadata cids) (metadata_read e))
      (\<lambda>_. on_trace (\<lambda>t. \<exists>u. t = base @ u)) anything anything"
    by (rule weaken_stuck, rule call_rule) auto
  fix md
  show "triple (on_trace (\<lambda>t. \<exists>u. t = base @ u)) (andthen (open_and_start_prepared_clients e cids md) (\<lambda>p.
      if sp_opened p = [] then give (p, None)
      else andthen (change (note_acquiring (sp_acquiring p))) (\<lambda>_.
        andthen (if sp_acquiring p \<noteq> [] then wait_acquisition e duration od else give ()) (\<lambda>_.
          andthen (reading lost_clients) (\<lambda>lost. give (p, Some lost))))))
      (\<lambda>(p, l). on_trace (all_started e base p)) anything anything"
  proof (rule triple_andthen[OF weaken_stuck[OF start_achieves]])
    fix p
    let ?T = "on_trace (all_started e base p)"
    have 1: "triple ?T (change (note_acquiring cs)) (\<lambda>_. ?T) anything anything" for cs
      by (rule triple_change) (simp add: note_acquiring_def request_stop_def Let_def)
    have 2: "triple ?T (wait_acquisition e duration od) (\<lambda>_. ?T) anything anything"
      by (rule triple_conseq[OF trace_law.wait_kept[OF stable_law[OF stable_all_started] assms]]) simp_all
    show "triple ?T (if sp_opened p = [] then give (p, None)
        else andthen (change (note_acquiring (sp_acquiring p))) (\<lambda>_.
          andthen (if sp_acquiring p \<noteq> [] then wait_acquisition e duration od else give ()) (\<lambda>_.
            andthen (reading lost_clients) (\<lambda>lost. give (p, Some lost)))))
        (\<lambda>(p, l). on_trace (all_started e base p)) anything anything"
      by (intro triple_if triple_give triple_andthen[OF 1] triple_andthen[where R = "\<lambda>_. ?T"] 2 triple_read_any) simp_all
  qed
qed

lemma guarded_achieves:
  assumes "silent od"
  shows "triple (on_trace (\<lambda>t. \<exists>u. t = base @ u)) (guarded_session e cids duration od rst)
    (\<lambda>(p, l). on_trace (all_started e base p)) anything anything"
proof (rule tripleI)
  fix s x s1 assume s: "\<exists>u. trace s = base @ u" and g: "guarded_session e cids duration od rst s = (Returned x, s1)"
  then obtain s2 where b: "session_body e cids duration od s = (Returned x, s2)" and s1: "s1 = clear_session_clients s2"
    by (auto simp: guarded_session_def split: prod.splits outcome.splits)
  from tripleD(1)[OF body_achieves[OF assms] s b] show "(case x of (p, l) \<Rightarrow> on_trace (all_started e base p)) s1"
    by (auto simp: s1 clear_session_clients_def split: prod.splits)
qed simp_all

text \<open>A client that is successful has gone through the whole start and the whole finalization.\<close>

definition successes_complete :: "acq_env \<Rightarrow> acq_call list \<Rightarrow> bool \<Rightarrow> session_result \<Rightarrow> acq_call list \<Rightarrow> bool" where
  "successes_complete e base rst res t \<longleftrightarrow>
    (\<forall>cid r. dict_get res cid = Some r \<longrightarrow> cl_success r \<longrightarrow> reached e base (final_milestones rst @ start_milestones) cid t)"

lemma initial_unsuccessful:
  "dict_get (with_start_errors p (fold (\<lambda>cid. dict_set cid new_client_result) cids [])) c = Some r \<Longrightarrow>
   \<not> cl_success r \<and> cl_error r = dict_get (sp_errors p) c"
  by (auto simp: with_start_errors_def dict_simps initial_results new_client_result_def split: if_splits)

lemma finish_achieves:
  assumes res: "\<And>c r. dict_get res c = Some r \<Longrightarrow> \<not> cl_success r \<and> cl_error r = dict_get (sp_errors p) c"
  shows "triple (on_trace (all_started e base p)) (finish_session e nids rst p lost res)
    (\<lambda>res'. on_trace (successes_complete e base rst res')) anything anything"
proof -
  let ?lost = "filter (\<lambda>c. c \<in> set (dict_keys lost)) (sp_opened p)"
  let ?alive = "filter (\<lambda>c. c \<notin> set (dict_keys lost)) (sp_opened p)"
  let ?C = "{c \<in> set ?alive. dict_get (sp_errors p) c = None}"
  let ?P = "\<lambda>r. passed e base ?C (final_milestones rst @ start_milestones) r"
  have 1: "triple (on_trace (all_started e base p)) (run_hardware_stop_and_flush e ?alive rst) (\<lambda>r. on_trace (?P r)) anything anything"
    by (rule triple_conseq[OF run_hardware_passes[where C = ?C]]) (auto simp: all_started_def)
  have 2: "triple (on_trace (?P r)) (each (\<lambda>cid r. andthen (close_lost_client e cid (nids cid)) (\<lambda>ok. give (dict_set cid ok r))) ?lost r)
      (\<lambda>r. on_trace (?P r)) anything anything" for r
  proof (rule triple_each)
    fix c r assume c: "c \<in> set ?lost"
    have "triple (on_trace (?P r)) (close_lost_client e c (nids c)) (\<lambda>_. on_trace (?P r)) anything anything"
      by (rule weaken_stuck[OF stable_keeps[OF trace_law.close_lost_kept[OF stable_law[OF stable_passed]]]])
    then show "triple (on_trace (?P r)) (andthen (close_lost_client e c (nids c)) (\<lambda>ok. give (dict_set c ok r)))
        (\<lambda>r. on_trace (?P r)) anything anything"
      by (rule triple_andthen) (use c in \<open>force intro!: triple_give simp: passed_def dict_simps split: if_splits\<close>)
  qed
  have 3: "successes_complete e base rst
      (dict_map (\<lambda>cid r. if cid \<in> set (sp_opened p) then final_result lost r2 cid r else r) res) t" if "?P r2 t" for r2 t
    unfolding successes_complete_def
  proof (intro allI impI)
    fix c r assume r: "dict_get (dict_map (\<lambda>cid r. if cid \<in> set (sp_opened p) then final_result lost r2 cid r else r) res) c = Some r"
      and ok: "cl_success r"
    from r obtain r0 where r0: "dict_get res c = Some r0"
      and r_eq: "r = (if c \<in> set (sp_opened p) then final_result lost r2 c r0 else r0)"
      by (auto simp: dict_simps)
    from ok res[OF r0] r_eq have o: "c \<in> set (sp_opened p)" and f: "cl_success (final_result lost r2 c r0)"
      by (auto split: if_splits)
    from f have "dict_get lost c = None" "dict_get r2 c = Some True" "cl_error r0 = None"
      by (auto simp: final_result_def Let_def split: option.splits if_splits)
    with that o res[OF r0] show "reached e base (final_milestones rst @ start_milestones) c t"
      by (auto simp: passed_def map_of_eq_None_iff dest!: sym[of None])
  qed
  show ?thesis
    unfolding finish_session_def Let_def 
    by (rule triple_andthen[OF 1], rule triple_andthen[OF 2], rule triple_give) (rule 3, assumption)
qed

text \<open>
  Claim C29. A client that a session reports as successful went through all of this, in this order, each step accepted by the
  board or confirmed by the receiver: file opened with a valid mask in its header, producer started, data enabled with that mask, data
  disabled, producer stopped and cleared, hardware reset asserted and released, producer
  cleared again, trigger configuration cleared (unless it is to be kept), file closed.
\<close>

theorem success_means_every_step_was_accepted:
  assumes "silent on_duration_elapsed"
    and "run_acquisition_session e cids duration on_duration_elapsed rst s = (Returned res, s')"
    and "dict_get res cid = Some r" and "cl_success r"
  shows "\<exists>m. 0 < m \<and> m \<le> 0x1FF \<and>
    achieved e (trace s) cid m (final_milestones rst @ start_milestones) (trace s')"
proof -
  let ?base = "trace s" and ?res = "fold (\<lambda>cid. dict_set cid new_client_result) cids []"
  let ?Q = "\<lambda>res. on_trace (successes_complete e ?base rst res)"
  have fin: "triple (case pl of (p, l) \<Rightarrow> on_trace (all_started e ?base p))
      (case pl of (p, lost) \<Rightarrow> case lost of None \<Rightarrow> give (with_start_errors p ?res)
       | Some l \<Rightarrow> finish_session e nids rst p l (with_start_errors p ?res)) ?Q anything anything" for pl nids
  proof (cases pl)
    case (Pair p lost)
    show ?thesis
      unfolding Pair prod.case
    proof (rule triple_option)
      show "triple (on_trace (all_started e ?base p)) (give (with_start_errors p ?res)) ?Q anything anything"
        by (rule triple_give) (auto simp: successes_complete_def dest: initial_unsuccessful)
      show "triple (on_trace (all_started e ?base p)) (finish_session e nids rst p l (with_start_errors p ?res)) ?Q anything anything" for l
        by (rule finish_achieves) (rule initial_unsuccessful)
    qed
  qed
  have "triple (\<lambda>s1. trace s1 = ?base) (run_acquisition_session e cids duration on_duration_elapsed rst) ?Q anything anything"
    unfolding run_acquisition_session_def Let_def
  proof (rule triple_if)
    show "triple (\<lambda>s1. trace s1 = ?base) (give ?res) ?Q anything anything"
      by (rule triple_give) (auto simp: successes_complete_def initial_results new_client_result_def split: if_splits)
    show "triple (\<lambda>s1. trace s1 = ?base) (andthen (reading (\<lambda>s cid. resolve_numeric_id e cid s)) (\<lambda>nids.
        andthen (change (\<lambda>s. s\<lparr>session_clients := fromkeys cids\<rparr>)) (\<lambda>_.
          andthen (guarded_session e cids duration on_duration_elapsed rst) (\<lambda>(p, lost).
            case lost of None \<Rightarrow> give (with_start_errors p ?res)
            | Some l \<Rightarrow> finish_session e nids rst p l (with_start_errors p ?res))))) ?Q anything anything"
      by (rule triple_read_any, rule triple_andthen[OF triple_change[where Q = "\<lambda>_. on_trace (\<lambda>t. \<exists>u. t = ?base @ u)"]], simp)
         (rule triple_andthen[OF guarded_achieves[OF assms(1)] fin])
  qed
  from tripleD(1)[OF this refl assms(2)] assms(3,4) show ?thesis
    by (auto simp: successes_complete_def reached_def)
qed

theorem success_means_every_step_was_accepted_witness:
  "let run = run_acquisition_session (example_env [PlaneLost ''b'' ''control'']) [''a'', ''b''] (Some 5) do_nothing True example_acq
   in (case fst run of Returned res \<Rightarrow> map_option cl_success (dict_get res ''a'') = Some True \<and>
         map_option cl_success (dict_get res ''b'') = Some False | _ \<Rightarrow> False) \<and>
      (\<exists>m. 0 < m \<and> m \<le> 0x1FF \<and> achieved (example_env [PlaneLost ''b'' ''control'']) [] ''a'' m
         (final_milestones True @ start_milestones) (trace (snd run)))"
proof -
  let ?run = "run_acquisition_session (example_env [PlaneLost ''b'' ''control'']) [''a'', ''b''] (Some 5) do_nothing True example_acq"
  let ?ok = "case fst ?run of Returned res \<Rightarrow> map_option cl_success (dict_get res ''a'') = Some True \<and>
         map_option cl_success (dict_get res ''b'') = Some False | _ \<Rightarrow> False"
  have ok: ?ok by code_simp
  then obtain res r where "?run = (Returned res, snd ?run)" "dict_get res ''a'' = Some r" "cl_success r"
    by (cases ?run) (auto split: outcome.splits)
  from success_means_every_step_was_accepted[OF do_nothing_silent this] ok show ?thesis
    unfolding Let_def example_trace by blast
qed

end
