(* ===== verification/AcqEnd.thy ===== *)
theory AcqEnd
  imports AcqTrace ServerProps
begin

text \<open>
  When a session waits and how it ends: it waits for ever only if it has no duration, nobody asks it to stop and
  an acquiring client is alive; \<open>close_session\<close> always leaves the server out of the states of an acquisition.
\<close>

section \<open>Waiting\<close>

text \<open>Once every acquiring client is lost, a stop is requested.\<close>

definition loss_stops :: "acq \<Rightarrow> bool" where
  "loss_stops s \<longleftrightarrow> (all_acquiring_lost s \<longrightarrow> stop_requested s)"

lemma loss_stops_sv [simp]: "loss_stops (update_sv f s) = loss_stops s"
  by (simp add: loss_stops_def all_acquiring_lost_def update_sv_def)

lemma loss_stops_request: "loss_stops (request_stop s)"
  by (simp add: loss_stops_def request_stop_def)

lemma loss_stops_server_event [simp]: "loss_stops (snd (server_event ev r src md now s)) = loss_stops s"
  by (simp add: loss_stops_def all_acquiring_lost_def)

lemma loss_stops_lost: "loss_stops s \<Longrightarrow> loss_stops (on_client_lost cid plane s)"
  by (auto simp: on_client_lost_def Let_def loss_stops_request) (simp add: loss_stops_def)

lemma loss_stops_other: "loss_stops s \<Longrightarrow> loss_stops (other_step now k s)"
  by (cases k) (auto simp: plane_lost_def stop_command_def Let_def loss_stops_request loss_stops_lost)

lemma loss_stops_others: "loss_stops s \<Longrightarrow> loss_stops (others_act e s)"
proof -
  have "loss_stops s \<Longrightarrow> loss_stops (fold (other_step now) ks s)" for now ks s
    by (induction ks arbitrary: s) (simp_all add: loss_stops_other)
  then show "loss_stops s \<Longrightarrow> loss_stops (others_act e s)" by (simp add: others_act_def)
qed

lemma note_acquiring_stops: "loss_stops (note_acquiring cids s) \<and> acquiring_clients (note_acquiring cids s) = cids"
  by (simp add: note_acquiring_def Let_def loss_stops_request) (simp add: loss_stops_def request_stop_def)

text \<open>Somebody is still acquiring and nobody has asked for a stop.\<close>

definition waits_rightly :: "int option \<Rightarrow> acq \<Rightarrow> bool" where
  "waits_rightly duration s \<longleftrightarrow> \<not> (\<exists>d. duration = Some d \<and> d > 0) \<and> \<not> stop_requested s \<and>
    (\<exists>c\<in>set (acquiring_clients s). c \<notin> set (dict_keys (lost_clients s)))"

lemma never_stuck: "keeps (on_trace (\<lambda>_. True)) f \<Longrightarrow> triple anything f (\<lambda>_. anything) anything never"
  using keepsD by fastforce

interpretation any_trace: trace_law "\<lambda>_. True"
  by unfold_locales

lemma flush_any: "keeps (on_trace (\<lambda>_. True)) (flush_client e cid)"
proof (rule any_trace.flush_kept)
  have w: "keeps (on_trace (\<lambda>_. True)) (write_rc_register e cid a v)" for a v
    unfolding write_rc_register_def by (rule keeps_rc_command) simp_all
  show "keeps (on_trace (\<lambda>_. True)) (reset_pulse e cid b)" for b
    unfolding reset_pulse_def by (intro keeps_rules w any_trace.sleep_kept any_trace.read_kept)
qed

lemma start_client_any: "keeps (on_trace (\<lambda>_. True)) (start_client e (cid, v) p)"
proof -
  have w: "keeps (on_trace (\<lambda>_. True)) (write_rc_register e cid a v)" for a v
    unfolding write_rc_register_def by (rule keeps_rc_command) simp_all
  show ?thesis
    unfolding start_client_def split start_opened_def open_file_for_client_def
    by (intro keeps_rules any_trace.number_kept any_trace.call_kept any_trace.close_kept w) simp_all
qed

lemma wait_stop_rightly:
  assumes "tm = None \<Longrightarrow> \<not> (\<exists>d. duration = Some d \<and> d > 0)"
  shows "triple (\<lambda>s. loss_stops s \<and> acquiring_clients s \<noteq> []) (wait_stop e tm) (\<lambda>_. anything) anything (waits_rightly duration)"
proof -
  have 1: "triple (\<lambda>s. loss_stops s \<and> acquiring_clients s \<noteq> []) (call_out e (WaitStop tm) (\<lambda>_. Inr ()))
      (\<lambda>_ s. loss_stops s \<and> acquiring_clients s \<noteq> []) anything (waits_rightly duration)"
  proof -
    have "loss_stops s \<Longrightarrow> loss_stops (others_act e (record_call c s))" for s c
      by (rule loss_stops_others) (simp add: loss_stops_def all_acquiring_lost_def)
    then show ?thesis by (auto simp: triple_def call_out_def Let_def)
  qed
  show ?thesis
    unfolding wait_stop_def
    by (rule triple_andthen[OF 1])
       (use assms in \<open>auto simp: triple_def waits_rightly_def loss_stops_def all_acquiring_lost_def list_all_iff\<close>)
qed

lemma wait_rightly:
  assumes "silent od"
  shows "triple (\<lambda>s. loss_stops s \<and> acquiring_clients s \<noteq> []) (wait_acquisition e duration od) (\<lambda>_. anything) anything
    (waits_rightly duration)"
proof -
  have 1: "triple anything (catching od (\<lambda>_. give ())) (\<lambda>_. anything) anything (waits_rightly duration)"
    by (rule triple_conseq[OF never_stuck[OF keeps_catching[OF silent_keeps[OF assms] keeps_basic(1)]]]) simp_all
  show ?thesis
    unfolding wait_acquisition_def
    by (intro triple_option triple_if triple_andthen[OF wait_stop_rightly[where duration = duration]] 1 triple_give) auto
qed

lemma body_waits_rightly:
  assumes "silent od"
  shows "triple anything (session_body e cids duration od) (\<lambda>_. anything) anything (waits_rightly duration)"
  unfolding session_body_def
proof (rule triple_andthen[where R = "\<lambda>_. anything"])
  have any: "keeps (on_trace (\<lambda>_. True)) f \<Longrightarrow> triple anything f (\<lambda>_. anything) anything (waits_rightly duration)"
    for f :: "'a acq_act"
    by (drule never_stuck) (auto elim: triple_conseq)
  show "triple anything (call_out e (ReadMetadata cids) (metadata_read e)) (\<lambda>_. anything) anything (waits_rightly duration)"
    by (rule triple_conseq[OF never_stuck[OF any_trace.call_kept]]) simp_all
  have start: "triple anything (open_and_start_prepared_clients e cids md) (\<lambda>_. anything) anything (waits_rightly duration)" for md
    by (rule triple_conseq[OF never_stuck[OF any_trace.start_kept[OF flush_any start_client_any]]]) simp_all
  show "triple anything (andthen (open_and_start_prepared_clients e cids md) (\<lambda>p.
      if sp_opened p = [] then give (p, None)
      else andthen (change (note_acquiring (sp_acquiring p))) (\<lambda>_.
        andthen (if sp_acquiring p \<noteq> [] then wait_acquisition e duration od else give ()) (\<lambda>_.
          andthen (reading lost_clients) (\<lambda>lost. give (p, Some lost))))))
      (\<lambda>_. anything) anything (waits_rightly duration)" for md
  proof (rule triple_andthen[OF start])
    fix p
    let ?P = "\<lambda>s. loss_stops s \<and> acquiring_clients s = sp_acquiring p"
    have 1: "triple anything (change (note_acquiring (sp_acquiring p))) (\<lambda>_. ?P) anything (waits_rightly duration)"
      by (rule triple_change) (simp add: note_acquiring_stops)
    have 2: "triple ?P (if sp_acquiring p \<noteq> [] then wait_acquisition e duration od else give ()) (\<lambda>_. anything) anything
        (waits_rightly duration)"
      by (rule triple_if, rule triple_pre[OF wait_rightly[OF assms]], simp, rule triple_give, simp)
    show "triple anything (if sp_opened p = [] then give (p, None)
        else andthen (change (note_acquiring (sp_acquiring p))) (\<lambda>_.
          andthen (if sp_acquiring p \<noteq> [] then wait_acquisition e duration od else give ()) (\<lambda>_.
            andthen (reading lost_clients) (\<lambda>lost. give (p, Some lost)))))
        (\<lambda>_. anything) anything (waits_rightly duration)"
      by (rule triple_if, rule triple_give, simp, rule triple_andthen[OF 1], rule triple_andthen[OF 2])
         (rule triple_read_any, rule triple_give, simp)
  qed
qed

lemma finish_any: "triple anything (finish_session e nids rst p lost res) (\<lambda>_. anything) anything never"
  unfolding finish_session_def Let_def
  by (intro never_stuck keeps_rules any_trace.run_hardware_kept flush_any any_trace.close_lost_kept)

lemma guarded_waits_rightly:
  assumes "silent od"
  shows "triple anything (guarded_session e cids duration od rst) (\<lambda>_. anything) anything (waits_rightly duration)"
proof (rule tripleI)
  fix s s1 assume "guarded_session e cids duration od rst s = (Stuck, s1)"
  moreover have "fst (run_hardware_stop_and_flush e cids rst s2) \<noteq> Stuck" for s2
    using keeps_snd[OF any_trace.run_hardware_kept[OF flush_any], where s = s2] by simp
  ultimately have "session_body e cids duration od s = (Stuck, s1)"
    by (auto simp: guarded_session_def split: prod.splits outcome.splits) (metis fst_conv)+
  then show "waits_rightly duration s1" by (rule tripleD(3)[OF body_waits_rightly[OF assms] TrueI])
qed simp_all

text \<open>
  Claim C30. The thread of a session is stuck for ever only if the session has no duration, nobody has requested a stop, and one of
  the clients that are acquiring has not been lost: the loss of the last acquiring client always ends the wait, in
  whatever order the losses, the start of the clients and the wait happen.
\<close>

theorem session_waits_only_for_a_stop:
  assumes "silent on_duration_elapsed"
    and "run_acquisition_session e cids duration on_duration_elapsed rst s = (Stuck, s')"
  shows "\<not> (\<exists>d. duration = Some d \<and> d > 0) \<and> \<not> stop_requested s' \<and>
    (\<exists>c\<in>set (acquiring_clients s'). c \<notin> set (dict_keys (lost_clients s')))"
proof -
  have fin: "triple anything (case pl of (p, lost) \<Rightarrow> case lost of None \<Rightarrow> give (with_start_errors p res)
      | Some l \<Rightarrow> finish_session e nids rst p l (with_start_errors p res)) (\<lambda>_. anything) anything (waits_rightly duration)"
    for pl nids res
    by (intro triple_prod triple_option triple_give triple_conseq[OF finish_any]) simp_all
  have "triple anything (run_acquisition_session e cids duration on_duration_elapsed rst) (\<lambda>_. anything) anything
      (waits_rightly duration)"
    unfolding run_acquisition_session_def Let_def
    by (intro triple_if triple_give triple_read_any triple_andthen[OF triple_change[where Q = "\<lambda>_. anything"]]
          triple_andthen[OF guarded_waits_rightly[OF assms(1)] fin]) simp_all
  from tripleD(3)[OF this TrueI assms(2)] show ?thesis by (simp add: waits_rightly_def)
qed

theorem session_waits_only_for_a_stop_witness:
  "let run = run_acquisition_session (example_env []) [''a''] None do_nothing True example_acq
   in fst run = Stuck \<and> \<not> stop_requested (snd run) \<and>
      (\<exists>c\<in>set (acquiring_clients (snd run)). c \<notin> set (dict_keys (lost_clients (snd run))))"
proof -
  let ?run = "run_acquisition_session (example_env []) [''a''] None do_nothing True example_acq"
  have "fst ?run = Stuck" by code_simp
  then have run: "?run = (Stuck, snd ?run)" by (metis prod.collapse)
  from session_waits_only_for_a_stop[OF do_nothing_silent run] \<open>fst ?run = Stuck\<close> show ?thesis
    unfolding Let_def by blast
qed

section \<open>Closing\<close>

lemma stop_accepted:
  assumes "run_state s = S_ACQUIRING" "strip r \<noteq> []" "strip src \<noteq> []"
  shows "fst (process_event STOP_REQUESTED r src c err md None now s)"
    and "fsm_of (snd (process_event STOP_REQUESTED r src c err md None now s)) =
      (S_FINALIZING, Some S_READY, pending_configuration_source s)"
proof -
  have t: "dict_get TRANSITION_TABLE (S_ACQUIRING, STOP_REQUESTED) = Some S_FINALIZING" by code_simp
  show 1: "fst (process_event STOP_REQUESTED r src c err md None now s)"
    using assms t by (simp add: process_event_def dispatch_event_def Let_def apply_event_def target_state_def prepare_event_def
        enter_finalizing_def)
  then obtain s' where s': "process_event STOP_REQUESTED r src c err md None now s = (True, s')"
    by (cases "process_event STOP_REQUESTED r src c err md None now s") auto
  from process_event_fsm_step[OF this] show "fsm_of (snd (process_event STOP_REQUESTED r src c err md None now s)) =
      (S_FINALIZING, Some S_READY, pending_configuration_source s)"
    unfolding s' using assms(1) t by (auto simp: fsm_of_def terminal_of_def elim!: fsm_step.cases)
qed

lemma finalization_accepted:
  assumes "run_state s = S_FINALIZING" "strip r \<noteq> []" "strip src \<noteq> []"
    and e: "e \<in> {FINALIZATION_SUCCEEDED, FINALIZATION_FAILED}" and "pending_ok s"
  shows "fsm_of (snd (process_event e r src c err md None now s)) =
      (case pending_terminal_state s of None \<Rightarrow> S_READY | Some t \<Rightarrow> t, None, pending_configuration_source s)"
proof -
  have t: "dict_get TRANSITION_TABLE (S_FINALIZING, e) = Some S_READY" using e by (auto simp: TRANSITION_TABLE_def)
  have "(case pending_terminal_state s of None \<Rightarrow> S_READY | Some t \<Rightarrow> t) \<noteq> S_FINALIZING"
    using assms(5) by (auto simp: pending_ok_def ALLOWED_PENDING_TERMINAL_STATES_def split: option.splits)
  then have "fst (process_event e r src c err md None now s)"
    using assms t by (auto simp: process_event_def dispatch_event_def Let_def apply_event_def target_state_def prepare_event_def)
  then obtain s' where s': "process_event e r src c err md None now s = (True, s')"
    by (cases "process_event e r src c err md None now s") auto
  from process_event_fsm_step[OF this] show ?thesis
    unfolding s' using assms(1) e by (auto simp: fsm_of_def elim!: fsm_step.cases)
qed

lemma strip_suffix: "x \<in> set ys \<Longrightarrow> \<not> py_space x \<Longrightarrow> strip (xs @ ys) \<noteq> []"
proof -
  assume x: "x \<in> set ys" "\<not> py_space x"
  then have "x \<in> set (dropWhile py_space (xs @ ys))" by (induction xs) (auto simp: dropWhile_append, metis set_dropWhileD x(2) UnI2 set_takeWhileD takeWhile_dropWhile_id set_append UnE)
  with x show ?thesis by (auto simp: strip_def strip_by_def dropWhile_eq_Nil_conv)
qed

lemma close_source: "strip ''acquisition_service.close_session'' \<noteq> []"
  by code_simp

text \<open>
  Claim C31. \<open>close_session\<close>, with a reason that is not blank, always takes the server out of an acquisition: from \<open>ACQUIRING\<close> to \<open>READY\<close>,
  and from \<open>FINALIZING\<close> to the pending terminal state, or to \<open>READY\<close> without one; it
  leaves any other state alone, and whoever waits for the end of the session is woken with its outcome.
\<close>

theorem close_session_ends_the_acquisition:
  assumes inv: "pending_ok (sv s)" and reason: "strip reason \<noteq> []"
  shows "let s' = close_session e success reason s in
    run_state (sv s') =
      (if run_state (sv s) = S_ACQUIRING then S_READY
       else if run_state (sv s) = S_FINALIZING then
         (case pending_terminal_state (sv s) of None \<Rightarrow> S_READY | Some t \<Rightarrow> t)
       else run_state (sv s)) \<and>
    run_state (sv s') \<notin> {S_ACQUIRING, S_FINALIZING} \<and> pending_ok (sv s') \<and>
    \<not> session_active s' \<and> session_complete s' \<and> last_finalize_success s' = success"
proof -
  let ?now = "clock e (trace s)"
  let ?stop = "server_event STOP_REQUESTED (reason @ '' (stop requested)'') ''acquisition_service.close_session'' no_metadata ?now s"
  define s1 where "s1 = (if run_state (sv s) = S_ACQUIRING then snd ?stop else s)"
  have stop: "strip (reason @ '' (stop requested)'') \<noteq> []"
    by (rule strip_suffix[of "CHR ''s''"]) (simp_all add: py_space_def)
  have fail: "strip (reason @ '' (finalization error)'') \<noteq> []"
    by (rule strip_suffix[of "CHR ''f''"]) (simp_all add: py_space_def)
  have ok1: "pending_ok (sv s1)"
    using pending_process_event[OF inv] by (auto simp: s1_def inv server_event_def split: prod.splits) (metis snd_conv)
  have f1: "run_state (sv s1) = (if run_state (sv s) = S_ACQUIRING then S_FINALIZING else run_state (sv s))"
      "run_state (sv s) = S_ACQUIRING \<Longrightarrow> pending_terminal_state (sv s1) = Some S_READY"
      "run_state (sv s) \<noteq> S_ACQUIRING \<Longrightarrow> pending_terminal_state (sv s1) = pending_terminal_state (sv s)"
    using stop_accepted(2)[OF _ stop close_source, of "sv s" None None no_metadata ?now]
    by (auto simp: s1_def server_event_def fsm_of_def split: prod.splits)
  define s2 where "s2 = (if run_state (sv s1) = S_FINALIZING
      then (if success then snd (server_event FINALIZATION_SUCCEEDED reason ''acquisition_service.close_session'' no_metadata ?now s1)
            else snd (server_event FINALIZATION_FAILED (reason @ '' (finalization error)'')
                   ''acquisition_service.close_session'' no_metadata ?now s1)) else s1)"
  have ok2: "pending_ok (sv s2)"
    using pending_process_event[OF ok1] by (auto simp: s2_def ok1 server_event_def split: prod.splits) (metis snd_conv)+
  have f2: "run_state (sv s2) = (if run_state (sv s1) = S_FINALIZING
      then (case pending_terminal_state (sv s1) of None \<Rightarrow> S_READY | Some t \<Rightarrow> t) else run_state (sv s1))"
    using finalization_accepted[OF _ reason close_source _ ok1, of FINALIZATION_SUCCEEDED None None no_metadata ?now]
      finalization_accepted[OF _ fail close_source _ ok1, of FINALIZATION_FAILED None None no_metadata ?now]
    by (auto simp: s2_def server_event_def fsm_of_def split: prod.splits)
  have out: "(case pending_terminal_state (sv s1) of None \<Rightarrow> S_READY | Some t \<Rightarrow> t) \<notin> {S_ACQUIRING, S_FINALIZING}"
    using ok1 by (auto simp: pending_ok_def ALLOWED_PENDING_TERMINAL_STATES_def split: option.splits)
  have "close_session e success reason s =
      s2\<lparr>session_active := False, last_finalize_success := success, session_complete := True\<rparr>"
    by (simp add: close_session_def Let_def s1_def s2_def)
  then show ?thesis using f1 f2 out ok2 by (auto simp: Let_def split: if_splits)
qed

theorem close_session_ends_the_acquisition_witness:
  "run_state (sv example_acq) = S_ACQUIRING \<and>
   (let s' = close_session (example_env []) False ''run over'' example_acq in
    run_state (sv s') = S_READY \<and> \<not> session_active s' \<and> session_complete s' \<and> \<not> last_finalize_success s')"
proof -
  have h: "pending_ok (sv example_acq)" "strip ''run over'' \<noteq> []" "run_state (sv example_acq) = S_ACQUIRING" by code_simp+
  from close_session_ends_the_acquisition[OF h(1,2), of "example_env []" False] h(3) show ?thesis
    by (simp add: Let_def)
qed

end
