(* ===== verification/AcqOverride.thy ===== *)
theory AcqOverride
  imports AcqSession Channels
begin

text \<open>
  The voltages and thresholds a user asks for one run (\<open>resolve_hv_overrides\<close> and what it uses, \<open>apply_hv_override\<close>,
  \<open>restore_hv_override\<close> in \<open>server/services/acquisition_service.py\<close>, \<open>_restore_hv_overrides\<close> in
  \<open>server/services/acquisition_orchestrator.py\<close>) and the commands of the high voltage
  (\<open>send_hv_command\<close>, \<open>get_pmt_serial_map_clients\<close> in \<open>server/services/client_command_service.py\<close>).
\<close>

section \<open>Commands of the high voltage\<close>

text \<open>The channels of a command, checked before it is sent; \<open>None\<close>: all of them.\<close>

fun command_channels :: "client_cmd \<Rightarrow> int list option" where
  "command_channels (HvOnAndWait chs) = Some chs"
| "command_channels (HvConfigure acq w) = Some (dict_keys acq)"
| "command_channels _ = None"

definition channels_refused :: "client_cmd \<Rightarrow> bool" where
  "channels_refused c =
    (case command_channels c of
       None \<Rightarrow> False
     | Some chs \<Rightarrow>
         (case normalize_user_channels (PList (map PInt chs)) N_CHANNELS of Inl e \<Rightarrow> True | Inr sel \<Rightarrow> False))"

definition send_hv_command :: "acq_env \<Rightarrow> client_id \<Rightarrow> client_cmd \<Rightarrow> hv_reply option acq_act" where
  "send_hv_command e cid c =
    (if channels_refused c then andthen (change (record_call (Unavailable cid c))) (\<lambda>_. give None)
     else ask_client e cid c (hv_answer e))"

fun int_keys :: "(string, 'v) dict \<Rightarrow> (int, 'v) dict option" where
  "int_keys [] = Some []"
| "int_keys ((k, v) # d) =
    (case py_int k of None \<Rightarrow> None | Some n \<Rightarrow> map_option (\<lambda>r. (n, v) # r) (int_keys d))"

text \<open>\<open>get_pmt_serial_map_clients\<close> for all the channels: the keys are sorted as numbers.\<close>

definition get_pmt_serial_map :: "acq_env \<Rightarrow> client_id \<Rightarrow> (int, string) dict acq_act" where
  "get_pmt_serial_map e cid =
    andthen (send_hv_command e cid HvSerials) (\<lambda>reply.
      case reply of
        None \<Rightarrow> give []
      | Some r \<Rightarrow>
          if hp_error r then give []
          else if hp_serials r = [] then give []
          else (case int_keys (hp_serials r) of
                  None \<Rightarrow> throw ValueError
                | Some d \<Rightarrow> give (fold (\<lambda>(ch, sn). dict_set (ch - 1) sn) (sort_key fst d) [])))"

section \<open>Calibration\<close>

text \<open>The two ids of the configuration of a client, if both are there and not empty.\<close>

definition detector_of :: "client_id \<Rightarrow> acq \<Rightarrow> string + string \<times> string" where
  "detector_of cid s =
    (case dict_get (clients (sv s)) cid of
       None \<Rightarrow> Inl ''no configuration identity''
     | Some r \<Rightarrow>
         (case configuration_identity r of
            None \<Rightarrow> Inl ''no configuration identity''
          | Some i \<Rightarrow>
              let multipmt_id = (case dict_get i ''multipmt_id'' of None \<Rightarrow> [] | Some x \<Rightarrow> x);
                  batch_id = (case dict_get i ''batch_id'' of None \<Rightarrow> [] | Some x \<Rightarrow> x)
              in if multipmt_id = [] \<or> batch_id = [] then Inl ''incomplete configuration identity''
                 else Inr (multipmt_id, batch_id)))"

definition analysis_channel_by_serial :: "(int, string) dict \<Rightarrow> (string, int) dict" where
  "analysis_channel_by_serial serials =
    fold (\<lambda>(ch, sn) d. if sn \<noteq> [] \<and> sn \<noteq> ''0'' then dict_set sn ch d else d) serials []"

text \<open>The calibration of one channel: slope and intercept of the fit, photoelectron in ADC counts.\<close>

type_synonym channel_calibration = "rat \<times> rat \<times> rat"

definition calibration_of_serial ::
  "(int, rat \<times> rat) dict \<Rightarrow> (int, rat) dict \<Rightarrow> (string, int) dict \<Rightarrow> string \<Rightarrow> channel_calibration option" where
  "calibration_of_serial fit pe by_serial sn =
    (case dict_get by_serial sn of
       None \<Rightarrow> None
     | Some analysis_ch \<Rightarrow>
         (case (dict_get fit analysis_ch, dict_get pe analysis_ch) of
            (Some (m, q), Some pe_adc) \<Rightarrow> Some (m, q, pe_adc)
          | _ \<Rightarrow> None))"

definition load_calibration_by_channel ::
  "acq_env \<Rightarrow> client_id \<Rightarrow> (int, string) dict \<Rightarrow> ((int, channel_calibration) dict \<times> string option) acq_act" where
  "load_calibration_by_channel e cid serial_by_channel s =
    (case detector_of cid s of
       Inl why \<Rightarrow> (Returned ([], Some why), s)
     | Inr (multipmt_id, batch_id) \<Rightarrow>
         (case calibration e (trace s) multipmt_id batch_id of
            Inl x \<Rightarrow> (Raised x, s)
          | Inr c \<Rightarrow>
              (case (cal_fit c, cal_pe c, cal_serials c) of
                 (Some fit, Some pe, Some serials) \<Rightarrow>
                   (Returned (fold (\<lambda>(ch, sn) d.
                      case calibration_of_serial fit pe (analysis_channel_by_serial serials) sn of
                        None \<Rightarrow> d
                      | Some k \<Rightarrow> dict_set ch k d) serial_by_channel [], None), s)
               | _ \<Rightarrow> (Returned ([], Some ''calibration data not available''), s))))"

text \<open>The conversion of one threshold from photoelectrons, or the reason why there is none.\<close>

definition pe_to_mv :: "channel_calibration option \<Rightarrow> rat \<Rightarrow> string + rat" where
  "pe_to_mv k pe_value =
    (case k of
       None \<Rightarrow> Inl ''no PE calibration matching the PMT serial of the channel''
     | Some (m, q, pe_adc) \<Rightarrow>
         if m = 0 then Inl ''invalid threshold fit (m=0)''
         else Inr ((pe_value * pe_adc - q) / m))"

definition convert_pe_map_to_mv ::
  "acq_env \<Rightarrow> client_id \<Rightarrow> (int, rat) dict \<Rightarrow> (int, string) dict \<Rightarrow> ((int, rat) dict \<times> (int, string) dict) acq_act" where
  "convert_pe_map_to_mv e cid pe_by_channel serial_by_channel =
    andthen (load_calibration_by_channel e cid serial_by_channel) (\<lambda>(calibration_by_channel, error). give
      (case error of
         Some why \<Rightarrow> ([], map (\<lambda>(ch, _). (ch, why)) pe_by_channel)
       | None \<Rightarrow>
           fold (\<lambda>(ch, v) (mv, excl).
             case pe_to_mv (dict_get calibration_by_channel ch) v of
               Inl why \<Rightarrow> (mv, dict_set ch why excl)
             | Inr x \<Rightarrow> (dict_set ch x mv, excl)) pe_by_channel ([], [])))"

definition get_calibration_excluded_channels :: "client_id \<Rightarrow> server_state \<Rightarrow> int list" where
  "get_calibration_excluded_channels cid s =
    (case dict_get (clients s) cid of None \<Rightarrow> [] | Some r \<Rightarrow> calibration_excluded_channels r)"

definition mv_to_pe :: "channel_calibration \<Rightarrow> rat \<Rightarrow> rat option" where
  "mv_to_pe k mv = (case k of (m, q, pe_adc) \<Rightarrow> if pe_adc = 0 then None else Some ((m * mv + q) / pe_adc))"

definition convert_mv_map_to_pe ::
  "acq_env \<Rightarrow> client_id \<Rightarrow> (int, rat option) dict \<Rightarrow> (int, string) dict \<Rightarrow> (int, rat) dict acq_act" where
  "convert_mv_map_to_pe e cid mv_by_channel serial_by_channel =
    andthen (load_calibration_by_channel e cid serial_by_channel) (\<lambda>(calibration_by_channel, error).
      case error of
        Some why \<Rightarrow> give []
      | None \<Rightarrow>
          andthen (reading (\<lambda>s. get_calibration_excluded_channels cid (sv s))) (\<lambda>excluded. give
            (fold (\<lambda>(ch, mv) d.
               case (mv, dict_get calibration_by_channel ch) of
                 (Some v, Some k) \<Rightarrow>
                   if ch \<in> set excluded then d
                   else (case mv_to_pe k v of None \<Rightarrow> d | Some x \<Rightarrow> dict_set ch x d)
               | _ \<Rightarrow> d) mv_by_channel [])))"

section \<open>The request\<close>

record override_args =
  ov_voltage :: "int option"
  ov_voltage_map :: "string option"
  ov_threshold_mv :: "rat option"
  ov_threshold_pe :: "rat option"
  ov_threshold_mv_map :: "string option"
  ov_threshold_pe_map :: "string option"

text \<open>The items of a map \<open>channel:value,...\<close>; \<open>value_type\<close> reads a value, \<open>None\<close> where it raises \<open>ValueError\<close>.\<close>

fun channel_value_items :: "(string \<Rightarrow> 'v option) \<Rightarrow> string list \<Rightarrow> (int, 'v) dict \<Rightarrow> (int, 'v) dict option" where
  "channel_value_items value_type [] d = Some d"
| "channel_value_items value_type (x # xs) d =
    (let item = strip x in
     if item = [] then channel_value_items value_type xs d
     else if CHR '':'' \<notin> set item then None
     else
       (case (py_int (strip (takeWhile (\<lambda>c. c \<noteq> CHR '':'') item)),
              value_type (strip (tl (dropWhile (\<lambda>c. c \<noteq> CHR '':'') item)))) of
          (Some channel, Some v) \<Rightarrow> channel_value_items value_type xs (dict_set channel v d)
        | _ \<Rightarrow> None))"

definition parse_channel_value_map :: "(string \<Rightarrow> 'v option) \<Rightarrow> string \<Rightarrow> (int, 'v) dict option" where
  "parse_channel_value_map value_type value = channel_value_items value_type (split_on CHR '','' value) []"

definition all_channels_with :: "'v \<Rightarrow> (int, 'v) dict" where
  "all_channels_with v = map (\<lambda>ch. (ch, v)) [0..N_CHANNELS - 1]"

text \<open>The thresholds asked for, in mV, and the channels without one, with the reason.\<close>

definition requested_thresholds ::
  "acq_env \<Rightarrow> client_id \<Rightarrow> override_args \<Rightarrow> (string + (int, rat) dict \<times> (int, string) dict) acq_act" where
  "requested_thresholds e cid a =
    (case ov_threshold_mv_map a of
       Some raw \<Rightarrow> give
         (case parse_channel_value_map (float_text e) raw of
            None \<Rightarrow> Inl (''Invalid --threshold-mv-map format for client '' @ cid)
          | Some parsed \<Rightarrow> Inr (parsed, []))
     | None \<Rightarrow>
         if ov_threshold_pe_map a = None \<and> ov_threshold_pe a = None then give
           (case ov_threshold_mv a of None \<Rightarrow> Inr ([], []) | Some v \<Rightarrow> Inr (all_channels_with v, []))
         else
           andthen (get_pmt_serial_map e cid) (\<lambda>serials.
             case ov_threshold_pe_map a of
               Some raw \<Rightarrow>
                 (case parse_channel_value_map (float_text e) raw of
                    None \<Rightarrow> give (Inl (''Invalid --threshold-pe-map format for client '' @ cid))
                  | Some parsed \<Rightarrow> andthen (convert_pe_map_to_mv e cid parsed serials) (\<lambda>r. give (Inr r)))
             | None \<Rightarrow>
                 andthen (convert_pe_map_to_mv e cid (all_channels_with (the (ov_threshold_pe a))) serials)
                   (\<lambda>r. give (Inr r))))"

text \<open>The voltages asked for: on the channels whose threshold is set too, if there are any.\<close>

definition requested_voltages ::
  "client_id \<Rightarrow> override_args \<Rightarrow> (int, rat) dict \<Rightarrow> (int, string) dict \<Rightarrow> string + (int, int) dict" where
  "requested_voltages cid a thresholds excluded =
    (case ov_voltage_map a of
       Some raw \<Rightarrow>
         (case parse_channel_value_map py_int raw of
            None \<Rightarrow> Inl (''Invalid --voltage-map format for client '' @ cid)
          | Some parsed \<Rightarrow> Inr parsed)
     | None \<Rightarrow>
         (case ov_voltage a of
            None \<Rightarrow> Inr []
          | Some v \<Rightarrow>
              if thresholds \<noteq> [] \<or> excluded \<noteq> []
              then Inr (map (\<lambda>ch. (ch, v)) (fromkeys (dict_keys thresholds @ dict_keys excluded)))
              else Inr (all_channels_with v)))"

record override_request =
  rq_values :: "(int, hv_values) dict option"
  rq_excluded :: "(int, string) dict"
  rq_error :: "string option"

definition override_error :: "string \<Rightarrow> override_request" where
  "override_error why = \<lparr>rq_values = None, rq_excluded = [], rq_error = Some why\<rparr>"

text \<open>What is sent, channel by channel, in order. The list of the channels is left out of the text of the error.\<close>

definition override_values ::
  "client_id \<Rightarrow> (int, rat) dict \<Rightarrow> (int, int) dict \<Rightarrow> (int, string) dict \<Rightarrow> override_request" where
  "override_values cid thresholds voltages excluded =
    (let all_channels = filter (\<lambda>ch. ch \<notin> set (dict_keys excluded)) (fromkeys (dict_keys voltages @ dict_keys thresholds)) in
     if list_ex (\<lambda>ch. ch < 0 \<or> ch \<ge> N_CHANNELS) (all_channels @ dict_keys excluded)
     then override_error (''Invalid channels in the HV override for client '' @ cid)
     else if all_channels = [] then \<lparr>rq_values = None, rq_excluded = excluded, rq_error = None\<rparr>
     else \<lparr>rq_values = Some (map (\<lambda>ch. (ch, \<lparr>hv_volt = dict_get voltages ch, hv_thr = dict_get thresholds ch\<rparr>))
                            (sort all_channels)),
           rq_excluded = excluded, rq_error = None\<rparr>)"

definition resolve_hv_overrides :: "acq_env \<Rightarrow> client_id \<Rightarrow> override_args \<Rightarrow> override_request acq_act" where
  "resolve_hv_overrides e cid a =
    (if ov_voltage a = None \<and> ov_voltage_map a = None \<and> ov_threshold_mv a = None \<and> ov_threshold_pe a = None \<and>
        ov_threshold_mv_map a = None \<and> ov_threshold_pe_map a = None
     then give \<lparr>rq_values = None, rq_excluded = [], rq_error = None\<rparr>
     else
       andthen (requested_thresholds e cid a) (\<lambda>res. give
         (case res of
            Inl why \<Rightarrow> override_error why
          | Inr (thresholds, excluded) \<Rightarrow>
              (case requested_voltages cid a thresholds excluded of
                 Inl why \<Rightarrow> override_error why
               | Inr voltages \<Rightarrow> override_values cid thresholds voltages excluded))))"

section \<open>Applying and restoring\<close>

definition hv_parameters_of :: "hv_pair \<Rightarrow> (string, pyval) dict" where
  "hv_parameters_of p = [(''voltage'', PInt (pair_voltage p)), (''threshold'', PInt (pair_threshold p))]"

text \<open>The values by user channel; the keys are texts in the numbering of the high voltage.\<close>

definition to_user :: "(string, hv_pair) dict \<Rightarrow> (int, hv_pair) dict option" where
  "to_user values = map_option (\<lambda>d. fold (\<lambda>(ch, v). dict_set (ch - 1) v) d []) (int_keys values)"

text \<open>The channels configured, and what those that were changed had before.\<close>

definition configured_channels :: "hv_reply \<Rightarrow> int list" where
  "configured_channels r = sort (hv_to_user_channels (hp_successful r))"

definition changed_previous :: "hv_reply \<Rightarrow> (int, hv_pair) dict \<Rightarrow> (int, hv_pair) dict \<Rightarrow> (int, hv_pair) dict" where
  "changed_previous r applied previous =
    filter (\<lambda>(ch, v). ch \<in> set (configured_channels r) \<and> dict_get applied ch \<noteq> Some v) previous"

definition apply_hv_override ::
  "acq_env \<Rightarrow> client_id \<Rightarrow> (int, hv_values) dict \<Rightarrow> bool \<Rightarrow> (int list \<times> (int, hv_pair) dict) option acq_act" where
  "apply_hv_override e cid acq_info wait_ramp =
    andthen (send_hv_command e cid (HvConfigure acq_info wait_ramp)) (\<lambda>reply.
      case reply of
        None \<Rightarrow> give None
      | Some r \<Rightarrow>
          if \<not> hp_ok r \<and> hp_requested r = [] then give None
          else
            (case (to_user (hp_applied r), to_user (hp_previous r)) of
               (Some applied, Some previous) \<Rightarrow>
                 andthen (change (update_sv (set_client_hv_parameters cid
                     (map (\<lambda>(ch, v). (ch, hv_parameters_of v)) applied)))) (\<lambda>_.
                   give (Some (configured_channels r, changed_previous r applied previous)))
             | _ \<Rightarrow> throw ValueError))"

definition hv_values_of :: "hv_pair \<Rightarrow> hv_values" where
  "hv_values_of p = \<lparr>hv_volt = Some (pair_voltage p), hv_thr = Some (of_int (pair_threshold p))\<rparr>"

definition restore_hv_override ::
  "acq_env \<Rightarrow> client_id \<Rightarrow> (int, hv_pair) dict \<Rightarrow> (int list \<times> int list) acq_act" where
  "restore_hv_override e cid previous =
    (if previous = [] then give ([], [])
     else
       andthen (apply_hv_override e cid (map (\<lambda>(ch, v). (ch, hv_values_of v)) previous) True) (\<lambda>result.
         let restored = (case result of None \<Rightarrow> [] | Some (configured, _) \<Rightarrow> sort configured)
         in give (restored, sort (filter (\<lambda>ch. ch \<notin> set restored) (dict_keys previous)))))"

text \<open>\<open>_restore_hv_overrides\<close>: a client leaves the dictionary before its values are put back, so that it is restored once.\<close>

definition restore_client ::
  "acq_env \<Rightarrow> (client_id \<Rightarrow> bool) \<Rightarrow> client_id \<Rightarrow> client_id list \<Rightarrow> client_id list acq_act" where
  "restore_client e chosen cid unrestored =
    (if \<not> chosen cid then give unrestored
     else
       andthen (reading (\<lambda>s. dict_get (overridden s) cid)) (\<lambda>previous.
         case previous of
           None \<Rightarrow> throw KeyError
         | Some p \<Rightarrow>
             andthen (change (\<lambda>s. s\<lparr>overridden := dict_pop cid (overridden s)\<rparr>)) (\<lambda>_.
               andthen (restore_hv_override e cid p) (\<lambda>(restored, not_restored). give
                 (if p \<noteq> [] \<and> restored = [] then unrestored @ [cid] else unrestored)))))"

definition restore_hv_overrides :: "acq_env \<Rightarrow> (client_id \<Rightarrow> bool) \<Rightarrow> client_id list acq_act" where
  "restore_hv_overrides e chosen =
    andthen (reading (\<lambda>s. dict_keys (overridden s))) (\<lambda>cids. each (restore_client e chosen) cids [])"

end
