(* ===== verification/AcqOrchestrator.thy ===== *)
theory AcqOrchestrator
  imports AcqOverride
begin

text \<open>
  The command that starts an acquisition and the thread that runs it (\<open>server/services/acquisition_orchestrator.py\<close>), with the
  choice of the channels (\<open>server/services/channel_selection_service.py\<close>). The texts for the user are left out.
\<close>

section \<open>Channels usable on a client\<close>

text \<open>The channels of a request, in the numbering of the user.\<close>

definition parse_user_channels :: "channel_arg \<Rightarrow> int \<Rightarrow> py_exn + int list" where
  "parse_user_channels chs n_channels =
    (case (case chs of
             ArgInt n \<Rightarrow> Inr [n]
           | ArgStr txt \<Rightarrow>
               if txt = ''all'' then Inr [0..n_channels - 1]
               else (case map_result py_int (filter (\<lambda>x. x \<noteq> []) (map strip (split_on CHR '','' txt))) of
                       None \<Rightarrow> Inl ValueError
                     | Some vs \<Rightarrow> Inr vs)
           | ArgList ns \<Rightarrow> Inr ns
           | ArgOther \<Rightarrow> Inl TypeError) of
       Inl e \<Rightarrow> Inl e
     | Inr parsed \<Rightarrow>
         if list_ex (\<lambda>ch. ch < 0 \<or> ch \<ge> n_channels) parsed then Inl ValueError
         else Inr (sort (fromkeys parsed)))"

text \<open>\<open>sorted(set(xs))\<close>, \<open>sorted(set(xs) - set(ys))\<close> and \<open>sorted(set(xs) & set(ys))\<close>.\<close>

definition sorted_set :: "int list \<Rightarrow> int list" where
  "sorted_set xs = sort (fromkeys xs)"

definition set_minus :: "int list \<Rightarrow> int list \<Rightarrow> int list" where
  "set_minus xs ys = sorted_set (filter (\<lambda>x. x \<notin> set ys) xs)"

definition set_meet :: "int list \<Rightarrow> int list \<Rightarrow> int list" where
  "set_meet xs ys = sorted_set (filter (\<lambda>x. x \<in> set ys) xs)"

text \<open>On the acquisition plane, where there is no fallback on the request.\<close>

definition get_test_rc_channels :: "acq_env \<Rightarrow> client_id \<Rightarrow> channel_arg \<Rightarrow> int list acq_act" where
  "get_test_rc_channels e cid requested_channels =
    (case parse_user_channels requested_channels N_CHANNELS of
       Inl x \<Rightarrow> give []
     | Inr requested \<Rightarrow>
         andthen (send_hv_command e cid HvSync) (\<lambda>reply. give
           (case reply of
              None \<Rightarrow> []
            | Some r \<Rightarrow>
                if hp_error r then []
                else
                  let fixed_bad = hv_to_user_channels (sorted_set (hp_fixed_bad r));
                      available = set_minus (hv_to_user_channels (sorted_set (hp_ok_channels r))) fixed_bad
                  in set_meet requested available)))"

text \<open>The channels that are on, or that \<open>hv_on_and_wait\<close> reports up.\<close>

definition switched_on :: "hv_reply \<Rightarrow> int list" where
  "switched_on r =
    (if hp_successful r \<noteq> [] then hp_successful r else if hp_on r \<noteq> [] then hp_on r else hp_up r)"

definition prepare_hv_client :: "acq_env \<Rightarrow> client_id \<Rightarrow> int list acq_act" where
  "prepare_hv_client e cid =
    andthen (send_hv_command e cid HvSync) (\<lambda>sync.
      case sync of
        None \<Rightarrow> give []
      | Some r \<Rightarrow>
          if hp_error r then give []
          else if hp_ok_channels r = [] then give []
          else
            let ok_on = set_meet (hp_ok_channels r) (hp_on r);
                ok_off = set_meet (hp_ok_channels r) (hp_off r)
            in if ok_off = [] then give (hv_to_user_channels ok_on)
               else
                 andthen (send_hv_command e cid (HvOnAndWait (hv_to_user_channels ok_off))) (\<lambda>on_reply. give
                   (case on_reply of
                      None \<Rightarrow> []
                    | Some o_r \<Rightarrow> hv_to_user_channels (sorted_set (ok_on @ switched_on o_r)))))"

definition prepare_hv_channels_for_acquisition ::
  "acq_env \<Rightarrow> client_id list \<Rightarrow> (client_id, int list) dict acq_act" where
  "prepare_hv_channels_for_acquisition e targets =
    andthen (reading (\<lambda>s. filter (\<lambda>c. c \<in> set targets) (acquisition_client_ids (sv s)))) (\<lambda>cids.
      each (\<lambda>cid sel. andthen (prepare_hv_client e cid) (\<lambda>chs. give (dict_set cid chs sel))) cids [])"

section \<open>Preparation\<close>

record start_args =
  sa_trigger :: trigger_args
  sa_override :: override_args
  sa_duration :: "int option"

definition exclude_channels :: "int list \<Rightarrow> int list \<Rightarrow> int list" where
  "exclude_channels channels excluded = set_minus channels excluded"

type_synonym client_channels = "(client_id, int list) dict"

text \<open>Step 1: register 19 is cleared on every target.\<close>

definition disable_targets :: "acq_env \<Rightarrow> client_id list \<Rightarrow> client_id list acq_act" where
  "disable_targets e cids =
    each (\<lambda>cid active. andthen (disable_rc_channels e [cid]) (\<lambda>ok. give (if ok then active @ [cid] else active))) cids []"

text \<open>Step 2: the channels the hardware allows; a client without any is left out.\<close>

definition keep_nonempty :: "client_id \<Rightarrow> int list \<Rightarrow> client_channels \<Rightarrow> client_channels" where
  "keep_nonempty cid chs d = (if chs = [] then d else dict_set cid chs d)"

definition usable_channels :: "acq_env \<Rightarrow> string \<Rightarrow> client_id list \<Rightarrow> client_channels acq_act" where
  "usable_channels e mode active =
    (if mode = ''test'' then
       each (\<lambda>cid d. andthen (get_test_rc_channels e cid (ArgStr ''all'')) (\<lambda>chs. give (keep_nonempty cid chs d))) active []
     else if active \<noteq> [] then
       andthen (prepare_hv_channels_for_acquisition e active) (\<lambda>sel. give
         (fold (\<lambda>cid d. case dict_get sel cid of None \<Rightarrow> d | Some chs \<Rightarrow> keep_nonempty cid chs d) active []))
     else give [])"

text \<open>Step 3, in the mode \<open>multipmt\<close>: channels without a matching calibration are left out.\<close>

definition replace_channels :: "client_id \<Rightarrow> int list \<Rightarrow> client_channels \<Rightarrow> client_channels" where
  "replace_channels cid chs d = (if chs = [] then dict_pop cid d else dict_set cid chs d)"

definition calibrated_channels :: "string \<Rightarrow> client_channels \<Rightarrow> acq \<Rightarrow> client_channels" where
  "calibrated_channels mode d s =
    (if mode \<noteq> ''multipmt'' then d
     else fold (\<lambda>(cid, chs). replace_channels cid
            (exclude_channels chs (get_calibration_excluded_channels cid (sv s)))) d d)"

text \<open>
  Step 4: the override of one client. The channels excluded are taken away one reason at a time; their order does not matter.
\<close>

definition without_excluded :: "(int, string) dict \<Rightarrow> int list \<Rightarrow> int list" where
  "without_excluded excluded channels =
    fold (\<lambda>reason chs. exclude_channels chs (dict_keys (filter (\<lambda>(ch, r). r = reason) excluded)))
      (fromkeys (map snd excluded)) channels"

definition apply_override ::
  "acq_env \<Rightarrow> client_id \<Rightarrow> (int, hv_values) dict \<Rightarrow> int list \<Rightarrow> client_channels \<Rightarrow> client_channels acq_act" where
  "apply_override e cid hv_override channels d =
    andthen (apply_hv_override e cid hv_override True) (\<lambda>result.
      case result of
        None \<Rightarrow> give (dict_pop cid d)
      | Some (configured, previous) \<Rightarrow>
          andthen (change (\<lambda>s. if previous = [] then s else s\<lparr>overridden := dict_set cid previous (overridden s)\<rparr>)) (\<lambda>_.
            let chs = exclude_channels channels (filter (\<lambda>ch. ch \<notin> set configured) (dict_keys hv_override))
            in if chs = [] then
                 andthen (restore_hv_overrides e (\<lambda>c. c = cid)) (\<lambda>_. give (dict_pop cid d))
               else give (dict_set cid chs d)))"

definition override_client ::
  "acq_env \<Rightarrow> override_args \<Rightarrow> client_id \<times> int list \<Rightarrow> client_channels \<Rightarrow> client_channels acq_act" where
  "override_client e a = (\<lambda>(cid, channels) d.
    andthen (resolve_hv_overrides e cid a) (\<lambda>rq.
      if rq_error rq \<noteq> None then give (dict_pop cid d)
      else
        let chs = without_excluded (rq_excluded rq) channels in
        if chs = [] then give (dict_pop cid d)
        else (case rq_values rq of
                None \<Rightarrow> give (dict_set cid chs d)
              | Some hv_override \<Rightarrow> apply_override e cid hv_override chs (dict_set cid chs d))))"

text \<open>Step 5: the registers of the trigger.\<close>

definition configure_prepared ::
  "acq_env \<Rightarrow> TriggerConfiguration option \<Rightarrow> client_id \<times> int list \<Rightarrow> client_id list \<Rightarrow> client_id list acq_act" where
  "configure_prepared e tc = (\<lambda>(cid, channels) ready.
    andthen (configure_acquisition_client e cid tc channels) (\<lambda>ok.
      if ok then give (ready @ [cid])
      else andthen (restore_hv_overrides e (\<lambda>c. c = cid)) (\<lambda>_. give ready)))"

definition prepare_clients ::
  "acq_env \<Rightarrow> start_args \<Rightarrow> client_id list \<Rightarrow> TriggerConfiguration option \<Rightarrow> client_id list acq_act" where
  "prepare_clients e args cids tc =
    andthen (reading (\<lambda>s. acq_mode (sv s))) (\<lambda>mode.
      andthen (disable_targets e cids) (\<lambda>active.
        andthen (usable_channels e mode active) (\<lambda>d2.
          andthen (reading (calibrated_channels mode d2)) (\<lambda>d3.
            andthen (each (override_client e (sa_override args)) d3 d3) (\<lambda>d4.
              each (configure_prepared e tc) d4 [])))))"

section \<open>Start\<close>

definition given_clients :: "client_id list \<Rightarrow> meta_ids" where
  "given_clients cids = Given (map IdBytes cids)"

definition orchestrator_event :: "acq_env \<Rightarrow> ServerFSMEvent \<Rightarrow> string \<Rightarrow> metadata \<Rightarrow> bool acq_act" where
  "orchestrator_event e event reason md s =
    (let (accepted, s1) = server_event event reason ''acquisition_orchestrator'' md (clock e (trace s)) s
     in (Returned accepted, s1))"

definition resolve_batch_id :: "client_id list \<Rightarrow> server_state \<Rightarrow> string option" where
  "resolve_batch_id cids s =
    (case cids of
       [] \<Rightarrow> None
     | cid # _ \<Rightarrow>
         let i = (case dict_get (clients s) cid of
                    None \<Rightarrow> []
                  | Some r \<Rightarrow> (case configuration_identity r of None \<Rightarrow> [] | Some i \<Rightarrow> i));
             batch_id = (case dict_get i ''batch_id'' of None \<Rightarrow> [] | Some x \<Rightarrow> x);
             multipmt_id = (case dict_get i ''multipmt_id'' of None \<Rightarrow> [] | Some x \<Rightarrow> x)
         in if batch_id \<noteq> [] then Some batch_id else if multipmt_id \<noteq> [] then Some multipmt_id else None)"

text \<open>What the thread of the session is given.\<close>

record session_job =
  job_clients :: "client_id list"
  job_duration :: "int option"
  job_previous :: "(client_id, (int, hv_pair) dict) dict"

definition give_up :: "acq_env \<Rightarrow> client_id list \<Rightarrow> session_job option acq_act" where
  "give_up e ready =
    andthen (disable_rc_channels e ready) (\<lambda>_. andthen (restore_hv_overrides e (\<lambda>_. True)) (\<lambda>_. give None))"

definition launch_session :: "acq_env \<Rightarrow> start_args \<Rightarrow> client_id list \<Rightarrow> session_job option acq_act" where
  "launch_session e args ready =
    andthen (change begin_session) (\<lambda>_.
      andthen (reading overridden) (\<lambda>previous.
        andthen (call_out e StartThread (thread_started e)) (\<lambda>_.
          andthen (change (\<lambda>s. s\<lparr>overridden := []\<rparr>)) (\<lambda>_.
            give (Some \<lparr>job_clients = ready, job_duration = sa_duration args, job_previous = previous\<rparr>)))))"

definition start_prepared :: "acq_env \<Rightarrow> start_args \<Rightarrow> client_id list \<Rightarrow> session_job option acq_act" where
  "start_prepared e args ready =
    andthen (reading (\<lambda>s. resolve_batch_id ready (sv s))) (\<lambda>batch_id.
      if batch_id = None then give_up e ready
      else andthen (orchestrator_event e ACQUISITION_STARTED ''Acquisition started''
             (no_metadata\<lparr>active_clients := given_clients ready\<rparr>)) (\<lambda>started.
        if \<not> started then give_up e ready else launch_session e args ready))"

definition prepare_and_start ::
  "acq_env \<Rightarrow> start_args \<Rightarrow> client_id list \<Rightarrow> TriggerConfiguration option \<Rightarrow> session_job option acq_act" where
  "prepare_and_start e args cids tc =
    andthen (prepare_clients e args cids tc) (\<lambda>ready.
      let failed = filter (\<lambda>c. c \<notin> set ready) cids in
      if ready = [] then
        andthen (restore_hv_overrides e (\<lambda>_. True)) (\<lambda>_.
          andthen (orchestrator_event e CONFIGURATION_FAILED ''No clients ready for acquisition after RC/HV preparation''
            (no_metadata\<lparr>failed_clients := given_clients failed\<rparr>)) (\<lambda>_. give None))
      else
        andthen (orchestrator_event e CONFIGURATION_SUCCEEDED ''RC/HV channels prepared for acquisition''
          (no_metadata\<lparr>successful_clients := given_clients ready, failed_clients := given_clients failed\<rparr>)) (\<lambda>accepted.
          if \<not> accepted then
            andthen (orchestrator_event e CONFIGURATION_FAILED ''Acquisition preparation result rejected by the FSM'' no_metadata)
              (\<lambda>_. give_up e ready)
          else start_prepared e args ready))"

text \<open>The \<open>except\<close> block of \<open>start\<close>.\<close>

definition abort_start :: "acq_env \<Rightarrow> session_job option acq_act" where
  "abort_start e =
    andthen (catching (andthen (restore_hv_overrides e (\<lambda>_. True)) (\<lambda>_. give ())) (\<lambda>_. give ())) (\<lambda>_.
      andthen (reading (\<lambda>s. run_state (sv s))) (\<lambda>st.
        if st = S_CONFIGURING then
          andthen (orchestrator_event e CONFIGURATION_FAILED ''Unexpected error while preparing the acquisition'' no_metadata)
            (\<lambda>_. give None)
        else if st = S_ACQUIRING then
          andthen (change (close_session e False ''acquisition could not start'')) (\<lambda>_. give None)
        else give None))"

definition start_acquisition :: "acq_env \<Rightarrow> start_args \<Rightarrow> session_job option acq_act" where
  "start_acquisition e args =
    andthen (reading sv) (\<lambda>sv0.
      if run_state sv0 \<noteq> S_READY then give None
      else (case build_trigger_configuration (sa_trigger args) of
              None \<Rightarrow> give None
            | Some tc \<Rightarrow>
                let cids = filter (\<lambda>c. c \<in> set (operational_client_ids sv0)) (acquisition_client_ids sv0) in
                if cids = [] then give None
                else andthen (orchestrator_event e CONFIGURATION_STARTED ''Preparing RC/HV channels for acquisition''
                       (no_metadata\<lparr>target_clients := given_clients cids\<rparr>)) (\<lambda>started.
                  if \<not> started then give None
                  else andthen (change (\<lambda>s. s\<lparr>overridden := []\<rparr>)) (\<lambda>_.
                    catching (prepare_and_start e args cids (Some tc)) (\<lambda>_. abort_start e)))))"

section \<open>The thread of the session\<close>

definition on_duration_elapsed :: "acq_env \<Rightarrow> unit acq_act" where
  "on_duration_elapsed e =
    andthen (orchestrator_event e RECEIVER_COMPLETED ''Acquisition duration elapsed'' no_metadata) (\<lambda>_. give ())"

definition run_session :: "acq_env \<Rightarrow> session_job \<Rightarrow> unit acq_act" where
  "run_session e job =
    andthen (change (\<lambda>s. s\<lparr>overridden := job_previous job\<rparr>)) (\<lambda>_.
      andthen (catching (andthen (run_acquisition_session e (job_clients job) (job_duration job) (on_duration_elapsed e) True)
                 (\<lambda>res. give (session_success res))) (\<lambda>_. give False)) (\<lambda>success.
        andthen (catching (restore_hv_overrides e (\<lambda>_. True)) (\<lambda>_. give [])) (\<lambda>unrestored.
          andthen (change (close_session e success ''acquisition session completed'')) (\<lambda>_.
            change (update_sv (fold remove_operational_client unrestored))))))"

end
