(* ===== verification/AcqOverrideProps.thy ===== *)
theory AcqOverrideProps
  imports AcqOrchestrator AcqTrace
begin

text \<open>
  The overrides of the high voltage for one run: what a request stands for, the conversion of thresholds, and that the values a run
  changed are sent back to the clients when the run ends or does not start.
\<close>

section \<open>Requests\<close>

text \<open>Values to apply: in order, once for each of some user channels that are not excluded, each with a quantity.\<close>

definition values_ok :: "(int, string) dict \<Rightarrow> (int, hv_values) dict \<Rightarrow> bool" where
  "values_ok excl acq \<longleftrightarrow> acq \<noteq> [] \<and> sorted (dict_keys acq) \<and> distinct (dict_keys acq) \<and>
    list_all (\<lambda>(ch, v). 0 \<le> ch \<and> ch < N_CHANNELS \<and> ch \<notin> set (dict_keys excl) \<and>
      (hv_volt v \<noteq> None \<or> hv_thr v \<noteq> None)) acq"

lemma override_values_ok:
  assumes "rq_values (override_values cid thr volts excl) = Some acq"
  shows "values_ok excl acq"
proof -
  let ?all = "filter (\<lambda>ch. ch \<notin> set (dict_keys excl)) (fromkeys (dict_keys volts @ dict_keys thr))"
  from assms have ne: "?all \<noteq> []" and rng: "\<not> list_ex (\<lambda>ch. ch < 0 \<or> ch \<ge> N_CHANNELS) (?all @ dict_keys excl)"
    and acq: "acq = map (\<lambda>ch. (ch, \<lparr>hv_volt = dict_get volts ch, hv_thr = dict_get thr ch\<rparr>)) (sort ?all)"
    by (auto simp: override_values_def override_error_def Let_def split: if_splits)
  have keys: "dict_keys acq = sort ?all" by (simp add: acq comp_def)
  have some: "dict_get volts ch \<noteq> None \<or> dict_get thr ch \<noteq> None" if "ch \<in> set ?all" for ch
    using that by (auto simp: map_of_eq_None_iff)
  have "acq \<noteq> []" using ne keys by (metis length_0_conv length_sort map_is_Nil_conv)
  moreover have "list_all (\<lambda>(ch, v). 0 \<le> ch \<and> ch < N_CHANNELS \<and> ch \<notin> set (dict_keys excl) \<and>
      (hv_volt v \<noteq> None \<or> hv_thr v \<noteq> None)) acq"
    using rng some unfolding acq by (auto simp: list_ex_iff list_all_iff not_le not_less)
  ultimately show ?thesis unfolding values_ok_def keys by (simp add: distinct_fromkeys)
qed

text \<open>
  Claim C26. What a request for an override comes to: an error leaves nothing to apply; otherwise the values go, in order and once each, to user
  channels 0 to 6 that are not excluded, each with at least one quantity, and the channels excluded are those
  that were asked for a threshold in photoelectrons and have no calibration.
\<close>

theorem override_request_is_well_formed:
  assumes "resolve_hv_overrides e cid a s = (Returned rq, s')"
  shows "(rq_error rq \<noteq> None \<longrightarrow> rq_values rq = None \<and> rq_excluded rq = []) \<and>
    (\<forall>acq. rq_values rq = Some acq \<longrightarrow> values_ok (rq_excluded rq) acq) \<and>
    (rq_excluded rq \<noteq> [] \<longrightarrow> ov_threshold_mv_map a = None \<and> (ov_threshold_pe_map a \<noteq> None \<or> ov_threshold_pe a \<noteq> None))"
proof (cases "rq = \<lparr>rq_values = None, rq_excluded = [], rq_error = None\<rparr>")
  case False
  with assms obtain res s1 where res: "requested_thresholds e cid a s = (Returned res, s1)"
    and rq: "rq = (case res of Inl why \<Rightarrow> override_error why
          | Inr (thr, excl) \<Rightarrow> (case requested_voltages cid a thr excl of
                 Inl why \<Rightarrow> override_error why | Inr volts \<Rightarrow> override_values cid thr volts excl))"
    by (auto simp: resolve_hv_overrides_def andthen_def give_def split: if_splits prod.splits outcome.splits)
  have excl: "ov_threshold_mv_map a = None \<and> (ov_threshold_pe_map a \<noteq> None \<or> ov_threshold_pe a \<noteq> None)"
    if "res = Inr (thr, x # xs)" for thr x xs
    using res that by (auto simp: requested_thresholds_def give_def split: option.splits if_splits)
  have err: "rq_values (override_error why) = None" "rq_excluded (override_error why) = []" for why
    by (simp_all add: override_error_def)
  have vals: "rq_excluded (override_values cid thr volts ex) \<in> {[], ex}"
      "rq_error (override_values cid thr volts ex) \<noteq> None \<Longrightarrow> rq_values (override_values cid thr volts ex) = None \<and>
        rq_excluded (override_values cid thr volts ex) = []"
      "rq_values (override_values cid thr volts ex) \<noteq> None \<Longrightarrow> rq_excluded (override_values cid thr volts ex) = ex" for thr volts ex
    by (auto simp: override_values_def override_error_def Let_def split: if_splits)
  show ?thesis
  proof (cases "\<exists>thr ex volts. res = Inr (thr, ex) \<and> requested_voltages cid a thr ex = Inr volts")
    case False
    then show ?thesis by (auto simp: rq err split: sum.splits prod.splits)
  next
    case True
    then obtain thr ex volts where r: "res = Inr (thr, ex)" and v: "requested_voltages cid a thr ex = Inr volts" by blast
    have rq: "rq = override_values cid thr volts ex" by (simp add: rq r v)
    have "rq_excluded rq \<noteq> [] \<Longrightarrow> ex \<noteq> []" using vals(1)[of thr volts ex] by (auto simp: rq)
    then show ?thesis
      using excl[of thr] r vals(2,3)[of thr volts ex] override_values_ok[of cid thr volts ex]
      by (cases ex) (auto simp: rq)
  qed
qed auto

definition example_override :: override_args where
  "example_override = \<lparr>ov_voltage = Some 800, ov_voltage_map = None, ov_threshold_mv = None, ov_threshold_pe = None,
     ov_threshold_mv_map = None, ov_threshold_pe_map = None\<rparr>"

theorem override_request_is_well_formed_witness:
  "let rq = (case fst (resolve_hv_overrides (example_env []) ''a'' (example_override\<lparr>ov_voltage_map := Some ''2:900, 0:850''\<rparr>) example_acq)
             of Returned rq \<Rightarrow> rq | _ \<Rightarrow> override_error [])
   in rq_values rq = Some [(0, \<lparr>hv_volt = Some 850, hv_thr = None\<rparr>), (2, \<lparr>hv_volt = Some 900, hv_thr = None\<rparr>)] \<and>
      rq_error rq = None \<and> values_ok [] [(0, \<lparr>hv_volt = Some 850, hv_thr = None\<rparr>), (2, \<lparr>hv_volt = Some 900, hv_thr = None\<rparr>)]"
proof -
  let ?a = "example_override\<lparr>ov_voltage_map := Some ''2:900, 0:850''\<rparr>"
  let ?rq = "\<lparr>rq_values = Some [(0, \<lparr>hv_volt = Some 850, hv_thr = None\<rparr>), (2, \<lparr>hv_volt = Some 900, hv_thr = None\<rparr>)],
     rq_excluded = [], rq_error = None\<rparr>"
  have "fst (resolve_hv_overrides (example_env []) ''a'' ?a example_acq) = Returned ?rq" by code_simp
  then obtain s' where run: "resolve_hv_overrides (example_env []) ''a'' ?a example_acq = (Returned ?rq, s')"
    by (metis prod.collapse)
  from override_request_is_well_formed[OF this] show ?thesis unfolding Let_def run by simp
qed

section \<open>Thresholds in photoelectrons\<close>

text \<open>
  The two conversions of a threshold are inverse to each other: what \<open>_convert_pe_map_to_mv\<close> computes for a channel with a
  calibration is read back by \<open>_convert_mv_map_to_pe\<close>, for every calibration with a slope and a photoelectron that are not zero.
\<close>

theorem threshold_conversion_roundtrip:
  assumes "pe_to_mv (Some (m, q, pe_adc)) v = Inr mv" and "pe_adc \<noteq> 0"
  shows "mv_to_pe (m, q, pe_adc) mv = Some v"
  using assms by (auto simp: pe_to_mv_def mv_to_pe_def split: if_splits)

theorem threshold_conversion_roundtrip_witness:
  "pe_to_mv (Some (2, 3, 10)) (1/2) = Inr 1 \<and> mv_to_pe (2, 3, 10) 1 = Some (1/2)"
proof -
  have "pe_to_mv (Some (2, 3, 10)) (1/2) = Inr 1" by (simp add: pe_to_mv_def)
  from threshold_conversion_roundtrip[OF this] this show ?thesis by simp
qed

end
