(* ===== verification/AcqRestore.thy ===== *)
theory AcqRestore
  imports AcqOverrideProps
begin

text \<open>
  What is owed to the clients whose voltages or thresholds were changed for a run, read off the trace and the replies; the
  dictionary of the orchestrator is always exactly that, so that every change is sent back.
\<close>

section \<open>What is owed\<close>

text \<open>What a client reports to have had, for the channels that were changed.\<close>

definition reported_previous :: "hv_reply \<Rightarrow> (int, hv_pair) dict" where
  "reported_previous r =
    (if \<not> hp_ok r \<and> hp_requested r = [] then []
     else (case (to_user (hp_applied r), to_user (hp_previous r)) of
             (Some applied, Some previous) \<Rightarrow> changed_previous r applied previous
           | _ \<Rightarrow> []))"

definition values_back :: "(int, hv_pair) dict \<Rightarrow> (int, hv_values) dict" where
  "values_back = map (\<lambda>(ch, v). (ch, hv_values_of v))"

text \<open>
  The last call of the trace \<open>t\<close>: a configuration that changes a client to which nothing is owed makes its
  reported values owed; the configuration with exactly the values that are owed settles it, as does the entry of the log when it
  cannot be sent.
\<close>

fun owe_override ::
  "acq_env \<Rightarrow> acq_call list \<Rightarrow> acq_call \<Rightarrow> (client_id, (int, hv_pair) dict) dict \<Rightarrow> (client_id, (int, hv_pair) dict) dict" where
  "owe_override e t (Sent cid (HvConfigure acq w)) d =
    (case dict_get d cid of
       Some p \<Rightarrow> if acq = values_back p then dict_pop cid d else d
     | None \<Rightarrow>
         (case hv_answer e t of
            Inr (Some r) \<Rightarrow> if reported_previous r = [] then d else dict_set cid (reported_previous r) d
          | _ \<Rightarrow> d))"
| "owe_override e t (Unavailable cid (HvConfigure acq w)) d =
    (case dict_get d cid of
       Some p \<Rightarrow> if acq = values_back p then dict_pop cid d else d
     | None \<Rightarrow> d)"
| "owe_override e t _ d = d"

fun owed_rev :: "acq_env \<Rightarrow> acq_call list \<Rightarrow> (client_id, (int, hv_pair) dict) dict" where
  "owed_rev e [] = []"
| "owed_rev e (c # cs) = owe_override e (rev (c # cs)) c (owed_rev e cs)"

definition owed :: "acq_env \<Rightarrow> acq_call list \<Rightarrow> (client_id, (int, hv_pair) dict) dict" where
  "owed e t = owed_rev e (rev t)"

lemma owed_simps: "owed e [] = []" "owed e (t @ [c]) = owe_override e (t @ [c]) c (owed e t)"
  by (simp_all add: owed_def)

lemma owed_harmless: "harmless c \<Longrightarrow> owed e (t @ [c]) = owed e t"
  by (cases "(e, t @ [c], c, owed e t)" rule: owe_override.cases) (auto simp: owed_simps)

lemma owed_nonempty: "(cid, p) \<in> set (owed e t) \<Longrightarrow> p \<noteq> []"
proof (induction t arbitrary: cid p rule: rev_induct)
  case (snoc c t)
  have pop: "x \<in> set (dict_pop k d) \<Longrightarrow> x \<in> set d" for x k and d :: "(client_id, (int, hv_pair) dict) dict"
    by (simp add: AList.delete_eq)
  show ?case
    using snoc.prems snoc.IH
    by (cases "(e, t @ [c], c, owed e t)" rule: owe_override.cases)
       (auto simp: owed_simps dest: pop dest!: in_dict_set split: option.splits sum.splits if_splits)
qed (simp add: owed_simps)

lemma owed_dict_ok: "dict_ok (owed e t)"
proof (induction t rule: rev_induct)
  case (snoc c t)
  then show ?case
    by (cases "(e, t @ [c], c, owed e t)" rule: owe_override.cases)
       (auto simp: owed_simps split: option.splits sum.splits)
qed (simp add: owed_simps)

interpretation owing: trace_law "\<lambda>t. owed e t = d" for e d
  by unfold_locales (simp add: owed_harmless)

section \<open>What leaves the dictionary of the orchestrator alone\<close>

named_theorems frame_rules \<open>actions that do not touch the dictionary of the overrides\<close>

definition frames :: "'a acq_act \<Rightarrow> bool" where
  "frames f \<longleftrightarrow> (\<forall>s. overridden (snd (f s)) = overridden s)"

lemma framesD: "frames f \<Longrightarrow> f s = (r, s1) \<Longrightarrow> overridden s1 = overridden s"
  by (metis frames_def snd_conv)

lemma frames_basic [frame_rules]: "frames (give x)" "frames (reading r)" "frames (throw ex)"
  by (simp_all add: frames_def give_def reading_def throw_def)

lemma frames_change [frame_rules]: "(\<And>s. overridden (f s) = overridden s) \<Longrightarrow> frames (change f)"
  by (simp add: frames_def change_def)

lemma frames_andthen [frame_rules]: "frames f \<Longrightarrow> (\<And>x. frames (g x)) \<Longrightarrow> frames (andthen f g)"
  by (auto simp: frames_def andthen_def split: prod.splits outcome.splits) (metis snd_conv)+

lemma frames_catching [frame_rules]: "frames f \<Longrightarrow> (\<And>x. frames (g x)) \<Longrightarrow> frames (catching f g)"
  by (auto simp: frames_def catching_def split: prod.splits outcome.splits) (metis snd_conv)+

lemma frames_if [frame_rules]: "(b \<Longrightarrow> frames f) \<Longrightarrow> (\<not> b \<Longrightarrow> frames g) \<Longrightarrow> frames (if b then f else g)"
  by simp

lemma frames_option [frame_rules]:
  "(x = None \<Longrightarrow> frames f) \<Longrightarrow> (\<And>y. x = Some y \<Longrightarrow> frames (g y)) \<Longrightarrow> frames (case x of None \<Rightarrow> f | Some y \<Rightarrow> g y)"
  by (cases x) simp_all

lemma frames_sum [frame_rules]:
  "(\<And>y. x = Inl y \<Longrightarrow> frames (f y)) \<Longrightarrow> (\<And>y. x = Inr y \<Longrightarrow> frames (g y)) \<Longrightarrow>
   frames (case x of Inl y \<Rightarrow> f y | Inr y \<Rightarrow> g y)"
  by (cases x) simp_all

lemma frames_prod [frame_rules]: "(\<And>a b. x = (a, b) \<Longrightarrow> frames (g a b)) \<Longrightarrow> frames (case x of (a, b) \<Rightarrow> g a b)"
  by (cases x) simp

lemma frames_prod_applied [frame_rules]:
  "(\<And>a b. x = (a, b) \<Longrightarrow> frames (g a b y)) \<Longrightarrow> frames ((case x of (a, b) \<Rightarrow> g a b) y)"
  by (cases x) simp

lemma frames_each [frame_rules]: "(\<And>c x. frames (f c x)) \<Longrightarrow> frames (each f cs x)"
proof -
  assume f: "\<And>c x. frames (f c x)"
  have "overridden (snd (each f cs x s)) = overridden s" for s
  proof (induction cs arbitrary: x s)
    case (Cons c cs)
    then show ?case using framesD[OF f] by (auto split: prod.splits outcome.splits)
  qed simp
  then show ?thesis by (simp add: frames_def)
qed

lemma frames_call [frame_rules]: "frames (call_out e c ans)"
  by (simp add: frames_def call_out_def Let_def)

lemma frames_ask [frame_rules]: "frames (ask_client e cid c ans)"
  using frames_call by (auto simp: frames_def ask_client_def)

lemma frames_commands [frame_rules]:
  "frames (read_rc_register e cid a)" "frames (rc_command_ok e cid c)" "frames (write_rc_register e cid a v)"
  "frames (set_rc_acquisition_registers e cid regs)" "frames (sleep_tenth e)" "frames (send_hv_command e cid c)"
  unfolding read_rc_register_def rc_command_ok_def write_rc_register_def set_rc_acquisition_registers_def sleep_tenth_def
    send_hv_command_def
  by (intro frame_rules; simp)+

lemma frames_clients [frame_rules]:
  "frames (disable_rc_channels e cids)" "(\<And>n. frames (action n)) \<Longrightarrow> frames (with_number cid nid action)"
  "frames f' \<Longrightarrow> frames (run_client_step f')"
  unfolding disable_rc_channels_def with_number_def run_client_step_def by (intro frame_rules; simp)+

lemma frames_flush [frame_rules]: "frames (flush_client e cid)"
  unfolding flush_client_def flush_producer_def reset_hardware_def reset_pulse_def release_reset_def finish_flush_def
  by (intro frame_rules)

lemma frames_finalization [frame_rules]:
  "frames (close_file_for_client e cid)" "frames (run_hardware_stop_and_flush e cids rst)" "frames (close_lost_client e cid nid)"
  unfolding close_file_for_client_def run_hardware_stop_and_flush_def finalize_each_def configure_acquisition_end_client_def
    close_lost_client_def
  by (intro frame_rules)+

lemma frames_start [frame_rules]: "frames (open_and_start_prepared_clients e cids md)"
  unfolding open_and_start_prepared_clients_def check_prepared_def start_client_def start_opened_def open_file_for_client_def
  by (intro frame_rules)

lemma frames_state: "overridden (note_acquiring cs s) = overridden s" "overridden (clear_session_clients s) = overridden s"
  by (simp_all add: note_acquiring_def request_stop_def Let_def clear_session_clients_def)

lemma frames_wait [frame_rules]: "frames od \<Longrightarrow> frames (wait_acquisition e duration od)"
proof -
  assume od: "frames od"
  have "frames (wait_stop e tm)" for tm
    unfolding wait_stop_def by (intro frame_rules) (simp add: frames_def)
  with od show ?thesis unfolding wait_acquisition_def by (intro frame_rules)
qed

lemma frames_session [frame_rules]:
  assumes "frames od" shows "frames (run_acquisition_session e cids duration od rst)"
proof -
  have body: "frames (session_body e cids duration od)"
    unfolding session_body_def by (intro frame_rules assms) (simp add: frames_state)
  have "overridden (snd (guarded_session e cids duration od rst s)) = overridden s" for s
    using framesD[OF body, of s] framesD[OF frames_finalization(2)[of e cids rst]]
    by (auto simp: guarded_session_def frames_state split: prod.splits outcome.splits)
  then have "frames (guarded_session e cids duration od rst)" by (simp add: frames_def)
  moreover have "frames (finish_session e nids rst p lost res)" for nids p lost res
    unfolding finish_session_def Let_def by (intro frame_rules)
  ultimately show ?thesis unfolding run_acquisition_session_def Let_def by (intro frame_rules) simp_all
qed

section \<open>The dictionary is what is owed\<close>

definition balanced :: "acq_env \<Rightarrow> acq \<Rightarrow> bool" where
  "balanced e s \<longleftrightarrow> overridden s = owed e (trace s)"

lemma keeps_balanced:
  assumes "frames f" and "\<And>d. keeps (on_trace (\<lambda>t. owed e t = d)) f"
  shows "keeps (\<lambda>s. balanced e s \<and> Q (overridden s)) f"
proof -
  have "balanced e (snd (f s)) \<and> Q (overridden (snd (f s))) \<and> fst (f s) \<noteq> Stuck" if "balanced e s \<and> Q (overridden s)" for s
    using that framesD[OF assms(1), of s] keeps_snd[OF assms(2), of s "owed e (trace s)"]
    by (cases "f s") (auto simp: balanced_def)
  then show ?thesis unfolding keeps_def by (intro tripleI) force+
qed

context trace_law begin

lemma hv_kept: "harmless (Sent cid c) \<Longrightarrow> keeps (on_trace T) (send_hv_command e cid c)"
  unfolding send_hv_command_def
  by (intro keeps_rules keeps_change keeps_ask) (auto intro: step harmless_unavailable)

lemma disable_targets_kept: "keeps (on_trace T) (disable_targets e cids)"
  unfolding disable_targets_def by (intro keeps_rules disable_kept)

lemma usable_kept: "keeps (on_trace T) (usable_channels e mode active)"
  unfolding usable_channels_def get_test_rc_channels_def prepare_hv_channels_for_acquisition_def prepare_hv_client_def Let_def
  by (intro keeps_rules hv_kept) simp_all

end

section \<open>Preparing the clients\<close>

lemma frames_disable_targets [frame_rules]: "frames (disable_targets e cids)"
  unfolding disable_targets_def by (intro frame_rules)

lemma frames_usable [frame_rules]: "frames (usable_channels e mode active)"
  unfolding usable_channels_def get_test_rc_channels_def prepare_hv_channels_for_acquisition_def prepare_hv_client_def Let_def
  by (intro frame_rules)

lemma load_calibration_snd: "snd (load_calibration_by_channel e cid serials s) = s \<and> fst (load_calibration_by_channel e cid serials s) \<noteq> Stuck"
  by (auto simp: load_calibration_by_channel_def split: sum.splits option.splits)

lemma frames_resolve [frame_rules]: "frames (resolve_hv_overrides e cid a)"
proof -
  have "frames (load_calibration_by_channel e cid serials)" for serials
    by (simp add: frames_def load_calibration_snd)
  then show ?thesis
    unfolding resolve_hv_overrides_def requested_thresholds_def convert_pe_map_to_mv_def get_pmt_serial_map_def
    by (intro frame_rules)
qed

lemma frames_configure [frame_rules]: "frames (configure_acquisition_client e cid tc chs)"
  unfolding configure_acquisition_client_def by (intro frame_rules; simp)

context trace_law begin

lemma resolve_kept: "keeps (on_trace T) (resolve_hv_overrides e cid a)"
proof -
  have load: "keeps (on_trace T) (load_calibration_by_channel e cid serials)" for serials
    unfolding keeps_def by (rule tripleI) (metis load_calibration_snd fst_conv snd_conv)+
  show ?thesis
    unfolding resolve_hv_overrides_def requested_thresholds_def convert_pe_map_to_mv_def get_pmt_serial_map_def
    by (intro keeps_rules load hv_kept) simp_all
qed

lemma configure_kept: "keeps (on_trace T) (configure_acquisition_client e cid tc chs)"
  unfolding configure_acquisition_client_def set_rc_acquisition_registers_def
  by (intro keeps_rules disable_kept command_kept keeps_change)
     (simp_all add: held_registers_def dict_simps)

end

lemma balanced_steps:
  "keeps (\<lambda>s. balanced e s \<and> Q (overridden s)) (disable_targets e cids)"
  "keeps (\<lambda>s. balanced e s \<and> Q (overridden s)) (disable_rc_channels e cids)"
  "keeps (\<lambda>s. balanced e s \<and> Q (overridden s)) (usable_channels e mode active)"
  "keeps (\<lambda>s. balanced e s \<and> Q (overridden s)) (resolve_hv_overrides e cid a)"
  "keeps (\<lambda>s. balanced e s \<and> Q (overridden s)) (configure_acquisition_client e cid tc chs)"
  by (intro keeps_balanced frame_rules owing.disable_targets_kept owing.disable_kept owing.usable_kept owing.resolve_kept
        owing.configure_kept)+


section \<open>Sending values\<close>

text \<open>
  Replies of the high voltage that can be read: the request does not raise and the channels reported are numbers.
\<close>

definition hv_replies_ok :: "acq_env \<Rightarrow> bool" where
  "hv_replies_ok e \<longleftrightarrow>
    (\<forall>t. case hv_answer e t of
           Inl x \<Rightarrow> False
         | Inr None \<Rightarrow> True
         | Inr (Some r) \<Rightarrow> to_user (hp_applied r) \<noteq> None \<and> to_user (hp_previous r) \<noteq> None)"

lemma hv_replies_okD:
  "hv_replies_ok e \<Longrightarrow> hv_answer e t \<noteq> Inl x"
  "hv_replies_ok e \<Longrightarrow> hv_answer e t = Inr (Some r) \<Longrightarrow>
    \<exists>applied previous. to_user (hp_applied r) = Some applied \<and> to_user (hp_previous r) = Some previous"
  unfolding hv_replies_ok_def by (auto dest!: spec[of _ t])

text \<open>What is owed after a configuration was sent, by what the client reports to have had.\<close>

definition owed_after ::
  "client_id \<Rightarrow> (int, hv_values) dict \<Rightarrow> (int, hv_pair) dict \<Rightarrow> (client_id, (int, hv_pair) dict) dict \<Rightarrow>
   (client_id, (int, hv_pair) dict) dict" where
  "owed_after cid acq previous d =
    (case dict_get d cid of
       Some p \<Rightarrow> if acq = values_back p then dict_pop cid d else d
     | None \<Rightarrow> if previous = [] then d else dict_set cid previous d)"

definition replied_previous :: "hv_reply option \<Rightarrow> (int, hv_pair) dict" where
  "replied_previous reply = (case reply of None \<Rightarrow> [] | Some r \<Rightarrow> reported_previous r)"

definition result_previous :: "(int list \<times> (int, hv_pair) dict) option \<Rightarrow> (int, hv_pair) dict" where
  "result_previous result = (case result of None \<Rightarrow> [] | Some (configured, previous) \<Rightarrow> previous)"

abbreviation holds :: "acq_env \<Rightarrow> (client_id, (int, hv_pair) dict) dict \<Rightarrow> (client_id, (int, hv_pair) dict) dict \<Rightarrow> acq \<Rightarrow> bool" where
  "holds e d debt s \<equiv> overridden s = d \<and> owed e (trace s) = debt"

lemma readable_reply:
  "hv_replies_ok e \<Longrightarrow>
   (\<exists>r applied previous. hv_answer e t = Inr (Some r) \<and> to_user (hp_applied r) = Some applied \<and> to_user (hp_previous r) = Some previous)
   \<or> hv_answer e t = Inr None"
  unfolding hv_replies_ok_def by (drule spec[of _ t]) (auto split: sum.splits option.splits)

lemma owed_configure:
  "owed e (t @ [Unavailable cid (HvConfigure acq w)]) = owed_after cid acq (replied_previous None) (owed e t)"
  "hv_answer e (t @ [Sent cid (HvConfigure acq w)]) = Inr reply \<Longrightarrow>
   owed e (t @ [Sent cid (HvConfigure acq w)]) = owed_after cid acq (replied_previous reply) (owed e t)"
  by (auto simp: owed_simps owed_after_def replied_previous_def split: option.splits)

abbreviation readable :: "hv_reply option \<Rightarrow> bool" where
  "readable reply \<equiv> \<forall>r. reply = Some r \<longrightarrow> to_user (hp_applied r) \<noteq> None \<and> to_user (hp_previous r) \<noteq> None"

lemma send_configure_rule:
  assumes "hv_replies_ok e"
  shows "triple (holds e d debt) (send_hv_command e cid (HvConfigure acq w))
           (\<lambda>reply s. holds e d (owed_after cid acq (replied_previous reply) debt) s \<and> readable reply) never never"
proof -
  have "case send_hv_command e cid (HvConfigure acq w) s of
          (Returned reply, s1) \<Rightarrow> holds e d (owed_after cid acq (replied_previous reply) debt) s1 \<and> readable reply
        | (Raised x, s1) \<Rightarrow> False | (Stuck, s1) \<Rightarrow> False" if "holds e d debt s" for s
    using that readable_reply[OF assms, of "trace s @ [Sent cid (HvConfigure acq w)]"]
    by (auto simp: send_hv_command_def ask_client_def call_out_def andthen_def change_def give_def Let_def owed_configure)
  then show ?thesis unfolding triple_def by blast
qed

lemma apply_rule:
  assumes "hv_replies_ok e"
  shows "triple (holds e d debt) (apply_hv_override e cid acq w)
           (\<lambda>result. holds e d (owed_after cid acq (result_previous result) debt)) never never"
  unfolding apply_hv_override_def
  by (rule triple_andthen[OF send_configure_rule[OF assms]])
     (auto simp: triple_def give_def andthen_def change_def update_sv_def throw_def reported_previous_def replied_previous_def
       result_previous_def split: option.splits)

section \<open>Putting the values back\<close>

lemma dict_keys_pop: "dict_keys (dict_pop k d) = filter (\<lambda>x. x \<noteq> k) (dict_keys d)"
  by (induction d) auto

lemma settle_rule:
  assumes "hv_replies_ok e" "dict_get debt cid = Some p" "p \<noteq> []"
  shows "triple (holds e d debt) (restore_hv_override e cid p) (\<lambda>_. holds e d (dict_pop cid debt)) never never"
proof -
  have "owed_after cid (map (\<lambda>(ch, v). (ch, hv_values_of v)) p) q debt = dict_pop cid debt" for q
    using assms(2) by (simp add: owed_after_def values_back_def)
  then show ?thesis
    using assms(3) apply_rule[OF assms(1), of d debt cid "map (\<lambda>(ch, v). (ch, hv_values_of v)) p" True]
    unfolding restore_hv_override_def Let_def
    by (auto intro!: triple_andthen[where R = "\<lambda>_. holds e d (dict_pop cid debt)"] triple_give)
qed

lemma triple_read_known:
  "(\<And>s. P s \<Longrightarrow> f s = v) \<Longrightarrow> triple P (g v) Q E W \<Longrightarrow> triple P (andthen (reading f) g) Q E W"
  by (auto simp: triple_def andthen_def reading_def)

lemma restore_chosen:
  fixes chosen :: "client_id \<Rightarrow> bool"
  assumes ok: "hv_replies_ok e" and c: "chosen c" "dict_get d c = Some p" "p \<noteq> []"
  shows "triple (holds e d d) (restore_client e chosen c x) (\<lambda>_. holds e (dict_pop c d) (dict_pop c d)) never never"
proof -
  have "triple (holds e (dict_pop c d) d)
      (andthen (restore_hv_override e c p) (\<lambda>(restored, not_restored). give
         (if p \<noteq> [] \<and> restored = [] then x @ [c] else x)))
      (\<lambda>_. holds e (dict_pop c d) (dict_pop c d)) never never"
    by (rule triple_andthen[OF settle_rule[OF ok c(2,3)]]) (auto intro: triple_give)
  note rest = this
  have "triple (holds e d d)
     (andthen (change (\<lambda>s. s\<lparr>overridden := dict_pop c (overridden s)\<rparr>)) (\<lambda>_.
        andthen (restore_hv_override e c p) (\<lambda>(restored, not_restored). give
          (if p \<noteq> [] \<and> restored = [] then x @ [c] else x))))
     (\<lambda>_. holds e (dict_pop c d) (dict_pop c d)) never never"
    by (rule triple_andthen[OF triple_change rest]) simp
  then show ?thesis
    unfolding restore_client_def using c by (auto intro: triple_read_known[where v = "Some p"])
qed

text \<open>What is left while the clients \<open>done\<close> of \<open>cids\<close> have been looked at.\<close>

definition left_to_restore :: "(client_id \<Rightarrow> bool) \<Rightarrow> client_id list \<Rightarrow> client_id list \<Rightarrow> client_id list" where
  "left_to_restore chosen cids looked = filter (\<lambda>c. c \<notin> set looked \<or> \<not> chosen c) cids"

definition restoring :: "acq_env \<Rightarrow> client_id list \<Rightarrow> acq \<Rightarrow> bool" where
  "restoring e cids s \<longleftrightarrow> (\<exists>d. dict_keys d = cids \<and> holds e d d s)"

lemma restoring_balanced: "restoring e cids s \<longleftrightarrow> balanced e s \<and> dict_keys (overridden s) = cids"
  by (auto simp: restoring_def balanced_def)

lemma triple_restoring:
  "(\<And>d. dict_keys d = cids \<Longrightarrow> dict_ok d \<Longrightarrow> (\<And>c p. (c, p) \<in> set d \<Longrightarrow> p \<noteq> []) \<Longrightarrow> triple (holds e d d) f Q E W) \<Longrightarrow>
   triple (restoring e cids) f Q E W"
  unfolding restoring_def
proof (rule triple_exists)
  fix d
  assume step: "\<And>d. dict_keys d = cids \<Longrightarrow> dict_ok d \<Longrightarrow> (\<And>c p. (c, p) \<in> set d \<Longrightarrow> p \<noteq> []) \<Longrightarrow> triple (holds e d d) f Q E W"
  show "triple (\<lambda>s. dict_keys d = cids \<and> holds e d d s) f Q E W"
  proof (cases "\<exists>t. owed e t = d")
    case True
    then show ?thesis using step[of d] owed_dict_ok owed_nonempty by (intro triple_context) blast
  qed (simp add: triple_def)
qed

lemma restore_client_rule:
  assumes ok: "hv_replies_ok e" and cids: "cids = looked @ c # rest" "distinct cids"
  shows "triple (restoring e (left_to_restore chosen cids looked)) (restore_client e chosen c x)
    (\<lambda>_. restoring e (left_to_restore chosen cids (looked @ [c]))) never never"
proof (cases "chosen c")
  case False
  then have "left_to_restore chosen cids (looked @ [c]) = left_to_restore chosen cids looked"
    by (auto simp: left_to_restore_def intro!: filter_cong)
  then show ?thesis using False by (auto simp: restore_client_def intro!: triple_give)
next
  case True
  have left: "left_to_restore chosen cids (looked @ [c]) = filter (\<lambda>k. k \<noteq> c) (left_to_restore chosen cids looked)"
    using True by (auto simp: left_to_restore_def intro!: filter_cong)
  show ?thesis
  proof (rule triple_restoring)
    fix d :: "(client_id, (int, hv_pair) dict) dict"
    assume d: "dict_keys d = left_to_restore chosen cids looked" "dict_ok d" "\<And>c p. (c, p) \<in> set d \<Longrightarrow> p \<noteq> []"
    have "c \<in> set (dict_keys d)" using cids by (simp add: d(1) left_to_restore_def)
    then obtain p where p: "(c, p) \<in> set d" by auto
    then have had: "dict_get d c = Some p" using d(2) by (simp add: dict_ok_def)
    have undo: "triple (holds e d d) (restore_client e chosen c x) (\<lambda>_. holds e (dict_pop c d) (dict_pop c d)) never never"
      by (rule restore_chosen[where chosen = chosen, OF ok _ had]) (use True d(3)[OF p] in simp_all)
    show "triple (holds e d d) (restore_client e chosen c x)
        (\<lambda>_. restoring e (left_to_restore chosen cids (looked @ [c]))) never never"
      by (rule triple_post[OF undo]) (auto simp: restoring_def left d(1)[symmetric] dict_keys_pop)
  qed
qed

lemma restore_all_rule:
  assumes ok: "hv_replies_ok e"
  shows "triple (restoring e cids) (restore_hv_overrides e chosen)
    (\<lambda>_. restoring e (filter (\<lambda>c. \<not> chosen c) cids)) never never"
proof (cases "distinct cids")
  case True
  have "triple (restoring e (left_to_restore chosen cids [])) (each (restore_client e chosen) cids [])
      (\<lambda>_. restoring e (left_to_restore chosen cids ([] @ cids))) never never"
    by (rule triple_each_split[where I = "\<lambda>looked _. restoring e (left_to_restore chosen cids looked)"])
       (use restore_client_rule[OF ok _ True] in auto)
  moreover have "left_to_restore chosen cids [] = cids" "left_to_restore chosen cids cids = filter (\<lambda>c. \<not> chosen c) cids"
    by (auto simp: left_to_restore_def intro!: filter_cong)
  ultimately show ?thesis unfolding restore_hv_overrides_def
    by (auto intro!: triple_read_known[where v = cids] simp: restoring_balanced)
next
  case False
  then have "restoring e cids s \<longleftrightarrow> False" for s using owed_dict_ok[of e "trace s"] by (auto simp: restoring_def dict_ok_def)
  then show ?thesis by (simp add: triple_def)
qed


section \<open>Preparing\<close>

definition debts_in :: "acq_env \<Rightarrow> client_id set \<Rightarrow> acq \<Rightarrow> bool" where
  "debts_in e K s \<longleftrightarrow> balanced e s \<and> set (dict_keys (overridden s)) \<subseteq> K"

lemma debts_in_all: "debts_in e UNIV = balanced e"
  by (simp add: debts_in_def fun_eq_iff)

lemma debts_in_none: "debts_in e {} s \<longleftrightarrow> balanced e s \<and> overridden s = []"
  by (simp add: debts_in_def)

lemma debts_in_mono: "debts_in e K s \<Longrightarrow> K \<subseteq> L \<Longrightarrow> debts_in e L s"
  by (auto simp: debts_in_def)

lemma frames_event [frame_rules]: "frames (orchestrator_event e ev r md)"
  by (auto simp: frames_def orchestrator_event_def Let_def split: prod.splits) (metis server_event_frame(3) snd_conv)

lemma keeps_event: "keeps (on_trace T) (orchestrator_event e ev r md)"
  unfolding keeps_def
  by (rule tripleI; simp add: orchestrator_event_def Let_def split: prod.splits; metis server_event_frame(1) snd_conv)

lemma debts_steps:
  "keeps (debts_in e K) (disable_targets e cids)"
  "keeps (debts_in e K) (disable_rc_channels e cids)"
  "keeps (debts_in e K) (usable_channels e mode active)"
  "keeps (debts_in e K) (resolve_hv_overrides e cid a)"
  "keeps (debts_in e K) (configure_acquisition_client e cid tc chs)"
  "keeps (debts_in e K) (orchestrator_event e ev r md)"
  using balanced_steps[of e "\<lambda>d. set (dict_keys d) \<subseteq> K"]
    keeps_balanced[of _ e "\<lambda>d. set (dict_keys d) \<subseteq> K", OF frames_event keeps_event]
  by (simp_all add: debts_in_def[abs_def])

lemma debts_step: "keeps (debts_in e K) f \<Longrightarrow> triple (debts_in e K) f (\<lambda>_. debts_in e K) (balanced e) never"
  by (rule triple_conseq, erule keepsD) (auto simp: debts_in_def)

lemma restoring_debts: "restoring e cids s \<Longrightarrow> debts_in e K s \<longleftrightarrow> set cids \<subseteq> K"
  unfolding restoring_balanced debts_in_def by metis

lemma restore_debts:
  assumes ok: "hv_replies_ok e"
  shows "triple (debts_in e K) (restore_hv_overrides e chosen) (\<lambda>_. debts_in e (K - Collect chosen)) W never"
proof -
  have "triple (restoring e cids) (restore_hv_overrides e chosen) (\<lambda>_. debts_in e (K - Collect chosen)) W never"
    if "set cids \<subseteq> K" for cids
    using that by (intro triple_conseq[OF restore_all_rule[OF ok]]) (auto simp: restoring_debts)
  then have "triple (\<lambda>s. \<exists>cids. set cids \<subseteq> K \<and> restoring e cids s) (restore_hv_overrides e chosen)
      (\<lambda>_. debts_in e (K - Collect chosen)) W never"
    by (intro triple_exists triple_context)
  then show ?thesis by (rule triple_pre) (metis debts_in_def restoring_balanced)
qed

lemma apply_override_debts:
  assumes ok: "hv_replies_ok e" and new: "cid \<notin> K"
  shows "triple (debts_in e K) (apply_override e cid hv channels d) (\<lambda>_. debts_in e (insert cid K)) (balanced e) never"
proof -
  let ?debt = "\<lambda>result x. if result_previous result = [] then x else dict_set cid (result_previous result) x"
  have applied: "triple (debts_in e K) (apply_hv_override e cid hv True)
      (\<lambda>result s. set (dict_keys (overridden s)) \<subseteq> K \<and> owed e (trace s) = ?debt result (overridden s)) (balanced e) never"
  proof -
    have "triple (\<lambda>s. \<exists>x. set (dict_keys x) \<subseteq> K \<and> holds e x x s) (apply_hv_override e cid hv True)
      (\<lambda>result s. set (dict_keys (overridden s)) \<subseteq> K \<and> owed e (trace s) = ?debt result (overridden s)) (balanced e) never"
    proof (intro triple_exists triple_context, rule triple_conseq[OF apply_rule[OF ok]])
      fix x result s
      assume "set (dict_keys x) \<subseteq> K" "holds e x (owed_after cid hv (result_previous result) x) s"
      moreover from this(1) new have "dict_get x cid = None" by (metis map_of_eq_None_iff set_map subsetD)
      ultimately show "set (dict_keys (overridden s)) \<subseteq> K \<and> owed e (trace s) = ?debt result (overridden s)"
        by (simp add: owed_after_def)
    qed simp_all
    then show ?thesis by (rule triple_pre) (metis debts_in_def balanced_def)
  qed
  have noted: "triple (\<lambda>s. set (dict_keys (overridden s)) \<subseteq> K \<and> owed e (trace s) = ?debt (Some (conf, previous)) (overridden s))
      (change (\<lambda>s. if previous = [] then s else s\<lparr>overridden := dict_set cid previous (overridden s)\<rparr>))
      (\<lambda>_. debts_in e (insert cid K)) (balanced e) never" for conf previous
    by (rule triple_change) (auto simp: result_previous_def debts_in_def balanced_def AList.dom_update)
  have undone: "triple (debts_in e (insert cid K)) (andthen (restore_hv_overrides e (\<lambda>c. c = cid)) (\<lambda>_. give x))
      (\<lambda>_. debts_in e (insert cid K)) (balanced e) never" for x :: client_channels
    by (rule triple_andthen[OF restore_debts[OF ok]]) (auto intro: triple_give debts_in_mono)
  show ?thesis
    unfolding apply_override_def Let_def
  proof (rule triple_andthen[OF applied], rule triple_option)
    show "triple (\<lambda>s. set (dict_keys (overridden s)) \<subseteq> K \<and> owed e (trace s) = ?debt x (overridden s))
      (give (dict_pop cid d)) (\<lambda>_. debts_in e (insert cid K)) (balanced e) never" if "x = None" for x
      using that by (intro triple_give) (simp add: result_previous_def debts_in_def balanced_def subset_insertI2)
  next
    fix x and y :: "int list \<times> (int, hv_pair) dict" assume x: "x = Some y"
    show "triple (\<lambda>s. set (dict_keys (overridden s)) \<subseteq> K \<and> owed e (trace s) = ?debt x (overridden s))
      (case y of (configured, previous) \<Rightarrow>
          andthen (change (\<lambda>s. if previous = [] then s else s\<lparr>overridden := dict_set cid previous (overridden s)\<rparr>)) (\<lambda>_.
            if exclude_channels channels (filter (\<lambda>ch. ch \<notin> set configured) (dict_keys hv)) = [] then
                 andthen (restore_hv_overrides e (\<lambda>c. c = cid)) (\<lambda>_. give (dict_pop cid d))
               else give (dict_set cid (exclude_channels channels (filter (\<lambda>ch. ch \<notin> set configured) (dict_keys hv))) d)))
      (\<lambda>_. debts_in e (insert cid K)) (balanced e) never"
      unfolding x by (intro triple_prod; simp only:; rule triple_andthen[OF noted]) (auto intro: triple_give undone)
  qed
qed


lemma override_client_debts:
  assumes ok: "hv_replies_ok e" and new: "fst c \<notin> K"
  shows "triple (debts_in e K) (override_client e a c d) (\<lambda>_. debts_in e (insert (fst c) K)) (balanced e) never"
proof -
  have stay: "triple (debts_in e K) (give x) (\<lambda>_. debts_in e (insert (fst c) K)) (balanced e) never" for x :: client_channels
    by (rule triple_give) (auto intro: debts_in_mono)
  show ?thesis
    unfolding override_client_def Let_def
    by (cases c; simp only: prod.case; rule triple_andthen[OF debts_step[OF debts_steps(4)]])
       (use stay new in \<open>auto intro!: triple_option apply_override_debts[OF ok]\<close>)
qed

lemma override_each_debts:
  assumes ok: "hv_replies_ok e" and d3: "dict_ok d3"
  shows "triple (debts_in e {}) (each (override_client e a) d3 x) (\<lambda>_. balanced e) (balanced e) never"
proof -
  have "triple (debts_in e (fst ` set ([] :: client_channels))) (each (override_client e a) d3 x) (\<lambda>_. debts_in e (fst ` set d3)) (balanced e) never"
  proof (rule triple_each_split[where pre = "[] :: client_channels" and cs = d3 and I = "\<lambda>(looked :: client_channels) (y :: client_channels). debts_in e (fst ` set looked)", unfolded append_Nil])
    fix looked c rest y assume "d3 = looked @ c # rest"
    with d3 have "fst c \<notin> fst ` set looked" by (auto simp: dict_ok_def)
    then show "triple (debts_in e (fst ` set looked)) (override_client e a c y)
        (\<lambda>_. debts_in e (fst ` set (looked @ [c]))) (balanced e) never"
      using override_client_debts[OF ok, of c "fst ` set looked" a y] by simp
  qed
  then show ?thesis by (rule triple_conseq) (auto simp: debts_in_def)
qed

lemma configure_each_debts:
  assumes ok: "hv_replies_ok e"
  shows "triple (balanced e) (each (configure_prepared e tc) d4 x) (\<lambda>_. balanced e) (balanced e) never"
proof (rule triple_each)
  fix c y
  show "triple (balanced e) (configure_prepared e tc c y) (\<lambda>_. balanced e) (balanced e) never"
  proof (cases c)
    case (Pair cid channels)
    have put_back: "triple (balanced e) (andthen (restore_hv_overrides e (\<lambda>k. k = cid)) (\<lambda>_. give y)) (\<lambda>_. balanced e) (balanced e) never"
      by (rule triple_andthen[OF restore_debts[where K = UNIV, OF ok, unfolded debts_in_all]])
         (auto intro: triple_give simp: debts_in_def)
    show ?thesis
      unfolding Pair configure_prepared_def prod.case
      by (rule triple_andthen[OF debts_step[where K = UNIV, OF debts_steps(5), unfolded debts_in_all]]) (auto intro: triple_give put_back)
  qed
qed

lemma returns_each:
  "(\<And>c x. P x \<Longrightarrow> returns (f c x) P) \<Longrightarrow> P x \<Longrightarrow> returns (each f cs x) P"
proof (induction cs arbitrary: x)
  case (Cons c cs)
  have "P y" if "f c x s = (Returned y, s1)" for y s s1 using that Cons.prems unfolding returns_def by blast
  then have "returns (each f cs y) P" if "f c x s = (Returned y, s1)" for y s s1 using Cons that by blast
  then show ?case unfolding returns_def by (fastforce split: prod.splits outcome.splits)
qed (simp add: returns_def)

lemma keep_nonempty_ok: "dict_ok d \<Longrightarrow> dict_ok (keep_nonempty cid chs d)"
  by (simp add: keep_nonempty_def)

lemma fold_dict_ok: "(\<And>x d. dict_ok d \<Longrightarrow> dict_ok (f x d)) \<Longrightarrow> dict_ok d \<Longrightarrow> dict_ok (fold f xs d)"
  by (induction xs arbitrary: d) auto

lemma usable_channels_ok: "returns (usable_channels e mode active) dict_ok"
  unfolding usable_channels_def
  by (intro returns_rules returns_each) (auto intro!: keep_nonempty_ok fold_dict_ok split: option.splits)

lemma calibrated_channels_ok: "dict_ok d \<Longrightarrow> dict_ok (calibrated_channels mode d s)"
  by (auto simp: calibrated_channels_def replace_channels_def intro!: fold_dict_ok)

lemma prepare_debts:
  assumes ok: "hv_replies_ok e"
  shows "triple (debts_in e {}) (prepare_clients e args cids tc) (\<lambda>_. balanced e) (balanced e) never"
  unfolding prepare_clients_def
proof (intro triple_read_any triple_andthen[OF debts_step[OF debts_steps(1)]])
  fix mode active
  have rest: "triple (\<lambda>s. debts_in e {} s \<and> dict_ok d2)
      (andthen (reading (calibrated_channels mode d2)) (\<lambda>d3.
        andthen (each (override_client e (sa_override args)) d3 d3) (\<lambda>d4. each (configure_prepared e tc) d4 [])))
      (\<lambda>_. balanced e) (balanced e) never" for d2
  proof (rule triple_read)
    fix d3
    have "triple (\<lambda>s. dict_ok d3 \<and> debts_in e {} s)
       (andthen (each (override_client e (sa_override args)) d3 d3) (\<lambda>d4. each (configure_prepared e tc) d4 []))
       (\<lambda>_. balanced e) (balanced e) never"
      by (intro triple_context triple_andthen[OF override_each_debts[OF ok] configure_each_debts[OF ok]])
    then show "triple (\<lambda>s. (debts_in e {} s \<and> dict_ok d2) \<and> d3 = calibrated_channels mode d2 s)
       (andthen (each (override_client e (sa_override args)) d3 d3) (\<lambda>d4. each (configure_prepared e tc) d4 []))
       (\<lambda>_. balanced e) (balanced e) never"
      by (rule triple_pre) (auto intro: calibrated_channels_ok)
  qed
  show "triple (debts_in e {})
      (andthen (usable_channels e mode active) (\<lambda>d2.
        andthen (reading (calibrated_channels mode d2)) (\<lambda>d3.
          andthen (each (override_client e (sa_override args)) d3 d3) (\<lambda>d4. each (configure_prepared e tc) d4 []))))
      (\<lambda>_. balanced e) (balanced e) never"
    by (rule triple_andthen[OF triple_returns[OF debts_step[OF debts_steps(3)] usable_channels_ok] rest])
qed


section \<open>Starting\<close>

text \<open>What the thread of the session is handed, nothing if no session was started.\<close>

definition handed_over :: "session_job option \<Rightarrow> (client_id, (int, hv_pair) dict) dict" where
  "handed_over job = (case job of None \<Rightarrow> [] | Some j \<Rightarrow> job_previous j)"

abbreviation settled :: "acq_env \<Rightarrow> session_job option \<Rightarrow> acq \<Rightarrow> bool" where
  "settled e job s \<equiv> owed e (trace s) = handed_over job"

lemma give_none: "triple (debts_in e {}) (give None) (settled e) E W"
  by (rule triple_give) (auto simp: debts_in_none balanced_def handed_over_def)

lemma restore_everything:
  "hv_replies_ok e \<Longrightarrow> triple (balanced e) (restore_hv_overrides e (\<lambda>_. True)) (\<lambda>_. debts_in e {}) E never"
  using restore_debts[where K = UNIV and chosen = "\<lambda>_. True"] by (simp add: debts_in_all)

lemmas balanced_step = debts_step[where K = UNIV, unfolded debts_in_all]
lemmas balanced_disable = balanced_step[OF debts_steps(2)[where K = UNIV, unfolded debts_in_all]]
lemmas balanced_event = balanced_step[OF debts_steps(6)[where K = UNIV, unfolded debts_in_all]]

lemma give_up_settles:
  "hv_replies_ok e \<Longrightarrow> triple (balanced e) (give_up e ready) (settled e) (balanced e) never"
  unfolding give_up_def
  by (rule triple_andthen[OF balanced_disable], rule triple_andthen[OF restore_everything give_none])

lemma launch_settles: "triple (balanced e) (launch_session e args ready) (settled e) (balanced e) never"
proof -
  have call: "triple (\<lambda>s. holds e previous previous s) (call_out e StartThread (thread_started e))
      (\<lambda>_ s. holds e previous previous s) (balanced e) never" for previous
  proof -
    have "keeps (\<lambda>s. balanced e s \<and> overridden s = previous) (call_out e StartThread (thread_started e))"
      by (intro keeps_balanced[where Q = "\<lambda>d. d = previous"] frame_rules keeps_call) (simp add: owed_harmless)
    note kept = this
    show ?thesis by (rule triple_conseq[OF keepsD[OF kept]]) (auto simp: balanced_def)
  qed
  have ending: "triple (\<lambda>s. holds e previous previous s)
      (andthen (change (\<lambda>s. s\<lparr>overridden := []\<rparr>)) (\<lambda>_.
         give (Some \<lparr>job_clients = ready, job_duration = sa_duration args, job_previous = previous\<rparr>)))
      (settled e) (balanced e) never" for previous
    by (rule triple_andthen[OF triple_change[where Q = "\<lambda>_ s. owed e (trace s) = previous"] triple_give])
       (auto simp: handed_over_def)
  have reading: "triple (balanced e)
      (andthen (reading overridden) (\<lambda>previous.
        andthen (call_out e StartThread (thread_started e)) (\<lambda>_.
          andthen (change (\<lambda>s. s\<lparr>overridden := []\<rparr>)) (\<lambda>_.
            give (Some \<lparr>job_clients = ready, job_duration = sa_duration args, job_previous = previous\<rparr>)))))
      (settled e) (balanced e) never"
    by (rule triple_read) (rule triple_pre[OF triple_andthen[OF call ending]], auto simp: balanced_def)
  show ?thesis
    unfolding launch_session_def
    by (rule triple_andthen[OF triple_change reading]) (auto simp: balanced_def begin_session_def)
qed

lemma start_prepared_settles:
  "hv_replies_ok e \<Longrightarrow> triple (balanced e) (start_prepared e args ready) (settled e) (balanced e) never"
  unfolding start_prepared_def
  by (intro triple_read_any triple_if give_up_settles triple_andthen[OF balanced_event] launch_settles)

lemma prepare_and_start_settles:
  assumes ok: "hv_replies_ok e"
  shows "triple (debts_in e {}) (prepare_and_start e args cids tc) (settled e) (balanced e) never"
proof -
  have failed: "triple (debts_in e {}) (andthen (orchestrator_event e ev r md) (\<lambda>_. give None)) (settled e) (balanced e) never"
    for ev r md
    by (rule triple_andthen[OF debts_step[OF debts_steps(6)] give_none])
  show ?thesis
    unfolding prepare_and_start_def Let_def
    by (rule triple_andthen[OF prepare_debts[OF ok]], rule triple_if, rule triple_andthen[OF restore_everything[OF ok] failed],
        rule triple_andthen[OF balanced_event], rule triple_if, rule triple_andthen[OF balanced_event give_up_settles[OF ok]],
        rule start_prepared_settles[OF ok])
qed

lemma abort_start_settles:
  assumes ok: "hv_replies_ok e"
  shows "triple (balanced e) (abort_start e) (settled e) never never"
proof -
  have event: "triple (debts_in e {}) (orchestrator_event e ev r md) (\<lambda>_. debts_in e {}) never never" for ev r md
    by (rule tripleI; simp add: orchestrator_event_def Let_def debts_in_none balanced_def split: prod.splits;
        metis server_event_frame(1,3) snd_conv)
  have closed: "triple (debts_in e {}) (change (close_session e False why)) (\<lambda>_. debts_in e {}) never never" for why
    by (rule triple_change) (auto simp: close_session_def debts_in_none balanced_def Let_def)
  have restored: "triple (balanced e)
      (catching (andthen (restore_hv_overrides e (\<lambda>_. True)) (\<lambda>_. give ())) (\<lambda>_. give ())) (\<lambda>_. debts_in e {}) never never"
    by (rule triple_catching[where E' = never], rule triple_andthen[OF restore_everything[OF ok]])
       (simp_all add: triple_def give_def)
  show ?thesis
    unfolding abort_start_def
    by (rule triple_andthen[OF restored], rule triple_read_any, intro triple_if triple_andthen[OF event give_none]
        triple_andthen[OF closed give_none] give_none)
qed


lemma start_settles:
  assumes ok: "hv_replies_ok e"
  shows "triple (\<lambda>s. owed e (trace s) = []) (start_acquisition e args) (settled e) never never"
proof -
  have none: "triple (\<lambda>s. owed e (trace s) = []) (give None) (settled e) never never"
    by (rule triple_give) (simp add: handed_over_def)
  have event: "triple (\<lambda>s. owed e (trace s) = []) (orchestrator_event e ev r md) (\<lambda>_ s. owed e (trace s) = []) never never"
    for ev r md
    by (rule tripleI; simp add: orchestrator_event_def Let_def split: prod.splits; metis server_event_frame(1) snd_conv)
  have prepare: "triple (debts_in e {}) (catching (prepare_and_start e args cids tc) (\<lambda>_. abort_start e)) (settled e) never never"
    for cids tc
    by (rule triple_catching[OF prepare_and_start_settles[OF ok] abort_start_settles[OF ok]])
  have cleared: "triple (\<lambda>s. owed e (trace s) = []) (change (\<lambda>s. s\<lparr>overridden := []\<rparr>)) (\<lambda>_. debts_in e {}) never never"
    by (rule triple_change) (simp add: debts_in_none balanced_def)
  show ?thesis
    unfolding start_acquisition_def Let_def
    by (rule triple_read_any, intro triple_if triple_option none, rule triple_andthen[OF event], rule triple_if, rule none,
        rule triple_andthen[OF cleared prepare])
qed


section \<open>The thread of the session\<close>

lemma frames_elapsed [frame_rules]: "frames (on_duration_elapsed e)"
  unfolding on_duration_elapsed_def by (intro frame_rules)

lemma silent_elapsed: "silent (on_duration_elapsed e)"
  by (auto simp: silent_def on_duration_elapsed_def orchestrator_event_def andthen_def give_def Let_def split: prod.splits)
     (metis server_event_frame(1) snd_conv)

lemma owing_flush: "keeps (on_trace (\<lambda>t. owed e t = d)) (flush_client e cid)"
  unfolding flush_client_def flush_producer_def reset_hardware_def reset_pulse_def release_reset_def finish_flush_def
    write_rc_register_def sleep_tenth_def
  by (intro keeps_rules keeps_read keeps_rc_command keeps_call) (simp_all add: owed_simps)

lemma owing_start: "keeps (on_trace (\<lambda>t. owed e t = d)) (start_client e (cid, msk) p)"
  unfolding start_client_def start_opened_def open_file_for_client_def write_rc_register_def prod.case
  by (intro keeps_rules keeps_rc_command keeps_call owing.disable_kept owing.close_kept) (simp_all add: owed_simps)


lemma frames_balanced:
  assumes "frames f" and "\<And>d. triple (on_trace (\<lambda>t. owed e t = d)) f (\<lambda>_. on_trace (\<lambda>t. owed e t = d))
    (on_trace (\<lambda>t. owed e t = d)) (on_trace (\<lambda>t. owed e t = d))"
  shows "triple (balanced e) f (\<lambda>_. balanced e) (balanced e) anything"
proof -
  have step: "balanced e s1" if run: "f s = (r, s1)" and bal: "balanced e s" for s r s1
  proof -
    note same = tripleD[OF assms(2)[of "owed e (trace s)"], of s, OF refl]
    have "owed e (trace s1) = owed e (trace s)"
    proof (cases r)
      case (Returned x) with run show ?thesis using same(1) by blast
    next
      case (Raised x) with run show ?thesis using same(2) by blast
    next
      case Stuck with run show ?thesis using same(3) by blast
    qed
    with bal framesD[OF assms(1) run] show ?thesis by (simp add: balanced_def)
  qed
  show ?thesis by (rule tripleI) (erule (1) step, erule (1) step, rule TrueI)
qed

lemma session_balanced:
  "triple (balanced e) (run_acquisition_session e cids duration (on_duration_elapsed e) rst) (\<lambda>_. balanced e) (balanced e) anything"
  by (rule frames_balanced[OF frames_session[OF frames_elapsed] owing.session_kept[OF owing_flush owing_start silent_elapsed]])

lemma run_session_settles:
  assumes ok: "hv_replies_ok e"
  shows "triple (\<lambda>s. owed e (trace s) = job_previous job) (run_session e job) (\<lambda>_. debts_in e {}) never anything"
proof -
  have taken: "triple (\<lambda>s. owed e (trace s) = job_previous job) (change (\<lambda>s. s\<lparr>overridden := job_previous job\<rparr>))
      (\<lambda>_. balanced e) never anything"
    by (rule triple_change) (simp add: balanced_def)
  have session: "triple (balanced e)
      (catching (andthen (run_acquisition_session e (job_clients job) (job_duration job) (on_duration_elapsed e) True)
         (\<lambda>res. give (session_success res))) (\<lambda>_. give False)) (\<lambda>_. balanced e) never anything"
    by (rule triple_catching[OF triple_andthen[OF session_balanced triple_give] triple_give])
  have restored: "triple (balanced e) (catching (restore_hv_overrides e (\<lambda>_. True)) (\<lambda>_. give [])) (\<lambda>_. debts_in e {}) never anything"
    by (rule triple_catching[where E' = never], rule triple_conseq[OF restore_everything[OF ok]]) (simp_all add: triple_def)
  have closed: "triple (debts_in e {}) (change (close_session e success why)) (\<lambda>_. debts_in e {}) never anything" for success why
    by (rule triple_change) (auto simp: close_session_def debts_in_none balanced_def Let_def)
  show ?thesis
    unfolding run_session_def
    by (rule triple_andthen[OF taken], rule triple_andthen[OF session], rule triple_andthen[OF restored],
        rule triple_andthen[OF closed], rule triple_change) (auto simp: debts_in_none balanced_def update_sv_def)
qed


section \<open>An instance\<close>

text \<open>Boards that take every voltage, and had 900 V on channel 0 and 950 V on channel 1.\<close>

definition example_hv_reply :: "acq_call \<Rightarrow> hv_reply" where
  "example_hv_reply c =
    \<lparr>hp_ok = True, hp_error = False, hp_requested = [], hp_ok_channels = [1, 2], hp_on = [1, 2], hp_off = [], hp_bad = [],
      hp_fixed_bad = [], hp_successful = [1, 2], hp_up = [], hp_failed = [], hp_skipped = [],
      hp_applied = [(''1'', \<lparr>pair_voltage = 1000, pair_threshold = 30\<rparr>), (''2'', \<lparr>pair_voltage = 1000, pair_threshold = 30\<rparr>)],
      hp_previous = [(''1'', \<lparr>pair_voltage = 900, pair_threshold = 30\<rparr>), (''2'', \<lparr>pair_voltage = 950, pair_threshold = 30\<rparr>)],
      hp_serials = []\<rparr>"

definition override_env :: acq_env where
  "override_env = (example_env [StopCommand])\<lparr>hv_answer := \<lambda>t. Inr (Some (example_hv_reply (last t)))\<rparr>"

definition override_client_record :: client_record where
  "override_client_record = example_client\<lparr>state := C_READY,
     configuration_identity := Some [(''batch_id'', ''b1''), (''multipmt_id'', ''m1'')]\<rparr>"

definition override_start :: acq where
  "override_start = init_acquisition_service ((init_server_state ''multipmt'')
     \<lparr>clients := [(''a'', override_client_record)], run_state := S_READY\<rparr>)"


definition override_run_args :: start_args where
  "override_run_args = \<lparr>sa_trigger = \<lparr>trigger_mode = ''self'', ar_window_ns = 0, ar_delay_ns = 0, trigger_input = [],
     ar_polarity = [], ar_save_auto = False, ar_save_external = False, ar_auto_logic = [], ar_multiplicity = None, ar_channels = None\<rparr>,
     sa_override = example_override\<lparr>ov_voltage := Some 1000\<rparr>, sa_duration = None\<rparr>"

lemma override_env_ok: "hv_replies_ok override_env"
proof -
  have "to_user (hp_applied (example_hv_reply c)) \<noteq> None \<and> to_user (hp_previous (example_hv_reply c)) \<noteq> None" for c
  proof -
    have "hp_applied (example_hv_reply c) = hp_applied (example_hv_reply SleepTenth)"
      "hp_previous (example_hv_reply c) = hp_previous (example_hv_reply SleepTenth)" by (simp_all add: example_hv_reply_def)
    moreover have "to_user (hp_applied (example_hv_reply SleepTenth)) \<noteq> None \<and> to_user (hp_previous (example_hv_reply SleepTenth)) \<noteq> None"
      by code_simp
    ultimately show ?thesis by simp
  qed
  then show ?thesis by (simp add: hv_replies_ok_def override_env_def)
qed

definition example_job :: session_job where
  "example_job = \<lparr>job_clients = [''a''], job_duration = None,
     job_previous = [(''a'', [(0, \<lparr>pair_voltage = 900, pair_threshold = 30\<rparr>), (1, \<lparr>pair_voltage = 950, pair_threshold = 30\<rparr>)])]\<rparr>"


definition after_start :: acq where
  "after_start = snd (start_acquisition override_env override_run_args override_start)"


end
