(* ===== verification/MonitorStreams.thy ===== *)
theory MonitorStreams
  imports Complex_Main Protocol
begin

text \<open>
  The sample streams of the monitoring plane (\<open>server/services/monitor_stream_service.py\<close>) and the dispatcher that hands a
  sample to the consumers it is due to (\<open>server/services/monitor_sample_dispatcher.py\<close>). A stream is a client and a
  section; the producer on the client runs at the interval of its fastest consumer. An operation on a stream holds the producer lock
  of the stream while the client answers: it is split into what is done before the answer and what is done after it, and other
  threads act in between, except on the stream that is locked, where only deliveries go on.
\<close>

section \<open>State\<close>

type_synonym stream_key = "string \<times> Channel"

record StreamSubscription =
  requested_interval :: int
  next_delivery :: int

record MonitorStreamState =
  stream_active :: bool
  desired_interval :: "int option"
  active_interval :: "int option"
  consumers :: "(string, StreamSubscription) dict"

datatype StreamProducerAction = PA_NONE | PA_START | PA_RECONFIGURE | PA_STOP

text \<open>
  An operation that waits for the client: what it asked of the producer, whether a failure restores the stream, and the stream as it
  was before.
\<close>

record pending_update =
  pu_action :: StreamProducerAction
  pu_desired :: "int option"
  pu_rollback :: bool
  pu_previous :: "MonitorStreamState option"

text \<open>Calls that leave the service and wait.\<close>

datatype sample_call =
    SyncClient string
  | SampleStart string Channel int
  | SampleStop string Channel
  | IsConnected string
  | RetrySleep

record stream_service =
  streamers :: "(stream_key, MonitorStreamState) dict"
  locked :: "(stream_key, pending_update) dict"
  reconcile_running :: "string list"
  reconcile_again :: "string list"
  sample_calls :: "sample_call list"

definition init_streams :: stream_service where
  "init_streams = \<lparr>streamers = [], locked = [], reconcile_running = [], reconcile_again = [], sample_calls = []\<rparr>"

definition new_stream :: MonitorStreamState where
  "new_stream = \<lparr>stream_active = False, desired_interval = None, active_interval = None, consumers = []\<rparr>"

definition get_or_create_stream :: "stream_key \<Rightarrow> stream_service \<Rightarrow> MonitorStreamState" where
  "get_or_create_stream k s = (case dict_get (streamers s) k of Some st \<Rightarrow> st | None \<Rightarrow> new_stream)"

definition put_stream :: "stream_key \<Rightarrow> MonitorStreamState \<Rightarrow> stream_service \<Rightarrow> stream_service" where
  "put_stream k st s = s\<lparr>streamers := dict_set k st (streamers s)\<rparr>"

section \<open>The producer a stream needs\<close>

definition compute_producer_interval :: "(string, StreamSubscription) dict \<Rightarrow> int option" where
  "compute_producer_interval cs =
    (case map (\<lambda>(c, sub). requested_interval sub) cs of [] \<Rightarrow> None | i # is \<Rightarrow> Some (fold min is i))"

definition determine_producer_action :: "bool \<Rightarrow> int option \<Rightarrow> int option \<Rightarrow> StreamProducerAction" where
  "determine_producer_action active active_i desired =
    (if \<not> active \<and> desired \<noteq> None then PA_START
     else if active \<and> desired = None then PA_STOP
     else if active \<and> desired = active_i then PA_NONE
     else if active \<and> desired \<noteq> active_i then PA_RECONFIGURE
     else PA_NONE)"

definition set_active_producer_state ::
  "stream_key \<Rightarrow> bool \<Rightarrow> int option \<Rightarrow> stream_service \<Rightarrow> py_exn + stream_service" where
  "set_active_producer_state k active interval s =
    (case dict_get (streamers s) k of
       None \<Rightarrow> Inr s
     | Some st \<Rightarrow>
         if (\<not> active \<and> interval \<noteq> None) \<or> (active \<and> interval = None) then Inl ValueError
         else Inr (put_stream k (st\<lparr>stream_active := active, active_interval := interval\<rparr>) s))"

section \<open>Operations before the answer of the client\<close>

definition stream_action :: "MonitorStreamState \<Rightarrow> StreamProducerAction" where
  "stream_action st = determine_producer_action (stream_active st) (active_interval st) (desired_interval st)"

definition add_or_update_subscription ::
  "int \<Rightarrow> string \<Rightarrow> int \<Rightarrow> MonitorStreamState \<Rightarrow> MonitorStreamState" where
  "add_or_update_subscription now consumer interval st =
    (let cs = dict_set consumer \<lparr>requested_interval = interval, next_delivery = now\<rparr> (consumers st)
     in st\<lparr>consumers := cs, desired_interval := compute_producer_interval cs\<rparr>)"

definition remove_subscription :: "string \<Rightarrow> MonitorStreamState \<Rightarrow> MonitorStreamState" where
  "remove_subscription consumer st =
    (let cs = dict_pop consumer (consumers st)
     in st\<lparr>consumers := cs, desired_interval := compute_producer_interval cs\<rparr>)"

definition wait_for_client :: "stream_key \<Rightarrow> pending_update \<Rightarrow> stream_service \<Rightarrow> stream_service" where
  "wait_for_client k p s = s\<lparr>locked := dict_set k p (locked s)\<rparr>"

definition subscribe_begin ::
  "int \<Rightarrow> stream_key \<Rightarrow> string \<Rightarrow> int \<Rightarrow> stream_service \<Rightarrow> (py_exn + pending_update) \<times> stream_service" where
  "subscribe_begin now k consumer interval s =
    (if interval \<le> 0 then (Inl ValueError, s)
     else
       let st = add_or_update_subscription now consumer interval (get_or_create_stream k s);
           p = \<lparr>pu_action = stream_action st, pu_desired = desired_interval st, pu_rollback = True,
                pu_previous = dict_get (streamers s) k\<rparr>
       in (Inr p, wait_for_client k p (put_stream k st s)))"

text \<open>\<open>None\<close>: there is no such stream or no such consumer.\<close>

definition unsubscribe_begin :: "stream_key \<Rightarrow> string \<Rightarrow> stream_service \<Rightarrow> pending_update option \<times> stream_service" where
  "unsubscribe_begin k consumer s =
    (case dict_get (streamers s) k of
       None \<Rightarrow> (None, s)
     | Some previous \<Rightarrow>
         if dict_get (consumers previous) consumer = None then (None, s)
         else
           let st = remove_subscription consumer previous;
               p = \<lparr>pu_action = stream_action st, pu_desired = desired_interval st, pu_rollback = True,
                    pu_previous = Some previous\<rparr>
           in (Some p, wait_for_client k p (put_stream k st s)))"

definition reconcile_begin :: "stream_key \<Rightarrow> stream_service \<Rightarrow> pending_update option \<times> stream_service" where
  "reconcile_begin k s =
    (case dict_get (streamers s) k of
       None \<Rightarrow> (None, s)
     | Some st \<Rightarrow>
         let p = \<lparr>pu_action = stream_action st, pu_desired = desired_interval st, pu_rollback = False, pu_previous = None\<rparr>
         in (Some p, wait_for_client k p s))"

section \<open>Operations after the answer\<close>

definition restore_stream_state :: "stream_key \<Rightarrow> MonitorStreamState option \<Rightarrow> stream_service \<Rightarrow> stream_service" where
  "restore_stream_state k previous s =
    (case previous of
       None \<Rightarrow> s\<lparr>streamers := dict_pop k (streamers s)\<rparr>
     | Some st \<Rightarrow> put_stream k st s)"

text \<open>\<open>_apply_producer_action\<close> once the client has answered: what is noted of the producer.\<close>

definition note_producer :: "stream_key \<Rightarrow> pending_update \<Rightarrow> py_exn + bool \<Rightarrow> stream_service \<Rightarrow> (py_exn + bool) \<times> stream_service" where
  "note_producer k p answer s =
    (case answer of
       Inr True \<Rightarrow>
         (case (case pu_action p of
                  PA_NONE \<Rightarrow> Inr s
                | PA_STOP \<Rightarrow> set_active_producer_state k False None s
                | _ \<Rightarrow> set_active_producer_state k True (pu_desired p) s) of
            Inl x \<Rightarrow> (Inl x, s)
          | Inr s1 \<Rightarrow> (Inr True, s1))
     | _ \<Rightarrow> (answer, s))"

definition operation_end :: "stream_key \<Rightarrow> pending_update \<Rightarrow> py_exn + bool \<Rightarrow> stream_service \<Rightarrow> (py_exn + bool) \<times> stream_service" where
  "operation_end k p answer s =
    (let (r, s1) = note_producer k p answer s;
         s2 = s1\<lparr>locked := dict_pop k (locked s1)\<rparr>
     in if pu_rollback p \<and> r \<noteq> Inr True then (Inr False, restore_stream_state k (pu_previous p) s2) else (r, s2))"

section \<open>Deliveries\<close>

text \<open>
  The loop that moves the next delivery past the present; it does not end for an interval that is not positive, which
  \<open>add_or_update_subscription\<close> never stores.
\<close>

partial_function (option) catch_up :: "int \<Rightarrow> int \<Rightarrow> int \<Rightarrow> int option" where
  "catch_up interval now next =
    (if next \<le> now then catch_up interval now (next + interval) else Some next)"

declare catch_up.simps [code]

text \<open>The consumers to deliver to, in order, and the consumers with their next delivery.\<close>

fun due_consumers ::
  "int \<Rightarrow> (string, StreamSubscription) dict \<Rightarrow> ((string \<times> StreamSubscription) list \<times> (string, StreamSubscription) dict) option" where
  "due_consumers now [] = Some ([], [])"
| "due_consumers now ((c, sub) # cs) =
    (if now < next_delivery sub then map_option (\<lambda>(due, rest). (due, (c, sub) # rest)) (due_consumers now cs)
     else (case catch_up (requested_interval sub) now (next_delivery sub) of
             None \<Rightarrow> None
           | Some next \<Rightarrow>
               let sub1 = sub\<lparr>next_delivery := next\<rparr>
               in map_option (\<lambda>(due, rest). ((c, sub1) # due, (c, sub1) # rest)) (due_consumers now cs)))"

definition get_due_subscriptions ::
  "stream_key \<Rightarrow> int \<Rightarrow> stream_service \<Rightarrow> ((string \<times> StreamSubscription) list \<times> stream_service) option" where
  "get_due_subscriptions k now s =
    (case dict_get (streamers s) k of
       None \<Rightarrow> Some ([], s)
     | Some st \<Rightarrow>
         map_option (\<lambda>(due, cs). (due, put_stream k (st\<lparr>consumers := cs\<rparr>) s)) (due_consumers now (consumers st)))"

text \<open>
  \<open>MonitorSampleDispatcher\<close>: the handlers by consumer, and the handlers a sample is given to. \<open>None\<close> in the list: no handler is
  registered; a handler may raise or reject the sample.
\<close>

definition register_consumer :: "string \<Rightarrow> 'h \<Rightarrow> (string, 'h) dict \<Rightarrow> bool \<times> (string, 'h) dict" where
  "register_consumer c h handlers =
    (if dict_get handlers c \<noteq> None then (False, handlers) else (True, dict_set c h handlers))"

definition unregister_consumer :: "string \<Rightarrow> (string, 'h) dict \<Rightarrow> bool \<times> (string, 'h) dict" where
  "unregister_consumer c handlers =
    (if dict_get handlers c = None then (False, handlers) else (True, dict_pop c handlers))"

definition dispatch_to ::
  "(string, string \<Rightarrow> 'm \<Rightarrow> StreamSubscription \<Rightarrow> py_exn + bool option) dict \<Rightarrow> string \<Rightarrow> 'm \<Rightarrow> string \<times> StreamSubscription \<Rightarrow> bool" where
  "dispatch_to handlers cid msg = (\<lambda>(c, sub).
    (case dict_get handlers c of
       None \<Rightarrow> False
     | Some h \<Rightarrow> (case h cid msg sub of Inl x \<Rightarrow> False | Inr accepted \<Rightarrow> accepted \<noteq> Some False)))"

definition dispatch ::
  "(string, string \<Rightarrow> 'm \<Rightarrow> StreamSubscription \<Rightarrow> py_exn + bool option) dict \<Rightarrow> string \<Rightarrow> Channel \<Rightarrow> 'm \<Rightarrow> int \<Rightarrow> stream_service
     \<Rightarrow> (bool \<times> stream_service) option" where
  "dispatch handlers cid section msg now s =
    map_option (\<lambda>(due, s1). (list_all (\<lambda>r. r) (map (dispatch_to handlers cid msg) due), s1))
      (get_due_subscriptions (cid, section) now s)"

section \<open>Clients that come and go\<close>

definition invalidate_stream :: "stream_key \<Rightarrow> stream_service \<Rightarrow> stream_service" where
  "invalidate_stream k s =
    (case dict_get (streamers s) k of
       None \<Rightarrow> s
     | Some st \<Rightarrow> put_stream k (st\<lparr>stream_active := False, active_interval := None\<rparr>) s)"

text \<open>Without other threads in between; with them, it is a run of \<open>InvalidateStream\<close> steps.\<close>

definition invalidate_client_actual_state :: "string \<Rightarrow> stream_service \<Rightarrow> stream_service" where
  "invalidate_client_actual_state cid s =
    fold invalidate_stream (filter (\<lambda>k. fst k = cid) (dict_keys (streamers s))) s"

text \<open>The bookkeeping of the reconciliations in the background: at most one per client.\<close>

definition reconcile_request :: "string \<Rightarrow> stream_service \<Rightarrow> bool \<times> stream_service" where
  "reconcile_request cid s =
    (if cid \<in> set (reconcile_running s) then (False, s\<lparr>reconcile_again := List.insert cid (reconcile_again s)\<rparr>)
     else (True, s\<lparr>reconcile_running := List.insert cid (reconcile_running s)\<rparr>))"

text \<open>The end of a pass of the worker: whether it goes through again.\<close>

definition reconcile_pass_end :: "string \<Rightarrow> stream_service \<Rightarrow> bool \<times> stream_service" where
  "reconcile_pass_end cid s =
    (if cid \<in> set (reconcile_again s) then (True, s\<lparr>reconcile_again := removeAll cid (reconcile_again s)\<rparr>)
     else (False, s\<lparr>reconcile_running := removeAll cid (reconcile_running s)\<rparr>))"

definition reconcile_crashed :: "string \<Rightarrow> stream_service \<Rightarrow> stream_service" where
  "reconcile_crashed cid s =
    s\<lparr>reconcile_running := removeAll cid (reconcile_running s), reconcile_again := removeAll cid (reconcile_again s)\<rparr>"

section \<open>Steps of other threads\<close>

datatype stream_step =
    SubscribeBegin int stream_key string int
  | UnsubscribeBegin stream_key string
  | ReconcileBegin stream_key
  | OperationEnd stream_key "py_exn + bool"
  | Deliver stream_key int
  | InvalidateStream stream_key
  | ReconcileRequest string
  | ReconcilePassEnd string
  | ReconcileCrashed string

text \<open>The stream whose producer lock a step needs.\<close>

fun needs_lock :: "stream_step \<Rightarrow> stream_key option" where
  "needs_lock (SubscribeBegin now k c i) = Some k"
| "needs_lock (UnsubscribeBegin k c) = Some k"
| "needs_lock (ReconcileBegin k) = Some k"
| "needs_lock (InvalidateStream k) = Some k"
| "needs_lock _ = None"

fun do_step :: "stream_step \<Rightarrow> stream_service \<Rightarrow> stream_service" where
  "do_step (SubscribeBegin now k c i) s = snd (subscribe_begin now k c i s)"
| "do_step (UnsubscribeBegin k c) s = snd (unsubscribe_begin k c s)"
| "do_step (ReconcileBegin k) s = snd (reconcile_begin k s)"
| "do_step (OperationEnd k answer) s =
    (case dict_get (locked s) k of None \<Rightarrow> s | Some p \<Rightarrow> snd (operation_end k p answer s))"
| "do_step (Deliver k now) s = (case get_due_subscriptions k now s of None \<Rightarrow> s | Some (due, s1) \<Rightarrow> s1)"
| "do_step (InvalidateStream k) s = invalidate_stream k s"
| "do_step (ReconcileRequest cid) s = snd (reconcile_request cid s)"
| "do_step (ReconcilePassEnd cid) s = snd (reconcile_pass_end cid s)"
| "do_step (ReconcileCrashed cid) s = reconcile_crashed cid s"

text \<open>A step that needs a lock that is held waits.\<close>

definition exec_step :: "stream_step \<Rightarrow> stream_service \<Rightarrow> stream_service" where
  "exec_step st s =
    (case needs_lock st of
       Some k \<Rightarrow> if dict_get (locked s) k \<noteq> None then s else do_step st s
     | None \<Rightarrow> do_step st s)"

text \<open>On the stream \<open>k\<close>, which a thread holds locked, the others can only deliver.\<close>

fun leaves_lock :: "stream_key \<Rightarrow> stream_step \<Rightarrow> bool" where
  "leaves_lock k (OperationEnd l answer) = (l \<noteq> k)"
| "leaves_lock k st = (needs_lock st \<noteq> Some k)"

section \<open>Whole operations\<close>

text \<open>
  The answers of the world, which may depend on all the calls made so far, and the steps of other threads while a call waits.
  \<open>synchronized\<close> is \<open>ensure_client_synchronized\<close>; \<open>sample_reply\<close> whether a reply came back with status \<open>ok\<close> and without error.
\<close>

record stream_env =
  synchronized :: "sample_call list \<Rightarrow> py_exn + bool"
  sample_reply :: "sample_call list \<Rightarrow> py_exn + bool"
  connected :: "sample_call list \<Rightarrow> bool"
  stream_steps :: "sample_call list \<Rightarrow> stream_step list"

definition mon_call :: "stream_env \<Rightarrow> stream_key option \<Rightarrow> sample_call \<Rightarrow> (sample_call list \<Rightarrow> 'a) \<Rightarrow> stream_service \<Rightarrow> 'a \<times> stream_service" where
  "mon_call e held c answer s =
    (let t = sample_calls s @ [c];
         others = filter (\<lambda>st. case held of None \<Rightarrow> True | Some k \<Rightarrow> leaves_lock k st) (stream_steps e t)
     in (answer t, fold exec_step others (s\<lparr>sample_calls := t\<rparr>)))"

definition start_sample :: "stream_env \<Rightarrow> stream_key \<Rightarrow> int \<Rightarrow> stream_service \<Rightarrow> (py_exn + bool) \<times> stream_service" where
  "start_sample e k interval s =
    (if snd k \<notin> {RC, HV, MAIN} then (Inr False, s)
     else (case mon_call e (Some k) (SyncClient (fst k)) (synchronized e) s of
             (Inr True, s1) \<Rightarrow> mon_call e (Some k) (SampleStart (fst k) (snd k) interval) (sample_reply e) s1
           | (r, s1) \<Rightarrow> (r, s1)))"

definition stop_sample :: "stream_env \<Rightarrow> stream_key \<Rightarrow> stream_service \<Rightarrow> (py_exn + bool) \<times> stream_service" where
  "stop_sample e k s =
    (if snd k \<notin> {RC, HV, MAIN} then (Inr False, s)
     else mon_call e (Some k) (SampleStop (fst k) (snd k)) (sample_reply e) s)"

definition ask_producer :: "stream_env \<Rightarrow> stream_key \<Rightarrow> pending_update \<Rightarrow> stream_service \<Rightarrow> (py_exn + bool) \<times> stream_service" where
  "ask_producer e k p s =
    (case pu_action p of
       PA_NONE \<Rightarrow> (Inr True, s)
     | PA_STOP \<Rightarrow> stop_sample e k s
     | _ \<Rightarrow> (case pu_desired p of None \<Rightarrow> (Inl RuntimeError, s) | Some i \<Rightarrow> start_sample e k i s))"

definition operation_with :: "stream_env \<Rightarrow> stream_key \<Rightarrow> pending_update \<Rightarrow> stream_service \<Rightarrow> (py_exn + bool) \<times> stream_service" where
  "operation_with e k p s = (let (answer, s1) = ask_producer e k p s in operation_end k p answer s1)"

definition subscribe :: "stream_env \<Rightarrow> int \<Rightarrow> stream_key \<Rightarrow> string \<Rightarrow> int \<Rightarrow> stream_service \<Rightarrow> (py_exn + bool) \<times> stream_service" where
  "subscribe e now k consumer interval s =
    (case subscribe_begin now k consumer interval s of
       (Inl x, s1) \<Rightarrow> (Inl x, s1)
     | (Inr p, s1) \<Rightarrow> operation_with e k p s1)"

definition unsubscribe :: "stream_env \<Rightarrow> stream_key \<Rightarrow> string \<Rightarrow> stream_service \<Rightarrow> (py_exn + bool) \<times> stream_service" where
  "unsubscribe e k consumer s =
    (case unsubscribe_begin k consumer s of
       (None, s1) \<Rightarrow> (Inr False, s1)
     | (Some p, s1) \<Rightarrow> operation_with e k p s1)"

text \<open>The loop over the sections of a client that have consumers; \<open>all_success\<close> so far is the accumulator.\<close>

fun reconcile_sections :: "stream_env \<Rightarrow> stream_key list \<Rightarrow> bool \<Rightarrow> stream_service \<Rightarrow> (py_exn + bool) \<times> stream_service" where
  "reconcile_sections e [] all_success s = (Inr all_success, s)"
| "reconcile_sections e (k # ks) all_success s =
    (case reconcile_begin k s of
       (None, s1) \<Rightarrow> reconcile_sections e ks all_success s1
     | (Some p, s1) \<Rightarrow>
         (case operation_with e k p s1 of
            (Inl x, s2) \<Rightarrow> (Inl x, s2)
          | (Inr ok, s2) \<Rightarrow> reconcile_sections e ks (all_success \<and> ok) s2))"

definition sections_to_reconcile :: "string \<Rightarrow> stream_service \<Rightarrow> stream_key list" where
  "sections_to_reconcile cid s =
    map fst (filter (\<lambda>(k, st). fst k = cid \<and> desired_interval st \<noteq> None) (streamers s))"

definition reconcile_client_streams :: "stream_env \<Rightarrow> string \<Rightarrow> stream_service \<Rightarrow> (py_exn + bool) \<times> stream_service" where
  "reconcile_client_streams e cid s = reconcile_sections e (sections_to_reconcile cid s) True s"

definition STREAM_RECONCILE_ATTEMPTS :: nat where "STREAM_RECONCILE_ATTEMPTS = 3"

text \<open>The attempts that are left.\<close>

fun reconcile_attempts :: "stream_env \<Rightarrow> string \<Rightarrow> nat \<Rightarrow> stream_service \<Rightarrow> (py_exn + bool) \<times> stream_service" where
  "reconcile_attempts e cid 0 s = (Inr False, s)"
| "reconcile_attempts e cid (Suc n) s =
    (case mon_call e None (IsConnected cid) (connected e) s of
       (False, s1) \<Rightarrow> (Inr False, s1)
     | (True, s1) \<Rightarrow>
         (case reconcile_client_streams e cid s1 of
            (Inr False, s2) \<Rightarrow>
              reconcile_attempts e cid n (if n > 0 then snd (mon_call e None RetrySleep (\<lambda>_. ()) s2) else s2)
          | (r, s2) \<Rightarrow> (r, s2)))"

definition reconcile_with_retries :: "stream_env \<Rightarrow> string \<Rightarrow> stream_service \<Rightarrow> (py_exn + bool) \<times> stream_service" where
  "reconcile_with_retries e cid s = reconcile_attempts e cid STREAM_RECONCILE_ATTEMPTS s"

end
