(* ===== verification/MonitorStreamProps.thy ===== *)
theory MonitorStreamProps
  imports MonitorStreams
begin

text \<open>
  What the sample streams promise: the producer of a stream runs at the interval of its fastest consumer, a subscription that the
  client does not accept leaves no trace, a consumer gets its samples in its own rhythm, and a client that comes back has its
  streams started again.
\<close>

section \<open>The invariant\<close>

definition fastest :: "(string, StreamSubscription) dict \<Rightarrow> int option" where
  "fastest cs = (if cs = [] then None else Some (Min (requested_interval ` snd ` set cs)))"

lemma fold_min: "fold min is i = Min (set (i # is))" for i :: int
  using Min.set_eq_fold[of i "is"] by simp

lemma compute_producer_interval: "compute_producer_interval cs = fastest cs"
proof (cases cs)
  case (Cons c cs')
  then show ?thesis
    unfolding compute_producer_interval_def fastest_def
    by (simp add: fold_min image_image case_prod_beta del: fold_simps list.set)
       (simp add: image_image case_prod_beta)
qed (simp add: compute_producer_interval_def fastest_def)

definition stream_ok :: "MonitorStreamState \<Rightarrow> bool" where
  "stream_ok st \<longleftrightarrow> dict_ok (consumers st) \<and> (\<forall>(c, sub) \<in> set (consumers st). 0 < requested_interval sub) \<and>
     desired_interval st = fastest (consumers st) \<and> (stream_active st \<longleftrightarrow> active_interval st \<noteq> None)"

definition settled :: "MonitorStreamState \<Rightarrow> bool" where
  "settled st \<longleftrightarrow> (stream_active st \<longrightarrow> active_interval st = desired_interval st)"

text \<open>A stream for which an operation waits.\<close>

definition awaited :: "pending_update \<Rightarrow> MonitorStreamState \<Rightarrow> bool" where
  "awaited p st \<longleftrightarrow> pu_desired p = desired_interval st \<and> pu_action p = stream_action st \<and> (\<not> pu_rollback p \<longrightarrow> settled st)"

definition previous_ok :: "pending_update \<Rightarrow> bool" where
  "previous_ok p \<longleftrightarrow> (\<forall>st. pu_previous p = Some st \<longrightarrow> stream_ok st \<and> settled st)"

definition key_ok :: "stream_key \<Rightarrow> stream_service \<Rightarrow> bool" where
  "key_ok k s \<longleftrightarrow>
    (\<forall>st. dict_get (streamers s) k = Some st \<longrightarrow> stream_ok st \<and>
       (case dict_get (locked s) k of None \<Rightarrow> settled st | Some p \<Rightarrow> awaited p st)) \<and>
    (\<forall>p. dict_get (locked s) k = Some p \<longrightarrow> previous_ok p)"

definition streams_ok :: "stream_service \<Rightarrow> bool" where
  "streams_ok s \<longleftrightarrow> (\<forall>k. key_ok k s)"

lemma stream_facts:
  assumes "streams_ok s"
  shows "dict_get (streamers s) k = Some st \<Longrightarrow> stream_ok st"
    "dict_get (streamers s) k = Some st \<Longrightarrow> dict_get (locked s) k = None \<Longrightarrow> settled st"
    "dict_get (streamers s) k = Some st \<Longrightarrow> dict_get (locked s) k = Some p \<Longrightarrow> awaited p st"
    "dict_get (locked s) k = Some p \<Longrightarrow> previous_ok p"
proof -
  have "key_ok k s" using assms unfolding streams_ok_def by blast
  then show "dict_get (streamers s) k = Some st \<Longrightarrow> stream_ok st"
    "dict_get (streamers s) k = Some st \<Longrightarrow> dict_get (locked s) k = None \<Longrightarrow> settled st"
    "dict_get (streamers s) k = Some st \<Longrightarrow> dict_get (locked s) k = Some p \<Longrightarrow> awaited p st"
    "dict_get (locked s) k = Some p \<Longrightarrow> previous_ok p" by (auto simp: key_ok_def)
qed

text \<open>Only the stream \<open>k\<close> is touched.\<close>

definition touches :: "stream_key \<Rightarrow> stream_service \<Rightarrow> stream_service \<Rightarrow> bool" where
  "touches k s s' \<longleftrightarrow> (\<forall>l. l \<noteq> k \<longrightarrow> dict_get (streamers s') l = dict_get (streamers s) l \<and>
     dict_get (locked s') l = dict_get (locked s) l)"

lemma touches_ok: "touches k s s' \<Longrightarrow> streams_ok s \<Longrightarrow> key_ok k s' \<Longrightarrow> streams_ok s'"
  unfolding streams_ok_def touches_def key_ok_def by metis

lemma touchesD:
  assumes "touches k s s'" "l \<noteq> k"
  shows "dict_get (streamers s') l = dict_get (streamers s) l" "dict_get (locked s') l = dict_get (locked s) l"
  using assms unfolding touches_def by blast+

lemma new_stream_ok: "stream_ok new_stream \<and> settled new_stream"
  by (simp add: new_stream_def stream_ok_def settled_def fastest_def)

lemma add_ok:
  "stream_ok st \<Longrightarrow> 0 < interval \<Longrightarrow> stream_ok (add_or_update_subscription now consumer interval st)"
  by (auto simp: stream_ok_def add_or_update_subscription_def Let_def compute_producer_interval dest!: in_dict_set)

lemma in_dict_pop: "x \<in> set (dict_pop k d) \<Longrightarrow> x \<in> set d"
  by (auto simp: AList.delete_eq)

lemma remove_ok: "stream_ok st \<Longrightarrow> stream_ok (remove_subscription consumer st)"
  by (auto simp: stream_ok_def remove_subscription_def Let_def compute_producer_interval dest: in_dict_pop)

lemma action_settled: "stream_ok st \<Longrightarrow> stream_action st = PA_NONE \<Longrightarrow> settled st"
  by (auto simp: stream_action_def determine_producer_action_def settled_def stream_ok_def split: if_splits)

lemma action_desired:
  "stream_action st = PA_START \<or> stream_action st = PA_RECONFIGURE \<Longrightarrow> desired_interval st \<noteq> None"
  by (auto simp: stream_action_def determine_producer_action_def split: if_splits)

section \<open>Steps keep the invariant\<close>

lemma subscribe_begin_ok:
  assumes "streams_ok s" "dict_get (locked s) k = None"
  shows "streams_ok (snd (subscribe_begin now k consumer interval s))"
proof -
  let ?st = "get_or_create_stream k s"
  have st: "stream_ok ?st" "settled ?st" and prev: "\<And>st. dict_get (streamers s) k = Some st \<Longrightarrow> stream_ok st \<and> settled st"
    using stream_facts[OF assms(1)] assms(2) new_stream_ok by (auto simp: get_or_create_stream_def split: option.splits)
  show ?thesis
  proof (cases "interval \<le> 0")
    case False
    then show ?thesis
      using add_ok[OF st(1)] prev
      by (intro touches_ok[OF _ assms(1)])
         (auto simp: subscribe_begin_def Let_def wait_for_client_def put_stream_def touches_def key_ok_def awaited_def previous_ok_def
           dict_simps)
  qed (use assms in \<open>simp add: subscribe_begin_def\<close>)
qed

lemma unsubscribe_begin_ok:
  assumes "streams_ok s" "dict_get (locked s) k = None"
  shows "streams_ok (snd (unsubscribe_begin k consumer s))"
proof (cases "dict_get (streamers s) k")
  case (Some st)
  then have st: "stream_ok st" "settled st" using stream_facts[OF assms(1)] assms(2) by blast+
  show ?thesis
  proof (cases "dict_get (consumers st) consumer")
    case Some': (Some sub)
    then show ?thesis
      using Some st remove_ok[OF st(1)]
      by (intro touches_ok[OF _ assms(1)])
         (auto simp: unsubscribe_begin_def Let_def wait_for_client_def put_stream_def touches_def key_ok_def awaited_def previous_ok_def
           dict_simps)
  qed (use assms Some in \<open>simp add: unsubscribe_begin_def\<close>)
qed (use assms in \<open>simp add: unsubscribe_begin_def\<close>)

lemma reconcile_begin_ok:
  assumes "streams_ok s" "dict_get (locked s) k = None"
  shows "streams_ok (snd (reconcile_begin k s))"
proof (cases "dict_get (streamers s) k")
  case (Some st)
  then have st: "stream_ok st" "settled st" using stream_facts[OF assms(1)] assms(2) by blast+
  with Some show ?thesis
    by (intro touches_ok[OF _ assms(1)])
       (auto simp: reconcile_begin_def Let_def wait_for_client_def touches_def key_ok_def awaited_def previous_ok_def dict_simps)
qed (use assms in \<open>simp add: reconcile_begin_def\<close>)

lemma note_producer_cases:
  assumes "dict_get (streamers s) k = Some st" "awaited p st" "stream_ok st"
  shows "note_producer k p answer s =
    (if answer = Inr True
     then (Inr True, if pu_action p = PA_NONE then s
       else put_stream k (st\<lparr>stream_active := (pu_action p \<noteq> PA_STOP),
         active_interval := if pu_action p = PA_STOP then None else desired_interval st\<rparr>) s)
     else (answer, s))"
  using assms action_desired[of st]
  by (cases answer; cases "pu_action p") (auto simp: note_producer_def set_active_producer_state_def awaited_def)

lemma operation_end_ok:
  assumes ok: "streams_ok s" and p: "dict_get (locked s) k = Some p"
  shows "streams_ok (snd (operation_end k p answer s))"
proof -
  have touch: "touches k s (snd (operation_end k p answer s))"
    by (auto simp: operation_end_def note_producer_def restore_stream_state_def put_stream_def set_active_producer_state_def
        touches_def Let_def dict_simps split: sum.splits bool.splits option.splits StreamProducerAction.splits)
  have prev: "previous_ok p" using stream_facts(4)[OF ok p] .
  have "key_ok k (snd (operation_end k p answer s))"
  proof (cases "dict_get (streamers s) k")
    case None
    then have "note_producer k p answer s = (answer, s)"
      by (auto simp: note_producer_def set_active_producer_state_def split: sum.splits bool.splits StreamProducerAction.splits)
    with None prev show ?thesis
      by (auto simp: operation_end_def key_ok_def restore_stream_state_def put_stream_def previous_ok_def Let_def dict_simps
          split: option.splits)
  next
    case (Some st)
    then have st: "stream_ok st" "awaited p st" using stream_facts[OF ok] p by blast+
    have none: "pu_action p = PA_NONE \<Longrightarrow> settled st" using st by (auto simp: awaited_def action_settled)
    have desired: "pu_action p \<noteq> PA_NONE \<Longrightarrow> pu_action p \<noteq> PA_STOP \<Longrightarrow> desired_interval st \<noteq> None"
      using st action_desired[of st] by (cases "pu_action p") (auto simp: awaited_def)
    show ?thesis
      using Some st none desired prev
      by (auto simp: operation_end_def note_producer_cases key_ok_def restore_stream_state_def put_stream_def previous_ok_def Let_def
          dict_simps stream_ok_def settled_def awaited_def split: option.splits)
  qed
  with touch ok show ?thesis by (rule touches_ok)
qed

text \<open>The intervals asked for, by consumer: all of a stream that a delivery leaves.\<close>

definition asked_intervals :: "(string, StreamSubscription) dict \<Rightarrow> (string, int) dict" where
  "asked_intervals = map (\<lambda>(c, sub). (c, requested_interval sub))"

lemma due_intervals: "due_consumers now cs = Some (due, cs') \<Longrightarrow> asked_intervals cs' = asked_intervals cs"
  by (induction now cs arbitrary: due cs' rule: due_consumers.induct)
     (auto simp: asked_intervals_def Let_def split: if_splits option.splits)

lemma asked_keys: "dict_keys (asked_intervals cs) = dict_keys cs"
  by (auto simp: asked_intervals_def)

lemma asked_facts:
  assumes "asked_intervals cs' = asked_intervals cs"
  shows "dict_ok cs' = dict_ok cs" "fastest cs' = fastest cs"
    "(\<forall>(c, sub) \<in> set cs'. 0 < requested_interval sub) = (\<forall>(c, sub) \<in> set cs. 0 < requested_interval sub)"
proof -
  show "dict_ok cs' = dict_ok cs" using assms by (metis asked_keys dict_ok_def)
  have vals: "requested_interval ` snd ` set xs = snd ` set (asked_intervals xs)" for xs
    by (simp add: asked_intervals_def image_image case_prod_beta)
  have "(cs' = []) = (cs = [])" using assms by (cases cs'; cases cs) (auto simp: asked_intervals_def)
  with assms show "fastest cs' = fastest cs" by (simp add: fastest_def vals)
  have "(\<forall>(c, sub) \<in> set xs. 0 < requested_interval sub) = (\<forall>i \<in> snd ` set (asked_intervals xs). 0 < i)" for xs
    by (simp add: asked_intervals_def case_prod_beta)
  with assms show "(\<forall>(c, sub) \<in> set cs'. 0 < requested_interval sub) = (\<forall>(c, sub) \<in> set cs. 0 < requested_interval sub)" by simp
qed

text \<open>A stream that only deliveries have changed.\<close>

definition same_stream :: "MonitorStreamState \<Rightarrow> MonitorStreamState \<Rightarrow> bool" where
  "same_stream st st' \<longleftrightarrow> (\<exists>cs. asked_intervals cs = asked_intervals (consumers st) \<and> st' = st\<lparr>consumers := cs\<rparr>)"

lemma same_stream_refl: "same_stream st st"
  unfolding same_stream_def by (rule exI[of _ "consumers st"]) simp

lemma same_stream_trans: "same_stream st st' \<Longrightarrow> same_stream st' st'' \<Longrightarrow> same_stream st st''"
  by (auto simp: same_stream_def)

lemma same_stream_facts:
  assumes "same_stream st st'"
  shows "stream_ok st' = stream_ok st" "settled st' = settled st" "awaited p st' = awaited p st"
    "stream_active st' = stream_active st" "active_interval st' = active_interval st" "desired_interval st' = desired_interval st"
    "asked_intervals (consumers st') = asked_intervals (consumers st)"
proof -
  obtain cs where cs: "asked_intervals cs = asked_intervals (consumers st)" "st' = st\<lparr>consumers := cs\<rparr>"
    using assms by (auto simp: same_stream_def)
  note asked = asked_facts[OF cs(1)]
  show "stream_ok st' = stream_ok st" using asked by (simp add: cs(2) stream_ok_def)
  show "settled st' = settled st" "awaited p st' = awaited p st" by (simp_all add: cs(2) settled_def awaited_def stream_action_def)
  show "stream_active st' = stream_active st" "active_interval st' = active_interval st" "desired_interval st' = desired_interval st"
    "asked_intervals (consumers st') = asked_intervals (consumers st)" by (simp_all add: cs)
qed

lemma deliver_cases:
  assumes "get_due_subscriptions k now s = Some (due, s')"
  shows "(s' = s \<and> dict_get (streamers s) k = None) \<or>
    (\<exists>st st'. dict_get (streamers s) k = Some st \<and> same_stream st st' \<and> s' = put_stream k st' s)"
proof (cases "dict_get (streamers s) k")
  case (Some st)
  with assms obtain cs where cs: "due_consumers now (consumers st) = Some (due, cs)" "s' = put_stream k (st\<lparr>consumers := cs\<rparr>) s"
    by (auto simp: get_due_subscriptions_def)
  then have "same_stream st (st\<lparr>consumers := cs\<rparr>)" unfolding same_stream_def using due_intervals by blast
  with Some cs(2) show ?thesis by blast
qed (use assms in \<open>simp add: get_due_subscriptions_def\<close>)

lemma deliver_ok: "streams_ok s \<Longrightarrow> get_due_subscriptions k now s = Some (due, s') \<Longrightarrow> streams_ok s'"
  by (drule deliver_cases, elim disjE exE conjE, simp, rule touches_ok[where k = k], simp_all add: touches_def put_stream_def dict_simps)
     (auto simp: key_ok_def dict_simps same_stream_facts stream_facts split: option.splits)

lemma invalidate_ok:
  assumes "streams_ok s" "dict_get (locked s) k = None" shows "streams_ok (invalidate_stream k s)"
proof (cases "dict_get (streamers s) k")
  case (Some st)
  then have "stream_ok st" using stream_facts[OF assms(1)] by blast
  with Some assms(2) show ?thesis
    by (intro touches_ok[OF _ assms(1)])
       (auto simp: invalidate_stream_def put_stream_def touches_def key_ok_def stream_ok_def settled_def dict_simps)
qed (use assms in \<open>simp add: invalidate_stream_def\<close>)

lemma bookkeeping_ok:
  "streams_ok s \<Longrightarrow> streams_ok (snd (reconcile_request cid s))"
  "streams_ok s \<Longrightarrow> streams_ok (snd (reconcile_pass_end cid s))"
  "streams_ok s \<Longrightarrow> streams_ok (reconcile_crashed cid s)"
  by (auto simp: reconcile_request_def reconcile_pass_end_def reconcile_crashed_def streams_ok_def key_ok_def)

lemma exec_step_ok: "streams_ok s \<Longrightarrow> streams_ok (exec_step st s)"
  by (cases st)
     (auto simp: exec_step_def intro: subscribe_begin_ok unsubscribe_begin_ok reconcile_begin_ok operation_end_ok invalidate_ok
       bookkeeping_ok deliver_ok split: option.splits)

lemma init_streams_ok: "streams_ok init_streams"
  by (simp add: streams_ok_def key_ok_def init_streams_def)

interpretation stream_runs: kept_invariant "\<lambda>s. s = init_streams" exec_step streams_ok
  by unfold_locales (simp_all add: init_streams_ok exec_step_ok)


definition example_stream_steps :: "stream_step list" where
  "example_stream_steps =
    [SubscribeBegin 0 (''a'', HV) ''save'' 5000, OperationEnd (''a'', HV) (Inr True),
     SubscribeBegin 7 (''a'', HV) ''show'' 2000, Deliver (''a'', HV) 7, OperationEnd (''a'', HV) (Inr True)]"



section \<open>Operations\<close>

text \<open>What other threads leave alone on a stream that is locked.\<close>

definition kept_stream :: "stream_key \<Rightarrow> stream_service \<Rightarrow> stream_service \<Rightarrow> bool" where
  "kept_stream k s s' \<longleftrightarrow> dict_get (locked s') k = dict_get (locked s) k \<and>
     rel_option same_stream (dict_get (streamers s) k) (dict_get (streamers s') k)"

lemma kept_refl: "kept_stream k s s"
  by (auto simp: kept_stream_def same_stream_refl intro: option.rel_refl)

lemma kept_trans: "kept_stream k s s1 \<Longrightarrow> kept_stream k s1 s2 \<Longrightarrow> kept_stream k s s2"
  by (auto simp: kept_stream_def option_rel_Some1 option_rel_Some2 rel_option_iff intro: same_stream_trans split: option.splits)

lemma touches_kept: "touches l s s' \<Longrightarrow> l \<noteq> k \<Longrightarrow> kept_stream k s s'"
  unfolding touches_def kept_stream_def by (metis option.rel_refl same_stream_refl)

lemma do_step_touches:
  "needs_lock st = Some l \<Longrightarrow> touches l s (do_step st s)"
  "touches l s (do_step (OperationEnd l answer) s)"
proof -
  show "touches l s (do_step st s)" if "needs_lock st = Some l"
    using that
    by (cases st)
       (auto simp: subscribe_begin_def unsubscribe_begin_def reconcile_begin_def invalidate_stream_def wait_for_client_def
         put_stream_def touches_def Let_def dict_simps split: option.splits)
  show "touches l s (do_step (OperationEnd l answer) s)"
    by (auto simp: operation_end_def note_producer_def restore_stream_state_def put_stream_def set_active_producer_state_def
        touches_def Let_def dict_simps split: sum.splits bool.splits option.splits StreamProducerAction.splits)
qed

lemma step_kept:
  assumes "leaves_lock k st" shows "kept_stream k s (exec_step st s)"
proof (cases "needs_lock st")
  case (Some l)
  with assms have "l \<noteq> k" by (cases st) auto
  then have "kept_stream k s (do_step st s)" by (rule touches_kept[OF do_step_touches(1)[OF Some]])
  with Some show ?thesis by (simp add: exec_step_def kept_refl)
next
  case None
  have deliver: "kept_stream k s s1" if "get_due_subscriptions l now s = Some (due, s1)" for l now due s1
    using deliver_cases[OF that] option.rel_refl[of same_stream, OF same_stream_refl]
    by (cases "l = k") (auto simp: kept_stream_def put_stream_def dict_simps kept_refl)
  have same: "kept_stream k s (snd (reconcile_request cid s))" "kept_stream k s (snd (reconcile_pass_end cid s))"
    "kept_stream k s (reconcile_crashed cid s)" for cid
    using option.rel_refl[of same_stream, OF same_stream_refl]
    by (simp_all add: reconcile_request_def reconcile_pass_end_def reconcile_crashed_def kept_stream_def)
  have ending: "kept_stream k s (do_step (OperationEnd l answer) s)" if "l \<noteq> k" for l answer
    using touches_kept[OF do_step_touches(2) that] .
  show ?thesis
    using None assms same deliver ending
    by (cases st) (auto simp del: do_step.simps(4) simp: exec_step_def kept_refl split: option.splits)
qed

lemma mon_call_rule:
  assumes "mon_call e (Some k) c ans s = (r, s')" "streams_ok s"
  shows "streams_ok s' \<and> kept_stream k s s'"
proof -
  have all: "streams_ok (fold exec_step sts s0) \<and> kept_stream k s0 (fold exec_step sts s0)"
    if "list_all (leaves_lock k) sts" "streams_ok s0" for sts s0
    using that
    by (induction sts arbitrary: s0) (auto simp: kept_refl intro: exec_step_ok kept_trans step_kept)
  let ?s0 = "s\<lparr>sample_calls := sample_calls s @ [c]\<rparr>"
  have "streams_ok ?s0" using assms(2) by (simp add: streams_ok_def key_ok_def)
  moreover have "kept_stream k s ?s0" by (auto simp: kept_stream_def same_stream_refl intro: option.rel_refl)
  moreover have "s' = fold exec_step (filter (leaves_lock k) (stream_steps e (sample_calls s @ [c]))) ?s0"
    using assms(1) by (auto simp: mon_call_def Let_def)
  ultimately show ?thesis using all kept_trans by (metis (lifting) Ball_set filter_is_subset list_all_iff mem_Collect_eq set_filter)
qed


lemma ask_producer_rule:
  assumes "ask_producer e k p s = (r, s')" "streams_ok s"
  shows "streams_ok s' \<and> kept_stream k s s'"
proof -
  have start: "streams_ok s1 \<and> kept_stream k s s1" if run: "start_sample e k i s = (a, s1)" for i a s1
  proof -
    obtain a1 s2 where sync: "mon_call e (Some k) (SyncClient (fst k)) (synchronized e) s = (a1, s2)" by force
    note kept = mon_call_rule[OF sync assms(2)]
    show ?thesis
    proof (cases "snd k \<in> {RC, HV, MAIN} \<and> a1 = Inr True")
      case True
      with run sync have "mon_call e (Some k) (SampleStart (fst k) (snd k) i) (sample_reply e) s2 = (a, s1)"
        by (cases "snd k") (auto simp: start_sample_def)
      from mon_call_rule[OF this] kept show ?thesis by (blast intro: kept_trans)
    next
      case False
      with run sync have "s1 = s \<or> s1 = s2"
        by (cases a1) (auto simp: start_sample_def split: if_splits bool.splits)
      with kept assms(2) show ?thesis by (auto simp: kept_refl)
    qed
  qed
  have stop: "streams_ok s1 \<and> kept_stream k s s1" if "stop_sample e k s = (a, s1)" for a s1
  proof (cases "snd k \<in> {RC, HV, MAIN}")
    case True
    with that have "mon_call e (Some k) (SampleStop (fst k) (snd k)) (sample_reply e) s = (a, s1)"
      by (cases "snd k") (auto simp: stop_sample_def)
    from mon_call_rule[OF this assms(2)] show ?thesis .
  qed (use that assms(2) in \<open>auto simp: stop_sample_def kept_refl\<close>)
  show ?thesis
    using assms start stop
    by (cases "pu_action p"; cases "pu_desired p") (auto simp: ask_producer_def kept_refl)
qed

definition runs_as_asked :: "MonitorStreamState \<Rightarrow> bool" where
  "runs_as_asked st \<longleftrightarrow> active_interval st = fastest (consumers st) \<and> (stream_active st \<longleftrightarrow> consumers st \<noteq> [])"

lemma operation_with_rule:
  assumes run: "operation_with e k p s = (r, s')" and ok: "streams_ok s" and p: "dict_get (locked s) k = Some p"
    and st: "dict_get (streamers s) k = Some st"
  shows "streams_ok s'" "dict_get (locked s') k = None"
    "r = Inr True \<Longrightarrow> \<exists>st'. dict_get (streamers s') k = Some st' \<and> asked_intervals (consumers st') = asked_intervals (consumers st) \<and>
       runs_as_asked st'"
    "r \<noteq> Inr True \<Longrightarrow> pu_rollback p \<Longrightarrow> r = Inr False \<and> dict_get (streamers s') k = pu_previous p"
    "r \<noteq> Inr True \<Longrightarrow> \<not> pu_rollback p \<Longrightarrow> \<exists>st'. dict_get (streamers s') k = Some st' \<and> same_stream st st'"
proof -
  obtain answer s1 where ask: "ask_producer e k p s = (answer, s1)" by force
  then have finish: "operation_end k p answer s1 = (r, s')" using run by (simp add: operation_with_def)
  from ask_producer_rule[OF ask ok] p st obtain st1
    where ok1: "streams_ok s1" and p1: "dict_get (locked s1) k = Some p" and st1: "dict_get (streamers s1) k = Some st1"
      and same: "same_stream st st1"
    by (auto simp: kept_stream_def option_rel_Some1)
  note facts = stream_facts[OF ok1]
  have aw: "awaited p st1" "stream_ok st1" using facts(1,3) st1 p1 by blast+
  note cases = note_producer_cases[OF st1 aw, of answer]
  have fast: "desired_interval st1 = fastest (consumers st1)" using aw(2) by (simp add: stream_ok_def)
  have empty: "fastest cs = None \<longleftrightarrow> cs = []" for cs by (simp add: fastest_def)
  have as_asked: "runs_as_asked st1" if "pu_action p = PA_NONE"
  proof -
    have "settled st1" using aw that action_settled by (auto simp: awaited_def)
    moreover have "\<not> stream_active st1 \<longrightarrow> desired_interval st1 = None"
      using aw(1) that by (auto simp: awaited_def stream_action_def determine_producer_action_def split: if_splits)
    moreover have act: "stream_active st1 \<longleftrightarrow> active_interval st1 \<noteq> None" using aw(2) by (simp add: stream_ok_def)
    ultimately have "active_interval st1 = desired_interval st1" by (cases "stream_active st1") (simp_all add: settled_def)
    with act show ?thesis unfolding runs_as_asked_def fast by (simp only: empty)
  qed
  have stopped: "desired_interval st1 = None" if "pu_action p = PA_STOP"
    using aw(1) that by (auto simp: awaited_def stream_action_def determine_producer_action_def split: if_splits)
  have started: "desired_interval st1 \<noteq> None" if "pu_action p \<noteq> PA_STOP" "pu_action p \<noteq> PA_NONE"
    using aw(1) that action_desired[of st1] by (cases "pu_action p") (auto simp: awaited_def)
  show "streams_ok s'" using operation_end_ok[OF ok1 p1, of answer] finish by simp
  show "dict_get (locked s') k = None"
    using finish by (auto simp: operation_end_def cases Let_def restore_stream_state_def put_stream_def dict_simps split: if_splits option.splits)
  note asked = same_stream_facts(7)[OF same]
  show "\<exists>st'. dict_get (streamers s') k = Some st' \<and> asked_intervals (consumers st') = asked_intervals (consumers st) \<and> runs_as_asked st'"
    if "r = Inr True"
  proof -
    let ?st = "if pu_action p = PA_NONE then st1 else st1\<lparr>stream_active := (pu_action p \<noteq> PA_STOP),
         active_interval := if pu_action p = PA_STOP then None else desired_interval st1\<rparr>"
    have "dict_get (streamers s') k = Some ?st"
      using finish that st1 by (auto simp: operation_end_def cases Let_def put_stream_def dict_simps split: if_splits)
    moreover have "runs_as_asked ?st"
      using as_asked stopped started fast empty[of "consumers st1"] by (auto simp: runs_as_asked_def simp del: not_None_eq not_Some_eq)
    ultimately show ?thesis using asked by auto
  qed
  show "r = Inr False \<and> dict_get (streamers s') k = pu_previous p" if "r \<noteq> Inr True" "pu_rollback p"
    using finish that
    by (auto simp: operation_end_def cases Let_def restore_stream_state_def put_stream_def dict_simps split: if_splits option.splits)
  show "\<exists>st'. dict_get (streamers s') k = Some st' \<and> same_stream st st'" if "r \<noteq> Inr True" "\<not> pu_rollback p"
    using finish that st1 same by (auto simp: operation_end_def cases Let_def split: if_splits)
qed

lemma asked_set: "asked_intervals (dict_set c sub cs) = dict_set c (requested_interval sub) (asked_intervals cs)"
  by (induction cs) (auto simp: asked_intervals_def)

text \<open>The intervals asked for on a stream, none if there is no stream.\<close>

definition asked_of :: "stream_key \<Rightarrow> stream_service \<Rightarrow> (string, int) dict" where
  "asked_of k s = (case dict_get (streamers s) k of None \<Rightarrow> [] | Some st \<Rightarrow> asked_intervals (consumers st))"

text \<open>
  Claim C34. A subscription is all or nothing, however the client answers and whatever other threads do while it does: either it is
  confirmed, the consumer is added with its interval and the producer runs at the fastest interval, or it is
  refused and the stream is exactly as before.
\<close>

theorem subscription_is_all_or_nothing:
  assumes "s = fold exec_step steps init_streams" and "dict_get (locked s) k = None" and "0 < interval"
    and "subscribe e now k consumer interval s = (r, s')"
  shows "(r = Inr True \<and> (\<exists>st. dict_get (streamers s') k = Some st \<and>
            asked_intervals (consumers st) = dict_set consumer interval (asked_of k s) \<and> runs_as_asked st)) \<or>
         (r = Inr False \<and> dict_get (streamers s') k = dict_get (streamers s) k)"
proof -
  have ok: "streams_ok s" unfolding assms(1) by (rule stream_runs.inv_run[OF refl])
  obtain p s1 where begun: "subscribe_begin now k consumer interval s = (Inr p, s1)"
    using assms(3) by (auto simp: subscribe_begin_def Let_def)
  with assms(4) have run: "operation_with e k p s1 = (r, s')" by (simp add: subscribe_def)
  let ?st = "add_or_update_subscription now consumer interval (get_or_create_stream k s)"
  have s1: "dict_get (locked s1) k = Some p" "dict_get (streamers s1) k = Some ?st" "pu_rollback p"
    "pu_previous p = dict_get (streamers s) k"
    using begun assms(3) by (auto simp: subscribe_begin_def Let_def wait_for_client_def put_stream_def dict_simps)
  have ok1: "streams_ok s1" using subscribe_begin_ok[OF ok assms(2), of now consumer interval] begun by simp
  note rule = operation_with_rule[OF run ok1 s1(1,2)]
  have "asked_intervals [] = []" by (simp add: asked_intervals_def)
  then have "asked_intervals (consumers ?st) = dict_set consumer interval (asked_of k s)"
    by (auto simp: add_or_update_subscription_def Let_def asked_set asked_of_def get_or_create_stream_def new_stream_def split: option.splits)
  then show ?thesis using rule(3,4) s1(3,4) by (cases "r = Inr True") auto
qed

definition example_stream_env :: "bool \<Rightarrow> stream_env" where
  "example_stream_env ok = \<lparr>synchronized = (\<lambda>_. Inr True), sample_reply = (\<lambda>_. Inr ok), connected = (\<lambda>_. True),
     stream_steps = (\<lambda>_. [Deliver (''a'', HV) 9])\<rparr>"

theorem subscription_is_all_or_nothing_witness:
  "\<exists>s'. subscribe (example_stream_env True) 8 (''a'', HV) ''prometheus'' 1000 (fold exec_step example_stream_steps init_streams) = (Inr True, s') \<and>
     (\<exists>st. dict_get (streamers s') (''a'', HV) = Some st \<and> runs_as_asked st \<and>
       asked_intervals (consumers st) = [(''save'', 5000), (''show'', 2000), (''prometheus'', 1000)])"
proof -
  let ?s = "fold exec_step example_stream_steps init_streams"
  obtain r s' where run: "subscribe (example_stream_env True) 8 (''a'', HV) ''prometheus'' 1000 ?s = (r, s')" by force
  have "fst (subscribe (example_stream_env True) 8 (''a'', HV) ''prometheus'' 1000 ?s) = Inr True" by code_simp
  then have r: "r = Inr True" by (simp add: run)
  have free: "dict_get (locked ?s) (''a'', HV) = None" by code_simp
  have "dict_set ''prometheus'' 1000 (asked_of (''a'', HV) ?s) = [(''save'', 5000), (''show'', 2000), (''prometheus'', 1000)]" by code_simp
  with subscription_is_all_or_nothing[OF refl free _ run] show ?thesis by (auto simp: r run)
qed


section \<open>Deliveries\<close>

lemma catch_up_spec:
  assumes "0 < i"
  shows "\<exists>m next'. catch_up i now next = Some next' \<and> now < next' \<and> next' = next + int m * i \<and> next' \<le> max next (now + i) \<and>
    (next \<le> now \<longrightarrow> next + i \<le> next')"
proof (induction "nat (now - next + i)" arbitrary: "next" rule: less_induct)
  case less
  show ?case
  proof (cases "next \<le> now")
    case True
    with assms have "nat (now - (next + i) + i) < nat (now - next + i)" by simp
    from less[OF this] obtain m next' where ih: "catch_up i now (next + i) = Some next'" "now < next'" "next' = next + i + int m * i"
      "next' \<le> max (next + i) (now + i)" by blast
    have "catch_up i now next = Some next'" using True ih(1) by (subst catch_up.simps) simp
    moreover have "next' = next + int (Suc m) * i" using ih(3) by (simp add: algebra_simps)
    moreover have "next + i \<le> next'" using ih(3) assms by simp
    ultimately show ?thesis using ih(2,4) True by (intro exI[of _ "Suc m"] exI[of _ next']) auto
  next
    case False
    then show ?thesis by (intro exI[of _ 0] exI[of _ "next"]) (simp add: catch_up.simps)
  qed
qed

definition moved_on :: "int \<Rightarrow> StreamSubscription \<Rightarrow> StreamSubscription" where
  "moved_on now sub = sub\<lparr>next_delivery := the (catch_up (requested_interval sub) now (next_delivery sub))\<rparr>"

lemma not_due: "now < next_delivery sub \<Longrightarrow> moved_on now sub = sub"
  by (simp add: moved_on_def catch_up.simps)

lemma due_consumers_form:
  "\<forall>(c, sub) \<in> set cs. 0 < requested_interval sub \<Longrightarrow>
   due_consumers now cs = Some (map (\<lambda>(c, sub). (c, moved_on now sub)) (filter (\<lambda>(c, sub). next_delivery sub \<le> now) cs),
     map (\<lambda>(c, sub). (c, moved_on now sub)) cs)"
proof (induction cs)
  case (Cons x cs)
  obtain c sub where x: "x = (c, sub)" by force
  from Cons.prems x have "0 < requested_interval sub" by simp
  from catch_up_spec[OF this, of now "next_delivery sub"] obtain next'
    where next': "catch_up (requested_interval sub) now (next_delivery sub) = Some next'" by blast
  then have moved: "moved_on now sub = sub\<lparr>next_delivery := next'\<rparr>" by (simp add: moved_on_def)
  have ih: "due_consumers now cs = Some (map (\<lambda>(c, sub). (c, moved_on now sub)) (filter (\<lambda>(c, sub). next_delivery sub \<le> now) cs),
     map (\<lambda>(c, sub). (c, moved_on now sub)) cs)" using Cons by simp
  show ?case
  proof (cases "now < next_delivery sub")
    case True
    then show ?thesis by (simp add: x ih not_due[OF True])
  next
    case False
    then show ?thesis by (simp add: x ih next' moved Let_def)
  qed
qed simp

lemma dict_get_map_snd: "dict_get (map (\<lambda>(c, sub). (c, f sub)) cs) c = map_option f (dict_get cs c)"
  by (induction cs) auto

lemma get_due_form:
  assumes ok: "streams_ok s" and st: "dict_get (streamers s) k = Some st"
  shows "get_due_subscriptions k now s =
    Some (map (\<lambda>(c, sub). (c, moved_on now sub)) (filter (\<lambda>(c, sub). next_delivery sub \<le> now) (consumers st)),
      put_stream k (st\<lparr>consumers := map (\<lambda>(c, sub). (c, moved_on now sub)) (consumers st)\<rparr>) s)"
proof -
  have "\<forall>(c, sub) \<in> set (consumers st). 0 < requested_interval sub" using stream_facts(1)[OF ok st] by (simp add: stream_ok_def)
  from due_consumers_form[OF this] show ?thesis using st by (simp add: get_due_subscriptions_def)
qed

lemma due_iff:
  assumes "dict_ok cs" and "dict_get cs c = Some sub"
  shows "c \<in> fst ` set (map (\<lambda>(c, sub). (c, f sub)) (filter (\<lambda>(c, sub). next_delivery sub \<le> now) cs)) \<longleftrightarrow> next_delivery sub \<le> now"
proof -
  have "(c, sub') \<in> set cs \<longleftrightarrow> sub' = sub" for sub'
    using assms by (metis dict_ok_def map_of_eq_Some_iff option.inject)
  then show ?thesis by (force simp: image_iff)
qed

text \<open>How often a consumer is delivered to, when samples come in at the times \<open>nows\<close>.\<close>

fun deliveries :: "stream_key \<Rightarrow> string \<Rightarrow> int list \<Rightarrow> stream_service \<Rightarrow> nat" where
  "deliveries k c [] s = 0"
| "deliveries k c (now # nows) s =
    (case get_due_subscriptions k now s of
       None \<Rightarrow> 0
     | Some (due, s1) \<Rightarrow> (if c \<in> fst ` set due then 1 else 0) + deliveries k c nows s1)"

fun pulses :: "StreamSubscription \<Rightarrow> int list \<Rightarrow> nat" where
  "pulses sub [] = 0"
| "pulses sub (now # nows) = (if next_delivery sub \<le> now then 1 else 0) + pulses (moved_on now sub) nows"

lemma deliveries_pulses:
  "streams_ok s \<Longrightarrow> dict_get (streamers s) k = Some st \<Longrightarrow> dict_get (consumers st) c = Some sub \<Longrightarrow>
   deliveries k c nows s = pulses sub nows"
proof (induction nows arbitrary: s st sub)
  case (Cons now nows)
  note get = get_due_form[OF Cons.prems(1,2), of now]
  have ok: "dict_ok (consumers st)" using stream_facts(1)[OF Cons.prems(1,2)] by (simp add: stream_ok_def)
  let ?st = "st\<lparr>consumers := map (\<lambda>(c, sub). (c, moved_on now sub)) (consumers st)\<rparr>"
  have "deliveries k c nows (put_stream k ?st s) = pulses (moved_on now sub) nows"
    by (rule Cons.IH[of _ ?st]) (use Cons.prems deliver_ok[OF Cons.prems(1) get] in \<open>simp_all add: put_stream_def dict_simps dict_get_map_snd\<close>)
  with get due_iff[OF ok Cons.prems(3), of "moved_on now" now] show ?case by simp
qed simp

lemma moved_on_interval: "requested_interval (moved_on now sub) = requested_interval sub"
  by (simp add: moved_on_def)

lemma moved_on_next:
  assumes "0 < requested_interval sub"
  shows "now < next_delivery (moved_on now sub)" "next_delivery (moved_on now sub) \<le> max (next_delivery sub) (now + requested_interval sub)"
    "next_delivery sub \<le> now \<Longrightarrow> next_delivery sub + requested_interval sub \<le> next_delivery (moved_on now sub)"
    "requested_interval sub dvd next_delivery (moved_on now sub) - next_delivery sub"
  using catch_up_spec[OF assms, of now "next_delivery sub"] by (auto simp: moved_on_def)

lemma pulses_bound:
  assumes "0 < requested_interval sub" and "\<forall>t \<in> set nows. t \<le> l"
  shows "int (pulses sub nows) * requested_interval sub \<le> max (next_delivery sub) (l + requested_interval sub) - next_delivery sub"
  using assms
proof (induction nows arbitrary: sub)
  case (Cons now nows)
  let ?sub = "moved_on now sub"
  have ih: "int (pulses ?sub nows) * requested_interval sub \<le> max (next_delivery ?sub) (l + requested_interval sub) - next_delivery ?sub"
    using Cons.IH[of ?sub] Cons.prems by (simp add: moved_on_interval)
  have now: "now \<le> l" using Cons.prems by simp
  note step = moved_on_next[OF Cons.prems(1), of now]
  show ?case
  proof (cases "next_delivery sub \<le> now")
    case True
    with ih step(2) step(3)[OF True] now show ?thesis by (simp add: algebra_simps max_def split: if_splits)
  next
    case False
    then have "?sub = sub" using not_due by simp
    with ih False show ?thesis by simp
  qed
qed simp

lemma pulses_rate:
  assumes i: "0 < requested_interval sub" and nows: "\<forall>t \<in> set nows. h \<le> t \<and> t \<le> l" and "h \<le> l"
  shows "int (pulses sub nows) \<le> (l - h) div requested_interval sub + 2"
  using i nows
proof (induction nows arbitrary: sub)
  case Nil
  then show ?case using assms(3) by (simp add: pos_imp_zdiv_nonneg_iff)
next
  case (Cons now nows)
  let ?i = "requested_interval sub" and ?sub = "moved_on now sub"
  show ?case
  proof (cases "next_delivery sub \<le> now")
    case True
    have now: "h \<le> now" "now \<le> l" using Cons.prems by auto
    have "int (pulses ?sub nows) * ?i \<le> max (next_delivery ?sub) (l + ?i) - next_delivery ?sub"
      using pulses_bound[of ?sub nows l] Cons.prems by (simp add: moved_on_interval)
    also have "\<dots> < l + ?i - h"
      using moved_on_next(1,2)[OF Cons.prems(1), of now] True now Cons.prems(1) by (simp add: max_def)
    finally have "int (pulses ?sub nows) * ?i < (l - h) + ?i" by simp
    then have "(int (pulses ?sub nows) - 1) * ?i \<le> l - h" by (simp add: left_diff_distrib)
    then have "((int (pulses ?sub nows) - 1) * ?i) div ?i \<le> (l - h) div ?i" using Cons.prems(1) by (rule zdiv_mono1)
    with Cons.prems(1) have "int (pulses ?sub nows) - 1 \<le> (l - h) div ?i" by simp
    with True show ?thesis by simp
  next
    case False
    then show ?thesis using Cons.IH[of sub] Cons.prems not_due[of now sub] by simp
  qed
qed




section \<open>Clients that come back\<close>

definition quiet_streams :: "stream_env \<Rightarrow> bool" where
  "quiet_streams e \<longleftrightarrow> (\<forall>t. stream_steps e t = [])"

lemma quiet_call: "quiet_streams e \<Longrightarrow> mon_call e held c ans s = (ans (sample_calls s @ [c]), s\<lparr>sample_calls := sample_calls s @ [c]\<rparr>)"
  by (simp add: mon_call_def quiet_streams_def Let_def)

lemma quiet_ask: "quiet_streams e \<Longrightarrow> ask_producer e k p s = (r, s') \<Longrightarrow> streamers s' = streamers s \<and> locked s' = locked s"
  by (auto simp: ask_producer_def start_sample_def stop_sample_def quiet_call split: StreamProducerAction.splits option.splits if_splits
      sum.splits bool.splits)

lemma quiet_operation:
  assumes "quiet_streams e" and "operation_with e k p s = (r, s')"
  shows "touches k s s'"
proof -
  obtain a s1 where ask: "ask_producer e k p s = (a, s1)" by force
  with assms(2) have finish: "operation_end k p a s1 = (r, s')" by (simp add: operation_with_def)
  have "touches k s1 s'" using finish
    by (auto simp: operation_end_def note_producer_def restore_stream_state_def put_stream_def set_active_producer_state_def
        touches_def Let_def dict_simps split: sum.splits bool.splits option.splits StreamProducerAction.splits if_splits)
  with quiet_ask[OF assms(1) ask] show ?thesis by (simp add: touches_def)
qed

lemma reconcile_one:
  assumes quiet: "quiet_streams e" and ok: "streams_ok s" and free: "dict_get (locked s) k = None"
    and begun: "reconcile_begin k s = (Some p, s1)" and run: "operation_with e k p s1 = (r, s2)"
  shows "streams_ok s2" "touches k s s2" "dict_get (locked s2) k = None" "asked_of k s2 = asked_of k s"
    "r = Inr True \<Longrightarrow> dict_get (streamers s2) k = Some st \<Longrightarrow> runs_as_asked st"
proof -
  obtain st0 where st0: "dict_get (streamers s) k = Some st0" "streamers s1 = streamers s" and p: "dict_get (locked s1) k = Some p"
    "\<not> pu_rollback p" and touch: "touches k s s1"
    using begun by (auto simp: reconcile_begin_def Let_def wait_for_client_def touches_def dict_simps split: option.splits)
  have ok1: "streams_ok s1" using reconcile_begin_ok[OF ok free] begun by simp
  note rule = operation_with_rule[OF run ok1 p(1)]
  have st1: "dict_get (streamers s1) k = Some st0" using st0 by simp
  show "streams_ok s2" "dict_get (locked s2) k = None" using rule(1,2)[OF st1] .
  show "touches k s s2" using touch quiet_operation[OF quiet run] by (simp add: touches_def)
  show "asked_of k s2 = asked_of k s"
    using rule(3,5)[OF st1] p(2) st0 same_stream_facts(7) by (cases "r = Inr True") (auto simp: asked_of_def)
  show "runs_as_asked st" if "r = Inr True" "dict_get (streamers s2) k = Some st" using rule(3)[OF st1 that(1)] that(2) by auto
qed

lemma reconcile_sections_rule:
  assumes quiet: "quiet_streams e"
  shows "streams_ok s \<Longrightarrow> \<forall>k \<in> set ks. dict_get (locked s) k = None \<Longrightarrow> reconcile_sections e ks acc s = (Inr ok, s') \<Longrightarrow>
    streams_ok s' \<and> (\<forall>k. k \<notin> set ks \<longrightarrow> dict_get (streamers s') k = dict_get (streamers s) k) \<and>
    (\<forall>k. dict_get (locked s) k = None \<longrightarrow> dict_get (locked s') k = None) \<and> (\<forall>k. asked_of k s' = asked_of k s) \<and>
    (ok \<longrightarrow> (\<forall>k \<in> set ks. \<forall>st. dict_get (streamers s') k = Some st \<longrightarrow> runs_as_asked st))"
proof (induction ks arbitrary: acc s)
  case (Cons k ks)
  show ?case
  proof (cases "fst (reconcile_begin k s)")
    case None
    then have begun: "reconcile_begin k s = (None, s)" and gone: "dict_get (streamers s) k = None"
      by (auto simp: reconcile_begin_def Let_def split: option.splits)
    with Cons.prems(3) have "reconcile_sections e ks acc s = (Inr ok, s')" by simp
    note ih = Cons.IH[OF Cons.prems(1) _ this]
    show ?thesis
    proof (cases "k \<in> set ks")
      case False
      then have "dict_get (streamers s') k = None" using ih Cons.prems(2) gone by (metis list.set_intros(2))
      with ih Cons.prems(2) show ?thesis by simp
    qed (use ih Cons.prems(2) in auto)
  next
    case (Some p)
    then obtain s1 where begun: "reconcile_begin k s = (Some p, s1)" by (cases "reconcile_begin k s") auto
    obtain r s2 where run: "operation_with e k p s1 = (r, s2)" by force
    with Cons.prems(3) begun obtain ok1 where r: "r = Inr ok1" and rest: "reconcile_sections e ks (acc \<and> ok1) s2 = (Inr ok, s')"
      by (cases r) auto
    have free: "dict_get (locked s) k = None" using Cons.prems(2) by simp
    note one = reconcile_one[OF quiet Cons.prems(1) free begun run]
    have locks: "dict_get (locked s) l = None \<Longrightarrow> dict_get (locked s2) l = None" for l
      using one(3) touchesD(2)[OF one(2)] by (cases "l = k") simp_all
    then have "\<forall>k \<in> set ks. dict_get (locked s2) k = None" using Cons.prems(2) by simp
    note ih = Cons.IH[OF one(1) this rest]
    have acc: "acc' = True" if "reconcile_sections e ks acc' x = (Inr True, y)" for acc' x y
      using that
      by (induction ks arbitrary: acc' x) (auto split: prod.splits option.splits sum.splits)
    have asked: "asked_of l s2 = asked_of l s" for l
      using one(4) touchesD(1)[OF one(2)] by (cases "l = k") (simp_all add: asked_of_def)
    have "runs_as_asked st" if "ok" "l \<in> set (k # ks)" "dict_get (streamers s') l = Some st" for l st
    proof (cases "l \<in> set ks")
      case False
      with that have "l = k" "dict_get (streamers s2) k = Some st" using ih by (simp, metis set_ConsD)
      moreover have "r = Inr True" using acc rest that(1) r by auto
      ultimately show ?thesis using one(5) by blast
    next
      case True
      with ih that show ?thesis by blast
    qed
    moreover have "dict_get (streamers s') l = dict_get (streamers s) l" if "l \<notin> set (k # ks)" for l
      using that ih touchesD(1)[OF one(2)] by (metis list.set_intros)
    ultimately show ?thesis using ih locks asked by (metis (no_types, lifting))
  qed
qed auto

lemma reconcile_client_rule:
  assumes quiet: "quiet_streams e" and ok: "streams_ok s" and free: "\<forall>k. fst k = cid \<longrightarrow> dict_get (locked s) k = None"
    and rec: "reconcile_client_streams e cid s = (Inr done, s')"
  shows "streams_ok s'" "\<forall>k. fst k = cid \<longrightarrow> dict_get (locked s') k = None" "asked_of k s' = asked_of k s"
    "done \<Longrightarrow> fst k = cid \<Longrightarrow> dict_get (streamers s') k = Some st \<Longrightarrow> runs_as_asked st \<or> consumers st = []"
proof -
  have "\<forall>k \<in> set (sections_to_reconcile cid s). dict_get (locked s) k = None"
    using free by (auto simp: sections_to_reconcile_def)
  note rule = reconcile_sections_rule[OF quiet ok this rec[unfolded reconcile_client_streams_def]]
  from rule show "streams_ok s'" by blast
  from rule free show "\<forall>k. fst k = cid \<longrightarrow> dict_get (locked s') k = None" by blast
  from rule show "asked_of k s' = asked_of k s" by blast
  assume "done" "fst k = cid" and get': "dict_get (streamers s') k = Some st"
  show "runs_as_asked st \<or> consumers st = []"
  proof (cases "k \<in> set (sections_to_reconcile cid s)")
    case True
    with rule \<open>done\<close> get' show ?thesis by blast
  next
    case False
    with rule get' have get: "dict_get (streamers s) k = Some st" by metis
    with False \<open>fst k = cid\<close> have "desired_interval st = None" by (force simp: sections_to_reconcile_def dest: map_of_SomeD)
    then show ?thesis using stream_facts(1)[OF ok get] by (auto simp: stream_ok_def fastest_def split: if_splits)
  qed
qed

lemma reconcile_attempts_rule:
  assumes quiet: "quiet_streams e"
  shows "streams_ok s \<Longrightarrow> \<forall>k. fst k = cid \<longrightarrow> dict_get (locked s) k = None \<Longrightarrow> reconcile_attempts e cid n s = (Inr True, s') \<Longrightarrow>
    (\<forall>k st. fst k = cid \<and> dict_get (streamers s') k = Some st \<longrightarrow> runs_as_asked st \<or> consumers st = []) \<and>
    (\<forall>k. asked_of k s' = asked_of k s)"
proof (induction n arbitrary: s)
  case (Suc n)
  obtain b s1 where call: "mon_call e None (IsConnected cid) (connected e) s = (b, s1)" by force
  then have same: "streamers s1 = streamers s" "locked s1 = locked s" by (auto simp: quiet_call[OF quiet])
  have b: "b = True" using Suc.prems(3) call by (cases b) simp_all
  have start: "streams_ok s1" "\<forall>k. fst k = cid \<longrightarrow> dict_get (locked s1) k = None" "\<And>k. asked_of k s1 = asked_of k s"
    using Suc.prems(1,2) same by (simp_all add: streams_ok_def key_ok_def asked_of_def)
  obtain r s2 where rec: "reconcile_client_streams e cid s1 = (r, s2)" by force
  show ?case
  proof (cases "r = Inr False")
    case True
    note rule = reconcile_client_rule[OF quiet start(1,2) rec[unfolded True]]
    let ?s3 = "if n > 0 then snd (mon_call e None RetrySleep (\<lambda>_. ()) s2) else s2"
    have same3: "streamers ?s3 = streamers s2" "locked ?s3 = locked s2" by (simp_all add: quiet_call[OF quiet])
    then have "streams_ok ?s3" "\<forall>k. fst k = cid \<longrightarrow> dict_get (locked ?s3) k = None" "\<And>k. asked_of k ?s3 = asked_of k s2"
      using rule(1,2) by (simp_all add: streams_ok_def key_ok_def asked_of_def)
    moreover have "reconcile_attempts e cid n ?s3 = (Inr True, s')"
      using Suc.prems(3) by (simp add: call b rec True)
    ultimately show ?thesis using Suc.IH rule(3) start(3) by metis
  next
    case False
    with Suc.prems(3) rec have "r = Inr True" "s' = s2"
      by (auto simp: call b split: sum.splits bool.splits)
    with reconcile_client_rule[OF quiet start(1,2), of True s2] rec start(3) show ?thesis by metis
  qed
qed simp


definition lost_and_back :: "stream_step list" where
  "lost_and_back = example_stream_steps @ [InvalidateStream (''a'', HV)]"


end
