(* ===== verification/MonitorPersist.thy ===== *)
theory MonitorPersist
  imports Complex_Main Protocol "HOL-Library.List_Lexorder"
begin

text \<open>
  Samples and events on their way to the disk (\<open>server/services/monitor_persistence_service.py\<close>): the queue that the monitoring plane
  fills, the four workers that take items from it, the buffers, the batches being written and the counters of each stream. Every
  section of the code that holds a lock, and every write of a batch, is a step; steps of all threads interleave. Streams of samples
  (\<open>_persistence_streams\<close>) and of events (\<open>_event_states\<close>), which have the same fields under the same lock, are kept
  in one dictionary, as are their buffers. Metadata files are left out.
\<close>

definition PERSISTENCE_QUEUE_MAXSIZE :: nat where "PERSISTENCE_QUEUE_MAXSIZE = 10000"

definition PERSISTENCE_BATCH_SAMPLES :: nat where "PERSISTENCE_BATCH_SAMPLES = 100"

definition PERSISTENCE_FLUSH_INTERVAL_NS :: int where "PERSISTENCE_FLUSH_INTERVAL_NS = 5000000000"

definition PERSISTENCE_FLUSH_CHECK_NS :: int where "PERSISTENCE_FLUSH_CHECK_NS = 1000000000"

definition RC_COLUMNS :: "string list" where
  "RC_COLUMNS = [''timestamp_utc_ns'', ''register'', ''value'']"

definition HV_COLUMNS :: "string list" where
  "HV_COLUMNS = [''timestamp_utc_ns'', ''channel'', ''voltage'', ''current'', ''temperature'', ''channel_state'', ''power_state'']"

definition MAIN_COLUMNS :: "string list" where
  "MAIN_COLUMNS = [''timestamp_utc_ns'', ''temperature_c'', ''humidity_pct'', ''pressure_hpa'', ''voltage_5v_v'', ''voltage_3v3_v'',
     ''current_a'', ''fpga_temperature_c'']"

definition EVENT_COLUMNS :: "string list" where
  "EVENT_COLUMNS = [''timestamp_utc_ns'', ''channel'', ''event'', ''severity'', ''sender'', ''source_request_id'', ''details_json'', ''error'']"

section \<open>Rows\<close>

type_synonym row = "(string, pyval) dict"

text \<open>\<open>v.get(k)\<close> and \<open>v or {}\<close>; only a dictionary has a method \<open>get\<close>.\<close>

definition pget :: "pyval \<Rightarrow> string \<Rightarrow> py_exn + pyval" where
  "pget v k = (case v of PDict d \<Rightarrow> Inr (get_or PNone d k) | _ \<Rightarrow> Inl AttributeError)"

definition or_empty :: "pyval \<Rightarrow> pyval" where
  "or_empty v = (if truthy v then v else PDict [])"

definition pget_dict :: "pyval \<Rightarrow> string \<Rightarrow> py_exn + pyval" where
  "pget_dict v k = map_sum id or_empty (pget v k)"

text \<open>The columns of a row that are read from one dictionary, with their keys there.\<close>

fun read_columns :: "pyval \<Rightarrow> (string \<times> string) list \<Rightarrow> py_exn + row" where
  "read_columns v [] = Inr []"
| "read_columns v ((col, k) # cks) =
    bind_sum (pget v k) (\<lambda>x. bind_sum (read_columns v cks) (\<lambda>r. Inr ((col, x) # r)))"

fun bind_rows :: "('a \<Rightarrow> py_exn + row) \<Rightarrow> 'a list \<Rightarrow> py_exn + row list" where
  "bind_rows f [] = Inr []"
| "bind_rows f (x # xs) = bind_sum (f x) (\<lambda>r. bind_sum (bind_rows f xs) (\<lambda>rs. Inr (r # rs)))"

text \<open>What all sections start with: no timestamp, no rows. \<open>rows\<close> is given the timestamp and the data.\<close>

definition with_timestamp :: "pyval \<Rightarrow> (pyval \<Rightarrow> pyval \<Rightarrow> py_exn + row list) \<Rightarrow> py_exn + row list option" where
  "with_timestamp pl rows =
    bind_sum (pget (or_empty pl) ''timestamp_utc_ns'') (\<lambda>ts.
      if ts = PNone then Inr None
      else bind_sum (pget_dict (or_empty pl) ''data'') (\<lambda>data. bind_sum (rows ts data) (\<lambda>rs. Inr (Some rs))))"

definition normalize_main :: "pyval \<Rightarrow> py_exn + row list option" where
  "normalize_main pl =
    with_timestamp pl (\<lambda>ts data.
      bind_sum (pget_dict data ''env'') (\<lambda>env.
      bind_sum (pget_dict data ''power'') (\<lambda>power.
      bind_sum (pget_dict data ''fpga'') (\<lambda>fpga.
      bind_sum (read_columns env [(''temperature_c'', ''temperature_c''), (''humidity_pct'', ''humidity_pct''),
        (''pressure_hpa'', ''pressure_hpa'')]) (\<lambda>r1.
      bind_sum (read_columns power [(''voltage_5v_v'', ''rail_ain0_v''), (''voltage_3v3_v'', ''rail_ain2_v''),
        (''current_a'', ''i_mon_1_a'')]) (\<lambda>r2.
      bind_sum (read_columns fpga [(''fpga_temperature_c'', ''temperature_c'')]) (\<lambda>r3.
        Inr [(''timestamp_utc_ns'', ts) # r1 @ r2 @ r3])))))))"

text \<open>The keys of a decoded payload are strings: looking a channel up by its number finds nothing.\<close>

definition normalize_hv :: "pyval \<Rightarrow> py_exn + row list option" where
  "normalize_hv pl =
    with_timestamp pl (\<lambda>ts data.
      bind_sum (pget_dict data ''electrical'') (\<lambda>electrical.
      bind_sum (pget_dict electrical ''channels'') (\<lambda>channels.
        bind_rows (\<lambda>raw_channel.
          bind_sum (pget_dict channels (str_int raw_channel)) (\<lambda>channel_data.
          bind_sum (read_columns channel_data (map (\<lambda>c. (c, c)) [''voltage'', ''current'', ''temperature'', ''channel_state'', ''power_state'']))
            (\<lambda>r. Inr ((''timestamp_utc_ns'', ts) # (''channel'', PInt (raw_channel - 1)) # r)))) [1..7])))"

definition rc_row :: "pyval \<Rightarrow> int \<Rightarrow> pyval \<Rightarrow> py_exn + row" where
  "rc_row ts register source =
    bind_sum (pget source ''value'') (\<lambda>v. Inr [(''timestamp_utc_ns'', ts), (''register'', PInt register), (''value'', v)])"

definition normalize_rc :: "pyval \<Rightarrow> py_exn + row list option" where
  "normalize_rc pl =
    with_timestamp pl (\<lambda>ts data.
      bind_sum (pget_dict data ''free'') (\<lambda>free.
      bind_sum (pget_dict data ''trigger'') (\<lambda>trigger.
      bind_sum (pget_dict free ''channels'') (\<lambda>free_channels.
      bind_sum (pget_dict trigger ''channels'') (\<lambda>trigger_channels.
      bind_sum (bind_rows (\<lambda>ch. bind_sum (pget_dict free_channels (str_int ch)) (rc_row ts (20 + ch))) [0..6]) (\<lambda>r1.
      bind_sum (bind_sum (pget_dict trigger ''external_trigger_rate'') (rc_row ts 27)) (\<lambda>r2.
      bind_sum (bind_sum (pget_dict trigger ''auto_trigger_rate'') (rc_row ts 28)) (\<lambda>r3.
      bind_sum (bind_rows (\<lambda>ch. bind_sum (pget_dict trigger_channels (str_int ch)) (rc_row ts (32 + ch))) [0..6]) (\<lambda>r4.
        Inr (r1 @ [r2, r3] @ r4))))))))))"

text \<open>\<open>sort_keys=True\<close>\<close>

fun sorted_keys :: "pyval \<Rightarrow> pyval" where
  "sorted_keys (PList vs) = PList (map sorted_keys vs)"
| "sorted_keys (PDict d) = PDict (sort_key (\<lambda>(k, v). map of_char k :: nat list) (map (\<lambda>(k, v). (k, sorted_keys v)) d))"
| "sorted_keys v = v"

text \<open>The row of an event; \<open>fr\<close> is the text of a float.\<close>

definition normalize_event :: "(64 word \<Rightarrow> string) \<Rightarrow> ProtocolMessage \<Rightarrow> py_exn + row list option" where
  "normalize_event fr m =
    (case or_empty (payload m) of
       PDict d \<Rightarrow>
         (let ts = get_or PNone d ''timestamp_utc_ns'' in
          if ts = PNone then Inr None
          else Inr (Some [[(''timestamp_utc_ns'', ts),
            (''channel'', PStr (case channel m of Some c \<Rightarrow> channel_value c | None \<Rightarrow> ''None'')),
            (''event'', get_or (PStr ''unknown_event'') d ''event''),
            (''severity'', get_or (PStr ''info'') d ''severity''),
            (''sender'', if sender m \<noteq> PNone then sender m else PStr []),
            (''source_request_id'', get_or PNone d ''source_request_id''),
            (''details_json'', PStr (dumps fr (sorted_keys (get_or (PDict []) d ''details'')))),
            (''error'', get_or PNone d ''error'')]]))
     | _ \<Rightarrow> Inl AttributeError)"

section \<open>State\<close>

datatype persist_key = is_sample: SampleKey string Channel | EventKey string

record persist_item =
  it_key :: persist_key
  it_message :: ProtocolMessage

definition normalize_item :: "(64 word \<Rightarrow> string) \<Rightarrow> persist_item \<Rightarrow> py_exn + row list option" where
  "normalize_item fr i =
    (case it_key i of
       SampleKey cid section \<Rightarrow>
         (case section of
            MAIN \<Rightarrow> normalize_main (payload (it_message i))
          | RC \<Rightarrow> normalize_rc (payload (it_message i))
          | HV \<Rightarrow> normalize_hv (payload (it_message i))
          | _ \<Rightarrow> Inr None)
     | EventKey cid \<Rightarrow> normalize_event fr (it_message i))"

record persist_stream =
  ps_enabled :: bool
  ps_format :: string
  ps_interval :: int
  ps_enqueued :: nat
  ps_written :: nat
  ps_dropped :: nat
  ps_pending :: nat
  ps_rows :: nat
  ps_error :: "string option"

text \<open>A sample in a buffer is the list of its rows.\<close>

record persist_buffer =
  buf_samples :: "row list list"
  buf_first :: "int option"

text \<open>Who took a batch from its buffer and is going to write it.\<close>

datatype batch_owner = ByWorker | ByStop | ByOther

text \<open>\<open>stop_phase\<close>: 0, or 1 after \<open>stop\<close> has closed the service, 2 after it has taken the buffers.\<close>

record persistence =
  p_streams :: "(persist_key, persist_stream) dict"
  p_queue :: "persist_item list"
  p_running :: bool
  p_executor :: bool
  stop_phase :: nat
  in_hand :: "persist_item list"
  unmarked :: "persist_key list"
  p_buffers :: "(persist_key, persist_buffer) dict"
  in_flight :: "(batch_owner \<times> persist_key \<times> row list list) list"
  p_files :: "(persist_key, row list) dict"
  next_flush_check :: int

definition init_persistence :: persistence where
  "init_persistence = \<lparr>p_streams = [], p_queue = [], p_running = False, p_executor = False, stop_phase = 0, in_hand = [], unmarked = [],
     p_buffers = [], in_flight = [], p_files = [], next_flush_check = 0\<rparr>"

definition update_stream :: "persist_key \<Rightarrow> (persist_stream \<Rightarrow> persist_stream) \<Rightarrow> persistence \<Rightarrow> persistence" where
  "update_stream k f s =
    (case dict_get (p_streams s) k of None \<Rightarrow> s | Some st \<Rightarrow> s\<lparr>p_streams := dict_set k (f st) (p_streams s)\<rparr>)"

section \<open>Streams\<close>

definition new_persist_stream :: "string \<Rightarrow> int \<Rightarrow> persist_stream" where
  "new_persist_stream save_format interval = \<lparr>ps_enabled = False, ps_format = save_format, ps_interval = interval, ps_enqueued = 0,
     ps_written = 0, ps_dropped = 0, ps_pending = 0, ps_rows = 0, ps_error = None\<rparr>"

text \<open>\<open>_prepare_stream\<close> and \<open>prepare_events\<close>, which has no interval (zero here).\<close>

definition prepare_stream :: "persist_key \<Rightarrow> string \<Rightarrow> int \<Rightarrow> persistence \<Rightarrow> bool \<times> persistence" where
  "prepare_stream k save_format interval s =
    (if is_sample k \<and> interval \<le> 0 then (False, s)
     else if save_format \<notin> {''csv'', ''parquet''} then (False, s)
     else
       (case dict_get (p_streams s) k of
          Some st \<Rightarrow>
            if ps_enabled st then (False, s)
            else (True, update_stream k (\<lambda>st. st\<lparr>ps_format := save_format, ps_interval := interval, ps_error := None\<rparr>) s)
        | None \<Rightarrow> (True, s\<lparr>p_streams := dict_set k (new_persist_stream save_format interval) (p_streams s)\<rparr>)))"

definition activate_stream :: "persist_key \<Rightarrow> persistence \<Rightarrow> bool \<times> persistence" where
  "activate_stream k s =
    (case dict_get (p_streams s) k of
       None \<Rightarrow> (False, s)
     | Some st \<Rightarrow>
         if ps_enabled st \<and> is_sample k then (True, s)
         else (True, update_stream k (\<lambda>st. st\<lparr>ps_enabled := True, ps_error := None\<rparr>) s))"

definition deactivate_stream :: "persist_key \<Rightarrow> persistence \<Rightarrow> bool \<times> persistence" where
  "deactivate_stream k s =
    (case dict_get (p_streams s) k of
       None \<Rightarrow> (False, s)
     | Some st \<Rightarrow> (True, update_stream k (\<lambda>st. st\<lparr>ps_enabled := False\<rparr>) s))"

text \<open>\<open>enqueue_sample\<close> and \<open>enqueue_event\<close>: an event nobody records is not a failure.\<close>

definition enqueue_item :: "persist_item \<Rightarrow> persistence \<Rightarrow> bool \<times> persistence" where
  "enqueue_item i s =
    (let unrecorded = (case it_key i of EventKey cid \<Rightarrow> True | SampleKey cid section \<Rightarrow> False) in
     if \<not> p_running s then (False, s)
     else
       (case dict_get (p_streams s) (it_key i) of
          None \<Rightarrow> (unrecorded, s)
        | Some st \<Rightarrow>
            if \<not> ps_enabled st then (unrecorded, s)
            else if length (p_queue s) \<ge> PERSISTENCE_QUEUE_MAXSIZE then
              (False, update_stream (it_key i) (\<lambda>st. st\<lparr>ps_dropped := ps_dropped st + 1, ps_error := Some ''persistence queue full''\<rparr>) s)
            else
              (True, update_stream (it_key i) (\<lambda>st. st\<lparr>ps_enqueued := ps_enqueued st + 1, ps_pending := ps_pending st + 1\<rparr>)
                 (s\<lparr>p_queue := p_queue s @ [i]\<rparr>))))"

section \<open>Writing\<close>

text \<open>
  How the attempt to write a batch goes: all rows are appended, an exception after some of them, or there is no folder to
  write to.
\<close>

datatype write_outcome = Wrote | Failed nat | NoFolder

definition columns_of :: "persist_key \<Rightarrow> string list" where
  "columns_of k =
    (case k of
       EventKey cid \<Rightarrow> EVENT_COLUMNS
     | SampleKey cid section \<Rightarrow>
         (case section of MAIN \<Rightarrow> MAIN_COLUMNS | RC \<Rightarrow> RC_COLUMNS | HV \<Rightarrow> HV_COLUMNS | _ \<Rightarrow> []))"

definition csv_row :: "persist_key \<Rightarrow> row \<Rightarrow> row" where
  "csv_row k r = map (\<lambda>col. (col, get_or PNone r col)) (columns_of k)"

definition append_rows :: "persist_key \<Rightarrow> row list \<Rightarrow> persistence \<Rightarrow> persistence" where
  "append_rows k rows s =
    s\<lparr>p_files := dict_set k ((case dict_get (p_files s) k of None \<Rightarrow> [] | Some rs \<Rightarrow> rs) @ map (csv_row k) rows) (p_files s)\<rparr>"

definition mark_written :: "persist_key \<Rightarrow> nat \<Rightarrow> nat \<Rightarrow> persistence \<Rightarrow> persistence" where
  "mark_written k count rows =
    update_stream k (\<lambda>st. st\<lparr>ps_written := ps_written st + count, ps_rows := ps_rows st + rows, ps_error := None\<rparr>)"

definition mark_dropped :: "persist_key \<Rightarrow> nat \<Rightarrow> string \<Rightarrow> persistence \<Rightarrow> persistence" where
  "mark_dropped k count reason = update_stream k (\<lambda>st. st\<lparr>ps_dropped := ps_dropped st + count, ps_error := Some reason\<rparr>)"

text \<open>\<open>_write_csv_batch\<close> as to the rows: what an outcome leaves in the file.\<close>

definition write_rows :: "persist_key \<Rightarrow> row list \<Rightarrow> write_outcome \<Rightarrow> persistence \<Rightarrow> persistence" where
  "write_rows k rows outcome s =
    (case outcome of Wrote \<Rightarrow> append_rows k rows s | Failed n \<Rightarrow> append_rows k (take n rows) s | NoFolder \<Rightarrow> s)"

text \<open>
  \<open>_write_batch\<close> for samples and \<open>_write_event_batch\<close>. A section without columns has no file. With no folder for
  its file, a batch of events is given up without being counted.
\<close>

definition write_failure :: "persist_key \<Rightarrow> string" where
  "write_failure k = (case k of SampleKey cid section \<Rightarrow> ''batch write failed'' | EventKey cid \<Rightarrow> ''event batch write failed'')"

definition write_batch :: "persist_key \<Rightarrow> row list list \<Rightarrow> write_outcome \<Rightarrow> persistence \<Rightarrow> bool \<times> persistence" where
  "write_batch k samples outcome s =
    (if samples = [] then (True, s)
     else
       (case dict_get (p_streams s) k of
          None \<Rightarrow> (False, s)
        | Some st \<Rightarrow>
            let rows = concat samples;
                result = (if columns_of k = [] then NoFolder else outcome);
                failed = (\<lambda>s. (False, mark_dropped k (length samples) (write_failure k) s))
            in if rows = [] then (True, s)
               else if ps_format st \<noteq> ''csv'' then failed s
               else
                 (case result of
                    Wrote \<Rightarrow> (True, mark_written k (length samples) (length rows) (write_rows k rows result s))
                  | Failed n \<Rightarrow> failed (write_rows k rows result s)
                  | NoFolder \<Rightarrow> (case k of EventKey cid \<Rightarrow> (False, s) | SampleKey cid section \<Rightarrow> failed s))))"

section \<open>Workers\<close>

definition take_item :: "persistence \<Rightarrow> persistence" where
  "take_item s =
    (case p_queue s of [] \<Rightarrow> s | i # q \<Rightarrow> s\<lparr>p_queue := q, in_hand := in_hand s @ [i]\<rparr>)"

definition get_buffer :: "persist_key \<Rightarrow> persistence \<Rightarrow> persist_buffer" where
  "get_buffer k s = (case dict_get (p_buffers s) k of None \<Rightarrow> \<lparr>buf_samples = [], buf_first = None\<rparr> | Some b \<Rightarrow> b)"

definition set_buffer :: "persist_key \<Rightarrow> persist_buffer \<Rightarrow> persistence \<Rightarrow> persistence" where
  "set_buffer k b s = s\<lparr>p_buffers := dict_set k b (p_buffers s)\<rparr>"

text \<open>\<open>_buffer_sample\<close>, at the time \<open>now\<close>: a full buffer becomes a batch of the worker.\<close>

definition buffer_sample :: "persist_key \<Rightarrow> row list \<Rightarrow> int \<Rightarrow> persistence \<Rightarrow> persistence" where
  "buffer_sample k rows now s =
    (let b = get_buffer k s;
         first = (if buf_samples b = [] then Some now else buf_first b);
         samples = buf_samples b @ [rows]
     in if length samples \<ge> PERSISTENCE_BATCH_SAMPLES
        then (set_buffer k \<lparr>buf_samples = [], buf_first = None\<rparr> s)\<lparr>in_flight := in_flight s @ [(ByWorker, k, samples)]\<rparr>
        else set_buffer k \<lparr>buf_samples = samples, buf_first = first\<rparr> s)"

text \<open>A worker and the item it has taken, up to the mark that it is processed.\<close>

definition process_item :: "(64 word \<Rightarrow> string) \<Rightarrow> persist_item \<Rightarrow> int \<Rightarrow> persistence \<Rightarrow> persistence" where
  "process_item fr i now s =
    (let s1 = s\<lparr>in_hand := remove1 i (in_hand s), unmarked := unmarked s @ [it_key i]\<rparr> in
     case normalize_item fr i of
       Inl x \<Rightarrow> mark_dropped (it_key i) 1 ''unexpected persistence worker error'' s1
     | Inr None \<Rightarrow> mark_dropped (it_key i) 1
         (case it_key i of SampleKey cid section \<Rightarrow> ''persistence normalization failed'' | EventKey cid \<Rightarrow> ''event normalization failed'') s1
     | Inr (Some rows) \<Rightarrow> buffer_sample (it_key i) rows now s1)"

definition mark_processed :: "persist_key \<Rightarrow> persistence \<Rightarrow> persistence" where
  "mark_processed k s =
    update_stream k (\<lambda>st. st\<lparr>ps_pending := ps_pending st - 1\<rparr>) (s\<lparr>unmarked := remove1 k (unmarked s)\<rparr>)"

section \<open>Flushing\<close>

definition buffer_due :: "int \<Rightarrow> persist_buffer \<Rightarrow> bool" where
  "buffer_due now b \<longleftrightarrow> buf_samples b \<noteq> [] \<and>
     (case buf_first b of None \<Rightarrow> False | Some first \<Rightarrow> now - first \<ge> PERSISTENCE_FLUSH_INTERVAL_NS)"

text \<open>The buffers a test selects become batches of \<open>owner\<close>.\<close>

definition take_buffers :: "batch_owner \<Rightarrow> (persist_key \<times> persist_buffer \<Rightarrow> bool) \<Rightarrow> persistence \<Rightarrow> persistence" where
  "take_buffers owner test s =
    s\<lparr>in_flight := in_flight s @ map (\<lambda>(k, b). (owner, k, buf_samples b)) (filter test (p_buffers s)),
      p_buffers := map (\<lambda>(k, b). (k, if test (k, b) then \<lparr>buf_samples = [], buf_first = None\<rparr> else b)) (p_buffers s)\<rparr>"

text \<open>\<open>_maybe_flush_due\<close> of a worker, at most once in a second.\<close>

definition maybe_flush_due :: "int \<Rightarrow> persistence \<Rightarrow> persistence" where
  "maybe_flush_due now s =
    (if now < next_flush_check s then s
     else take_buffers ByWorker (\<lambda>(k, b). buffer_due now b) (s\<lparr>next_flush_check := now + PERSISTENCE_FLUSH_CHECK_NS\<rparr>))"

text \<open>\<open>flush_stream\<close> and \<open>flush_events\<close>: whether there was a batch to write; without one, only the batch being written is awaited.\<close>

definition flush_stream :: "persist_key \<Rightarrow> persistence \<Rightarrow> bool \<times> persistence" where
  "flush_stream k s =
    (buf_samples (get_buffer k s) \<noteq> [],
     take_buffers ByOther (\<lambda>(l, b). l = k \<and> buf_samples b \<noteq> []) s)"

section \<open>Start and stop\<close>

definition start_persistence :: "persistence \<Rightarrow> persistence" where
  "start_persistence s =
    (let s1 = s\<lparr>next_flush_check := 0\<rparr> in
     if p_executor s then s1 else s1\<lparr>p_executor := True, p_running := True, stop_phase := 0\<rparr>)"

definition stop_begin :: "persistence \<Rightarrow> persistence" where
  "stop_begin s = s\<lparr>p_running := False, stop_phase := (if p_executor s then max 1 (stop_phase s) else stop_phase s)\<rparr>"

text \<open>\<open>queue.join()\<close>: every item put in the queue has been processed and marked.\<close>

definition queue_joined :: "persistence \<Rightarrow> bool" where
  "queue_joined s \<longleftrightarrow> p_queue s = [] \<and> in_hand s = [] \<and> unmarked s = []"

definition stop_flush :: "persistence \<Rightarrow> persistence" where
  "stop_flush s =
    (if stop_phase s = 1 \<and> queue_joined s then (take_buffers ByStop (\<lambda>(k, b). buf_samples b \<noteq> []) s)\<lparr>stop_phase := 2\<rparr> else s)"

text \<open>The end of \<open>stop\<close>: its own batches and those of the workers are written.\<close>

definition stop_can_end :: "persistence \<Rightarrow> bool" where
  "stop_can_end s \<longleftrightarrow> stop_phase s = 2 \<and> list_all (\<lambda>(owner, k, b). owner = ByOther) (in_flight s)"

definition stop_end :: "persistence \<Rightarrow> persistence" where
  "stop_end s = (if stop_can_end s then s\<lparr>p_executor := False, stop_phase := 0\<rparr> else s)"

section \<open>Runs\<close>

datatype persist_step =
    Prepare persist_key string int
  | Activate persist_key
  | Deactivate persist_key
  | Enqueue persist_item
  | TakeItem
  | ProcessItem nat int
  | MarkProcessed nat
  | WriteBatch nat write_outcome
  | FlushDue int
  | FlushStream persist_key
  | StartService
  | StopBegin
  | StopFlush
  | StopEnd

text \<open>The number of a step of a worker says which of the items, marks or batches it is about; without it the step does not happen.\<close>

fun persist_exec :: "(64 word \<Rightarrow> string) \<Rightarrow> persist_step \<Rightarrow> persistence \<Rightarrow> persistence" where
  "persist_exec fr (Prepare k f i) s = snd (prepare_stream k f i s)"
| "persist_exec fr (Activate k) s = snd (activate_stream k s)"
| "persist_exec fr (Deactivate k) s = snd (deactivate_stream k s)"
| "persist_exec fr (Enqueue i) s = snd (enqueue_item i s)"
| "persist_exec fr TakeItem s = (if p_executor s then take_item s else s)"
| "persist_exec fr (ProcessItem n now) s = (if n < length (in_hand s) then process_item fr (in_hand s ! n) now s else s)"
| "persist_exec fr (MarkProcessed n) s = (if n < length (unmarked s) then mark_processed (unmarked s ! n) s else s)"
| "persist_exec fr (WriteBatch n outcome) s =
    (if n < length (in_flight s)
     then (case in_flight s ! n of (owner, k, samples) \<Rightarrow>
             snd (write_batch k samples outcome (s\<lparr>in_flight := take n (in_flight s) @ drop (Suc n) (in_flight s)\<rparr>)))
     else s)"
| "persist_exec fr (FlushDue now) s = (if p_executor s then maybe_flush_due now s else s)"
| "persist_exec fr (FlushStream k) s = snd (flush_stream k s)"
| "persist_exec fr StartService s = start_persistence s"
| "persist_exec fr StopBegin s = stop_begin s"
| "persist_exec fr StopFlush s = stop_flush s"
| "persist_exec fr StopEnd s = stop_end s"

end
