(* ===== verification/MonitorPersistProps.thy ===== *)
theory MonitorPersistProps
  imports MonitorPersist
begin

text \<open>
  What becomes of the samples and events handed to the persistence service: nothing that was accepted disappears from the
  books, the counter of pending items is exact, buffers and queue stay within their bounds, and a stop leaves no sample behind.
  The first section has the accounts and their laws, the second the invariant, the others the properties.
\<close>

fun persist_run :: "(64 word \<Rightarrow> string) \<Rightarrow> persist_step list \<Rightarrow> persistence \<Rightarrow> persistence" where
  "persist_run fr [] s = s"
| "persist_run fr (x # xs) s = persist_run fr xs (persist_exec fr x s)"

section \<open>Accounts\<close>

definition items :: "persist_key \<Rightarrow> persist_item list \<Rightarrow> nat" where
  "items k xs = length (filter (\<lambda>i. it_key i = k) xs)"

definition marks :: "persist_key \<Rightarrow> persist_key list \<Rightarrow> nat" where
  "marks k xs = length (filter (\<lambda>l. l = k) xs)"

definition buffered :: "persist_key \<Rightarrow> (persist_key, persist_buffer) dict \<Rightarrow> nat" where
  "buffered k bs = (\<Sum>(l, b)\<leftarrow>bs. if l = k then length (buf_samples b) else 0)"

definition flying :: "persist_key \<Rightarrow> (batch_owner \<times> persist_key \<times> row list list) list \<Rightarrow> nat" where
  "flying k fs = (\<Sum>(owner, l, ss)\<leftarrow>fs. if l = k then length ss else 0)"

definition settled :: "persist_key \<Rightarrow> persistence \<Rightarrow> nat" where
  "settled k s = (case dict_get (p_streams s) k of None \<Rightarrow> 0 | Some st \<Rightarrow> ps_written st + ps_dropped st)"

definition pending :: "persist_key \<Rightarrow> persistence \<Rightarrow> nat" where
  "pending k s = (case dict_get (p_streams s) k of None \<Rightarrow> 0 | Some st \<Rightarrow> ps_pending st)"

definition held :: "persist_key \<Rightarrow> persistence \<Rightarrow> nat" where
  "held k s = items k (p_queue s) + items k (in_hand s) + buffered k (p_buffers s) + flying k (in_flight s)"

definition has_stream :: "persistence \<Rightarrow> persist_key \<Rightarrow> bool" where
  "has_stream s k \<longleftrightarrow> dict_get (p_streams s) k \<noteq> None"

text \<open>The items of a stream that the service takes charge of, and those of a batch that is given up without being counted.\<close>

definition offers :: "persist_key \<Rightarrow> persist_step \<Rightarrow> persistence \<Rightarrow> nat" where
  "offers k x s =
    (case x of
       Enqueue i \<Rightarrow>
         (if it_key i = k \<and> p_running s \<and> (case dict_get (p_streams s) k of None \<Rightarrow> False | Some st \<Rightarrow> ps_enabled st) then 1 else 0)
     | _ \<Rightarrow> 0)"

definition loses :: "persist_key \<Rightarrow> persist_step \<Rightarrow> persistence \<Rightarrow> nat" where
  "loses k x s =
    (case x of
       WriteBatch n NoFolder \<Rightarrow>
         (if n < length (in_flight s) then
            (case in_flight s ! n of (owner, l, ss) \<Rightarrow>
               if l = k \<and> \<not> is_sample l \<and> (case dict_get (p_streams s) l of None \<Rightarrow> False | Some st \<Rightarrow> ps_format st = ''csv'')
               then length ss else 0)
          else 0)
     | _ \<Rightarrow> 0)"

fun offered :: "(64 word \<Rightarrow> string) \<Rightarrow> persist_key \<Rightarrow> persist_step list \<Rightarrow> persistence \<Rightarrow> nat" where
  "offered fr k [] s = 0"
| "offered fr k (x # xs) s = offers k x s + offered fr k xs (persist_exec fr x s)"

fun lost :: "(64 word \<Rightarrow> string) \<Rightarrow> persist_key \<Rightarrow> persist_step list \<Rightarrow> persistence \<Rightarrow> nat" where
  "lost fr k [] s = 0"
| "lost fr k (x # xs) s = loses k x s + lost fr k xs (persist_exec fr x s)"

named_theorems book_simps

lemma items_simps [book_simps]:
  "items k [] = 0"
  "items k (i # xs) = (if it_key i = k then 1 else 0) + items k xs"
  "items k (xs @ ys) = items k xs + items k ys"
  by (simp_all add: items_def)

lemma marks_simps [book_simps]:
  "marks k [] = 0"
  "marks k (l # xs) = (if l = k then 1 else 0) + marks k xs"
  "marks k (xs @ ys) = marks k xs + marks k ys"
  by (simp_all add: marks_def)

lemma items_remove1: "i \<in> set xs \<Longrightarrow> items k (remove1 i xs) + (if it_key i = k then 1 else 0) = items k xs"
  by (induction xs) (auto simp: book_simps)

lemma marks_remove1: "l \<in> set xs \<Longrightarrow> marks k (remove1 l xs) + (if l = k then 1 else 0) = marks k xs"
  by (induction xs) (auto simp: book_simps)

lemma flying_simps [book_simps]:
  "flying k [] = 0"
  "flying k (f # fs) = (if fst (snd f) = k then length (snd (snd f)) else 0) + flying k fs"
  "flying k (fs @ gs) = flying k fs + flying k gs"
  by (simp_all add: flying_def split: prod.splits)

lemma flying_drop:
  assumes "n < length fs" and "fs ! n = (owner, l, ss)"
  shows "flying k (take n fs @ drop (Suc n) fs) + (if l = k then length ss else 0) = flying k fs"
proof -
  have "fs = take n fs @ (owner, l, ss) # drop (Suc n) fs"
    using id_take_nth_drop[OF assms(1)] assms(2) by simp
  then have "flying k fs = flying k (take n fs @ (owner, l, ss) # drop (Suc n) fs)" by simp
  then show ?thesis by (simp add: book_simps)
qed

lemma buffered_simps [book_simps]:
  "buffered k [] = 0"
  "buffered k (x # bs) = (if fst x = k then length (buf_samples (snd x)) else 0) + buffered k bs"
  by (simp_all add: buffered_def split: prod.splits)

lemma buffered_set:
  "buffered k (dict_set l b bs) +
     (if l = k then length (buf_samples (case dict_get bs l of None \<Rightarrow> \<lparr>buf_samples = [], buf_first = None\<rparr> | Some b \<Rightarrow> b)) else 0)
   = buffered k bs + (if l = k then length (buf_samples b) else 0)"
  by (induction bs) (auto simp: book_simps)

lemma buffered_taken:
  "buffered k (map (\<lambda>(l, b). (l, if test (l, b) then \<lparr>buf_samples = [], buf_first = None\<rparr> else b)) bs) +
     flying k (map (\<lambda>(l, b). (owner, l, buf_samples b)) (filter test bs)) = buffered k bs"
  by (induction bs) (auto simp: book_simps)

lemma held_take_buffers [book_simps]: "held k (take_buffers owner test s) = held k s"
  using buffered_taken[of k test "p_buffers s" owner] by (simp add: held_def take_buffers_def book_simps)

lemma update_stream_frame [simp]:
  "p_queue (update_stream k f s) = p_queue s" "in_hand (update_stream k f s) = in_hand s"
  "unmarked (update_stream k f s) = unmarked s" "p_buffers (update_stream k f s) = p_buffers s"
  "in_flight (update_stream k f s) = in_flight s" "p_running (update_stream k f s) = p_running s"
  "p_executor (update_stream k f s) = p_executor s" "stop_phase (update_stream k f s) = stop_phase s"
  "p_files (update_stream k f s) = p_files s"
  by (simp_all add: update_stream_def split: option.splits)

lemma streams_update [dict_simps]:
  "dict_get (p_streams (update_stream l f s)) k =
     (if k = l then map_option f (dict_get (p_streams s) l) else dict_get (p_streams s) k)"
  by (auto simp: update_stream_def dict_simps split: option.splits)

lemma has_stream_update [simp]: "has_stream (update_stream l f s) k = has_stream s k"
  by (auto simp: has_stream_def dict_simps)

lemma held_update [book_simps]: "held k (update_stream l f s) = held k s"
  by (simp add: held_def)

lemma take_buffers_frame [simp]:
  "p_streams (take_buffers owner test s) = p_streams s" "p_queue (take_buffers owner test s) = p_queue s"
  "in_hand (take_buffers owner test s) = in_hand s" "unmarked (take_buffers owner test s) = unmarked s"
  "p_running (take_buffers owner test s) = p_running s" "p_executor (take_buffers owner test s) = p_executor s"
  "stop_phase (take_buffers owner test s) = stop_phase s" "p_files (take_buffers owner test s) = p_files s"
  by (simp_all add: take_buffers_def)

text \<open>An update that adds \<open>c\<close> to the written and dropped ones of a stream, or leaves them.\<close>

lemma settled_update:
  assumes "has_stream s l" and "\<And>st. ps_written (f st) + ps_dropped (f st) = ps_written st + ps_dropped st + c"
  shows "settled k (update_stream l f s) = settled k s + (if l = k then c else 0)"
  using assms by (auto simp: settled_def has_stream_def dict_simps split: option.splits)

lemma settled_kept:
  "(\<And>st. ps_written (f st) + ps_dropped (f st) = ps_written st + ps_dropped st) \<Longrightarrow>
   settled k (update_stream l f s) = settled k s"
  by (auto simp: settled_def dict_simps split: option.splits)

lemma pending_kept: "(\<And>st. ps_pending (f st) = ps_pending st) \<Longrightarrow> pending k (update_stream l f s) = pending k s"
  by (auto simp: pending_def dict_simps split: option.splits)

lemma pending_update:
  "has_stream s l \<Longrightarrow> (\<And>st. ps_pending (f st) = g (ps_pending st)) \<Longrightarrow>
   pending k (update_stream l f s) = (if l = k then g (pending k s) else pending k s)"
  by (auto simp: pending_def has_stream_def dict_simps split: option.splits)

text \<open>What only depends on the streams.\<close>

lemma streams_only:
  assumes "p_streams t = p_streams s"
  shows "settled k t = settled k s" "pending k t = pending k s" "has_stream t l = has_stream s l"
  using assms by (simp_all add: settled_def pending_def has_stream_def)

section \<open>Rows\<close>

lemma bind_sum_Inr: "bind_sum m f = Inr y \<longleftrightarrow> (\<exists>x. m = Inr x \<and> f x = Inr y)"
  by (cases m) (auto simp: bind_sum_def)

lemma read_columns_keys: "read_columns v cks = Inr r \<Longrightarrow> map fst r = map fst cks"
  by (induction v cks arbitrary: r rule: read_columns.induct) (auto simp: bind_sum_Inr)

lemma bind_rows_keys:
  "bind_rows f xs = Inr rs \<Longrightarrow> (\<And>x r. f x = Inr r \<Longrightarrow> map fst r = cs) \<Longrightarrow>
   length rs = length xs \<and> (\<forall>r\<in>set rs. map fst r = cs)"
  by (induction xs arbitrary: rs) (fastforce simp: bind_sum_Inr)+

lemma rc_row_keys: "bind_sum m (rc_row ts n) = Inr r \<Longrightarrow> map fst r = RC_COLUMNS"
  by (auto simp: rc_row_def bind_sum_Inr RC_COLUMNS_def)

lemma with_timestamp_rows:
  "with_timestamp v f = Inr (Some rs) \<Longrightarrow> \<exists>ts d. f ts d = Inr rs"
  by (auto simp: with_timestamp_def bind_sum_Inr split: if_splits)

lemma normalize_main_rows:
  assumes "normalize_main v = Inr (Some rs)"
  shows "length rs = 1 \<and> (\<forall>r\<in>set rs. map fst r = MAIN_COLUMNS)"
  using with_timestamp_rows[OF assms[unfolded normalize_main_def]]
  by (auto simp: bind_sum_Inr MAIN_COLUMNS_def dest!: read_columns_keys)

lemma normalize_hv_rows:
  assumes "normalize_hv v = Inr (Some rs)"
  shows "length rs = 7 \<and> (\<forall>r\<in>set rs. map fst r = HV_COLUMNS)"
proof -
  from with_timestamp_rows[OF assms[unfolded normalize_hv_def]] obtain ts d channels where
    rs: "bind_rows (\<lambda>raw_channel. bind_sum (pget_dict channels (str_int raw_channel)) (\<lambda>channel_data.
           bind_sum (read_columns channel_data (map (\<lambda>c. (c, c)) [''voltage'', ''current'', ''temperature'', ''channel_state'', ''power_state'']))
             (\<lambda>r. Inr ((''timestamp_utc_ns'', ts) # (''channel'', PInt (raw_channel - 1)) # r)))) [1..7] = Inr rs"
    unfolding bind_sum_Inr by blast
  have "length rs = length [1..7::int] \<and> (\<forall>r\<in>set rs. map fst r = HV_COLUMNS)"
    by (rule bind_rows_keys[OF rs]) (auto simp: bind_sum_Inr HV_COLUMNS_def dest!: read_columns_keys simp del: read_columns.simps)
  then show ?thesis by simp
qed

lemma normalize_rc_rows:
  assumes "normalize_rc v = Inr (Some rs)"
  shows "length rs = 16 \<and> (\<forall>r\<in>set rs. map fst r = RC_COLUMNS)"
proof -
  from with_timestamp_rows[OF assms[unfolded normalize_rc_def]] obtain ts free_channels trigger_channels trigger r1 r2 r3 r4 where
    r1: "bind_rows (\<lambda>ch. bind_sum (pget_dict free_channels (str_int ch)) (rc_row ts (20 + ch))) [0..6] = Inr r1" and
    r2: "bind_sum (pget_dict trigger ''external_trigger_rate'') (rc_row ts 27) = Inr r2" and
    r3: "bind_sum (pget_dict trigger ''auto_trigger_rate'') (rc_row ts 28) = Inr r3" and
    r4: "bind_rows (\<lambda>ch. bind_sum (pget_dict trigger_channels (str_int ch)) (rc_row ts (32 + ch))) [0..6] = Inr r4" and
    rs: "rs = r1 @ [r2, r3] @ r4"
    by (simp only: bind_sum_Inr sum.inject) blast
  show ?thesis
    using bind_rows_keys[OF r1 rc_row_keys] bind_rows_keys[OF r4 rc_row_keys] rc_row_keys[OF r2] rc_row_keys[OF r3] rs by auto
qed

lemma normalize_event_rows:
  "normalize_event fr m = Inr (Some rs) \<Longrightarrow> length rs = 1 \<and> (\<forall>r\<in>set rs. map fst r = EVENT_COLUMNS)"
  by (auto simp: normalize_event_def EVENT_COLUMNS_def Let_def split: pyval.splits if_splits)

definition rows_per_item :: "persist_key \<Rightarrow> nat" where
  "rows_per_item k = (case k of EventKey cid \<Rightarrow> 1 | SampleKey cid sec \<Rightarrow> (case sec of MAIN \<Rightarrow> 1 | RC \<Rightarrow> 16 | HV \<Rightarrow> 7 | _ \<Rightarrow> 0))"

text \<open>A sample that is buffered has the rows of its section, with the columns of the file it goes to.\<close>

definition good_rows :: "persist_key \<Rightarrow> row list \<Rightarrow> bool" where
  "good_rows k rs \<longleftrightarrow> rs \<noteq> [] \<and> length rs = rows_per_item k \<and> (\<forall>r\<in>set rs. map fst r = columns_of k) \<and> columns_of k \<noteq> []"

lemma normalize_item_rows:
  assumes "normalize_item fr i = Inr (Some rs)"
  shows "good_rows (it_key i) rs"
proof -
  have c: "MAIN_COLUMNS \<noteq> []" "HV_COLUMNS \<noteq> []" "RC_COLUMNS \<noteq> []" "EVENT_COLUMNS \<noteq> []"
    by (simp_all add: MAIN_COLUMNS_def HV_COLUMNS_def RC_COLUMNS_def EVENT_COLUMNS_def)
  from assms show ?thesis
    by (auto simp: normalize_item_def good_rows_def rows_per_item_def columns_of_def c split: persist_key.splits Channel.splits
        dest!: normalize_main_rows normalize_hv_rows normalize_rc_rows normalize_event_rows)
qed

section \<open>The invariant\<close>

definition good_buffer :: "persistence \<Rightarrow> persist_key \<times> persist_buffer \<Rightarrow> bool" where
  "good_buffer s lb \<longleftrightarrow> has_stream s (fst lb) \<and> length (buf_samples (snd lb)) < PERSISTENCE_BATCH_SAMPLES \<and>
     (\<forall>rs\<in>set (buf_samples (snd lb)). good_rows (fst lb) rs)"

definition good_batch :: "persistence \<Rightarrow> batch_owner \<times> persist_key \<times> row list list \<Rightarrow> bool" where
  "good_batch s f \<longleftrightarrow> has_stream s (fst (snd f)) \<and> snd (snd f) \<noteq> [] \<and> (\<forall>rs\<in>set (snd (snd f)). good_rows (fst (snd f)) rs)"

definition persist_ok :: "persistence \<Rightarrow> bool" where
  "persist_ok s \<longleftrightarrow>
     (\<forall>i\<in>set (p_queue s) \<union> set (in_hand s). has_stream s (it_key i)) \<and>
     (\<forall>lb\<in>set (p_buffers s). good_buffer s lb) \<and> (\<forall>f\<in>set (in_flight s). good_batch s f) \<and>
     length (p_queue s) \<le> PERSISTENCE_QUEUE_MAXSIZE \<and>
     (\<forall>k. pending k s = items k (p_queue s) + items k (in_hand s) + marks k (unmarked s))"

definition stop_ok :: "persistence \<Rightarrow> bool" where
  "stop_ok s \<longleftrightarrow> (p_running s \<longrightarrow> p_executor s) \<and> (stop_phase s \<ge> 1 \<longrightarrow> \<not> p_running s \<and> p_executor s) \<and> stop_phase s \<le> 2 \<and>
     (stop_phase s = 2 \<longrightarrow> queue_joined s \<and> (\<forall>lb\<in>set (p_buffers s). buf_samples (snd lb) = []))"

text \<open>Streams are never removed, and the parts of the invariant only ask that they are there.\<close>

lemma persist_okI:
  assumes "persist_ok s" and "\<And>k. has_stream s k \<Longrightarrow> has_stream t k"
    and "\<And>i. i \<in> set (p_queue t) \<union> set (in_hand t) \<Longrightarrow> i \<in> set (p_queue s) \<union> set (in_hand s) \<or> has_stream t (it_key i)"
    and "\<And>lb. lb \<in> set (p_buffers t) \<Longrightarrow> lb \<in> set (p_buffers s) \<or> good_buffer t lb"
    and "\<And>f. f \<in> set (in_flight t) \<Longrightarrow> f \<in> set (in_flight s) \<or> good_batch t f"
    and "length (p_queue t) \<le> PERSISTENCE_QUEUE_MAXSIZE"
    and "\<And>k. pending k t = items k (p_queue t) + items k (in_hand t) + marks k (unmarked t)"
  shows "persist_ok t"
proof -
  have "good_buffer s lb \<Longrightarrow> good_buffer t lb" "good_batch s f \<Longrightarrow> good_batch t f" for lb f
    using assms(2) by (auto simp: good_buffer_def good_batch_def)
  with assms show ?thesis unfolding persist_ok_def by meson
qed

lemma persist_okD:
  assumes "persist_ok s"
  shows "i \<in> set (p_queue s) \<Longrightarrow> has_stream s (it_key i)" "i \<in> set (in_hand s) \<Longrightarrow> has_stream s (it_key i)"
    "lb \<in> set (p_buffers s) \<Longrightarrow> good_buffer s lb" "f \<in> set (in_flight s) \<Longrightarrow> good_batch s f"
    "length (p_queue s) \<le> PERSISTENCE_QUEUE_MAXSIZE"
    "pending k s = items k (p_queue s) + items k (in_hand s) + marks k (unmarked s)"
  using assms by (auto simp: persist_ok_def)

text \<open>Operations on a stream that leave everything else, and the pending items of every stream.\<close>

lemma persist_ok_frame:
  assumes "persist_ok s" and "\<And>k. has_stream s k \<Longrightarrow> has_stream t k" and "\<And>k. pending k t = pending k s"
    and "p_queue t = p_queue s" "in_hand t = in_hand s" "unmarked t = unmarked s" "p_buffers t = p_buffers s"
    and "set (in_flight t) \<subseteq> set (in_flight s)"
  shows "persist_ok t"
  using persist_okD[OF assms(1)] assms(2-) by (intro persist_okI[OF assms(1)]) auto

lemma prepare_stream_books:
  "pending k (snd (prepare_stream l f i s)) = pending k s" "settled k (snd (prepare_stream l f i s)) = settled k s"
  "has_stream s k \<Longrightarrow> has_stream (snd (prepare_stream l f i s)) k"
  by (auto simp: prepare_stream_def pending_kept settled_kept new_persist_stream_def pending_def settled_def has_stream_def dict_simps
      split: option.splits)

lemma prepare_stream_frame [simp]:
  "p_queue (snd (prepare_stream l f i s)) = p_queue s" "in_hand (snd (prepare_stream l f i s)) = in_hand s"
  "unmarked (snd (prepare_stream l f i s)) = unmarked s" "p_buffers (snd (prepare_stream l f i s)) = p_buffers s"
  "in_flight (snd (prepare_stream l f i s)) = in_flight s" "p_running (snd (prepare_stream l f i s)) = p_running s"
  "p_executor (snd (prepare_stream l f i s)) = p_executor s" "stop_phase (snd (prepare_stream l f i s)) = stop_phase s"
  by (auto simp: prepare_stream_def split: option.splits)

lemma enqueue_item_cases:
  obtains (refused) "snd (enqueue_item i s) = s" "offers k (Enqueue i) s = 0"
  | (full) st where "dict_get (p_streams s) (it_key i) = Some st"
      "snd (enqueue_item i s) =
         update_stream (it_key i) (\<lambda>st. st\<lparr>ps_dropped := ps_dropped st + 1, ps_error := Some ''persistence queue full''\<rparr>) s"
      "offers k (Enqueue i) s = (if it_key i = k then 1 else 0)"
  | (queued) st where "dict_get (p_streams s) (it_key i) = Some st" "length (p_queue s) < PERSISTENCE_QUEUE_MAXSIZE" "p_running s"
      "snd (enqueue_item i s) =
         update_stream (it_key i) (\<lambda>st. st\<lparr>ps_enqueued := ps_enqueued st + 1, ps_pending := ps_pending st + 1\<rparr>)
           (s\<lparr>p_queue := p_queue s @ [i]\<rparr>)"
      "offers k (Enqueue i) s = (if it_key i = k then 1 else 0)"
proof (cases "p_running s \<and> (\<exists>st. dict_get (p_streams s) (it_key i) = Some st \<and> ps_enabled st)")
  case True
  then obtain st where "p_running s" "dict_get (p_streams s) (it_key i) = Some st" "ps_enabled st" by blast
  note on = this
  have "offers k (Enqueue i) s = (if it_key i = k then 1 else 0)" using on by (auto simp: offers_def)
  with on show ?thesis
    by (cases "PERSISTENCE_QUEUE_MAXSIZE \<le> length (p_queue s)")
      (rule full queued; simp add: enqueue_item_def Let_def)+
next
  case False
  then show ?thesis by (intro refused) (auto simp: enqueue_item_def offers_def Let_def split: option.splits)
qed

lemma enqueue_item_ok:
  assumes "persist_ok s"
  shows "persist_ok (snd (enqueue_item i s))"
    "held k (snd (enqueue_item i s)) + settled k (snd (enqueue_item i s)) = held k s + settled k s + offers k (Enqueue i) s"
    "stop_ok s \<Longrightarrow> stop_ok (snd (enqueue_item i s))"
proof -
  have "persist_ok (snd (enqueue_item i s)) \<and>
    held k (snd (enqueue_item i s)) + settled k (snd (enqueue_item i s)) = held k s + settled k s + offers k (Enqueue i) s \<and>
    (stop_ok s \<longrightarrow> stop_ok (snd (enqueue_item i s)))"
  proof (cases rule: enqueue_item_cases[of i s k])
    case refused
    with assms show ?thesis by simp
  next
    case (full st)
    then have st: "has_stream s (it_key i)" by (simp add: has_stream_def)
    from full have "persist_ok (snd (enqueue_item i s))"
      by (intro persist_ok_frame[OF assms]) (auto simp: pending_kept)
    with full st show ?thesis by (simp add: book_simps settled_update[where c = 1] stop_ok_def queue_joined_def)
  next
    case (queued st)
    let ?s1 = "s\<lparr>p_queue := p_queue s @ [i]\<rparr>"
    have st: "has_stream ?s1 (it_key i)" "has_stream s (it_key i)" using queued(1) by (simp_all add: has_stream_def)
    have s1: "settled k ?s1 = settled k s" "pending l ?s1 = pending l s" "has_stream ?s1 l = has_stream s l" for l
      by (rule streams_only; simp)+
    have "persist_ok (snd (enqueue_item i s))"
      unfolding queued(4)
    proof (rule persist_okI[OF assms])
      show "pending l (update_stream (it_key i) (\<lambda>st. st\<lparr>ps_enqueued := ps_enqueued st + 1, ps_pending := ps_pending st + 1\<rparr>) ?s1)
        = items l (p_queue (update_stream (it_key i) (\<lambda>st. st\<lparr>ps_enqueued := ps_enqueued st + 1, ps_pending := ps_pending st + 1\<rparr>) ?s1))
        + items l (in_hand (update_stream (it_key i) (\<lambda>st. st\<lparr>ps_enqueued := ps_enqueued st + 1, ps_pending := ps_pending st + 1\<rparr>) ?s1))
        + marks l (unmarked (update_stream (it_key i) (\<lambda>st. st\<lparr>ps_enqueued := ps_enqueued st + 1, ps_pending := ps_pending st + 1\<rparr>) ?s1))" for l
        using persist_okD(6)[OF assms, of l] st(1) by (simp add: pending_update[where g = Suc] s1 book_simps)
    qed (use queued(2) st s1 in auto)
    moreover have "held k ?s1 = held k s + (if it_key i = k then 1 else 0)" by (simp add: held_def book_simps)
    ultimately show ?thesis using queued st s1 by (simp add: book_simps settled_kept stop_ok_def)
  qed
  then show "persist_ok (snd (enqueue_item i s))"
    "held k (snd (enqueue_item i s)) + settled k (snd (enqueue_item i s)) = held k s + settled k s + offers k (Enqueue i) s"
    "stop_ok s \<Longrightarrow> stop_ok (snd (enqueue_item i s))" by auto
qed

lemma take_item_ok:
  assumes "persist_ok s"
  shows "persist_ok (take_item s)" "held k (take_item s) = held k s" "settled k (take_item s) = settled k s"
    "stop_ok s \<Longrightarrow> stop_ok (take_item s)"
proof -
  have frame: "has_stream (take_item s) l = has_stream s l" "pending l (take_item s) = pending l s" "settled l (take_item s) = settled l s" for l
    by (rule streams_only, simp add: take_item_def split: list.splits)+
  show "persist_ok (take_item s)"
  proof (rule persist_okI[OF assms])
    show "pending l (take_item s) = items l (p_queue (take_item s)) + items l (in_hand (take_item s)) + marks l (unmarked (take_item s))" for l
      using persist_okD(6)[OF assms, of l] by (simp add: frame) (simp add: take_item_def book_simps split: list.splits)
    show "length (p_queue (take_item s)) \<le> PERSISTENCE_QUEUE_MAXSIZE"
      using persist_okD(5)[OF assms] by (auto simp: take_item_def split: list.splits)
  qed (use frame in \<open>auto simp: take_item_def split: list.splits\<close>)
  show "held k (take_item s) = held k s" by (simp add: held_def take_item_def book_simps split: list.splits)
  show "settled k (take_item s) = settled k s" by (rule frame)
  show "stop_ok s \<Longrightarrow> stop_ok (take_item s)" by (auto simp: stop_ok_def queue_joined_def take_item_def split: list.splits)
qed

lemma take_buffers_ok:
  assumes "persist_ok s" and "\<And>l b. test (l, b) \<Longrightarrow> buf_samples b \<noteq> []"
  shows "persist_ok (take_buffers owner test s)" "settled k (take_buffers owner test s) = settled k s"
    "stop_ok s \<Longrightarrow> stop_ok (take_buffers owner test s)"
proof -
  have frame: "has_stream (take_buffers owner test s) l = has_stream s l" "pending l (take_buffers owner test s) = pending l s"
    "settled l (take_buffers owner test s) = settled l s" for l
    by (rule streams_only, simp)+
  have buffer: "good_buffer s lb" if "lb \<in> set (p_buffers s)" for lb by (rule persist_okD(3)[OF assms(1) that])
  show "persist_ok (take_buffers owner test s)"
  proof (rule persist_okI[OF assms(1)])
    fix lb assume "lb \<in> set (p_buffers (take_buffers owner test s))"
    then obtain l b where "(l, b) \<in> set (p_buffers s)" and lb: "lb = (l, if test (l, b) then \<lparr>buf_samples = [], buf_first = None\<rparr> else b)"
      by (auto simp: take_buffers_def)
    with buffer[of "(l, b)"] show "lb \<in> set (p_buffers s) \<or> good_buffer (take_buffers owner test s) lb"
      by (auto simp: good_buffer_def frame PERSISTENCE_BATCH_SAMPLES_def)
  next
    fix f assume "f \<in> set (in_flight (take_buffers owner test s))"
    then consider "f \<in> set (in_flight s)" | l b where "(l, b) \<in> set (p_buffers s)" "test (l, b)" "f = (owner, l, buf_samples b)"
      by (auto simp: take_buffers_def)
    then show "f \<in> set (in_flight s) \<or> good_batch (take_buffers owner test s) f"
      by cases (use buffer assms(2) in \<open>auto simp: good_buffer_def good_batch_def frame\<close>)
  qed (use persist_okD(5,6)[OF assms(1)] frame in auto)
  show "settled k (take_buffers owner test s) = settled k s" by (rule frame)
  show "stop_ok s \<Longrightarrow> stop_ok (take_buffers owner test s)"
    by (auto simp: stop_ok_def queue_joined_def) (auto simp: take_buffers_def)
qed

text \<open>Processing an item: off the hand, into a buffer (and from a full one into a batch), or dropped.\<close>

lemma buffer_sample_frame [simp]:
  "p_streams (buffer_sample l rs now s) = p_streams s" "p_queue (buffer_sample l rs now s) = p_queue s"
  "in_hand (buffer_sample l rs now s) = in_hand s" "unmarked (buffer_sample l rs now s) = unmarked s"
  "p_running (buffer_sample l rs now s) = p_running s" "p_executor (buffer_sample l rs now s) = p_executor s"
  "stop_phase (buffer_sample l rs now s) = stop_phase s"
  by (simp_all add: buffer_sample_def set_buffer_def Let_def)

lemma held_buffer_sample: "held k (buffer_sample l rs now s) = held k s + (if l = k then 1 else 0)"
proof -
  have "buffered k (dict_set l b (p_buffers s)) + (if l = k then length (buf_samples (get_buffer l s)) else 0) =
      buffered k (p_buffers s) + (if l = k then length (buf_samples b) else 0)" for b
    unfolding get_buffer_def by (rule buffered_set)
  from this[of "\<lparr>buf_samples = [], buf_first = None\<rparr>"]
    this[of "\<lparr>buf_samples = buf_samples (get_buffer l s) @ [rs],
       buf_first = if buf_samples (get_buffer l s) = [] then Some now else buf_first (get_buffer l s)\<rparr>"]
  show ?thesis by (simp add: held_def buffer_sample_def set_buffer_def Let_def book_simps split: if_splits)
qed

lemma good_get_buffer:
  assumes "persist_ok s" and "has_stream s l"
  shows "good_buffer s (l, get_buffer l s)"
  using persist_okD(3)[OF assms(1)] assms(2)
  by (auto simp: get_buffer_def good_buffer_def PERSISTENCE_BATCH_SAMPLES_def split: option.splits dest!: map_of_SomeD)

lemma buffer_sample_good:
  assumes "has_stream s l" and "good_rows l rs" and "good_buffer s (l, get_buffer l s)"
  shows "lb \<in> set (p_buffers (buffer_sample l rs now s)) \<Longrightarrow> lb \<in> set (p_buffers s) \<or> good_buffer s lb"
    "f \<in> set (in_flight (buffer_sample l rs now s)) \<Longrightarrow> f \<in> set (in_flight s) \<or> good_batch s f"
  using assms
  by (auto simp: buffer_sample_def set_buffer_def Let_def good_buffer_def good_batch_def PERSISTENCE_BATCH_SAMPLES_def
      split: if_splits dest!: in_dict_set)

lemma process_item_ok:
  assumes "persist_ok s" and "i \<in> set (in_hand s)"
  shows "persist_ok (process_item fr i now s)"
    "held k (process_item fr i now s) + settled k (process_item fr i now s) = held k s + settled k s"
    "stop_ok s \<Longrightarrow> stop_ok (process_item fr i now s)"
proof -
  let ?s1 = "s\<lparr>in_hand := remove1 i (in_hand s), unmarked := unmarked s @ [it_key i]\<rparr>"
  have frame: "has_stream ?s1 l = has_stream s l" "pending l ?s1 = pending l s" "settled l ?s1 = settled l s" for l
    by (rule streams_only; simp)+
  have st: "has_stream ?s1 (it_key i)" using persist_okD(2)[OF assms] by (simp add: frame)
  have held: "held k ?s1 + (if it_key i = k then 1 else 0) = held k s"
    using items_remove1[OF assms(2), of k] by (simp add: held_def)
  have ok: "persist_ok ?s1"
  proof (rule persist_okI[OF assms(1)])
    show "pending l ?s1 = items l (p_queue ?s1) + items l (in_hand ?s1) + marks l (unmarked ?s1)" for l
      using persist_okD(6)[OF assms(1), of l] items_remove1[OF assms(2), of l] by (simp add: frame book_simps)
  qed (use frame persist_okD(5)[OF assms(1)] in \<open>auto dest: set_remove1_subset[THEN subsetD]\<close>)
  have stop: "stop_ok s \<Longrightarrow> stop_ok ?s1" "stop_ok s \<Longrightarrow> stop_phase s \<noteq> 2"
    using assms(2) by (auto simp: stop_ok_def queue_joined_def)
  have drop: "persist_ok (mark_dropped (it_key i) 1 reason ?s1)"
    "held k (mark_dropped (it_key i) 1 reason ?s1) + settled k (mark_dropped (it_key i) 1 reason ?s1) = held k s + settled k s"
    "stop_ok s \<Longrightarrow> stop_ok (mark_dropped (it_key i) 1 reason ?s1)" for reason
  proof -
    show "persist_ok (mark_dropped (it_key i) 1 reason ?s1)"
      unfolding mark_dropped_def by (rule persist_ok_frame[OF ok]) (simp_all add: pending_kept)
    show "held k (mark_dropped (it_key i) 1 reason ?s1) + settled k (mark_dropped (it_key i) 1 reason ?s1) = held k s + settled k s"
    proof -
      have "settled k (mark_dropped (it_key i) 1 reason ?s1) = settled k ?s1 + (if it_key i = k then 1 else 0)"
        unfolding mark_dropped_def by (rule settled_update[OF st]) simp
      moreover have "held k (mark_dropped (it_key i) 1 reason ?s1) = held k ?s1" unfolding mark_dropped_def by (rule held_update)
      ultimately show ?thesis using held frame(3)[of k] by linarith
    qed
    show "stop_ok (mark_dropped (it_key i) 1 reason ?s1)" if "stop_ok s"
      using stop(1)[OF that] stop(2)[OF that] by (simp add: mark_dropped_def stop_ok_def)
  qed
  have buffer: "persist_ok (buffer_sample (it_key i) rs now ?s1)"
    "held k (buffer_sample (it_key i) rs now ?s1) + settled k (buffer_sample (it_key i) rs now ?s1) = held k s + settled k s"
    "stop_ok s \<Longrightarrow> stop_ok (buffer_sample (it_key i) rs now ?s1)" if "good_rows (it_key i) rs" for rs
  proof -
    let ?t = "buffer_sample (it_key i) rs now ?s1"
    have t: "has_stream ?t l = has_stream ?s1 l" "pending l ?t = pending l ?s1" "settled l ?t = settled l ?s1" for l
      by (rule streams_only; simp)+
    have good: "good_buffer ?t lb = good_buffer ?s1 lb" "good_batch ?t f = good_batch ?s1 f" for lb f
      by (simp_all add: good_buffer_def good_batch_def t)
    show "persist_ok ?t"
    proof (rule persist_okI[OF ok])
      show "lb \<in> set (p_buffers ?t) \<Longrightarrow> lb \<in> set (p_buffers ?s1) \<or> good_buffer ?t lb" for lb
        unfolding good by (rule buffer_sample_good(1)[OF st that good_get_buffer[OF ok st]])
      show "f \<in> set (in_flight ?t) \<Longrightarrow> f \<in> set (in_flight ?s1) \<or> good_batch ?t f" for f
        unfolding good by (rule buffer_sample_good(2)[OF st that good_get_buffer[OF ok st]])
      show "pending l ?t = items l (p_queue ?t) + items l (in_hand ?t) + marks l (unmarked ?t)" for l
        using persist_okD(6)[OF ok, of l] by (simp add: t)
    qed (use persist_okD(5)[OF ok] t in auto)
    show "held k ?t + settled k ?t = held k s + settled k s" using held by (simp add: held_buffer_sample t frame)
    show "stop_ok ?t" if "stop_ok s" using stop(1)[OF that] stop(2)[OF that] by (simp add: stop_ok_def)
  qed
  show "persist_ok (process_item fr i now s)"
    "held k (process_item fr i now s) + settled k (process_item fr i now s) = held k s + settled k s"
    "stop_ok s \<Longrightarrow> stop_ok (process_item fr i now s)"
    using drop buffer normalize_item_rows[of fr i]
    by (auto simp: process_item_def Let_def simp del: One_nat_def split: sum.splits option.splits)
qed

lemma mark_processed_ok:
  assumes "persist_ok s" and "l \<in> set (unmarked s)"
  shows "persist_ok (mark_processed l s)" "held k (mark_processed l s) = held k s" "settled k (mark_processed l s) = settled k s"
    "stop_ok s \<Longrightarrow> stop_ok (mark_processed l s)"
proof -
  let ?s1 = "s\<lparr>unmarked := remove1 l (unmarked s)\<rparr>"
  have frame: "has_stream (s\<lparr>unmarked := xs\<rparr>) m = has_stream s m" "pending m (s\<lparr>unmarked := xs\<rparr>) = pending m s"
    "settled m (s\<lparr>unmarked := xs\<rparr>) = settled m s" for m xs
    by (rule streams_only; simp)+
  have "marks l (unmarked s) > 0" using assms(2) by (auto simp: marks_def filter_empty_conv)
  with persist_okD(6)[OF assms(1), of l] have st: "has_stream ?s1 l"
    by (auto simp: frame has_stream_def pending_def split: option.splits)
  have m: "pending m (mark_processed l s) = (if l = m then pending m s - 1 else pending m s)" for m
    using pending_update[OF st, where g = "\<lambda>n. n - 1" and f = "\<lambda>st. st\<lparr>ps_pending := ps_pending st - 1\<rparr>" and k = m]
    by (simp add: mark_processed_def frame)
  show "persist_ok (mark_processed l s)"
  proof (rule persist_okI[OF assms(1)])
    show "pending m (mark_processed l s) =
        items m (p_queue (mark_processed l s)) + items m (in_hand (mark_processed l s)) + marks m (unmarked (mark_processed l s))" for m
      using persist_okD(6)[OF assms(1), of m] marks_remove1[OF assms(2), of m] by (simp add: m) (auto simp: mark_processed_def)
    show "has_stream s m \<Longrightarrow> has_stream (mark_processed l s) m" for m by (simp add: mark_processed_def frame)
  qed (use persist_okD(1,2,5)[OF assms(1)] in \<open>auto simp: mark_processed_def\<close>)
  show "held k (mark_processed l s) = held k s" by (simp add: mark_processed_def book_simps) (simp add: held_def)
  show "settled k (mark_processed l s) = settled k s" by (simp add: mark_processed_def settled_kept frame)
  show "stop_ok s \<Longrightarrow> stop_ok (mark_processed l s)" by (auto simp: stop_ok_def queue_joined_def mark_processed_def)
qed

text \<open>Writing a batch, which is first taken off the batches in flight.\<close>

lemma write_rows_frame [simp]:
  "p_streams (write_rows k rows outcome s) = p_streams s" "p_queue (write_rows k rows outcome s) = p_queue s"
  "in_hand (write_rows k rows outcome s) = in_hand s" "unmarked (write_rows k rows outcome s) = unmarked s"
  "p_buffers (write_rows k rows outcome s) = p_buffers s" "in_flight (write_rows k rows outcome s) = in_flight s"
  "p_running (write_rows k rows outcome s) = p_running s" "p_executor (write_rows k rows outcome s) = p_executor s"
  "stop_phase (write_rows k rows outcome s) = stop_phase s"
  by (simp_all add: write_rows_def append_rows_def split: write_outcome.splits)

lemma write_batch_frame [simp]:
  "p_queue (snd (write_batch k ss outcome s)) = p_queue s" "in_hand (snd (write_batch k ss outcome s)) = in_hand s"
  "unmarked (snd (write_batch k ss outcome s)) = unmarked s" "p_buffers (snd (write_batch k ss outcome s)) = p_buffers s"
  "in_flight (snd (write_batch k ss outcome s)) = in_flight s" "p_running (snd (write_batch k ss outcome s)) = p_running s"
  "p_executor (snd (write_batch k ss outcome s)) = p_executor s" "stop_phase (snd (write_batch k ss outcome s)) = stop_phase s"
  by (simp_all add: write_batch_def mark_written_def mark_dropped_def Let_def
      split: option.splits write_outcome.splits persist_key.splits)

lemma write_batch_streams:
  "has_stream (snd (write_batch k ss outcome s)) l = has_stream s l"
  "pending l (snd (write_batch k ss outcome s)) = pending l s"
proof -
  have w: "has_stream (write_rows k rows r s) l = has_stream s l" "pending l (write_rows k rows r s) = pending l s" for rows r
    by (rule streams_only; simp)+
  show "has_stream (snd (write_batch k ss outcome s)) l = has_stream s l"
    "pending l (snd (write_batch k ss outcome s)) = pending l s"
    by (simp_all add: write_batch_def mark_written_def mark_dropped_def Let_def w pending_kept
        split: option.splits write_outcome.splits persist_key.splits)
qed

definition given_up :: "persist_key \<Rightarrow> write_outcome \<Rightarrow> persistence \<Rightarrow> bool" where
  "given_up k outcome s \<longleftrightarrow>
     outcome = NoFolder \<and> \<not> is_sample k \<and> (case dict_get (p_streams s) k of None \<Rightarrow> False | Some st \<Rightarrow> ps_format st = ''csv'')"

lemma write_batch_settled:
  assumes "good_batch s (owner, k, ss)"
  shows "settled l (snd (write_batch k ss outcome s)) = settled l s + (if k = l \<and> \<not> given_up k outcome s then length ss else 0)"
proof -
  from assms have st: "has_stream s k" and ss: "ss \<noteq> []" and rows: "concat ss \<noteq> []" and cols: "columns_of k \<noteq> []"
    by (auto simp: good_batch_def good_rows_def neq_Nil_conv)
  have w: "has_stream (write_rows k rows r s) k" "settled l (write_rows k rows r s) = settled l s" for rows r
    using st streams_only[of "write_rows k rows r s" s] by simp_all
  have written: "settled l (mark_written k (length ss) (length (concat ss)) (write_rows k rows r s)) =
      settled l s + (if k = l then length ss else 0)" for rows r
    unfolding mark_written_def w(2)[of rows r, symmetric] by (rule settled_update[OF w(1)]) simp
  have dropped: "settled l (mark_dropped k (length ss) reason t) = settled l t + (if k = l then length ss else 0)"
    if "has_stream t k" for t reason
    unfolding mark_dropped_def by (rule settled_update[OF that]) simp
  from st obtain state where "dict_get (p_streams s) k = Some state" by (auto simp: has_stream_def)
  with ss rows cols show ?thesis
    using written dropped[OF st] dropped[OF w(1)] w(2)
    by (auto simp: write_batch_def Let_def given_up_def split: write_outcome.splits persist_key.splits)
qed

lemma write_step_ok:
  assumes "persist_ok s" and "n < length (in_flight s)"
  shows "persist_ok (persist_exec fr (WriteBatch n outcome) s)"
    "held k (persist_exec fr (WriteBatch n outcome) s) + settled k (persist_exec fr (WriteBatch n outcome) s)
       + loses k (WriteBatch n outcome) s = held k s + settled k s"
    "stop_ok s \<Longrightarrow> stop_ok (persist_exec fr (WriteBatch n outcome) s)"
proof -
  obtain owner l ss where f: "in_flight s ! n = (owner, l, ss)" by (cases "in_flight s ! n")
  let ?s0 = "s\<lparr>in_flight := take n (in_flight s) @ drop (Suc n) (in_flight s)\<rparr>"
  let ?t = "snd (write_batch l ss outcome ?s0)"
  have t: "persist_exec fr (WriteBatch n outcome) s = ?t" using assms(2) f by simp
  have frame: "has_stream ?s0 m = has_stream s m" "pending m ?s0 = pending m s" "settled m ?s0 = settled m s" for m
    by (rule streams_only; simp)+
  have "good_batch s (owner, l, ss)" using persist_okD(4)[OF assms(1)] assms(2) f nth_mem by metis
  then have good: "good_batch ?s0 (owner, l, ss)" by (simp add: good_batch_def frame)
  show "persist_ok (persist_exec fr (WriteBatch n outcome) s)"
    unfolding t
    by (rule persist_ok_frame[OF assms(1)]) (auto simp: write_batch_streams frame dest: in_set_takeD in_set_dropD)
  have "loses k (WriteBatch n outcome) s = (if l = k \<and> given_up l outcome ?s0 then length ss else 0)"
    using assms(2) f by (auto simp: loses_def given_up_def split: write_outcome.splits)
  moreover have "held k ?t + (if l = k then length ss else 0) = held k s"
    using flying_drop[OF assms(2) f, of k] by (simp add: held_def)
  ultimately show "held k (persist_exec fr (WriteBatch n outcome) s) + settled k (persist_exec fr (WriteBatch n outcome) s)
       + loses k (WriteBatch n outcome) s = held k s + settled k s"
    unfolding t write_batch_settled[OF good] frame by auto
  show "stop_ok s \<Longrightarrow> stop_ok (persist_exec fr (WriteBatch n outcome) s)"
    unfolding t by (simp add: stop_ok_def queue_joined_def)
qed

text \<open>Every step keeps the invariant and the books.\<close>

lemma same_parts:
  assumes "persist_ok s" and "p_streams t = p_streams s" "p_queue t = p_queue s" "in_hand t = in_hand s" "unmarked t = unmarked s"
    "p_buffers t = p_buffers s" "in_flight t = in_flight s"
  shows "persist_ok t \<and> held k t + settled k t = held k s + settled k s"
  using assms(2-) streams_only[OF assms(2)] by (auto simp: held_def intro!: persist_ok_frame[OF assms(1)])

lemma persist_step_ok:
  assumes "persist_ok s"
  shows "persist_ok (persist_exec fr x s) \<and> (stop_ok s \<longrightarrow> stop_ok (persist_exec fr x s)) \<and>
    held k (persist_exec fr x s) + settled k (persist_exec fr x s) + loses k x s = held k s + settled k s + offers k x s"
proof -
  have same: ?thesis if "loses k x s = 0" "offers k x s = 0" "persist_ok (persist_exec fr x s)" "stop_ok s \<Longrightarrow> stop_ok (persist_exec fr x s)"
    "held k (persist_exec fr x s) + settled k (persist_exec fr x s) = held k s + settled k s"
    using that by simp
  note parts = same_parts[OF assms]
  show ?thesis
  proof (cases x)
    case (Prepare l f i)
    then show ?thesis
      by (intro same)
        (auto simp: loses_def offers_def prepare_stream_books stop_ok_def queue_joined_def held_def intro!: persist_ok_frame[OF assms])
  next
    case (Activate l)
    then show ?thesis
      by (intro same)
        (auto simp: loses_def offers_def activate_stream_def pending_kept settled_kept book_simps stop_ok_def queue_joined_def
          intro!: persist_ok_frame[OF assms] split: option.splits)
  next
    case (Deactivate l)
    then show ?thesis
      by (intro same)
        (auto simp: loses_def offers_def deactivate_stream_def pending_kept settled_kept book_simps stop_ok_def queue_joined_def
          intro!: persist_ok_frame[OF assms] split: option.splits)
  next
    case (Enqueue i)
    then show ?thesis using enqueue_item_ok(1,3)[OF assms, of i] enqueue_item_ok(2)[OF assms, of k i] by (simp add: loses_def)
  next
    case TakeItem
    then show ?thesis using take_item_ok[OF assms] assms by (simp add: loses_def offers_def)
  next
    case (ProcessItem n now)
    then show ?thesis using process_item_ok[OF assms nth_mem] assms by (auto simp: loses_def offers_def)
  next
    case (MarkProcessed n)
    then show ?thesis using mark_processed_ok[OF assms nth_mem] assms by (auto simp: loses_def offers_def)
  next
    case (WriteBatch n outcome)
    show ?thesis
    proof (cases "n < length (in_flight s)")
      case True
      then show ?thesis using write_step_ok[OF assms True] unfolding WriteBatch by (simp add: offers_def)
    next
      case False
      then show ?thesis using assms by (simp add: WriteBatch offers_def loses_def split: write_outcome.splits)
    qed
  next
    case (FlushDue now)
    let ?s1 = "s\<lparr>next_flush_check := now + PERSISTENCE_FLUSH_CHECK_NS\<rparr>"
    have "persist_ok ?s1 \<and> held k ?s1 + settled k ?s1 = held k s + settled k s" by (rule parts) simp_all
    moreover have "stop_ok s \<Longrightarrow> stop_ok ?s1" by (simp add: stop_ok_def queue_joined_def)
    moreover have "buffer_due now b \<Longrightarrow> buf_samples b \<noteq> []" for b by (simp add: buffer_due_def)
    ultimately show ?thesis
      using take_buffers_ok[where s = ?s1 and test = "\<lambda>(k, b). buffer_due now b" and owner = ByWorker] assms FlushDue
      by (auto simp: loses_def offers_def maybe_flush_due_def book_simps)
  next
    case (FlushStream l)
    then show ?thesis
      using take_buffers_ok[OF assms, where test = "\<lambda>(m, b). m = l \<and> buf_samples b \<noteq> []" and owner = ByOther]
      by (simp add: loses_def offers_def flush_stream_def book_simps)
  next
    case StartService
    then show ?thesis using parts[of "start_persistence s"]
      by (auto simp: loses_def offers_def start_persistence_def Let_def stop_ok_def queue_joined_def)
  next
    case StopBegin
    then show ?thesis using parts[of "stop_begin s"]
      by (auto simp: loses_def offers_def stop_begin_def stop_ok_def queue_joined_def)
  next
    case StopFlush
    let ?t = "take_buffers ByStop (\<lambda>(k, b). buf_samples b \<noteq> []) s"
    have t: "persist_ok ?t" "held k ?t + settled k ?t = held k s + settled k s"
      using take_buffers_ok[OF assms, where test = "\<lambda>(k, b). buf_samples b \<noteq> []" and owner = ByStop] by (simp_all add: book_simps)
    have "persist_ok (?t\<lparr>stop_phase := 2\<rparr>) \<and>
        held k (?t\<lparr>stop_phase := 2\<rparr>) + settled k (?t\<lparr>stop_phase := 2\<rparr>) = held k ?t + settled k ?t"
      by (rule same_parts[OF t(1)]) simp_all
    moreover have "stop_ok (stop_flush s)" if "stop_ok s"
      using that by (auto simp: stop_flush_def stop_ok_def queue_joined_def) (auto simp: take_buffers_def)
    ultimately show ?thesis
      using t assms StopFlush by (auto simp: loses_def offers_def stop_flush_def)
  next
    case StopEnd
    then show ?thesis using parts[of "stop_end s"]
      by (auto simp: loses_def offers_def stop_end_def stop_can_end_def stop_ok_def queue_joined_def)
  qed
qed

lemma persist_run_ok:
  assumes "persist_ok s"
  shows "persist_ok (persist_run fr xs s)" "stop_ok s \<Longrightarrow> stop_ok (persist_run fr xs s)"
    "held k (persist_run fr xs s) + settled k (persist_run fr xs s) + lost fr k xs s = held k s + settled k s + offered fr k xs s"
  using assms
proof (induction xs arbitrary: s)
  case (Cons x xs)
  { case 1 then show ?case using Cons.IH(1) persist_step_ok[of s fr x] by simp }
  { case 2 then show ?case using Cons.IH(2) persist_step_ok[of s fr x] by simp }
  { case 3 then show ?case using Cons.IH(3)[of "persist_exec fr x s"] persist_step_ok[of s fr x k] by simp }
qed simp_all

lemma persist_init: "persist_ok init_persistence" "stop_ok init_persistence" "held k init_persistence = 0" "settled k init_persistence = 0"
  by (simp_all add: persist_ok_def stop_ok_def init_persistence_def held_def settled_def pending_def book_simps)

lemmas persist_reached = persist_run_ok[OF persist_init(1)]

section \<open>Properties\<close>

text \<open>
  Claim C37. Nothing that the persistence service takes charge of gets lost in it, whatever its threads do and however they
  interleave: at every moment the samples (or events) of a stream that were handed over while it was recorded are in the queue, in
  a worker's hand, in a buffer, in a batch being written, or counted as written or dropped, each exactly once. The only exception
  is a batch of events for which no folder can be made: that one vanishes without being counted.
\<close>

theorem samples_are_accounted_for:
  "let s = persist_run fr steps init_persistence
   in items k (p_queue s) + items k (in_hand s) + buffered k (p_buffers s) + flying k (in_flight s) + settled k s
        + lost fr k steps init_persistence = offered fr k steps init_persistence"
  using persist_reached(3)[of k fr steps] persist_init(3,4)[of k] by (simp add: Let_def held_def)

text \<open>
  Claim C38. The counter of pending items of a stream, on which waiting for a stream to become idle relies, is exact: it is the
  number of its items in the queue, in the hands of workers, or worked on and not yet marked, so it never underflows. The queue
  holds no more than its maximum, and each buffer fewer samples than make a batch, of the rows and columns of its section.
\<close>

theorem pending_counter_is_exact:
  "let s = persist_run fr steps init_persistence
   in pending k s = items k (p_queue s) + items k (in_hand s) + marks k (unmarked s) \<and>
      length (p_queue s) \<le> PERSISTENCE_QUEUE_MAXSIZE \<and>
      list_all (\<lambda>(l, b). length (buf_samples b) < PERSISTENCE_BATCH_SAMPLES \<and> list_all (good_rows l) (buf_samples b)) (p_buffers s)"
  using persist_okD(3,5,6)[OF persist_reached(1)] by (fastforce simp: Let_def list_all_iff good_buffer_def)

section \<open>Stopping\<close>

definition worker_step :: "persist_step \<Rightarrow> bool" where
  "worker_step x = (case x of TakeItem \<Rightarrow> True | ProcessItem n now \<Rightarrow> True | MarkProcessed n \<Rightarrow> True | WriteBatch n r \<Rightarrow> True
     | StopFlush \<Rightarrow> True | _ \<Rightarrow> False)"

definition stopping :: "persistence \<Rightarrow> bool" where
  "stopping s \<longleftrightarrow> persist_ok s \<and> stop_ok s \<and> stop_phase s \<ge> 1"

lemma stopping_step: "stopping s \<Longrightarrow> worker_step x \<Longrightarrow> stopping (persist_exec fr x s)"
  using persist_step_ok[of s fr x]
  by (cases x)
    (auto simp: stopping_def worker_step_def take_item_def process_item_def mark_dropped_def mark_processed_def stop_flush_def Let_def
      split: list.splits sum.splits option.splits prod.splits)

lemma persist_run_append: "persist_run fr (xs @ ys) s = persist_run fr ys (persist_run fr xs s)"
  by (induction xs arbitrary: s) simp_all

definition queue_work :: "persistence \<Rightarrow> nat" where
  "queue_work s = 3 * length (p_queue s) + 2 * length (in_hand s) + length (unmarked s)"

lemma queue_drains:
  assumes "stopping s"
  shows "\<exists>xs. list_all worker_step xs \<and> stopping (persist_run fr xs s) \<and> queue_joined (persist_run fr xs s)"
  using assms
proof (induction "queue_work s" arbitrary: s rule: less_induct)
  case less
  have step: ?case if "worker_step x" "queue_work (persist_exec fr x s) < queue_work s" for x
  proof -
    from less.hyps[OF that(2) stopping_step[OF less.prems that(1)]] obtain xs where
      "list_all worker_step xs" "stopping (persist_run fr xs (persist_exec fr x s))" "queue_joined (persist_run fr xs (persist_exec fr x s))"
      by blast
    with that(1) show ?thesis by (intro exI[of _ "x # xs"]) simp
  qed
  consider i q where "p_queue s = i # q" | i h where "in_hand s = i # h" | l m where "unmarked s = l # m" | "queue_joined s"
    by (cases "p_queue s"; cases "in_hand s"; cases "unmarked s") (auto simp: queue_joined_def)
  then show ?case
  proof cases
    case 1
    with less.prems show ?thesis
      by (intro step[of TakeItem]) (auto simp: worker_step_def queue_work_def take_item_def stopping_def stop_ok_def)
  next
    case 2
    then show ?thesis
      by (intro step[of "ProcessItem 0 0"])
        (auto simp: worker_step_def queue_work_def process_item_def mark_dropped_def Let_def split: sum.splits option.splits)
  next
    case 3
    then show ?thesis
      by (intro step[of "MarkProcessed 0"]) (auto simp: worker_step_def queue_work_def mark_processed_def)
  next
    case 4
    with less.prems show ?thesis by (intro exI[of _ "[]"]) simp
  qed
qed

lemma batches_drain:
  assumes "stop_phase s = 2"
  shows "\<exists>xs. list_all worker_step xs \<and> stop_phase (persist_run fr xs s) = 2 \<and> in_flight (persist_run fr xs s) = []"
  using assms
proof (induction "length (in_flight s)" arbitrary: s)
  case 0
  then show ?case by (intro exI[of _ "[]"]) simp
next
  case (Suc n)
  let ?s = "persist_exec fr (WriteBatch 0 Wrote) s"
  from Suc.hyps(2) Suc.prems have "length (in_flight ?s) = n" "stop_phase ?s = 2"
    by (auto simp: Suc_length_conv neq_Nil_conv split: prod.splits)
  with Suc.hyps(1)[of ?s] obtain xs where
    "list_all worker_step xs" "stop_phase (persist_run fr xs ?s) = 2" "in_flight (persist_run fr xs ?s) = []" by auto
  then show ?case by (intro exI[of _ "WriteBatch 0 Wrote # xs"]) (simp add: worker_step_def)
qed

lemma stop_comes_to_its_end:
  assumes "stopping s"
  shows "\<exists>xs. list_all worker_step xs \<and> stop_can_end (persist_run fr xs s) \<and> in_flight (persist_run fr xs s) = []"
proof -
  from queue_drains[OF assms] obtain xs where xs: "list_all worker_step xs" "stopping (persist_run fr xs s)"
    "queue_joined (persist_run fr xs s)" by blast
  let ?t = "persist_exec fr StopFlush (persist_run fr xs s)"
  from xs(2,3) have "stop_phase ?t = 2"
    by (auto simp: stop_flush_def stopping_def stop_ok_def)
  from batches_drain[OF this] obtain ys where ys: "list_all worker_step ys" "stop_phase (persist_run fr ys ?t) = 2"
    "in_flight (persist_run fr ys ?t) = []" by blast
  have "persist_run fr (xs @ StopFlush # ys) s = persist_run fr ys ?t" by (simp add: persist_run_append)
  with xs(1) ys show ?thesis
    by (intro exI[of _ "xs @ StopFlush # ys"]) (simp add: worker_step_def stop_can_end_def)
qed

lemma stop_settles:
  assumes "stopping s" and "stop_phase s = 2"
  shows "held k s = flying k (in_flight s)"
proof -
  from assms have "queue_joined s" and empty: "\<forall>lb\<in>set (p_buffers s). buf_samples (snd lb) = []"
    by (auto simp: stopping_def stop_ok_def)
  moreover from empty have "buffered k (p_buffers s) = 0" by (induction "p_buffers s") (auto simp: buffered_def intro!: sum_list_0)
  ultimately show ?thesis by (simp add: held_def queue_joined_def book_simps)
qed

text \<open>
  Claim C39. When a stop of the persistence service comes to its end, it accepts nothing any more and everything it took charge of
  is settled: each sample of each stream is counted as written or dropped (or was in a batch of events that was given up), except
  those in batches that another thread took from the buffers for a flush of its own and has not written yet.
\<close>

theorem stop_settles_everything:
  assumes "stop_can_end (persist_run fr steps init_persistence)"
  shows "let s = persist_run fr steps init_persistence
    in \<not> p_running s \<and> list_all (\<lambda>(owner, l, ss). owner = ByOther) (in_flight s) \<and>
       settled k s + flying k (in_flight s) + lost fr k steps init_persistence = offered fr k steps init_persistence"
proof -
  let ?s = "persist_run fr steps init_persistence"
  from assms have phase: "stop_phase ?s = 2" and others: "list_all (\<lambda>(owner, l, ss). owner = ByOther) (in_flight ?s)"
    by (simp_all add: stop_can_end_def)
  from persist_reached(1,2)[of fr steps] persist_init(2) phase have s: "stopping ?s" by (simp add: stopping_def)
  then have "\<not> p_running ?s" by (simp add: stopping_def stop_ok_def)
  with others show ?thesis
    using persist_reached(3)[of k fr steps] stop_settles[OF s phase, of k] persist_init(3,4)[of k] by (simp add: Let_def)
qed

text \<open>
  Claim C40. A stop never gets stuck: wherever it was begun, however full the queue and the buffers are, the workers alone, taking
  items, processing them and writing batches, bring it to its end.
\<close>

theorem stop_can_always_end:
  assumes "stop_phase (persist_run fr steps init_persistence) \<ge> 1"
  shows "\<exists>xs. list_all worker_step xs \<and> stop_can_end (persist_run fr (steps @ xs) init_persistence)"
proof -
  have "stopping (persist_run fr steps init_persistence)"
    using persist_reached(1,2)[of fr steps] persist_init(2) assms by (simp add: stopping_def)
  from stop_comes_to_its_end[OF this] show ?thesis by (auto simp: persist_run_append)
qed

section \<open>An example\<close>

definition example_item :: "pyval \<Rightarrow> persist_item" where
  "example_item ts = \<lparr>it_key = SampleKey ''7'' MAIN,
     it_message = \<lparr>protocol_version = PStr ''1.0'', msg_type = SAMPLE, request_id = PStr ''r'', timestamp = PInt 0,
       payload = PDict [(''timestamp_utc_ns'', ts), (''data'', PDict [(''env'', PDict [(''temperature_c'', PInt 21)])])],
       channel = Some MAIN, command = PNone, phase = PNone, in_reply_to = PNone, sender = PStr ''7'', status = None, priority = PNone\<rparr>\<rparr>"

definition example_recording :: "persist_step list" where
  "example_recording = [StartService, Prepare (SampleKey ''7'' MAIN) ''csv'' 1000000000, Activate (SampleKey ''7'' MAIN),
     Enqueue (example_item (PInt 5)), Enqueue (example_item PNone), TakeItem, ProcessItem 0 10, TakeItem, StopBegin,
     Enqueue (example_item (PInt 6))]"

definition example_stop :: "persist_step list" where
  "example_stop = [ProcessItem 0 11, MarkProcessed 1, MarkProcessed 0, StopFlush, WriteBatch 0 Wrote]"

theorem stop_settles_everything_witness:
  "let s = persist_run (\<lambda>_. []) (example_recording @ example_stop) init_persistence
   in settled (SampleKey ''7'' MAIN) s = 2 \<and> \<not> p_running s \<and>
      map_option (map (map snd)) (dict_get (p_files s) (SampleKey ''7'' MAIN)) =
        Some [[PInt 5, PInt 21, PNone, PNone, PNone, PNone, PNone, PNone]]"
proof -
  let ?s = "persist_run (\<lambda>_. []) (example_recording @ example_stop) init_persistence" and ?k = "SampleKey ''7'' MAIN"
  have ended: "stop_can_end ?s" by code_simp
  have "in_flight ?s = []" "lost (\<lambda>_. []) ?k (example_recording @ example_stop) init_persistence = 0"
    "offered (\<lambda>_. []) ?k (example_recording @ example_stop) init_persistence = 2" by code_simp+
  moreover have "map_option (map (map snd)) (dict_get (p_files ?s) ?k) =
      Some [[PInt 5, PInt 21, PNone, PNone, PNone, PNone, PNone, PNone]]" by code_simp
  ultimately show ?thesis
    using stop_settles_everything[OF ended, of ?k] by (simp add: Let_def book_simps)
qed

theorem stop_can_always_end_witness:
  "\<exists>xs. list_all worker_step xs \<and> stop_can_end (persist_run (\<lambda>_. []) (example_recording @ xs) init_persistence)"
proof -
  have "stop_phase (persist_run (\<lambda>_. []) example_recording init_persistence) \<ge> 1" by code_simp
  then show ?thesis by (rule stop_can_always_end)
qed

end
