(* ===== verification/Spec2Isabelle.thy ===== *)
theory Spec2Isabelle
  imports ServerProps Replies Channels Timeouts MacRegistry TimeSync RcServiceProps HvServiceProps AcqTriggerProps AcqOrder AcqSuccess AcqEnd AcqPrepare AcqRestore MonitorStreamProps MonitorPersistProps
begin

text \<open>Verification development of multiDAQ.\<close>

end
